(* ===== verification/GoPrelude.thy ===== *)
theory GoPrelude
  imports Main "HOL-Library.List_Lexorder" "HOL-Library.Char_ord" "HOL-Library.Monad_Syntax"
    "HOL-Library.Multiset"
begin

text \<open>
  Shared vocabulary of the development: how values and effects of Go are read in HOL.

  \<^item> A call that may hit a run-time panic (index out of range, nil dereference, division by zero)
    has type \<open>'a option\<close>; \<open>None\<close> is the panic.
  \<^item> A returned Go \<open>error\<close> is \<open>'e option\<close>; \<open>None\<close> is \<open>nil\<close>.
  \<^item> A Go map is a HOL map. The order in which \<open>range\<close> visits a map is not fixed by the language, so
    an operation that ranges over a map takes the list of visited keys, constrained by \<open>range_order\<close>.
  \<^item> \<open>int\<close> and \<open>int64\<close> are HOL integers; \<open>wrap64\<close> is the wrap-around of 64 bits.
  \<^item> A string is a list of bytes and is compared bytewise, as Go compares strings.
\<close>

named_theorems panic_simps \<open>rules that evaluate indexing and the panic monad\<close>

type_synonym gotime = int
type_synonym duration = int

subsection \<open>Slices\<close>

definition go_index :: "'a list \<Rightarrow> nat \<Rightarrow> 'a option" where
  "go_index xs i = (if i < length xs then Some (xs ! i) else None)"

lemma go_index_Some [panic_simps]: "i < length xs \<Longrightarrow> go_index xs i = Some (xs ! i)"
  by (simp add: go_index_def)

lemma go_index_eq_Some [panic_simps]: "go_index xs i = Some x \<longleftrightarrow> i < length xs \<and> xs ! i = x"
  by (auto simp: go_index_def)

lemma go_index_eq_None [panic_simps]: "go_index xs i = None \<longleftrightarrow> length xs \<le> i"
  by (auto simp: go_index_def)

text \<open>The first index whose element satisfies a predicate: \<open>for i := range xs { if P(xs[i]) ...}\<close>.\<close>

fun first_index :: "('a \<Rightarrow> bool) \<Rightarrow> 'a list \<Rightarrow> nat option" where
  "first_index P [] = None"
| "first_index P (x # xs) = (if P x then Some 0 else map_option Suc (first_index P xs))"

lemma first_index_None [simp]: "first_index P xs = None \<longleftrightarrow> (\<forall>x \<in> set xs. \<not> P x)"
  by (induction xs) auto

lemma first_index_SomeD:
  "first_index P xs = Some i \<Longrightarrow> i < length xs \<and> P (xs ! i) \<and> (\<forall>j < i. \<not> P (xs ! j))"
proof (induction xs arbitrary: i)
  case (Cons x xs)
  then show ?case
    by (cases i) (auto split: if_splits simp: nth_Cons split: nat.splits)
qed simp

text \<open>\<open>append(xs[:i], xs[i+1:]...)\<close>\<close>

definition slice_remove :: "nat \<Rightarrow> 'a list \<Rightarrow> 'a list" where
  "slice_remove i xs = take i xs @ drop (Suc i) xs"

lemma length_slice_remove [simp]: "i < length xs \<Longrightarrow> length (slice_remove i xs) = length xs - 1"
  by (simp add: slice_remove_def)

lemma mset_slice_remove: "i < length xs \<Longrightarrow> mset (slice_remove i xs) = mset xs - {#xs ! i#}"
proof -
  assume "i < length xs"
  then have "mset xs = mset (take i xs @ xs ! i # drop (Suc i) xs)"
    by (simp flip: id_take_nth_drop)
  then show ?thesis
    by (simp add: slice_remove_def)
qed

lemma set_slice_remove_subset: "set (slice_remove i xs) \<subseteq> set xs"
  by (auto simp: slice_remove_def dest: in_set_takeD in_set_dropD)

lemma set_slice_remove_distinct:
  assumes "distinct xs" "i < length xs"
  shows "set (slice_remove i xs) = set xs - {xs ! i}" "distinct (slice_remove i xs)"
proof -
  have xs: "xs = take i xs @ xs ! i # drop (Suc i) xs"
    using assms(2) by (rule id_take_nth_drop)
  then have d: "distinct (take i xs @ xs ! i # drop (Suc i) xs)"
    using assms(1) by simp
  have "set xs = insert (xs ! i) (set (slice_remove i xs))"
    by (subst xs) (simp add: slice_remove_def)
  moreover have "xs ! i \<notin> set (slice_remove i xs)"
    using d by (simp add: slice_remove_def)
  ultimately show "set (slice_remove i xs) = set xs - {xs ! i}"
    by auto
  show "distinct (slice_remove i xs)"
    using d by (simp add: slice_remove_def)
qed

text \<open>Removing the first element with a key leaves the others, when keys are unique.\<close>

lemma slice_remove_first_index:
  assumes "distinct (map f l)" "first_index (\<lambda>x. f x = u) l = Some i"
  shows "slice_remove i l = filter (\<lambda>x. f x \<noteq> u) l"
  using assms
proof (induction l arbitrary: i)
  case (Cons x l)
  show ?case
  proof (cases "f x = u")
    case True
    then have "filter (\<lambda>x. f x \<noteq> u) l = l"
      using Cons.prems(1) by (auto simp: filter_id_conv) (metis image_eqI)
    with True Cons.prems(2) show ?thesis
      by (auto simp: slice_remove_def)
  next
    case False
    then show ?thesis
      using Cons by (auto simp: slice_remove_def)
  qed
qed simp

subsection \<open>Machine integers\<close>

definition wrap64 :: "int \<Rightarrow> int" where
  "wrap64 x = (x + 2 ^ 63) mod 2 ^ 64 - 2 ^ 63"

abbreviation maxInt64 :: int where
  "maxInt64 \<equiv> 9223372036854775807"

abbreviation in_int64 :: "int \<Rightarrow> bool" where
  "in_int64 x \<equiv> - 9223372036854775808 \<le> x \<and> x \<le> 9223372036854775807"

lemma wrap64_id [simp]: "in_int64 x \<Longrightarrow> wrap64 x = x"
  by (simp add: wrap64_def)

lemma wrap64_range: "in_int64 (wrap64 x)"
proof -
  have "0 \<le> (x + 2 ^ 63) mod 2 ^ 64 \<and> (x + 2 ^ 63) mod 2 ^ 64 < 2 ^ 64"
    by simp
  then show ?thesis
    by (auto simp: wrap64_def)
qed

lemma wrap64_absorb [simp]:
  "wrap64 (wrap64 a + b) = wrap64 (a + b)" "wrap64 (a + wrap64 b) = wrap64 (a + b)" "wrap64 (wrap64 a) = wrap64 a"
proof -
  have l: "wrap64 (wrap64 a + b) = wrap64 (a + b)" for a b
    using mod_add_left_eq [of "a + 2 ^ 63" "2 ^ 64" b] by (simp add: wrap64_def algebra_simps)
  show "wrap64 (wrap64 a + b) = wrap64 (a + b)" "wrap64 (a + wrap64 b) = wrap64 (a + b)" "wrap64 (wrap64 a) = wrap64 a"
    using l [of a b] l [of b a] l [of a 0] by (simp_all add: add.commute)
qed

text \<open>Go's \<open>/\<close> and \<open>%\<close> truncate towards zero and panic on a zero divisor.\<close>

definition go_quot :: "int \<Rightarrow> int \<Rightarrow> int" where
  "go_quot a b = sgn a * sgn b * (\<bar>a\<bar> div \<bar>b\<bar>)"

definition go_rem :: "int \<Rightarrow> int \<Rightarrow> int" where
  "go_rem a b = a - b * go_quot a b"

definition go_div :: "int \<Rightarrow> int \<Rightarrow> int option" where
  "go_div a b = (if b = 0 then None else Some (wrap64 (go_quot a b)))"

lemma go_quot_nonneg [simp]: "0 \<le> a \<Longrightarrow> 0 < b \<Longrightarrow> go_quot a b = a div b"
  by (cases "a = 0") (auto simp: go_quot_def)

lemma go_rem_nonneg [simp]: "0 \<le> a \<Longrightarrow> 0 < b \<Longrightarrow> go_rem a b = a mod b"
  by (simp add: go_rem_def minus_mult_div_eq_mod)

subsection \<open>Maps and their iteration order\<close>

definition range_order :: "'k list \<Rightarrow> ('k \<rightharpoonup> 'v) \<Rightarrow> bool" where
  "range_order ks m \<longleftrightarrow> distinct ks \<and> set ks = dom m"

lemma range_orderD: "range_order ks m \<Longrightarrow> distinct ks" "range_order ks m \<Longrightarrow> set ks = dom m"
  by (simp_all add: range_order_def)

lemma range_order_lookup: "range_order ks m \<Longrightarrow> k \<in> set ks \<Longrightarrow> \<exists>v. m k = Some v"
  by (auto simp: range_order_def)

lemma range_order_mset: "range_order ks m \<Longrightarrow> range_order ks' m \<Longrightarrow> mset ks = mset ks'"
  by (metis range_order_def set_eq_iff_mset_eq_distinct)

lemma range_order_length: "range_order ks m \<Longrightarrow> length ks = card (dom m)"
  by (metis distinct_card range_order_def)

lemma range_order_empty [simp]: "range_order ks Map.empty \<longleftrightarrow> ks = []"
  by (auto simp: range_order_def)

lemma range_order_Nil [simp]: "range_order [] m \<longleftrightarrow> m = Map.empty"
  by (auto simp: range_order_def)

text \<open>A map read with a default: reading a missing key of a Go map gives the zero value.\<close>

definition map_get :: "'v \<Rightarrow> ('k \<rightharpoonup> 'v) \<Rightarrow> 'k \<Rightarrow> 'v" where
  "map_get d m k = (case m k of None \<Rightarrow> d | Some v \<Rightarrow> v)"

lemma map_get_upd [simp]: "map_get d (m(k \<mapsto> v)) k' = (if k' = k then v else map_get d m k')"
  by (simp add: map_get_def)

lemma map_get_None [simp]: "m k = None \<Longrightarrow> map_get d m k = d"
  by (simp add: map_get_def)

lemma map_get_Some [simp]: "m k = Some v \<Longrightarrow> map_get d m k = v"
  by (simp add: map_get_def)

lemma map_get_delete [simp]: "map_get d (m(k := None)) k' = (if k' = k then d else map_get d m k')"
  by (simp add: map_get_def)

subsection \<open>The panic monad\<close>

lemmas panic_bind = bind_eq_Some_conv bind_eq_None_conv

declare panic_bind [panic_simps]

lemma bind_SomeE: "Option.bind m f = Some y \<Longrightarrow> (\<And>x. m = Some x \<Longrightarrow> f x = Some y \<Longrightarrow> P) \<Longrightarrow> P"
  by (cases m) auto

definition no_panic :: "'a option \<Rightarrow> bool" where
  "no_panic r \<longleftrightarrow> r \<noteq> None"

lemma no_panic_simps [simp]: "no_panic (Some x)" "\<not> no_panic None"
  by (simp_all add: no_panic_def)

text \<open>A loop whose body may panic.\<close>

fun foldM :: "('a \<Rightarrow> 's \<Rightarrow> 's option) \<Rightarrow> 'a list \<Rightarrow> 's \<Rightarrow> 's option" where
  "foldM f [] s = Some s"
| "foldM f (x # xs) s = do { s' \<leftarrow> f x s; foldM f xs s' }"

lemma foldM_append: "foldM f (xs @ ys) s = Option.bind (foldM f xs s) (foldM f ys)"
  by (induction xs arbitrary: s) (auto split: bind_splits)

text \<open>An invariant that every iteration keeps holds at the end of the loop.\<close>

lemma foldM_invariant:
  assumes "\<And>x s. x \<in> set xs \<Longrightarrow> I s \<Longrightarrow> \<exists>s'. f x s = Some s' \<and> I s'" and "I s"
  shows "\<exists>s'. foldM f xs s = Some s' \<and> I s'"
  using assms
proof (induction xs arbitrary: s)
  case (Cons x xs)
  then obtain s' where "f x s = Some s'" "I s'"
    by (meson list.set_intros(1))
  with Cons show ?case
    by simp
qed simp

lemma fold_invariant_set:
  assumes "\<And>x s. x \<in> set xs \<Longrightarrow> I s \<Longrightarrow> I (f x s)" and "I s"
  shows "I (fold f xs s)"
  using assms by (induction xs arbitrary: s) auto

end
