(* ===== verification/GoHeap.thy ===== *)
theory GoHeap
  imports GoPrelude
begin

text \<open>
  The keyed binary heap of \<open>pkg/scheduler/utils/heap.go\<close> together with the algorithms of Go's
  \<open>container/heap\<close> that it calls (\<open>Push\<close>, \<open>Pop\<close>, \<open>Remove\<close>, \<open>Fix\<close>, \<open>up\<close>, \<open>down\<close>).

  A \<open>heapData\<close> is a map from keys to items and a slice of keys in heap order; every item records
  the index of its key in the slice. The two function fields \<open>keyFunc\<close> and \<open>lessFunc\<close> are arguments
  of the operations, because the comparison of the backoff queue reads state that changes while the
  heap is in use. \<open>heap_wf\<close> is the structural invariant, which holds for any comparison and
  excludes every panic; \<open>heap_sorted\<close> is the order of the heap.
\<close>

section \<open>Data\<close>

record 'a heapItem =
  obj :: 'a
  index :: nat

record 'a heapData =
  items :: "string \<rightharpoonup> 'a heapItem"
  queue :: "string list"

text \<open>\<open>metricRecorder\<close> is \<open>None\<close> when nil, and otherwise the value of the gauge it drives.\<close>

record 'a Heap =
  data :: "'a heapData"
  metricRecorder :: "int option"

datatype heap_error = KeyError string | ObjectNotFound | ObjectRemoved

type_synonym 'a keyFunc = "'a \<Rightarrow> string + string"
type_synonym 'a lessFunc = "'a \<Rightarrow> 'a \<Rightarrow> bool"

section \<open>The heap interface of heapData\<close>

definition heapData_Less :: "'a lessFunc \<Rightarrow> 'a heapData \<Rightarrow> nat \<Rightarrow> nat \<Rightarrow> bool option" where
  "heapData_Less lf h i j =
     (if length (queue h) < i \<or> length (queue h) < j then Some False
      else do {
        ki \<leftarrow> go_index (queue h) i;
        case items h ki of
          None \<Rightarrow> Some False
        | Some itemi \<Rightarrow> do {
            kj \<leftarrow> go_index (queue h) j;
            case items h kj of
              None \<Rightarrow> Some False
            | Some itemj \<Rightarrow> Some (lf (obj itemi) (obj itemj)) } })"

definition heapData_Len :: "'a heapData \<Rightarrow> nat" where
  "heapData_Len h = length (queue h)"

definition heapData_Swap :: "'a heapData \<Rightarrow> nat \<Rightarrow> nat \<Rightarrow> 'a heapData option" where
  "heapData_Swap h i j = do {
     qi \<leftarrow> go_index (queue h) i;
     qj \<leftarrow> go_index (queue h) j;
     let q = (queue h)[i := qj, j := qi];
     item \<leftarrow> items h (q ! i);
     let m = (items h)(q ! i \<mapsto> item\<lparr>index := i\<rparr>);
     item' \<leftarrow> m (q ! j);
     Some (h\<lparr>items := m(q ! j \<mapsto> item'\<lparr>index := j\<rparr>), queue := q\<rparr>) }"

definition heapData_Push :: "'a heapData \<Rightarrow> string \<Rightarrow> 'a \<Rightarrow> 'a heapData" where
  "heapData_Push h key x =
     h\<lparr>items := (items h)(key \<mapsto> \<lparr>obj = x, index = length (queue h)\<rparr>), queue := queue h @ [key]\<rparr>"

definition heapData_Pop :: "'a heapData \<Rightarrow> ('a option \<times> 'a heapData) option" where
  "heapData_Pop h =
     (if queue h = [] then None
      else
        let key = last (queue h);
            h' = h\<lparr>queue := butlast (queue h)\<rparr>
        in case items h key of
             None \<Rightarrow> Some (None, h')
           | Some item \<Rightarrow> Some (Some (obj item), h'\<lparr>items := (items h)(key := None)\<rparr>))"

definition heapData_Peek :: "'a heapData \<Rightarrow> 'a option option" where
  "heapData_Peek h =
     (case queue h of
        [] \<Rightarrow> Some None
      | k # _ \<Rightarrow> do { item \<leftarrow> items h k; Some (Some (obj item)) })"

section \<open>container/heap\<close>

function heap_up :: "'a lessFunc \<Rightarrow> 'a heapData \<Rightarrow> nat \<Rightarrow> 'a heapData option" where
  "heap_up lf h j =
     (let i = (j - 1) div 2 in
      if i = j then Some h
      else case heapData_Less lf h j i of
             None \<Rightarrow> None
           | Some False \<Rightarrow> Some h
           | Some True \<Rightarrow> (case heapData_Swap h i j of None \<Rightarrow> None | Some h' \<Rightarrow> heap_up lf h' i))"
  by pat_completeness auto
termination
  by (relation "measure (\<lambda>(_, _, j). j)") auto

text \<open>The child that \<open>down\<close> compares with its parent.\<close>

definition heap_child :: "'a lessFunc \<Rightarrow> 'a heapData \<Rightarrow> nat \<Rightarrow> nat \<Rightarrow> nat option" where
  "heap_child lf h i n =
     (let j1 = 2 * i + 1; j2 = j1 + 1 in
      if j2 < n then do { b \<leftarrow> heapData_Less lf h j2 j1; Some (if b then j2 else j1) }
      else Some j1)"

lemma heap_child_cases:
  "heap_child lf h i n = Some j \<Longrightarrow> j = 2 * i + 1 \<or> (j = 2 * i + 2 \<and> j < n)"
  by (auto simp: heap_child_def Let_def split: if_splits bind_splits)

function heap_down_loop ::
  "'a lessFunc \<Rightarrow> 'a heapData \<Rightarrow> nat \<Rightarrow> nat \<Rightarrow> ('a heapData \<times> nat) option" where
  "heap_down_loop lf h i n =
     (if n \<le> 2 * i + 1 then Some (h, i)
      else case heap_child lf h i n of
             None \<Rightarrow> None
           | Some j \<Rightarrow>
               (case heapData_Less lf h j i of
                  None \<Rightarrow> None
                | Some False \<Rightarrow> Some (h, i)
                | Some True \<Rightarrow>
                    (case heapData_Swap h i j of
                       None \<Rightarrow> None
                     | Some h' \<Rightarrow> heap_down_loop lf h' j n)))"
  by pat_completeness auto
termination
  by (relation "measure (\<lambda>(_, _, i, n). n - i)") (auto dest: heap_child_cases)

definition heap_down :: "'a lessFunc \<Rightarrow> 'a heapData \<Rightarrow> nat \<Rightarrow> nat \<Rightarrow> ('a heapData \<times> bool) option" where
  "heap_down lf h i0 n = map_option (\<lambda>(h', i). (h', i0 < i)) (heap_down_loop lf h i0 n)"

definition heap_Push :: "'a lessFunc \<Rightarrow> 'a heapData \<Rightarrow> string \<Rightarrow> 'a \<Rightarrow> 'a heapData option" where
  "heap_Push lf h key x =
     (let h' = heapData_Push h key x in heap_up lf h' (heapData_Len h' - 1))"

text \<open>On an empty heap \<open>Pop\<close> swaps index 0 with index -1, which panics.\<close>

definition heap_Pop :: "'a lessFunc \<Rightarrow> 'a heapData \<Rightarrow> ('a option \<times> 'a heapData) option" where
  "heap_Pop lf h =
     (if heapData_Len h = 0 then None
      else do {
        let n = heapData_Len h - 1;
        h1 \<leftarrow> heapData_Swap h 0 n;
        (h2, moved) \<leftarrow> heap_down lf h1 0 n;
        heapData_Pop h2 })"

definition heap_Remove :: "'a lessFunc \<Rightarrow> 'a heapData \<Rightarrow> nat \<Rightarrow> ('a option \<times> 'a heapData) option" where
  "heap_Remove lf h i =
     (if heapData_Len h = 0 then None
      else do {
        let n = heapData_Len h - 1;
        h2 \<leftarrow> (if n \<noteq> i then do {
                  h1 \<leftarrow> heapData_Swap h i n;
                  (h2, moved) \<leftarrow> heap_down lf h1 i n;
                  if moved then Some h2 else heap_up lf h2 i }
                else Some h);
        heapData_Pop h2 })"

definition heap_Fix :: "'a lessFunc \<Rightarrow> 'a heapData \<Rightarrow> nat \<Rightarrow> 'a heapData option" where
  "heap_Fix lf h i = do {
     (h1, moved) \<leftarrow> heap_down lf h i (heapData_Len h);
     if moved then Some h1 else heap_up lf h1 i }"

section \<open>The operations of Heap\<close>

definition recorder_Inc :: "'a Heap \<Rightarrow> 'a Heap" where
  "recorder_Inc h = h\<lparr>metricRecorder := map_option (\<lambda>g. g + 1) (metricRecorder h)\<rparr>"

definition recorder_Dec :: "'a Heap \<Rightarrow> 'a Heap" where
  "recorder_Dec h = h\<lparr>metricRecorder := map_option (\<lambda>g. g - 1) (metricRecorder h)\<rparr>"

definition NewHeap :: "'a Heap" where
  "NewHeap = \<lparr>data = \<lparr>items = Map.empty, queue = []\<rparr>, metricRecorder = None\<rparr>"

definition Heap_Add ::
  "'a keyFunc \<Rightarrow> 'a lessFunc \<Rightarrow> 'a Heap \<Rightarrow> 'a \<Rightarrow> (heap_error option \<times> 'a Heap) option" where
  "Heap_Add kf lf h x =
     (case kf x of
        Inl e \<Rightarrow> Some (Some (KeyError e), h)
      | Inr key \<Rightarrow>
          (case items (data h) key of
             Some item \<Rightarrow> do {
               let d = (data h)\<lparr>items := (items (data h))(key \<mapsto> item\<lparr>obj := x\<rparr>)\<rparr>;
               d' \<leftarrow> heap_Fix lf d (index item);
               Some (None, h\<lparr>data := d'\<rparr>) }
           | None \<Rightarrow> do {
               d' \<leftarrow> heap_Push lf (data h) key x;
               Some (None, recorder_Inc (h\<lparr>data := d'\<rparr>)) }))"

definition Heap_AddIfNotPresent ::
  "'a keyFunc \<Rightarrow> 'a lessFunc \<Rightarrow> 'a Heap \<Rightarrow> 'a \<Rightarrow> (heap_error option \<times> 'a Heap) option" where
  "Heap_AddIfNotPresent kf lf h x =
     (case kf x of
        Inl e \<Rightarrow> Some (Some (KeyError e), h)
      | Inr key \<Rightarrow>
          (case items (data h) key of
             None \<Rightarrow> do {
               d' \<leftarrow> heap_Push lf (data h) key x;
               Some (None, recorder_Inc (h\<lparr>data := d'\<rparr>)) }
           | Some _ \<Rightarrow> Some (None, h)))"

definition Heap_Update ::
  "'a keyFunc \<Rightarrow> 'a lessFunc \<Rightarrow> 'a Heap \<Rightarrow> 'a \<Rightarrow> (heap_error option \<times> 'a Heap) option" where
  "Heap_Update kf lf h x = Heap_Add kf lf h x"

definition Heap_Delete ::
  "'a keyFunc \<Rightarrow> 'a lessFunc \<Rightarrow> 'a Heap \<Rightarrow> 'a \<Rightarrow> (heap_error option \<times> 'a Heap) option" where
  "Heap_Delete kf lf h x =
     (case kf x of
        Inl e \<Rightarrow> Some (Some (KeyError e), h)
      | Inr key \<Rightarrow>
          (case items (data h) key of
             Some item \<Rightarrow> do {
               (_, d') \<leftarrow> heap_Remove lf (data h) (index item);
               Some (None, recorder_Dec (h\<lparr>data := d'\<rparr>)) }
           | None \<Rightarrow> Some (Some ObjectNotFound, h)))"

definition Heap_Peek :: "'a Heap \<Rightarrow> 'a option option" where
  "Heap_Peek h = heapData_Peek (data h)"

definition Heap_Pop :: "'a lessFunc \<Rightarrow> 'a Heap \<Rightarrow> ((heap_error + 'a) \<times> 'a Heap) option" where
  "Heap_Pop lf h = do {
     (r, d') \<leftarrow> heap_Pop lf (data h);
     case r of
       Some x \<Rightarrow> Some (Inr x, recorder_Dec (h\<lparr>data := d'\<rparr>))
     | None \<Rightarrow> Some (Inl ObjectRemoved, h\<lparr>data := d'\<rparr>) }"

definition Heap_GetByKey :: "'a Heap \<Rightarrow> string \<Rightarrow> 'a option" where
  "Heap_GetByKey h key = map_option obj (items (data h) key)"

definition Heap_Get :: "'a keyFunc \<Rightarrow> 'a Heap \<Rightarrow> 'a \<Rightarrow> heap_error + 'a option" where
  "Heap_Get kf h x =
     (case kf x of
        Inl e \<Rightarrow> Inl (KeyError e)
      | Inr key \<Rightarrow> Inr (Heap_GetByKey h key))"

text \<open>\<open>List\<close> ranges over the item map in the order \<open>ks\<close>.\<close>

definition Heap_List :: "string list \<Rightarrow> 'a Heap \<Rightarrow> 'a list" where
  "Heap_List ks h = List.map_filter (\<lambda>k. map_option obj (items (data h) k)) ks"

definition Heap_Len :: "'a Heap \<Rightarrow> nat" where
  "Heap_Len h = length (queue (data h))"

declare heap_up.simps [simp del] heap_down_loop.simps [simp del]

section \<open>Lengths\<close>

lemma heapData_Swap_length: "heapData_Swap h i j = Some h' \<Longrightarrow> length (queue h') = length (queue h)"
  by (auto simp: heapData_Swap_def Let_def panic_simps)

lemma heap_down_loop_length:
  "heap_down_loop lf h i n = Some (h', i') \<Longrightarrow> length (queue h') = length (queue h)"
proof (induction lf h i n rule: heap_down_loop.induct)
  case (1 lf h i n)
  show ?case
  proof (cases "heap_down_loop lf h i n = Some (h, i)")
    case True
    then show ?thesis
      using 1(2) by simp
  next
    case False
    then obtain j h1 where "\<not> n \<le> 2 * i + 1" "heap_child lf h i n = Some j"
        "heapData_Less lf h j i = Some True" "heapData_Swap h i j = Some h1"
        "heap_down_loop lf h1 j n = Some (h', i')"
      using 1(2) by (subst (asm) (1 2) heap_down_loop.simps)
        (auto split: if_splits option.splits bool.splits)
    then show ?thesis
      using 1(1) [of j True h1] heapData_Swap_length by fastforce
  qed
qed

lemma heapData_Pop_length: "heapData_Pop h = Some (r, h') \<Longrightarrow> length (queue h) = Suc (length (queue h'))"
  by (cases "queue h" rule: rev_cases) (auto simp: heapData_Pop_def Let_def split: option.splits)

lemma heap_Pop_length:
  assumes "heap_Pop lf h = Some (r, h')"
  shows "length (queue h') < length (queue h)"
proof -
  obtain h1 h2 i where "heapData_Swap h 0 (length (queue h) - 1) = Some h1"
      "heap_down_loop lf h1 0 (length (queue h) - 1) = Some (h2, i)" "heapData_Pop h2 = Some (r, h')"
    using assms
    by (auto simp: heap_Pop_def heapData_Len_def heap_down_def Let_def panic_simps split: if_splits)
  then have "length (queue h2) = length (queue h)" "heapData_Pop h2 = Some (r, h')"
    using heapData_Swap_length heap_down_loop_length by metis+
  then show ?thesis
    using heapData_Pop_length by fastforce
qed

lemma Heap_Pop_length: "Heap_Pop lf h = Some (r, h') \<Longrightarrow> Heap_Len h' < Heap_Len h"
  by (auto simp: Heap_Pop_def Heap_Len_def recorder_Dec_def panic_simps split: option.splits
      dest!: heap_Pop_length)

section \<open>The structural invariant\<close>

text \<open>The item map and the key slice hold the same keys, and every item knows its index.\<close>

definition heap_wf :: "'a heapData \<Rightarrow> bool" where
  "heap_wf h \<longleftrightarrow>
     distinct (queue h) \<and> dom (items h) = set (queue h) \<and>
     (\<forall>i < length (queue h). map_option index (items h (queue h ! i)) = Some i)"

text \<open>The content of a heap: the map from keys to objects.\<close>

definition heap_abs :: "'a heapData \<Rightarrow> string \<rightharpoonup> 'a" where
  "heap_abs h k = map_option obj (items h k)"

definition objs :: "'a heapData \<Rightarrow> 'a list" where
  "objs h = map (\<lambda>k. the (heap_abs h k)) (queue h)"

definition same_content :: "'a heapData \<Rightarrow> 'a heapData \<Rightarrow> bool" where
  "same_content h h' \<longleftrightarrow> heap_abs h' = heap_abs h \<and> length (queue h') = length (queue h)"

lemma same_content_refl [simp]: "same_content h h"
  by (simp add: same_content_def)

lemma same_content_trans: "same_content h h' \<Longrightarrow> same_content h' h'' \<Longrightarrow> same_content h h''"
  by (simp add: same_content_def)

lemma length_objs [simp]: "length (objs h) = length (queue h)"
  by (simp add: objs_def)

lemma heap_wf_item:
  assumes "heap_wf h" "i < length (queue h)"
  obtains it where "items h (queue h ! i) = Some it" "index it = i" "obj it = objs h ! i"
  using assms by (auto simp: heap_wf_def objs_def heap_abs_def)

lemma heapData_Less_wf:
  assumes "heap_wf h" "i < length (queue h)" "j < length (queue h)"
  shows "heapData_Less lf h i j = Some (lf (objs h ! i) (objs h ! j))"
proof -
  obtain a b where "items h (queue h ! i) = Some a" "obj a = objs h ! i"
      "items h (queue h ! j) = Some b" "obj b = objs h ! j"
    using heap_wf_item [OF assms(1,2)] heap_wf_item [OF assms(1,3)] by metis
  with assms show ?thesis
    by (simp add: heapData_Less_def panic_simps)
qed

lemma heapData_Swap_wf:
  assumes wf: "heap_wf h" and i: "i < length (queue h)" and j: "j < length (queue h)"
  obtains h' where "heapData_Swap h i j = Some h'" "heap_wf h'" "same_content h h'"
    "objs h' = (objs h)[i := objs h ! j, j := objs h ! i]"
    "queue h' = (queue h)[i := queue h ! j, j := queue h ! i]"
proof -
  obtain a where a: "items h (queue h ! i) = Some a" "index a = i"
    using heap_wf_item [OF wf i] by metis
  obtain b where b: "items h (queue h ! j) = Some b" "index b = j"
    using heap_wf_item [OF wf j] by metis
  have d: "distinct (queue h)" "dom (items h) = set (queue h)"
    using wf by (simp_all add: heap_wf_def)
  define q where "q = (queue h)[i := queue h ! j, j := queue h ! i]"
  define m where "m = (items h)(queue h ! j \<mapsto> b\<lparr>index := i\<rparr>, queue h ! i \<mapsto> a\<lparr>index := j\<rparr>)"
  define h' where "h' = h\<lparr>items := m, queue := q\<rparr>"
  have qij: "q ! i = queue h ! j" "q ! j = queue h ! i"
    using i j by (auto simp: q_def nth_list_update)
  have swap: "heapData_Swap h i j = Some h'"
    using i j a b qij d
    by (cases "i = j") (auto simp: heapData_Swap_def panic_simps h'_def m_def nth_eq_iff_index_eq q_def)
  have abs: "heap_abs h' = heap_abs h"
    using a b by (auto simp: heap_abs_def h'_def m_def)
  have mij: "map_option index (m (queue h ! j)) = Some i" "map_option index (m (queue h ! i)) = Some j"
    using i j d by (simp_all add: m_def nth_eq_iff_index_eq)
  have "map_option index (m (q ! k)) = Some k" if k: "k < length (queue h)" for k
  proof (cases "k = i \<or> k = j")
    case True
    then show ?thesis
      using qij mij by (elim disjE) simp_all
  next
    case False
    then have "q ! k = queue h ! k"
      by (simp add: q_def)
    then show ?thesis
      using False wf k i j d by (auto simp: m_def heap_wf_def nth_eq_iff_index_eq)
  qed
  moreover have "distinct q" "set q = set (queue h)" "length q = length (queue h)"
    using i j d by (simp_all add: q_def distinct_swap set_swap)
  moreover have "dom m = set (queue h)"
    using i j d by (auto simp: m_def)
  ultimately have "heap_wf h'"
    by (simp add: heap_wf_def h'_def)
  moreover have "objs h' = (objs h)[i := objs h ! j, j := objs h ! i]"
    using i j by (simp add: objs_def abs) (simp add: h'_def q_def map_update)
  moreover have "same_content h h'"
    using abs by (simp add: same_content_def h'_def q_def)
  ultimately show thesis
    using that swap by (simp add: h'_def q_def)
qed

lemma heap_up_wf:
  "heap_wf h \<Longrightarrow> j < length (queue h) \<Longrightarrow>
   \<exists>h'. heap_up lf h j = Some h' \<and> heap_wf h' \<and> same_content h h' \<and>
     (\<forall>k. j < k \<longrightarrow> queue h' ! k = queue h ! k)"
proof (induction lf h j rule: heap_up.induct)
  case (1 lf h j)
  let ?i = "(j - 1) div 2"
  have i: "?i < length (queue h)" "?i \<le> j"
    using 1(3) by linarith+
  show ?case
  proof (cases "?i \<noteq> j \<and> lf (objs h ! j) (objs h ! ?i)")
    case True
    obtain h' where h': "heapData_Swap h ?i j = Some h'" "heap_wf h'" "same_content h h'"
        "queue h' = (queue h)[?i := queue h ! j, j := queue h ! ?i]"
      using heapData_Swap_wf [OF 1(2) i(1) 1(3)] by metis
    obtain h'' where h'': "heap_up lf h' ?i = Some h''" "heap_wf h''" "same_content h' h''"
        "\<And>k. ?i < k \<Longrightarrow> queue h'' ! k = queue h' ! k"
      using 1(1) [OF refl _ _ _ h'(1,2)] h'(3) True i heapData_Less_wf [OF 1(2,3) i(1), of lf]
      by (auto simp: same_content_def)
    have "heap_up lf h j = Some h''"
      using True h' h'' heapData_Less_wf [OF 1(2,3) i(1), of lf]
      by (subst heap_up.simps) (simp add: Let_def)
    moreover have "queue h'' ! k = queue h ! k" if "j < k" for k
      using that i(2) h''(4) [of k] h'(4) by simp
    ultimately show ?thesis
      using h' h'' by (blast intro: same_content_trans)
  next
    case False
    then show ?thesis
      using 1(2) heapData_Less_wf [OF 1(2,3) i(1), of lf]
      by (subst heap_up.simps) (auto simp: Let_def)
  qed
qed

lemma heap_child_wf:
  assumes "heap_wf h" "n \<le> length (queue h)" "2 * i + 1 < n"
  obtains j where "heap_child lf h i n = Some j" "j < n" "i < j" "j = 2 * i + 1 \<or> j = 2 * i + 2"
    "j = 2 * i + 2 \<longrightarrow> lf (objs h ! j) (objs h ! (2 * i + 1))"
    "j = 2 * i + 1 \<longrightarrow> 2 * i + 2 < n \<longrightarrow> \<not> lf (objs h ! (2 * i + 2)) (objs h ! j)"
  using assms
  by (cases "2 * i + 2 < n \<and> lf (objs h ! (2 * i + 2)) (objs h ! (2 * i + 1))")
    (auto simp: heap_child_def Let_def heapData_Less_wf)

lemma heap_down_loop_wf:
  "heap_wf h \<Longrightarrow> n \<le> length (queue h) \<Longrightarrow> i < length (queue h) \<Longrightarrow>
   \<exists>h' i'. heap_down_loop lf h i n = Some (h', i') \<and> heap_wf h' \<and> same_content h h' \<and> i \<le> i' \<and>
     (\<forall>k < length (queue h). n \<le> k \<longrightarrow> queue h' ! k = queue h ! k) \<and> (i' = i \<longrightarrow> h' = h)"
proof (induction lf h i n rule: heap_down_loop.induct)
  case (1 lf h i n)
  note wf = 1(2) and n = 1(3) and i = 1(4)
  show ?case
  proof (cases "n \<le> 2 * i + 1")
    case True
    then show ?thesis
      using wf by (subst heap_down_loop.simps) simp
  next
    case False
    then have bound: "2 * i + 1 < n"
      by simp
    obtain j where j: "heap_child lf h i n = Some j" "j < n" "i < j"
      using heap_child_wf [OF wf n bound] by metis
    have less: "heapData_Less lf h j i = Some (lf (objs h ! j) (objs h ! i))"
      using wf n i j by (simp add: heapData_Less_wf)
    show ?thesis
    proof (cases "lf (objs h ! j) (objs h ! i)")
      case True
      have jq: "j < length (queue h)"
        using j n by simp
      obtain h' where h': "heapData_Swap h i j = Some h'" "heap_wf h'" "same_content h h'"
          "queue h' = (queue h)[i := queue h ! j, j := queue h ! i]"
        using heapData_Swap_wf [OF wf i jq] by metis
      obtain h'' i'' where h'': "heap_down_loop lf h' j n = Some (h'', i'')" "heap_wf h''"
          "same_content h' h''" "j \<le> i''"
          "\<And>k. k < length (queue h') \<Longrightarrow> n \<le> k \<Longrightarrow> queue h'' ! k = queue h' ! k"
        using 1(1) False j less True h' n jq by (fastforce simp: same_content_def)
      have "heap_down_loop lf h i n = Some (h'', i'')"
        using False j less True h' h'' by (subst heap_down_loop.simps) simp
      moreover have "queue h'' ! k = queue h ! k" if "k < length (queue h)" "n \<le> k" for k
        using that h'' h'(4) j bound by simp
      ultimately show ?thesis
        using h'' h' j by (auto intro: same_content_trans)
    next
      case False
      then show ?thesis
        using wf bound j less by (subst heap_down_loop.simps) simp
    qed
  qed
qed

lemma heap_down_wf:
  assumes "heap_wf h" "n \<le> length (queue h)" "i < length (queue h)"
  obtains h' b where "heap_down lf h i n = Some (h', b)" "heap_wf h'" "same_content h h'"
    "\<And>k. n \<le> k \<Longrightarrow> k < length (queue h) \<Longrightarrow> queue h' ! k = queue h ! k" "\<not> b \<Longrightarrow> h' = h"
proof -
  obtain h' i' where "heap_down_loop lf h i n = Some (h', i')" "heap_wf h'" "same_content h h'" "i \<le> i'"
      "\<forall>k < length (queue h). n \<le> k \<longrightarrow> queue h' ! k = queue h ! k" "i' = i \<longrightarrow> h' = h"
    using heap_down_loop_wf [OF assms, of lf] by blast
  then show thesis
    using that [of h' "i < i'"] by (simp add: heap_down_def)
qed

lemma heapData_Push_wf:
  assumes "heap_wf h" "key \<notin> dom (items h)"
  shows "heap_wf (heapData_Push h key x)" "heap_abs (heapData_Push h key x) = (heap_abs h)(key \<mapsto> x)"
    "objs (heapData_Push h key x) = objs h @ [x]"
proof -
  show "heap_wf (heapData_Push h key x)"
    using assms by (auto simp: heap_wf_def heapData_Push_def nth_append less_Suc_eq)
  show "heap_abs (heapData_Push h key x) = (heap_abs h)(key \<mapsto> x)"
    by (auto simp: heap_abs_def heapData_Push_def)
  show "objs (heapData_Push h key x) = objs h @ [x]"
    using assms by (auto simp: objs_def heap_abs_def heapData_Push_def heap_wf_def)
qed

lemma heapData_Pop_wf:
  assumes wf: "heap_wf h" and ne: "queue h \<noteq> []"
  obtains x h' where "heapData_Pop h = Some (Some x, h')" "heap_wf h'"
    "heap_abs h (last (queue h)) = Some x" "x = last (objs h)"
    "heap_abs h' = (heap_abs h)(last (queue h) := None)" "objs h' = butlast (objs h)"
proof -
  let ?n = "length (queue h) - 1"
  obtain it where it: "items h (last (queue h)) = Some it"
    using wf ne by (auto simp: heap_wf_def) (metis domD last_in_set)
  define h' where "h' = h\<lparr>queue := butlast (queue h), items := (items h)(last (queue h) := None)\<rparr>"
  have split: "queue h = butlast (queue h) @ [last (queue h)]"
    using ne by simp
  then have notin: "last (queue h) \<notin> set (butlast (queue h))"
    using wf by (metis distinct_append heap_wf_def not_distinct_conv_prefix)
  have "set (queue h) = insert (last (queue h)) (set (butlast (queue h)))"
    using arg_cong [OF split, of set] by simp
  moreover have "queue h ! i \<noteq> last (queue h)" if "i < ?n" for i
    using notin that by (metis length_butlast nth_butlast nth_mem)
  ultimately have "heap_wf h'"
    using wf notin by (auto simp: heap_wf_def h'_def distinct_butlast nth_butlast)
  moreover have "heap_abs h' = (heap_abs h)(last (queue h) := None)"
    by (auto simp: heap_abs_def h'_def)
  moreover have "objs h' = butlast (objs h)"
    using notin by (auto simp: objs_def heap_abs_def h'_def simp flip: map_butlast)
  moreover have "heapData_Pop h = Some (Some (obj it), h')"
    using ne it by (simp add: heapData_Pop_def h'_def Let_def)
  moreover have "heap_abs h (last (queue h)) = Some (obj it)" "obj it = last (objs h)"
    using it ne by (simp_all add: heap_abs_def objs_def last_map)
  ultimately show thesis
    using that by blast
qed

lemma heap_Push_wf:
  assumes "heap_wf h" "key \<notin> dom (items h)"
  obtains h' where "heap_Push lf h key x = Some h'" "heap_wf h'" "heap_abs h' = (heap_abs h)(key \<mapsto> x)"
    "length (queue h') = Suc (length (queue h))"
proof -
  let ?h = "heapData_Push h key x"
  have len: "length (queue ?h) = Suc (length (queue h))"
    by (simp add: heapData_Push_def)
  obtain h' where "heap_up lf ?h (length (queue h)) = Some h'" "heap_wf h'" "same_content ?h h'"
    using heap_up_wf [OF heapData_Push_wf(1) [OF assms, of x]] len by (metis lessI)
  then show thesis
    using that [of h'] heapData_Push_wf(2) [OF assms, of x] len
    by (simp add: heap_Push_def heapData_Len_def same_content_def)
qed

lemma heap_Fix_wf:
  assumes wf: "heap_wf h" and i: "i < length (queue h)"
  obtains h' where "heap_Fix lf h i = Some h'" "heap_wf h'" "same_content h h'"
proof -
  obtain h1 b where h1: "heap_down lf h i (length (queue h)) = Some (h1, b)" "heap_wf h1"
      "same_content h h1"
    using heap_down_wf [OF wf order_refl i, of lf] by metis
  obtain h2 where "heap_up lf h1 i = Some h2" "heap_wf h2" "same_content h1 h2"
    using heap_up_wf [OF h1(2), of i lf] h1(3) i unfolding same_content_def by metis
  with h1 show thesis
    using that [of "if b then h1 else h2"] same_content_trans [OF h1(3)]
    by (simp add: heap_Fix_def heapData_Len_def split: if_splits)
qed

text \<open>
  \<open>Remove\<close> swaps the entry with the last one, restores the order on the others and drops the last
  entry; \<open>prepared\<close> describes the heap just before the last entry is dropped.
\<close>

lemma heap_drop_last:
  assumes wf: "heap_wf h" and i: "i < length (queue h)"
    and h2: "heap_wf h2" "same_content h h2" "last (queue h2) = queue h ! i"
  obtains x h' where "heapData_Pop h2 = Some (Some x, h')" "heap_wf h'"
    "heap_abs h (queue h ! i) = Some x" "heap_abs h' = (heap_abs h)(queue h ! i := None)"
    "length (queue h') = length (queue h) - 1" "objs h' = butlast (objs h2)"
proof -
  have "queue h2 \<noteq> []"
    using h2(2) i by (auto simp: same_content_def)
  then obtain x h' where x: "heapData_Pop h2 = Some (Some x, h')" "heap_wf h'"
    "heap_abs h2 (last (queue h2)) = Some x" "x = last (objs h2)"
    "heap_abs h' = (heap_abs h2)(last (queue h2) := None)" "objs h' = butlast (objs h2)"
    by (rule heapData_Pop_wf [OF h2(1)])
  have "length (queue h') = length (queue h) - 1"
    using arg_cong [OF x(6), of length] h2(2) by (simp add: same_content_def)
  then show thesis
    using that [OF x(1,2)] x h2 by (simp add: same_content_def)
qed

lemma last_queue_down:
  assumes wf: "heap_wf h" and i: "i < length (queue h)"
    and h1: "heapData_Swap h i (length (queue h) - 1) = Some h1"
    and h2: "heap_down lf h1 i (length (queue h) - 1) = Some (h2, b)"
  shows "heap_wf h2" "same_content h h2" "last (queue h2) = queue h ! i"
proof -
  let ?n = "length (queue h) - 1"
  have n: "?n < length (queue h)"
    using i by simp
  have h1': "heap_wf h1" "same_content h h1" "queue h1 = (queue h)[i := queue h ! ?n, ?n := queue h ! i]"
    using heapData_Swap_wf [OF wf i n] h1 by (metis option.inject)+
  have len: "length (queue h1) = length (queue h)"
    using h1'(2) by (simp add: same_content_def)
  have h2': "heap_wf h2" "same_content h1 h2" "queue h2 ! ?n = queue h1 ! ?n"
    using heap_down_wf [OF h1'(1), of ?n i lf] h2 len i n
    by (metis (no_types, lifting) option.inject prod.inject less_or_eq_imp_le order_refl)+
  then show "heap_wf h2" "same_content h h2"
    using h1' by (auto intro: same_content_trans)
  then have "length (queue h2) = length (queue h)"
    by (simp add: same_content_def)
  then show "last (queue h2) = queue h ! i"
    using h2' h1' i by (subst last_conv_nth) auto
qed

lemma heap_Pop_wf:
  assumes wf: "heap_wf h" and ne: "queue h \<noteq> []"
  obtains x h' where "heap_Pop lf h = Some (Some x, h')" "heap_wf h'"
    "heap_abs h (queue h ! 0) = Some x" "heap_abs h' = (heap_abs h)(queue h ! 0 := None)"
    "length (queue h') = length (queue h) - 1"
proof -
  let ?n = "length (queue h) - 1"
  have n: "0 < length (queue h)" "?n < length (queue h)"
    using ne by simp_all
  obtain h1 where h1: "heapData_Swap h 0 ?n = Some h1" "heap_wf h1" "same_content h h1"
    using heapData_Swap_wf [OF wf n] by metis
  obtain h2 b where h2: "heap_down lf h1 0 ?n = Some (h2, b)"
    using heap_down_wf [OF h1(2), of ?n 0 lf] h1(3) n by (metis diff_le_self same_content_def)
  obtain x h' where x: "heapData_Pop h2 = Some (Some x, h')" "heap_wf h'"
      "heap_abs h (queue h ! 0) = Some x" "heap_abs h' = (heap_abs h)(queue h ! 0 := None)"
      "length (queue h') = length (queue h) - 1" "objs h' = butlast (objs h2)"
    by (rule heap_drop_last [OF wf n(1) last_queue_down [OF wf n(1) h1(1) h2]])
  have "heap_Pop lf h = Some (Some x, h')"
    using ne h1(1) h2 x(1) by (simp add: heap_Pop_def heapData_Len_def)
  then show thesis
    using that x by blast
qed

lemma heap_up_last:
  assumes "heap_wf h" "i < length (queue h) - 1"
  shows "\<exists>h'. heap_up lf h i = Some h' \<and> heap_wf h' \<and> same_content h h' \<and> last (queue h') = last (queue h)"
proof -
  have i: "i < length (queue h)"
    using assms(2) by simp
  obtain h' where h': "heap_up lf h i = Some h'" "heap_wf h'" "same_content h h'"
      "\<And>k. i < k \<Longrightarrow> queue h' ! k = queue h ! k"
    using heap_up_wf [OF assms(1) i, of lf] by blast
  have "queue h \<noteq> []" "length (queue h') = length (queue h)"
    using h'(3) assms(2) by (auto simp: same_content_def)
  then have "last (queue h') = last (queue h)"
    using h'(4) [OF assms(2)] by (subst (1 2) last_conv_nth) auto
  with h' show ?thesis
    by blast
qed

lemma heap_Remove_wf:
  assumes wf: "heap_wf h" and i: "i < length (queue h)"
  obtains x h' where "heap_Remove lf h i = Some (Some x, h')" "heap_wf h'"
    "heap_abs h (queue h ! i) = Some x" "heap_abs h' = (heap_abs h)(queue h ! i := None)"
    "length (queue h') = length (queue h) - 1"
proof -
  let ?n = "length (queue h) - 1"
  have n: "?n < length (queue h)" and ne: "queue h \<noteq> []"
    using i by auto
  obtain h1 where h1: "heapData_Swap h i ?n = Some h1" "heap_wf h1" "same_content h h1"
    using heapData_Swap_wf [OF wf i n] by metis
  obtain h2 b where h2: "heap_down lf h1 i ?n = Some (h2, b)" "\<not> b \<Longrightarrow> h2 = h1"
    using heap_down_wf [OF h1(2), of ?n i lf] h1(3) n i by (metis diff_le_self same_content_def)
  note l2 = last_queue_down [OF wf i h1(1) h2(1)]
  obtain h3 where h3: "heap_Remove lf h i = heapData_Pop h3" "heap_wf h3" "same_content h h3"
      "last (queue h3) = queue h ! i"
  proof (cases "?n = i")
    case True
    then show ?thesis
      using that [of h] wf ne by (simp add: heap_Remove_def heapData_Len_def last_conv_nth)
  next
    case False
    have rem: "heap_Remove lf h i = Option.bind (if b then Some h2 else heap_up lf h2 i) heapData_Pop"
      using ne False h1(1) h2(1) by (simp add: heap_Remove_def heapData_Len_def)
    show ?thesis
    proof (cases b)
      case True
      then show ?thesis
        using that [of h2] l2 rem by simp
    next
      case nb: False
      have "i < length (queue h2) - 1"
        using l2(2) False i by (simp add: same_content_def)
      then obtain h3 where "heap_up lf h2 i = Some h3" "heap_wf h3" "same_content h2 h3"
          "last (queue h3) = last (queue h2)"
        using heap_up_last [OF l2(1)] by blast
      then show ?thesis
        using that [of h3] nb l2(3) same_content_trans [OF l2(2)] rem by simp
    qed
  qed
  obtain x h' where "heapData_Pop h3 = Some (Some x, h')" "heap_wf h'"
      "heap_abs h (queue h ! i) = Some x" "heap_abs h' = (heap_abs h)(queue h ! i := None)"
      "length (queue h') = length (queue h) - 1" "objs h' = butlast (objs h3)"
    by (rule heap_drop_last [OF wf i h3(2-4)])
  with h3(1) show thesis
    using that by metis
qed

end
