(* ===== verification/KeyedStore.thy ===== *)
theory KeyedStore
  imports GoPrelude
begin

text \<open>
  Contracts of the containers the scheduling queue is built from. \<open>keyed_store\<close> is a store of
  objects under string keys whose operations neither panic nor return an error on well-formed
  stores and well-keyed objects; \<open>keyed_pq\<close> adds a \<open>pop\<close> that removes a first object. The lemmas of
  the two locales are what clients of a heap rely on.
\<close>

text \<open>Adding every object of a list; the first error ends the loop only if it is a panic.\<close>

definition add_all :: "('h \<Rightarrow> 'a \<Rightarrow> ('e option \<times> 'h) option) \<Rightarrow> 'a list \<Rightarrow> 'h \<Rightarrow> 'h option" where
  "add_all add xs h = foldM (\<lambda>x h. map_option snd (add h x)) xs h"

text \<open>Popping \<open>n\<close> times.\<close>

fun pop_n :: "('h \<Rightarrow> (('e + 'a) \<times> 'h) option) \<Rightarrow> nat \<Rightarrow> 'h \<Rightarrow> ('a list \<times> 'h) option" where
  "pop_n pop 0 h = Some ([], h)"
| "pop_n pop (Suc n) h =
     (case pop h of
        Some (Inr x, h') \<Rightarrow> map_option (\<lambda>(xs, h''). (x # xs, h'')) (pop_n pop n h')
      | _ \<Rightarrow> None)"

definition key_of :: "('a \<Rightarrow> 'e + string) \<Rightarrow> 'a \<Rightarrow> string" where
  "key_of kf x = (case kf x of Inr k \<Rightarrow> k | Inl _ \<Rightarrow> [])"

lemma key_of_Inr [simp]: "kf x = Inr k \<Longrightarrow> key_of kf x = k"
  by (simp add: key_of_def)

locale keyed_store =
  fixes kf :: "'a \<Rightarrow> 'k + string"
    and wf :: "'h \<Rightarrow> bool"
    and abs :: "'h \<Rightarrow> string \<rightharpoonup> 'a"
    and add :: "'h \<Rightarrow> 'a \<Rightarrow> ('e option \<times> 'h) option"
    and del :: "'h \<Rightarrow> 'a \<Rightarrow> ('e option \<times> 'h) option"
    and get :: "'h \<Rightarrow> 'a \<Rightarrow> 'e + 'a option"
  assumes wf_finite: "wf h \<Longrightarrow> finite (dom (abs h))"
    and wf_keyed: "wf h \<Longrightarrow> abs h k = Some x \<Longrightarrow> kf x = Inr k"
    and add_ok: "wf h \<Longrightarrow> kf x = Inr k \<Longrightarrow>
      \<exists>h'. add h x = Some (None, h') \<and> wf h' \<and> abs h' = (abs h)(k \<mapsto> x)"
    and del_ok: "wf h \<Longrightarrow> kf x = Inr k \<Longrightarrow> abs h k \<noteq> None \<Longrightarrow>
      \<exists>h'. del h x = Some (None, h') \<and> wf h' \<and> abs h' = (abs h)(k := None)"
    and del_absent: "wf h \<Longrightarrow> kf x = Inr k \<Longrightarrow> abs h k = None \<Longrightarrow>
      \<exists>e. del h x = Some (Some e, h)"
    and get_ok: "wf h \<Longrightarrow> kf x = Inr k \<Longrightarrow> get h x = Inr (abs h k)"
begin

text \<open>Whatever \<open>del\<close> answers, the key is absent afterwards and nothing else changed.\<close>

lemma del_total:
  assumes "wf h" "kf x = Inr k"
  shows "\<exists>e h'. del h x = Some (e, h') \<and> wf h' \<and> abs h' = (abs h)(k := None)
    \<and> (e = None \<longleftrightarrow> abs h k \<noteq> None)"
  using del_ok [OF assms] del_absent [OF assms] assms(1) by (cases "abs h k = None") (auto simp: fun_upd_idem)

lemma add_get:
  assumes "wf h" "kf x = Inr k" "kf y = Inr k'" "add h x = Some (e, h')"
  shows "get h' y = Inr (if k' = k then Some x else abs h k')"
  using add_ok [OF assms(1,2)] get_ok [OF _ assms(3)] assms(4) by auto

lemma add_all_ok:
  assumes "wf h" "\<And>x. x \<in> set xs \<Longrightarrow> \<exists>k. kf x = Inr k"
  shows "\<exists>h'. add_all add xs h = Some h' \<and> wf h' \<and> abs h' = fold (\<lambda>x m. m(key_of kf x \<mapsto> x)) xs (abs h)"
  using assms
proof (induction xs arbitrary: h)
  case Nil
  then show ?case
    by (simp add: add_all_def)
next
  case (Cons x xs)
  then obtain k where k: "kf x = Inr k"
    by force
  then obtain h1 where "add h x = Some (None, h1)" "wf h1" "abs h1 = (abs h)(k \<mapsto> x)"
    using add_ok Cons.prems(1) by blast
  with Cons.IH [of h1] Cons.prems(2) k show ?case
    by (simp add: add_all_def)
qed

lemma add_all_dom:
  assumes "wf h" "\<And>x. x \<in> set xs \<Longrightarrow> \<exists>k. kf x = Inr k" "add_all add xs h = Some h'"
  shows "dom (abs h') = dom (abs h) \<union> key_of kf ` set xs"
proof -
  have "dom (fold (\<lambda>x m. m(key_of kf x \<mapsto> x)) xs m) = dom m \<union> key_of kf ` set xs" for m
    by (induction xs arbitrary: m) auto
  moreover have "abs h' = fold (\<lambda>x m. m(key_of kf x \<mapsto> x)) xs (abs h)"
    using add_all_ok [OF assms(1), of xs] assms(2,3) by fastforce
  ultimately show ?thesis
    by simp
qed

end

locale keyed_pq = keyed_store +
  fixes lt :: "'a \<Rightarrow> 'a \<Rightarrow> bool"
    and pop :: "'h \<Rightarrow> (('e + 'a) \<times> 'h) option"
    and len :: "'h \<Rightarrow> nat"
  assumes len_ok: "wf h \<Longrightarrow> len h = card (dom (abs h))"
    and pop_ok: "wf h \<Longrightarrow> abs h \<noteq> Map.empty \<Longrightarrow>
      \<exists>k x h'. pop h = Some (Inr x, h') \<and> wf h' \<and> abs h k = Some x \<and> abs h' = (abs h)(k := None)
        \<and> (\<forall>y \<in> ran (abs h). \<not> lt y x)"
begin

lemma pop_n_sorted:
  "wf h \<Longrightarrow> len h = n \<Longrightarrow>
   \<exists>xs h'. pop_n pop n h = Some (xs, h') \<and> wf h' \<and> abs h' = Map.empty \<and>
     sorted_wrt (\<lambda>x y. \<not> lt y x) xs \<and> set xs = ran (abs h) \<and> distinct (map (key_of kf) xs)"
proof (induction n arbitrary: h)
  case 0
  then have "abs h = Map.empty"
    using wf_finite len_ok by auto
  with 0 show ?case
    by simp
next
  case (Suc n)
  have fin: "finite (dom (abs h))" and card: "card (dom (abs h)) = Suc n"
    using Suc.prems wf_finite len_ok by simp_all
  then have "abs h \<noteq> Map.empty"
    by auto
  then obtain k x h1 where p: "pop h = Some (Inr x, h1)" "wf h1" "abs h k = Some x"
      "abs h1 = (abs h)(k := None)" "\<And>y. y \<in> ran (abs h) \<Longrightarrow> \<not> lt y x"
    using pop_ok Suc.prems(1) by blast
  have "len h1 = n"
    using len_ok [OF p(2)] p(3,4) fin card by (simp add: domI)
  then obtain xs h' where xs: "pop_n pop n h1 = Some (xs, h')" "wf h'" "abs h' = Map.empty"
      "sorted_wrt (\<lambda>x y. \<not> lt y x) xs" "set xs = ran (abs h1)" "distinct (map (key_of kf) xs)"
    using Suc.IH p(2) by blast
  have ran: "ran (abs h) = insert x (ran (abs h1))"
    using p(3,4) by (auto simp: ran_def) (metis option.inject)
  have kx: "key_of kf x = k" and ny: "\<And>y. y \<in> ran (abs h1) \<Longrightarrow> key_of kf y \<noteq> k"
    using wf_keyed [OF Suc.prems(1)] p(3,4) by (auto simp: ran_def key_of_def split: if_splits)
  then have "k \<notin> key_of kf ` set xs"
    using xs(5) by force
  moreover have "\<forall>y \<in> set xs. \<not> lt y x"
    using p(5) ran xs(5) by simp
  ultimately show ?case
    using p(1) xs kx ran by simp
qed

end

end
