(* ===== verification/HeapOrder.thy ===== *)
theory HeapOrder
  imports GoHeap KeyedStore
begin

text \<open>
  The order of the heap of \<open>pkg/scheduler/utils/heap.go\<close> and the contracts its operations meet.
  A comparison that is a strict weak order (\<open>strict_weak_order\<close>) keeps the heap sorted through
  \<open>Push\<close>, \<open>Pop\<close>, \<open>Remove\<close> and \<open>Fix\<close>. The operations of \<open>Heap\<close> then satisfy \<open>keyed_store\<close> for every
  comparison and \<open>keyed_pq\<close> for a strict weak order.
\<close>

section \<open>The order of the heap\<close>

definition heap_sorted :: "'a lessFunc \<Rightarrow> 'a list \<Rightarrow> nat \<Rightarrow> bool" where
  "heap_sorted lt xs n \<longleftrightarrow> (\<forall>k < n. 0 < k \<longrightarrow> \<not> lt (xs ! k) (xs ! ((k - 1) div 2)))"

text \<open>
  The heap with a defect at one index: the order holds between all other parents and children, and
  the children of the defect are not before its parent.
\<close>

definition heap_defect :: "'a lessFunc \<Rightarrow> 'a list \<Rightarrow> nat \<Rightarrow> nat \<Rightarrow> bool" where
  "heap_defect lt xs i n \<longleftrightarrow>
     (\<forall>k < n. 0 < k \<longrightarrow> k \<noteq> i \<longrightarrow> (k - 1) div 2 \<noteq> i \<longrightarrow> \<not> lt (xs ! k) (xs ! ((k - 1) div 2))) \<and>
     (0 < i \<longrightarrow> (\<forall>k < n. 0 < k \<longrightarrow> (k - 1) div 2 = i \<longrightarrow> \<not> lt (xs ! k) (xs ! ((i - 1) div 2))))"

definition above_ok :: "'a lessFunc \<Rightarrow> 'a list \<Rightarrow> nat \<Rightarrow> bool" where
  "above_ok lt xs i \<longleftrightarrow> (0 < i \<longrightarrow> \<not> lt (xs ! i) (xs ! ((i - 1) div 2)))"

definition below_ok :: "'a lessFunc \<Rightarrow> 'a list \<Rightarrow> nat \<Rightarrow> nat \<Rightarrow> bool" where
  "below_ok lt xs i n \<longleftrightarrow> (\<forall>k < n. 0 < k \<longrightarrow> (k - 1) div 2 = i \<longrightarrow> \<not> lt (xs ! k) (xs ! i))"

definition swapped :: "'a list \<Rightarrow> nat \<Rightarrow> nat \<Rightarrow> 'a list" where
  "swapped xs i j = xs[i := xs ! j, j := xs ! i]"

lemma length_swapped [simp]: "length (swapped xs i j) = length xs"
  by (simp add: swapped_def)

lemma nth_swapped:
  "i < length xs \<Longrightarrow> j < length xs \<Longrightarrow>
   swapped xs i j ! k = (if k = i then xs ! j else if k = j then xs ! i else xs ! k)"
  by (auto simp: swapped_def nth_list_update)

lemma par_iff: "0 < k \<Longrightarrow> (k - 1) div 2 = i \<longleftrightarrow> k = 2 * i + 1 \<or> k = 2 * i + (2 :: nat)"
  by linarith

lemma par_fixed: "((k :: nat) - Suc 0) div 2 = k \<longleftrightarrow> k = 0"
  by linarith

lemma heap_sortedI:
  "heap_defect lt xs i n \<Longrightarrow> above_ok lt xs i \<Longrightarrow> below_ok lt xs i n \<Longrightarrow> heap_sorted lt xs n"
  unfolding heap_sorted_def heap_defect_def above_ok_def below_ok_def by metis

lemma heap_defectD:
  assumes "heap_defect lt xs i n" "k < n" "0 < k"
  shows "k \<noteq> i \<Longrightarrow> (k - 1) div 2 \<noteq> i \<Longrightarrow> \<not> lt (xs ! k) (xs ! ((k - 1) div 2))"
    and "0 < i \<Longrightarrow> (k - 1) div 2 = i \<Longrightarrow> \<not> lt (xs ! k) (xs ! ((i - 1) div 2))"
  using assms by (auto simp: heap_defect_def)

locale strict_weak_order =
  fixes lt :: "'a \<Rightarrow> 'a \<Rightarrow> bool"
  assumes asym: "lt a b \<Longrightarrow> \<not> lt b a"
    and negtrans: "\<not> lt b a \<Longrightarrow> \<not> lt c b \<Longrightarrow> \<not> lt c a"
begin

lemma irrefl: "\<not> lt a a"
  using asym by blast

lemma sorted_defect:
  assumes "heap_sorted lt xs n" and "i < n" and "\<And>k. k < n \<Longrightarrow> k \<noteq> i \<Longrightarrow> ys ! k = xs ! k"
  shows "heap_defect lt ys i n"
proof -
  have "\<not> lt (ys ! k) (ys ! ((k - 1) div 2))"
    if "k < n" "0 < k" "k \<noteq> i" "(k - 1) div 2 \<noteq> i" for k
    using that assms by (simp add: heap_sorted_def)
  moreover have "\<not> lt (ys ! k) (ys ! ((i - 1) div 2))"
    if "0 < i" "k < n" "0 < k" "(k - 1) div 2 = i" for k
  proof -
    have "\<not> lt (xs ! k) (xs ! i)" "\<not> lt (xs ! i) (xs ! ((i - 1) div 2))"
      using that assms(1,2) by (auto simp: heap_sorted_def)
    then have "\<not> lt (xs ! k) (xs ! ((i - 1) div 2))"
      using negtrans by blast
    moreover have "k \<noteq> i" "(i - 1) div 2 \<noteq> i" "(i - 1) div 2 < n"
      using that assms(2) by linarith+
    ultimately show ?thesis
      using that assms(3) by simp
  qed
  ultimately show ?thesis
    by (simp add: heap_defect_def)
qed

lemma sorted_butlast: "heap_sorted lt xs n \<Longrightarrow> n < length xs \<Longrightarrow> heap_sorted lt (butlast xs) n"
  by (auto simp: heap_sorted_def nth_butlast)

text \<open>The value at the defect does not matter.\<close>

lemma heap_defect_cong:
  assumes d: "heap_defect lt xs i m" and n: "n \<le> m" "i < n" and eq: "\<And>k. k < n \<Longrightarrow> k \<noteq> i \<Longrightarrow> ys ! k = xs ! k"
  shows "heap_defect lt ys i n"
proof -
  have "\<not> lt (ys ! k) (ys ! ((k - 1) div 2))" if "k < n" "0 < k" "k \<noteq> i" "(k - 1) div 2 \<noteq> i" for k
    using heap_defectD(1) [OF d _ that(2-4)] that n(1) eq by simp
  moreover have "\<not> lt (ys ! k) (ys ! ((i - 1) div 2))" if "0 < i" "k < n" "0 < k" "(k - 1) div 2 = i" for k
  proof -
    have "k \<noteq> i" "(i - 1) div 2 \<noteq> i" "(i - 1) div 2 < n"
      using that n by linarith+
    then show ?thesis
      using heap_defectD(2) [OF d _ that(3,1,4)] that n(1) eq by simp
  qed
  ultimately show ?thesis
    by (simp add: heap_defect_def)
qed

lemma swapped_defect:
  assumes "heap_defect lt (objs h) i (length (queue h))" "i < length (queue h) - 1"
    and "objs h1 = swapped (objs h) i (length (queue h) - 1)"
  shows "heap_defect lt (objs h1) i (length (queue h) - 1)"
  by (rule heap_defect_cong [OF assms(1)]) (use assms(2,3) in \<open>auto simp: nth_swapped\<close>)

lemma sorted_min: "heap_sorted lt xs n \<Longrightarrow> k < n \<Longrightarrow> \<not> lt (xs ! k) (xs ! 0)"
proof (induction k rule: less_induct)
  case (less k)
  show ?case
  proof (cases "k = 0")
    case False
    then have "(k - 1) div 2 < k"
      by linarith
    then have "\<not> lt (xs ! ((k - 1) div 2)) (xs ! 0)" "\<not> lt (xs ! k) (xs ! ((k - 1) div 2))"
      using less False by (auto simp: heap_sorted_def)
    then show ?thesis
      using negtrans by blast
  qed (simp add: irrefl)
qed

end

text \<open>
  The comparison \<open>lf\<close> that the code calls need not be the order \<open>lt\<close> of the invariant: it is enough
  that \<open>lf\<close> refines \<open>lt\<close> without contradicting it. The backoff queue needs this, because entries of
  its comparison change while they are in the heap.
\<close>

locale heap_order = strict_weak_order lt for lt :: "'a \<Rightarrow> 'a \<Rightarrow> bool" +
  fixes lf :: "'a \<Rightarrow> 'a \<Rightarrow> bool"
  assumes refines: "lt a b \<Longrightarrow> lf a b"
    and compatible: "lf a b \<Longrightarrow> \<not> lt b a"
begin

lemma not_lf: "\<not> lf a b \<Longrightarrow> \<not> lt a b"
  using refines by blast

text \<open>One step of \<open>down\<close>: the smaller child moves up and the defect moves to its place.\<close>

lemma down_step:
  assumes d: "heap_defect lt xs i n" and n: "n \<le> length xs" and j: "j = 2 * i + 1 \<or> j = 2 * i + 2" "j < n"
    and sib: "\<And>k. k < n \<Longrightarrow> 0 < k \<Longrightarrow> (k - 1) div 2 = i \<Longrightarrow> \<not> lt (xs ! k) (xs ! j)"
    and lt: "lf (xs ! j) (xs ! i)"
  shows "heap_defect lt (swapped xs i j) j n" "above_ok lt (swapped xs i j) j"
proof -
  have ij: "i < length xs" "j < length xs" "i \<noteq> j" "0 < j" "(j - 1) div 2 = i" "i < j"
    using j n by auto
  note nth = nth_swapped [OF ij(1,2)]
  show "above_ok lt (swapped xs i j) j"
    using ij compatible [OF lt] by (simp add: above_ok_def nth)
  have "\<not> lt (swapped xs i j ! k) (swapped xs i j ! ((k - 1) div 2))"
    if k: "k < n" "0 < k" "k \<noteq> j" "(k - 1) div 2 \<noteq> j" for k
  proof (cases "(k - 1) div 2 = i")
    case True
    moreover have "k \<noteq> i"
      using True k by linarith
    ultimately show ?thesis
      using sib [OF k(1,2)] k by (simp add: nth)
  next
    case False
    show ?thesis
    proof (cases "k = i")
      case True
      then show ?thesis
        using d k False j ij by (auto simp: heap_defect_def nth)
    next
      case ki: False
      then show ?thesis
        using d k False by (simp add: heap_defect_def nth)
    qed
  qed
  moreover have "\<not> lt (swapped xs i j ! k) (swapped xs i j ! i)"
    if k: "k < n" "0 < k" "(k - 1) div 2 = j" for k
  proof -
    have "k \<noteq> i" "k \<noteq> j"
      using k ij(6) by linarith+
    moreover have "\<not> lt (xs ! k) (xs ! ((k - 1) div 2))"
      using heap_defectD(1) [OF d k(1,2) \<open>k \<noteq> i\<close>] k(3) ij(3) by simp
    ultimately show ?thesis
      using k by (simp add: nth)
  qed
  ultimately show "heap_defect lt (swapped xs i j) j n"
    using ij(5) by (simp add: heap_defect_def)
qed

text \<open>One step of \<open>up\<close>: the defect moves to the parent, with nothing wrong below it.\<close>

lemma up_step:
  assumes d: "heap_defect lt xs j n" and b: "below_ok lt xs j n" and n: "n \<le> length xs" "j < n"
    and i: "(j - 1) div 2 = i" "i \<noteq> j" and lt: "lf (xs ! j) (xs ! i)"
  shows "heap_defect lt (swapped xs i j) i n" "below_ok lt (swapped xs i j) i n"
proof -
  have ij: "i < length xs" "j < length xs" "0 < j" "i < j" "i < n"
    using i n by linarith+
  note nth = nth_swapped [OF ij(1,2)]
  have above_i: "\<not> lt (xs ! i) (xs ! ((i - 1) div 2))" if "0 < i"
    using d ij that i by (auto simp: heap_defect_def)
  have sib: "\<not> lt (xs ! k) (xs ! i)" if "k < n" "0 < k" "k \<noteq> j" "(k - 1) div 2 = i" for k
    using heap_defectD(1) [OF d that(1-3)] that(4) i(2) by simp
  have "\<not> lt (swapped xs i j ! k) (xs ! j)" if k: "k < n" "0 < k" "(k - 1) div 2 = i" for k
  proof -
    have "k \<noteq> i"
      using k by linarith
    then show ?thesis
      using k sib compatible [OF lt] negtrans [OF compatible [OF lt]] by (simp add: nth)
  qed
  then show "below_ok lt (swapped xs i j) i n"
    by (simp add: below_ok_def nth)
  have "\<not> lt (swapped xs i j ! k) (swapped xs i j ! ((k - 1) div 2))"
    if k: "k < n" "0 < k" "k \<noteq> i" "(k - 1) div 2 \<noteq> i" for k
  proof (cases "(k - 1) div 2 = j")
    case True
    moreover have "k \<noteq> j"
      using True k by linarith
    ultimately show ?thesis
      using heap_defectD(2) [OF d k(1,2) ij(3) True] k(3) i(1) ij(4) by (simp add: nth)
  next
    case False
    moreover have "k \<noteq> j"
      using k(4) i(1) by auto
    ultimately show ?thesis
      using heap_defectD(1) [OF d k(1,2)] k by (simp add: nth)
  qed
  moreover have "\<not> lt (swapped xs i j ! k) (swapped xs i j ! ((i - 1) div 2))"
    if k: "0 < i" "k < n" "0 < k" "(k - 1) div 2 = i" for k
  proof -
    have "k \<noteq> i" "(i - 1) div 2 \<noteq> i" "(i - 1) div 2 \<noteq> j"
      using k ij by linarith+
    then show ?thesis
      using k sib above_i negtrans [OF above_i] by (simp add: nth)
  qed
  ultimately show "heap_defect lt (swapped xs i j) i n"
    by (simp add: heap_defect_def)
qed

lemma up_sorted:
  "heap_wf h \<Longrightarrow> n \<le> length (queue h) \<Longrightarrow> j < n \<Longrightarrow> heap_defect lt (objs h) j n \<Longrightarrow>
   below_ok lt (objs h) j n \<Longrightarrow> heap_up lf h j = Some h' \<Longrightarrow> heap_sorted lt (objs h') n"
proof (induction j arbitrary: h rule: less_induct)
  case (less j)
  let ?i = "(j - 1) div 2"
  have j: "j < length (queue h)" "?i < length (queue h)"
    using less.prems(2,3) by linarith+
  note Less = heapData_Less_wf [OF less.prems(1) j(1,2), of lf]
  show ?case
  proof (cases "?i \<noteq> j \<and> lf (objs h ! j) (objs h ! ?i)")
    case True
    obtain h1 where h1: "heapData_Swap h ?i j = Some h1" "heap_wf h1" "same_content h h1"
        "objs h1 = swapped (objs h) ?i j"
      using heapData_Swap_wf [OF less.prems(1) j(2,1)] by (metis swapped_def)
    have "heap_up lf h1 ?i = Some h'"
      using less.prems(6) True h1(1) Less by (subst (asm) heap_up.simps) (simp add: Let_def)
    moreover have "heap_defect lt (objs h1) ?i n" "below_ok lt (objs h1) ?i n"
      using up_step [OF less.prems(4,5)] less.prems(2,3) True h1(4) by simp_all
    moreover have "?i < j" "?i < n" "n \<le> length (queue h1)"
      using True less.prems(2,3) h1(3) by (auto simp: same_content_def)
    ultimately show ?thesis
      using less.IH h1(2) by blast
  next
    case False
    then have "heap_up lf h j = Some h"
      using Less by (subst heap_up.simps) (auto simp: Let_def)
    then have "h' = h"
      using less.prems(6) by simp
    moreover have "above_ok lt (objs h) j"
      using False by (auto simp: above_ok_def not_lf)
    ultimately show ?thesis
      using heap_sortedI less.prems by blast
  qed
qed

lemma down_cases:
  assumes wf: "heap_wf h" and n: "n \<le> length (queue h)" and i: "i < length (queue h)"
    and d: "heap_defect lt (objs h) i n"
  obtains (stop) "heap_down_loop lf h i n = Some (h, i)" "below_ok lt (objs h) i n"
  | (step) j h' where "heap_down_loop lf h i n = heap_down_loop lf h' j n" "i < j" "j < n" "heap_wf h'"
      "same_content h h'" "heap_defect lt (objs h') j n" "above_ok lt (objs h') j"
proof (cases "n \<le> 2 * i + 1")
  case True
  then have "below_ok lt (objs h) i n"
    by (auto simp: below_ok_def)
  then show thesis
    using stop True by (simp add: heap_down_loop.simps)
next
  case False
  then have b: "2 * i + 1 < n"
    by simp
  obtain j where j: "heap_child lf h i n = Some j" "j < n" "i < j" "j = 2 * i + 1 \<or> j = 2 * i + 2"
      "j = 2 * i + 2 \<longrightarrow> lf (objs h ! j) (objs h ! (2 * i + 1))"
      "j = 2 * i + 1 \<longrightarrow> 2 * i + 2 < n \<longrightarrow> \<not> lf (objs h ! (2 * i + 2)) (objs h ! j)"
    by (rule heap_child_wf [OF wf n b, of lf])
  have sib: "\<not> lt (objs h ! k) (objs h ! j)" if "k < n" "0 < k" "(k - 1) div 2 = i" for k
  proof -
    have "j = 2 * i + 2 \<longrightarrow> \<not> lt (objs h ! (2 * i + 1)) (objs h ! j)"
      using j(5) compatible by blast
    then show ?thesis
      using that j(4,6) not_lf irrefl par_iff [OF that(2), of i] by auto
  qed
  have jq: "j < length (queue h)"
    using j(2) n by simp
  note Less = heapData_Less_wf [OF wf jq i, of lf]
  show thesis
  proof (cases "lf (objs h ! j) (objs h ! i)")
    case True
    obtain h' where h': "heapData_Swap h i j = Some h'" "heap_wf h'" "same_content h h'"
        "objs h' = swapped (objs h) i j"
      using heapData_Swap_wf [OF wf i jq] by (metis swapped_def)
    have "heap_down_loop lf h i n = heap_down_loop lf h' j n"
      using False j(1) Less True h'(1) by (subst heap_down_loop.simps) simp
    then show thesis
      using step [of h' j] j(2,3) h' down_step [OF d _ j(4,2) sib True] n by simp
  next
    case nl: False
    have "below_ok lt (objs h) i n"
      unfolding below_ok_def using sib negtrans [OF not_lf [OF nl]] by blast
    then show thesis
      using stop False j(1) Less nl by (simp add: heap_down_loop.simps)
  qed
qed

lemma down_loop_sorted:
  "heap_wf h \<Longrightarrow> n \<le> length (queue h) \<Longrightarrow> i < length (queue h) \<Longrightarrow> heap_defect lt (objs h) i n \<Longrightarrow>
   above_ok lt (objs h) i \<Longrightarrow> heap_down_loop lf h i n = Some (h', i') \<Longrightarrow> heap_sorted lt (objs h') n"
proof (induction "n - i" arbitrary: h i rule: less_induct)
  case less
  from less.prems(1-4) show ?case
  proof (cases rule: down_cases)
    case stop
    then show ?thesis
      using less.prems heap_sortedI by simp
  next
    case (step j h1)
    then show ?thesis
      using less.hyps [of j h1] less.prems by (simp add: same_content_def)
  qed
qed

lemma down_up_sorted:
  assumes wf: "heap_wf h" and n: "n \<le> length (queue h)" "i < n" and d: "heap_defect lt (objs h) i n"
    and h1: "heap_down lf h i n = Some (h1, b)" and h2: "(if b then Some h1 else heap_up lf h1 i) = Some h2"
  shows "heap_sorted lt (objs h2) n"
proof -
  have i: "i < length (queue h)"
    using n by simp
  obtain i' where i': "heap_down_loop lf h i n = Some (h1, i')" "b = (i < i')"
    using h1 by (auto simp: heap_down_def)
  from wf n(1) i d show ?thesis
  proof (cases rule: down_cases)
    case stop
    then show ?thesis
      using i' h2 up_sorted [OF wf n d] by simp
  next
    case (step j h')
    have "j \<le> i'"
      using heap_down_loop_wf [OF step(4), of n j lf] step n i' by (auto simp: same_content_def)
    then have "h2 = h1"
      using h2 i'(2) step(2) by simp
    then show ?thesis
      using down_loop_sorted [OF step(4) _ _ step(6,7), of h1 i'] step(1,2,3,5) n i'(1)
      by (simp add: same_content_def)
  qed
qed

lemma Push_sorted:
  assumes "heap_wf h" "key \<notin> dom (items h)" "heap_sorted lt (objs h) (length (queue h))"
    and "heap_Push lf h key x = Some h'"
  shows "heap_sorted lt (objs h') (Suc (length (queue h)))"
proof -
  let ?h = "heapData_Push h key x" and ?n = "length (queue h)"
  have len: "length (queue ?h) = Suc ?n"
    by (simp add: heapData_Push_def)
  have "\<not> lt ((objs h @ [x]) ! k) ((objs h @ [x]) ! ((k - 1) div 2))" if "k < ?n" "0 < k" for k
  proof -
    have "(k - 1) div 2 < ?n"
      using that by linarith
    then show ?thesis
      using that assms(3) by (simp add: heap_sorted_def nth_append)
  qed
  then have "heap_defect lt (objs ?h) ?n (Suc ?n)" "below_ok lt (objs ?h) ?n (Suc ?n)"
    using heapData_Push_wf(3) [OF assms(1,2)] by (auto simp: heap_defect_def below_ok_def less_Suc_eq par_fixed)
  then show ?thesis
    using up_sorted [OF heapData_Push_wf(1) [OF assms(1,2), of x], of "Suc ?n" ?n h'] len assms(4)
    by (simp add: heap_Push_def heapData_Len_def)
qed

lemma Remove_sorted:
  assumes wf: "heap_wf h" and d: "heap_defect lt (objs h) i (length (queue h))"
    and i: "i < length (queue h)" and r: "heap_Remove lf h i = Some (x, h')"
  shows "heap_sorted lt (objs h') (length (queue h) - 1)"
proof (cases "length (queue h) - 1 = i")
  case True
  then have "heapData_Pop h = Some (x, h')" and ne: "queue h \<noteq> []"
    using r i by (auto simp: heap_Remove_def heapData_Len_def split: if_splits)
  then have "objs h' = butlast (objs h)"
    using heapData_Pop_wf [OF wf ne] by (metis option.inject prod.inject)
  moreover have "heap_sorted lt (objs h) (length (queue h) - 1)"
    using heap_defectD(1) [OF d] True by (auto simp: heap_sorted_def)
  ultimately show ?thesis
    using sorted_butlast i by simp
next
  case False
  let ?n = "length (queue h) - 1"
  have n: "?n < length (queue h)" "i < ?n"
    using i False by auto
  obtain h1 where h1: "heapData_Swap h i ?n = Some h1" "heap_wf h1" "same_content h h1"
      "objs h1 = swapped (objs h) i ?n"
    using heapData_Swap_wf [OF wf i n(1)] by (metis swapped_def)
  have len: "?n \<le> length (queue h1)"
    using h1(3) by (simp add: same_content_def)
  obtain h2 b h3 where h2: "heap_down lf h1 i ?n = Some (h2, b)"
      and h3: "(if b then Some h2 else heap_up lf h2 i) = Some h3" "heapData_Pop h3 = Some (x, h')"
    using r False h1(1) by (auto simp: heap_Remove_def heapData_Len_def panic_simps split: if_splits)
  have l2: "heap_wf h2" "same_content h h2"
    using last_queue_down [OF wf i h1(1) h2] by simp_all
  have "heap_sorted lt (objs h3) ?n"
    using down_up_sorted [OF h1(2) len n(2) swapped_defect [OF d n(2) h1(4)] h2 h3(1)] .
  moreover have "heap_wf h3" "length (queue h3) = length (queue h)"
  proof -
    have "\<exists>h3'. heap_up lf h2 i = Some h3' \<and> heap_wf h3' \<and> same_content h2 h3'"
      using heap_up_wf [OF l2(1), of i lf] l2(2) i by (auto simp: same_content_def)
    then show "heap_wf h3" "length (queue h3) = length (queue h)"
      using h3(1) l2 by (auto simp: same_content_def split: if_splits)
  qed
  moreover have "queue h3 \<noteq> []"
    using calculation(3) i by auto
  then have "objs h' = butlast (objs h3)"
    using heapData_Pop_wf [OF calculation(2)] h3(2) by (metis option.inject prod.inject)
  ultimately show ?thesis
    using sorted_butlast n by simp
qed

lemma Fix_sorted:
  assumes wf: "heap_wf h" and i: "i < length (queue h)"
    and d: "heap_defect lt (objs h) i (length (queue h))" and r: "heap_Fix lf h i = Some h'"
  shows "heap_sorted lt (objs h') (length (queue h))"
proof -
  obtain h1 b where "heap_down lf h i (length (queue h)) = Some (h1, b)"
      "(if b then Some h1 else heap_up lf h1 i) = Some h'"
    using r by (auto simp: heap_Fix_def heapData_Len_def panic_simps)
  then show ?thesis
    using down_up_sorted [OF wf order_refl i d] by blast
qed

end

lemma heap_Pop_Remove:
  assumes wf: "heap_wf h" and ne: "queue h \<noteq> []"
  shows "heap_Pop lf h = heap_Remove lf h 0"
proof (cases "length (queue h) - 1 = 0")
  case True
  obtain it where "items h (queue h ! 0) = Some it" "index it = 0"
    using heap_wf_item [OF wf, of 0] ne by auto
  then have "heapData_Swap h 0 0 = Some h"
    using ne by (simp add: heapData_Swap_def panic_simps map_upd_triv)
  then show ?thesis
    using True ne by (simp add: heap_Pop_def heap_Remove_def heapData_Len_def heap_down_def
        heap_down_loop.simps)
next
  case False
  have "heap_up lf h' 0 = Some h'" for h'
    by (simp add: heap_up.simps)
  then have "(if b then Some h' else heap_up lf h' 0) = Some h'" for b h'
    by simp
  with False ne show ?thesis
    unfolding heap_Pop_def heap_Remove_def heapData_Len_def
    by (simp add: case_prod_unfold Let_def)
qed

section \<open>The operations of Heap and their contracts\<close>

definition Heap_wf :: "'a keyFunc \<Rightarrow> 'a Heap \<Rightarrow> bool" where
  "Heap_wf kf h \<longleftrightarrow> heap_wf (data h) \<and> (\<forall>k x. heap_abs (data h) k = Some x \<longrightarrow> kf x = Inr k)"

definition Heap_abs :: "'a Heap \<Rightarrow> string \<rightharpoonup> 'a" where
  "Heap_abs h = heap_abs (data h)"

definition Heap_inv :: "'a keyFunc \<Rightarrow> 'a lessFunc \<Rightarrow> 'a Heap \<Rightarrow> bool" where
  "Heap_inv kf lf h \<longleftrightarrow> Heap_wf kf h \<and> heap_sorted lf (objs (data h)) (length (queue (data h)))"

lemma data_recorder [simp]: "data (recorder_Inc h) = data h" "data (recorder_Dec h) = data h"
  by (simp_all add: recorder_Inc_def recorder_Dec_def)

lemma dom_heap_abs: "heap_wf h \<Longrightarrow> dom (heap_abs h) = set (queue h)"
  by (auto simp: heap_abs_def heap_wf_def dom_def)

lemma heap_index:
  assumes "heap_wf d" "items d key = Some item"
  shows "index item < length (queue d)" "queue d ! index item = key"
proof -
  have "key \<in> set (queue d)"
    using assms by (auto simp: heap_wf_def)
  then obtain i where i: "i < length (queue d)" "queue d ! i = key"
    by (auto simp: in_set_conv_nth)
  moreover have "index item = i"
    using assms i by (auto simp: heap_wf_def)
  ultimately show "index item < length (queue d)" "queue d ! index item = key"
    by simp_all
qed

lemma heap_set_obj:
  fixes x :: 'a
  assumes wf: "heap_wf d" and item: "items d key = Some item"
  defines "d' \<equiv> d\<lparr>items := (items d)(key \<mapsto> item\<lparr>obj := x\<rparr>)\<rparr>"
  shows "heap_wf d'" "heap_abs d' = (heap_abs d)(key \<mapsto> x)" "queue d' = queue d"
    "\<And>k. k < length (queue d) \<Longrightarrow> k \<noteq> index item \<Longrightarrow> objs d' ! k = objs d ! k"
proof -
  show abs: "heap_abs d' = (heap_abs d)(key \<mapsto> x)" "queue d' = queue d"
    by (auto simp: heap_abs_def d'_def)
  have "map_option index (items d' k) = map_option index (items d k)" for k
    using item by (simp add: d'_def)
  moreover have "dom (items d') = dom (items d)"
    using item by (auto simp: d'_def)
  ultimately show "heap_wf d'"
    using wf abs(2) by (simp add: heap_wf_def)
  show "objs d' ! k = objs d ! k" if "k < length (queue d)" "k \<noteq> index item" for k
  proof -
    have "queue d ! k \<noteq> key"
      using that wf heap_index [OF wf item] nth_eq_iff_index_eq by (metis heap_wf_def)
    then show ?thesis
      using that by (simp add: objs_def abs)
  qed
qed

lemma Heap_Add_wf:
  assumes wf: "Heap_wf kf h" and key: "kf x = Inr k"
  shows "\<exists>h'. Heap_Add kf lf h x = Some (None, h') \<and> Heap_wf kf h' \<and> Heap_abs h' = (Heap_abs h)(k \<mapsto> x)"
proof (cases "items (data h) k")
  case None
  then have nk: "k \<notin> dom (items (data h))"
    by auto
  obtain d' where "heap_Push lf (data h) k x = Some d'" "heap_wf d'" "heap_abs d' = (heap_abs (data h))(k \<mapsto> x)"
    using heap_Push_wf [OF _ nk, of lf x] wf unfolding Heap_wf_def by metis
  with None key wf show ?thesis
    by (auto simp: Heap_Add_def Heap_wf_def Heap_abs_def)
next
  case (Some item)
  have hw: "heap_wf (data h)"
    using wf by (simp add: Heap_wf_def)
  note so = heap_set_obj [OF hw Some, where x = x]
  obtain d' where "heap_Fix lf ((data h)\<lparr>items := (items (data h))(k \<mapsto> item\<lparr>obj := x\<rparr>)\<rparr>) (index item) = Some d'"
      "heap_wf d'" "same_content ((data h)\<lparr>items := (items (data h))(k \<mapsto> item\<lparr>obj := x\<rparr>)\<rparr>) d'"
    using heap_Fix_wf [OF so(1), of "index item" lf] so(3) heap_index(1) [OF hw Some] by metis
  with Some key wf so(2) show ?thesis
    by (auto simp: Heap_Add_def Heap_wf_def Heap_abs_def same_content_def)
qed

lemma Heap_Delete_wf:
  assumes wf: "Heap_wf kf h" and key: "kf x = Inr k" and present: "Heap_abs h k \<noteq> None"
  shows "\<exists>h'. Heap_Delete kf lf h x = Some (None, h') \<and> Heap_wf kf h' \<and> Heap_abs h' = (Heap_abs h)(k := None)"
proof -
  obtain item where item: "items (data h) k = Some item"
    using present by (auto simp: Heap_abs_def heap_abs_def)
  have hw: "heap_wf (data h)"
    using wf by (simp add: Heap_wf_def)
  note idx = heap_index [OF hw item]
  obtain y d' where "heap_Remove lf (data h) (index item) = Some (Some y, d')" "heap_wf d'"
      "heap_abs d' = (heap_abs (data h))(k := None)"
    using heap_Remove_wf [OF hw idx(1), of lf] idx(2) by metis
  with item key wf show ?thesis
    by (auto simp: Heap_Delete_def Heap_wf_def Heap_abs_def)
qed

lemma Heap_Pop_wf:
  assumes wf: "Heap_wf kf h" and ne: "Heap_abs h \<noteq> Map.empty"
  shows "\<exists>h' x k. Heap_Pop lf h = Some (Inr x, h') \<and> Heap_wf kf h' \<and> k = queue (data h) ! 0 \<and>
    Heap_abs h k = Some x \<and> Heap_abs h' = (Heap_abs h)(k := None)"
proof -
  have hw: "heap_wf (data h)"
    using wf by (simp add: Heap_wf_def)
  then have "queue (data h) \<noteq> []"
    using ne dom_heap_abs [OF hw] by (auto simp: Heap_abs_def)
  then obtain x d' where "heap_Pop lf (data h) = Some (Some x, d')" "heap_wf d'"
      "heap_abs (data h) (queue (data h) ! 0) = Some x"
      "heap_abs d' = (heap_abs (data h))(queue (data h) ! 0 := None)"
    using heap_Pop_wf [OF hw] by metis
  with wf show ?thesis
    by (auto simp: Heap_Pop_def Heap_wf_def Heap_abs_def)
qed

lemma Heap_Len_card: "Heap_wf kf h \<Longrightarrow> Heap_Len h = card (dom (Heap_abs h))"
  unfolding Heap_wf_def Heap_Len_def Heap_abs_def by (metis distinct_card dom_heap_abs heap_wf_def)

lemma Heap_wf_finite: "Heap_wf kf h \<Longrightarrow> finite (dom (Heap_abs h))"
  by (simp add: Heap_wf_def Heap_abs_def dom_heap_abs)

lemma NewHeap_inv [simp]: "Heap_inv kf lf NewHeap" "Heap_wf kf NewHeap" "Heap_abs NewHeap = Map.empty"
  by (auto simp: Heap_inv_def Heap_wf_def NewHeap_def heap_wf_def heap_abs_def heap_sorted_def
      Heap_abs_def)

lemma Heap_Get_abs: "kf x = Inr k \<Longrightarrow> Heap_Get kf h x = Inr (Heap_abs h k)"
  by (simp add: Heap_Get_def Heap_GetByKey_def Heap_abs_def heap_abs_def)

lemma Heap_Delete_absent:
  "kf x = Inr k \<Longrightarrow> Heap_abs h k = None \<Longrightarrow> Heap_Delete kf lf h x = Some (Some ObjectNotFound, h)"
  by (simp add: Heap_Delete_def Heap_abs_def heap_abs_def)

text \<open>For any comparison at all, the heap is a store of keyed objects.\<close>

interpretation heap_store: keyed_store kf "Heap_wf kf" Heap_abs "Heap_Add kf lf" "Heap_Delete kf lf" "Heap_Get kf"
  for kf :: "'a keyFunc" and lf :: "'a lessFunc"
proof (unfold_locales, goal_cases)
  case 1
  then show ?case
    by (rule Heap_wf_finite)
next
  case 2
  then show ?case
    by (simp add: Heap_wf_def Heap_abs_def)
next
  case 3
  then show ?case
    by (rule Heap_Add_wf)
next
  case 4
  then show ?case
    by (rule Heap_Delete_wf)
next
  case 5
  then show ?case
    by (simp add: Heap_Delete_absent)
next
  case 6
  then show ?case
    by (simp add: Heap_Get_abs)
qed

context heap_order
begin

lemma Add_inv:
  assumes inv: "Heap_inv kf lt h" and key: "kf x = Inr k" and r: "Heap_Add kf lf h x = Some (None, h')"
  shows "Heap_inv kf lt h'"
proof -
  have wf: "Heap_wf kf h" "heap_wf (data h)" and sorted: "heap_sorted lt (objs (data h)) (length (queue (data h)))"
    using inv by (simp_all add: Heap_inv_def Heap_wf_def)
  have wf': "Heap_wf kf h'"
    using Heap_Add_wf [OF wf(1) key, of lf] r by auto
  have "heap_sorted lt (objs (data h')) (length (queue (data h')))"
  proof (cases "items (data h) k")
    case None
    then have nk: "k \<notin> dom (items (data h))"
      by auto
    obtain d' where d': "heap_Push lf (data h) k x = Some d'" "data h' = d'"
      using r key None by (auto simp: Heap_Add_def panic_simps)
    moreover have "length (queue d') = Suc (length (queue (data h)))"
      using heap_Push_wf [OF wf(2) nk, of lf x] d'(1) by (metis option.inject)
    ultimately show ?thesis
      using Push_sorted [OF wf(2) nk sorted d'(1)] by simp
  next
    case (Some item)
    let ?d = "(data h)\<lparr>items := (items (data h))(k \<mapsto> item\<lparr>obj := x\<rparr>)\<rparr>"
    note so = heap_set_obj [OF wf(2) Some, where x = x] and idx = heap_index(1) [OF wf(2) Some]
    have fx: "heap_Fix lf ?d (index item) = Some (data h')"
      using r key Some by (auto simp: Heap_Add_def panic_simps)
    have "heap_defect lt (objs ?d) (index item) (length (queue ?d))"
      by (rule sorted_defect [OF _ _ so(4)]) (use sorted so(3) idx in simp_all)
    then have "heap_sorted lt (objs (data h')) (length (queue ?d))"
      using Fix_sorted [OF so(1) _ _ fx] so(3) idx by simp
    moreover have "length (queue (data h')) = length (queue ?d)"
      using heap_Fix_wf [OF so(1), of "index item" lf] so(3) idx fx by (metis option.inject same_content_def)
    ultimately show ?thesis
      by simp
  qed
  with wf' show ?thesis
    by (simp add: Heap_inv_def)
qed

lemma Delete_defect_inv:
  assumes wf: "Heap_wf kf h" and key: "kf x = Inr k" and item: "items (data h) k = Some item"
    and d: "heap_defect lt (objs (data h)) (index item) (length (queue (data h)))"
    and r: "Heap_Delete kf lf h x = Some (None, h')"
  shows "Heap_inv kf lt h'"
proof -
  have hw: "heap_wf (data h)"
    using wf by (simp add: Heap_wf_def)
  note idx = heap_index [OF hw item]
  obtain y where y: "heap_Remove lf (data h) (index item) = Some (y, data h')"
    using r key item by (auto simp: Heap_Delete_def panic_simps)
  have "Heap_abs h k \<noteq> None"
    using item by (simp add: Heap_abs_def heap_abs_def)
  then have "Heap_wf kf h'"
    using Heap_Delete_wf [OF wf key, of lf] r by auto
  moreover have "length (queue (data h')) = length (queue (data h)) - 1"
    using heap_Remove_wf [OF hw idx(1), of lf] y by (metis option.inject prod.inject)
  ultimately show ?thesis
    using Remove_sorted [OF hw d idx(1) y] by (simp add: Heap_inv_def)
qed

lemma Delete_inv:
  assumes inv: "Heap_inv kf lt h" and key: "kf x = Inr k" and r: "Heap_Delete kf lf h x = Some (None, h')"
  shows "Heap_inv kf lt h'"
proof -
  have wf: "Heap_wf kf h" "heap_wf (data h)" and sorted: "heap_sorted lt (objs (data h)) (length (queue (data h)))"
    using inv by (simp_all add: Heap_inv_def Heap_wf_def)
  obtain item where item: "items (data h) k = Some item"
    using r key by (auto simp: Heap_Delete_def split: option.splits)
  show ?thesis
    using Delete_defect_inv [OF wf(1) key item _ r] sorted_defect [OF sorted heap_index(1) [OF wf(2) item] refl]
    by blast
qed

lemma Pop_inv:
  assumes inv: "Heap_inv kf lt h" and r: "Heap_Pop lf h = Some (Inr x, h')"
  shows "Heap_inv kf lt h'"
proof -
  have wf: "Heap_wf kf h" "heap_wf (data h)" and sorted: "heap_sorted lt (objs (data h)) (length (queue (data h)))"
    using inv by (simp_all add: Heap_inv_def Heap_wf_def)
  obtain y where y: "heap_Pop lf (data h) = Some (y, data h')"
    using r by (auto simp: Heap_Pop_def panic_simps split: option.splits)
  then have ne: "queue (data h) \<noteq> []"
    by (auto simp: heap_Pop_def heapData_Len_def)
  then have "Heap_abs h \<noteq> Map.empty"
    using dom_heap_abs [OF wf(2)] by (auto simp: Heap_abs_def)
  then have "Heap_wf kf h'"
    using Heap_Pop_wf [OF wf(1), of lf] r by auto
  moreover have "length (queue (data h')) = length (queue (data h)) - 1"
    using heap_Pop_wf [OF wf(2) ne, of lf] y by (metis option.inject prod.inject)
  ultimately show ?thesis
    using Remove_sorted [OF wf(2) sorted_defect [OF sorted _ refl], of 0] y ne heap_Pop_Remove [OF wf(2) ne]
    by (simp add: Heap_inv_def)
qed

lemma Pop_min:
  assumes inv: "Heap_inv kf lt h" and ne: "Heap_abs h \<noteq> Map.empty"
  shows "\<exists>k x h'. Heap_Pop lf h = Some (Inr x, h') \<and> Heap_inv kf lt h' \<and> Heap_abs h k = Some x \<and>
    Heap_abs h' = (Heap_abs h)(k := None) \<and> (\<forall>y \<in> ran (Heap_abs h). \<not> lt y x)"
proof -
  have wf: "Heap_wf kf h" "heap_wf (data h)" and sorted: "heap_sorted lt (objs (data h)) (length (queue (data h)))"
    using inv by (simp_all add: Heap_inv_def Heap_wf_def)
  obtain h' x where p: "Heap_Pop lf h = Some (Inr x, h')" "Heap_abs h (queue (data h) ! 0) = Some x"
      "Heap_abs h' = (Heap_abs h)(queue (data h) ! 0 := None)"
    using Heap_Pop_wf [OF wf(1) ne] by blast
  have dom: "dom (Heap_abs h) = set (queue (data h))"
    using dom_heap_abs [OF wf(2)] by (simp add: Heap_abs_def)
  then have "0 < length (queue (data h))"
    using ne by auto
  then have x: "x = objs (data h) ! 0"
    using p(2) by (simp add: objs_def Heap_abs_def)
  have "\<not> lt y x" if "Heap_abs h k = Some y" for k y
  proof -
    have "k \<in> set (queue (data h))"
      using that dom by auto
    then obtain i where "i < length (queue (data h))" "queue (data h) ! i = k"
      by (auto simp: in_set_conv_nth)
    then show ?thesis
      using sorted_min [OF sorted, of i] that x by (simp add: objs_def Heap_abs_def)
  qed
  then show ?thesis
    using p Pop_inv [OF inv p(1)] by (auto simp: ran_def)
qed

end

sublocale heap_order \<subseteq> heap_pq: keyed_pq kf "Heap_inv kf lt" Heap_abs "Heap_Add kf lf" "Heap_Delete kf lf"
    "Heap_Get kf" lt "Heap_Pop lf" Heap_Len
  for kf :: "'a keyFunc"
proof (unfold_locales, goal_cases)
  case 1
  then show ?case
    by (auto simp: Heap_inv_def intro: Heap_wf_finite)
next
  case 2
  then show ?case
    by (simp add: Heap_inv_def Heap_wf_def Heap_abs_def)
next
  case (3 h x k)
  then show ?case
    using heap_store.add_ok [of kf h x k lf] Add_inv [of kf h x k] by (auto simp: Heap_inv_def)
next
  case (4 h x k)
  then show ?case
    using heap_store.del_ok [of kf h x k lf] Delete_inv [of kf h x k] by (auto simp: Heap_inv_def)
next
  case 5
  then show ?case
    by (simp add: Heap_Delete_absent)
next
  case 6
  then show ?case
    by (simp add: Heap_Get_abs)
next
  case 7
  then show ?case
    by (auto simp: Heap_inv_def intro: Heap_Len_card)
next
  case 8
  then show ?case
    by (rule Pop_min)
qed

section \<open>Sequences of operations\<close>

datatype 'a heap_op = OpAdd 'a | OpAddIfNotPresent 'a | OpUpdate 'a | OpDelete 'a | OpPop

text \<open>Callers pop only a heap whose \<open>Len\<close> is positive.\<close>

fun heap_step :: "'a keyFunc \<Rightarrow> 'a lessFunc \<Rightarrow> 'a heap_op \<Rightarrow> 'a Heap \<Rightarrow> 'a Heap option" where
  "heap_step kf lf (OpAdd x) h = map_option snd (Heap_Add kf lf h x)"
| "heap_step kf lf (OpAddIfNotPresent x) h = map_option snd (Heap_AddIfNotPresent kf lf h x)"
| "heap_step kf lf (OpUpdate x) h = map_option snd (Heap_Update kf lf h x)"
| "heap_step kf lf (OpDelete x) h = map_option snd (Heap_Delete kf lf h x)"
| "heap_step kf lf OpPop h = (if Heap_Len h = 0 then Some h else map_option snd (Heap_Pop lf h))"

lemma Heap_AddIfNotPresent_Add:
  "kf x = Inr k \<Longrightarrow> Heap_AddIfNotPresent kf lf h x =
     (if Heap_abs h k = None then Heap_Add kf lf h x else Some (None, h))"
  by (auto simp: Heap_AddIfNotPresent_def Heap_Add_def Heap_abs_def heap_abs_def split: option.splits)

lemma Heap_key_error:
  assumes "kf x = Inl e"
  shows "Heap_Add kf lf h x = Some (Some (KeyError e), h)"
    "Heap_AddIfNotPresent kf lf h x = Some (Some (KeyError e), h)"
    "Heap_Delete kf lf h x = Some (Some (KeyError e), h)"
  using assms by (simp_all add: Heap_Add_def Heap_AddIfNotPresent_def Heap_Delete_def)

lemma Heap_Len_pos: "Heap_wf kf h \<Longrightarrow> Heap_Len h \<noteq> 0 \<Longrightarrow> Heap_abs h \<noteq> Map.empty"
  using Heap_Len_card by fastforce

lemma heap_step_wf:
  assumes wf: "Heap_wf kf h"
  shows "\<exists>h'. heap_step kf lf op h = Some h' \<and> Heap_wf kf h'"
proof -
  have add: "\<exists>h'. map_option snd (Heap_Add kf lf h x) = Some h' \<and> Heap_wf kf h'" for x
    using heap_store.add_ok [OF wf, of x _ lf] Heap_key_error(1) [of kf x] wf
    by (cases "kf x") auto
  show ?thesis
  proof (cases op)
    case (OpAddIfNotPresent x)
    then show ?thesis
      using add [of x] wf Heap_key_error(2) [of kf x] Heap_AddIfNotPresent_Add [of kf x]
      by (cases "kf x") auto
  next
    case (OpDelete x)
    then show ?thesis
      using heap_store.del_total [OF wf, of x _ lf] wf Heap_key_error(3) [of kf x]
      by (cases "kf x") fastforce+
  next
    case OpPop
    then show ?thesis
      using Heap_Pop_wf [OF wf Heap_Len_pos [OF wf], of lf] wf by auto
  qed (use add in \<open>simp_all add: Heap_Update_def\<close>)
qed

context heap_order
begin

lemma step_inv:
  assumes inv: "Heap_inv kf lt h"
  shows "\<exists>h'. heap_step kf lf op h = Some h' \<and> Heap_inv kf lt h'"
proof -
  have add: "\<exists>h'. map_option snd (Heap_Add kf lf h x) = Some h' \<and> Heap_inv kf lt h'" for x
    using heap_pq.add_ok [OF inv, of x] Heap_key_error(1) [of kf x] inv
    by (cases "kf x") auto
  show ?thesis
  proof (cases op)
    case (OpAddIfNotPresent x)
    then show ?thesis
      using add [of x] inv Heap_key_error(2) [of kf x] Heap_AddIfNotPresent_Add [of kf x]
      by (cases "kf x") auto
  next
    case (OpDelete x)
    then show ?thesis
      using heap_pq.del_total [OF inv, of x] inv Heap_key_error(3) [of kf x]
      by (cases "kf x") fastforce+
  next
    case OpPop
    have wf: "Heap_wf kf h"
      using inv by (simp add: Heap_inv_def)
    show ?thesis
      using OpPop heap_pq.pop_ok [OF inv Heap_Len_pos [OF wf]] inv by auto
  qed (use add in \<open>simp_all add: Heap_Update_def\<close>)
qed

lemma Heap_Add_order:
  "Heap_inv kf lt h \<Longrightarrow> kf x = Inr k \<Longrightarrow>
   \<exists>h'. Heap_Add kf lf h x = Some (None, h') \<and> Heap_inv kf lt h' \<and> Heap_abs h' = (Heap_abs h)(k \<mapsto> x)"
  by (rule heap_pq.add_ok)

lemma Heap_Delete_order:
  "Heap_inv kf lt h \<Longrightarrow> kf x = Inr k \<Longrightarrow>
   \<exists>e h'. Heap_Delete kf lf h x = Some (e, h') \<and> Heap_inv kf lt h' \<and> Heap_abs h' = (Heap_abs h)(k := None) \<and>
     (e = None \<longleftrightarrow> Heap_abs h k \<noteq> None)"
  by (rule heap_pq.del_total)

lemma run_inv: "Heap_inv kf lt h \<Longrightarrow> \<exists>h'. foldM (heap_step kf lf) ops h = Some h' \<and> Heap_inv kf lt h'"
  by (rule foldM_invariant) (rule step_inv)

lemma drain_sorted:
  assumes "Heap_inv kf lt h"
  shows "\<exists>xs h'. pop_n (Heap_Pop lf) (Heap_Len h) h = Some (xs, h') \<and> Heap_abs h' = Map.empty \<and>
    sorted_wrt (\<lambda>x y. \<not> lt y x) xs \<and> set xs = ran (Heap_abs h) \<and> distinct (map (key_of kf) xs)"
  using heap_pq.pop_n_sorted [OF assms refl] by blast

end

lemma heap_order_self: "strict_weak_order lt \<Longrightarrow> heap_order lt lt"
  by (simp add: heap_order_def heap_order_axioms_def strict_weak_order.asym)

section \<open>Properties\<close>

text \<open>
  C4: a \<open>Heap\<close> is a map from keys to objects, whatever the comparison: on a well-formed heap no
  operation panics, \<open>Add\<close> (and \<open>Update\<close>) binds the key of the object, \<open>AddIfNotPresent\<close> binds it only
  when it is free, \<open>Delete\<close> unbinds it and reports an error exactly when it was free, \<open>Get\<close> reads it,
  and every result is well-formed again.
\<close>

theorem Heap_refines_map:
  assumes "Heap_wf kf h" and "kf x = Inr k"
  shows "(\<exists>h'. Heap_Add kf lf h x = Some (None, h') \<and> Heap_wf kf h' \<and> Heap_abs h' = (Heap_abs h)(k \<mapsto> x))
    \<and> (\<exists>h'. Heap_AddIfNotPresent kf lf h x = Some (None, h') \<and> Heap_wf kf h' \<and>
          Heap_abs h' = (if Heap_abs h k = None then (Heap_abs h)(k \<mapsto> x) else Heap_abs h))
    \<and> (\<exists>e h'. Heap_Delete kf lf h x = Some (e, h') \<and> Heap_wf kf h' \<and> Heap_abs h' = (Heap_abs h)(k := None)
          \<and> (e = None \<longleftrightarrow> Heap_abs h k \<noteq> None))
    \<and> Heap_Get kf h x = Inr (Heap_abs h k)"
  using heap_store.add_ok [OF assms] heap_store.del_total [OF assms] heap_store.get_ok [OF assms]
    Heap_AddIfNotPresent_Add [of kf x k lf h] assms
  by auto

theorem Heap_refines_map_witness:
  "\<exists>h'. Heap_Add (\<lambda>(k, _). Inr k) (\<lambda>a b. snd a < snd b) NewHeap (''a'', 3 :: nat) = Some (None, h') \<and>
     Heap_abs h' = [''a'' \<mapsto> (''a'', 3)]"
  using Heap_refines_map [of "\<lambda>(k, _). Inr k" NewHeap "(''a'', 3 :: nat)" "''a''" "\<lambda>a b. snd a < snd b"]
  by auto

text \<open>
  C16: with a comparison that is a strict weak order, popping a heap until it is empty never panics
  and returns every stored object exactly once, in an order in which no later object is before an
  earlier one.
\<close>

theorem Heap_Pop_sorts:
  assumes "strict_weak_order lf" and "Heap_inv kf lf h"
  shows "\<exists>xs h'. pop_n (Heap_Pop lf) (Heap_Len h) h = Some (xs, h') \<and> Heap_abs h' = Map.empty \<and>
    sorted_wrt (\<lambda>x y. \<not> lf y x) xs \<and> set xs = ran (Heap_abs h) \<and> distinct (map (key_of kf) xs)"
  using heap_order.drain_sorted [OF heap_order_self [OF assms(1)] assms(2)] .

lemma strict_weak_order_key: "strict_weak_order (\<lambda>a b. f a < (f b :: 'b :: linorder))"
  by unfold_locales auto

theorem Heap_Pop_sorts_witness:
  "\<exists>h xs h'. foldM (heap_step (\<lambda>(k, _). Inr k) (\<lambda>a b. snd a < snd b))
       [OpAdd (''a'', 3 :: nat), OpAdd (''b'', 1), OpAdd (''c'', 2)] NewHeap = Some h \<and>
     pop_n (Heap_Pop (\<lambda>a b. snd a < snd b)) (Heap_Len h) h = Some (xs, h') \<and> set xs = ran (Heap_abs h)"
  using heap_order.run_inv [OF heap_order_self [OF strict_weak_order_key [of snd]] NewHeap_inv(1), of
      "\<lambda>(k, _). Inr k" "[OpAdd (''a'', 3 :: nat), OpAdd (''b'', 1), OpAdd (''c'', 2)]"]
    Heap_Pop_sorts [OF strict_weak_order_key [of "snd :: string \<times> nat \<Rightarrow> nat"], of "\<lambda>(k, _). Inr k"]
  by blast



end
