(* ===== verification/SchedTypes.thy ===== *)
theory SchedTypes
  imports GoPrelude Complex_Main
begin

text \<open>
  The data of \<open>pkg/scheduler/types/types.go\<close> that the modelled components read: stacks (a group of
  resources to place), selectors, sites, and the small structs they are made of; the site attributes
  and hosts are those of \<open>pkg/scheduler/client/typed/typed.go\<close>. Field names are those of
  the code, prefixed where two structs share one. Pointers to stacks, sites and resources are modelled
  by the value they point to. A \<open>float32\<close> is read as the rational number it denotes.
\<close>

record GeoLocation =
  Country :: string
  Area :: string
  Province :: string
  City :: string

record CloudRegion =
  cr_Region :: string
  cr_AvailabilityZone :: "string list"

record RegionAzMap =
  Region :: string
  AvailabilityZone :: string

record Strategy =
  LocationStrategy :: string
  RegionStrategy :: string

record Spot =
  MaxPrice :: string
  SpotDurationHours :: int
  SpotDurationCount :: int
  InterruptionPolicy :: string

record Flavor =
  FlavorID :: string
  flavor_Spot :: "Spot option"

record Resource =
  res_Name :: string
  ResourceType :: string
  Flavors :: "Flavor list"
  Storage :: "string \<rightharpoonup> int"
  NeedEip :: bool
  Count :: int
  FlavorIDSelected :: string

record LabelRequirement =
  lr_Key :: string
  lr_Operator :: string
  StrValues :: "string list"

record Selector =
  sel_GeoLocation :: GeoLocation
  Regions :: "CloudRegion list"
  sel_Operator :: string
  sel_SiteID :: string
  sel_Strategy :: Strategy
  StackAffinity :: "LabelRequirement list"
  StackAntiAffinity :: "LabelRequirement list"

record Selected =
  sd_SiteID :: string
  sd_Region :: string
  sd_AvailabilityZone :: string
  sd_ClusterName :: string
  sd_ClusterNamespace :: string

record Stack =
  PodName :: string
  Labels :: "string \<rightharpoonup> string"
  Resources :: "Resource list"
  stk_Selector :: Selector
  stk_Selected :: Selected
  UID :: string
  CreateTime :: int
  Tenant :: string
  PodNamespace :: string

text \<open>\<open>DeepCopy\<close> returns its receiver.\<close>

definition Stack_DeepCopy :: "Stack \<Rightarrow> Stack" where
  "Stack_DeepCopy s = s"

record SiteAttribute =
  sa_ID :: string
  sa_Key :: string
  sa_Value :: string

record Host =
  HostID :: string
  HostName :: string
  TotalDisk :: int
  UsedDisk :: int
  TotalVCPUs :: int
  UsedVCPUs :: int
  TotalMem :: int
  UsedMem :: int
  host_State :: string
  host_Status :: string
  host_ResourceType :: string
  CPUAllocationRatio :: string
  EcsPerformanceType :: string
  host_MaxCount :: int

record PreemptibleResource =
  Uuid :: string
  pr_Region :: string
  pr_AvailabilityZone :: string
  AnalyzedAt :: int
  TargetResource :: string
  ForecastAt :: int
  FlavorType :: string
  FlavorName :: string
  Confidence :: int
  pr_InterruptionPolicy :: string
  Block :: bool
  Infinite :: rat
  Finite :: "string \<rightharpoonup> rat"

record SpotResource =
  CpuBlockDelayResource :: PreemptibleResource
  MemoryBlockDelayResource :: PreemptibleResource
  CpuDelayResource :: PreemptibleResource
  MemoryDelayResource :: PreemptibleResource
  CpuBlockImmediateResource :: PreemptibleResource
  MemoryBlockImmediateResource :: PreemptibleResource
  CpuImmediateResource :: PreemptibleResource
  MemoryImmediateResource :: PreemptibleResource

record Site =
  SiteID :: string
  ClusterName :: string
  ClusterNamespace :: string
  site_GeoLocation :: GeoLocation
  site_RegionAzMap :: RegionAzMap
  Operator :: string
  Status :: string
  site_SiteAttribute :: "SiteAttribute list"
  EipTypeName :: string
  SpotResources :: "string \<rightharpoonup> SpotResource"
  Hosts :: "Host list"

text \<open>\<open>Clone\<close> drops the site attributes, the spot resources and the hosts.\<close>

definition Site_Clone :: "Site \<Rightarrow> Site" where
  "Site_Clone sn =
     \<lparr>SiteID = SiteID sn, ClusterName = ClusterName sn, ClusterNamespace = ClusterNamespace sn,
      site_GeoLocation = site_GeoLocation sn, site_RegionAzMap = site_RegionAzMap sn,
      Operator = Operator sn, Status = Status sn, site_SiteAttribute = [],
      EipTypeName = EipTypeName sn, SpotResources = Map.empty, Hosts = []\<rparr>"

record CPUAndMemory =
  VCPU :: int
  Memory :: int

definition CPUAndMemory_Clone :: "CPUAndMemory \<Rightarrow> CPUAndMemory" where
  "CPUAndMemory_Clone cm = \<lparr>VCPU = VCPU cm, Memory = Memory cm\<rparr>"

section \<open>Zero values\<close>

definition zero_GeoLocation :: GeoLocation where
  "zero_GeoLocation = \<lparr>Country = [], Area = [], Province = [], City = []\<rparr>"

definition zero_Selected :: Selected where
  "zero_Selected =
     \<lparr>sd_SiteID = [], sd_Region = [], sd_AvailabilityZone = [], sd_ClusterName = [], sd_ClusterNamespace = []\<rparr>"

definition zero_Selector :: Selector where
  "zero_Selector =
     \<lparr>sel_GeoLocation = zero_GeoLocation, Regions = [], sel_Operator = [], sel_SiteID = [],
      sel_Strategy = \<lparr>LocationStrategy = [], RegionStrategy = []\<rparr>, StackAffinity = [], StackAntiAffinity = []\<rparr>"

definition zero_Stack :: Stack where
  "zero_Stack =
     \<lparr>PodName = [], Labels = Map.empty, Resources = [], stk_Selector = zero_Selector,
      stk_Selected = zero_Selected, UID = [], CreateTime = 0, Tenant = [], PodNamespace = []\<rparr>"

definition zero_Site :: Site where
  "zero_Site =
     \<lparr>SiteID = [], ClusterName = [], ClusterNamespace = [], site_GeoLocation = zero_GeoLocation,
      site_RegionAzMap = \<lparr>Region = [], AvailabilityZone = []\<rparr>, Operator = [], Status = [],
      site_SiteAttribute = [], EipTypeName = [], SpotResources = Map.empty, Hosts = []\<rparr>"

section \<open>Names of stacks\<close>

text \<open>
  \<open>utils.GetStackFullName\<close> (\<open>pkg/scheduler/utils/utils.go\<close>), \<open>utils.GetStackPriority\<close> and the
  namespaced name of the queue.
\<close>

record NamespacedName =
  nn_Tenant :: string
  nn_Namespace :: string
  nn_Name :: string

definition GetStackFullName :: "Stack \<Rightarrow> string" where
  "GetStackFullName stack = PodName stack @ ''_'' @ PodNamespace stack"

definition GetStackPriority :: "Stack \<Rightarrow> int" where
  "GetStackPriority stack = 0"

lemma Site_Clone_ids [simp]:
  "SiteID (Site_Clone s) = SiteID s" "site_RegionAzMap (Site_Clone s) = site_RegionAzMap s"
  "Status (Site_Clone s) = Status s" "Operator (Site_Clone s) = Operator s"
  by (simp_all add: Site_Clone_def)

lemma Site_Clone_idem: "Site_Clone (Site_Clone s) = Site_Clone s"
  by (simp add: Site_Clone_def)

end
