(* ===== verification/StackBackoff.thy ===== *)
theory StackBackoff
  imports SchedTypes
begin

text \<open>
  The backoff bookkeeping of the scheduling queue
  (\<open>pkg/scheduler/internal/queue/stack_backoff.go\<close>). Times count nanoseconds from Go's zero time,
  so the zero time is 0. \<open>now\<close> is the reading of \<open>time.Now()\<close>, taken once per call.
\<close>

record StackBackoffMap =
  initialDuration :: duration
  maxDuration :: duration
  stackAttempts :: "NamespacedName \<rightharpoonup> int"
  stackLastUpdateTime :: "NamespacedName \<rightharpoonup> gotime"

definition NewStackBackoffMap :: "duration \<Rightarrow> duration \<Rightarrow> StackBackoffMap" where
  "NewStackBackoffMap i m =
     \<lparr>initialDuration = i, maxDuration = m, stackAttempts = Map.empty, stackLastUpdateTime = Map.empty\<rparr>"

text \<open>The loop of \<open>calculateBackoffDuration\<close>, with the number of iterations left.\<close>

fun backoff_loop :: "duration \<Rightarrow> nat \<Rightarrow> duration \<Rightarrow> duration" where
  "backoff_loop mx 0 d = d"
| "backoff_loop mx (Suc n) d =
     (let d' = wrap64 (d * 2) in if mx < d' then mx else backoff_loop mx n d')"

definition calculateBackoffDuration :: "StackBackoffMap \<Rightarrow> NamespacedName \<Rightarrow> duration" where
  "calculateBackoffDuration pbm nsStack =
     (case stackAttempts pbm nsStack of
        None \<Rightarrow> initialDuration pbm
      | Some n \<Rightarrow> backoff_loop (maxDuration pbm) (nat (n - 1)) (initialDuration pbm))"

definition GetBackoffTime :: "StackBackoffMap \<Rightarrow> NamespacedName \<Rightarrow> gotime \<times> bool" where
  "GetBackoffTime pbm nsStack =
     (case stackAttempts pbm nsStack of
        None \<Rightarrow> (0, False)
      | Some _ \<Rightarrow>
          (map_get 0 (stackLastUpdateTime pbm) nsStack + calculateBackoffDuration pbm nsStack, True))"

definition clearStackBackoff :: "StackBackoffMap \<Rightarrow> NamespacedName \<Rightarrow> StackBackoffMap" where
  "clearStackBackoff pbm nsStack =
     pbm\<lparr>stackAttempts := (stackAttempts pbm)(nsStack := None),
         stackLastUpdateTime := (stackLastUpdateTime pbm)(nsStack := None)\<rparr>"

definition ClearStackBackoff :: "StackBackoffMap \<Rightarrow> NamespacedName \<Rightarrow> StackBackoffMap" where
  "ClearStackBackoff pbm nsStack = clearStackBackoff pbm nsStack"

definition backoff_expired :: "StackBackoffMap \<Rightarrow> gotime \<Rightarrow> NamespacedName \<Rightarrow> bool" where
  "backoff_expired pbm now k =
     (case stackLastUpdateTime pbm k of None \<Rightarrow> False | Some v \<Rightarrow> v + maxDuration pbm < now)"

text \<open>
  The loop deletes the entries it visits that have expired. Deleting one entry does not change
  another, so the result is the same for every iteration order (\<open>cleanup_any_order\<close>).
\<close>

definition CleanupStacksCompletesBackingoff :: "StackBackoffMap \<Rightarrow> gotime \<Rightarrow> StackBackoffMap" where
  "CleanupStacksCompletesBackingoff pbm now =
     pbm\<lparr>stackAttempts := (\<lambda>k. if backoff_expired pbm now k then None else stackAttempts pbm k),
         stackLastUpdateTime := (\<lambda>k. if backoff_expired pbm now k then None else stackLastUpdateTime pbm k)\<rparr>"

definition BackoffStack :: "StackBackoffMap \<Rightarrow> gotime \<Rightarrow> NamespacedName \<Rightarrow> StackBackoffMap" where
  "BackoffStack pbm now nsStack =
     pbm\<lparr>stackLastUpdateTime := (stackLastUpdateTime pbm)(nsStack \<mapsto> now),
         stackAttempts := (stackAttempts pbm)(nsStack \<mapsto> wrap64 (map_get 0 (stackAttempts pbm) nsStack + 1))\<rparr>"

section \<open>The range loop of the cleanup\<close>

definition cleanup_step :: "gotime \<Rightarrow> NamespacedName \<Rightarrow> StackBackoffMap \<Rightarrow> StackBackoffMap" where
  "cleanup_step now k pbm = (if backoff_expired pbm now k then clearStackBackoff pbm k else pbm)"

lemma backoff_expired_clear:
  "backoff_expired (clearStackBackoff pbm k) now k' \<longleftrightarrow> backoff_expired pbm now k' \<and> k' \<noteq> k"
  by (simp add: backoff_expired_def clearStackBackoff_def split: option.split)

lemma cleanup_fold:
  "fold (cleanup_step now) ks pbm =
     pbm\<lparr>stackAttempts := (\<lambda>k. if k \<in> set ks \<and> backoff_expired pbm now k then None else stackAttempts pbm k),
         stackLastUpdateTime :=
           (\<lambda>k. if k \<in> set ks \<and> backoff_expired pbm now k then None else stackLastUpdateTime pbm k)\<rparr>"
proof (induction ks arbitrary: pbm)
  case (Cons a ks)
  show ?case
  proof (cases "backoff_expired pbm now a")
    case True
    then have "cleanup_step now a pbm = clearStackBackoff pbm a"
      by (simp add: cleanup_step_def)
    then show ?thesis
      using True
      by (auto simp: Cons.IH backoff_expired_clear) (auto simp: clearStackBackoff_def fun_eq_iff
          intro!: StackBackoffMap.equality)
  next
    case False
    have *: "k \<in> set (a # ks) \<and> backoff_expired pbm now k \<longleftrightarrow> k \<in> set ks \<and> backoff_expired pbm now k" for k
      using False by auto
    show ?thesis
      unfolding * using False Cons.IH by (simp add: cleanup_step_def)
  qed
qed simp

lemma cleanup_any_order:
  assumes "range_order ks (stackLastUpdateTime pbm)"
  shows "fold (cleanup_step now) ks pbm = CleanupStacksCompletesBackingoff pbm now"
proof -
  have *: "k \<in> set ks \<and> backoff_expired pbm now k \<longleftrightarrow> backoff_expired pbm now k" for k
    using assms by (auto simp: range_order_def backoff_expired_def dom_def split: option.splits)
  show ?thesis
    by (simp add: cleanup_fold CleanupStacksCompletesBackingoff_def *)
qed

section \<open>The duration of the backoff\<close>

lemma backoff_loop_closed:
  "0 \<le> d \<Longrightarrow> d \<le> mx \<Longrightarrow> 2 * mx \<le> maxInt64 \<Longrightarrow> backoff_loop mx n d = min mx (d * 2 ^ n)"
proof (induction n arbitrary: d)
  case (Suc n)
  have w: "wrap64 (d * 2) = d * 2"
    using Suc.prems by (intro wrap64_id) auto
  show ?case
  proof (cases "mx < d * 2")
    case True
    have "d * 2 \<le> d * 2 ^ Suc n"
      using Suc.prems(1) by (intro mult_left_mono) (auto simp: one_le_power)
    then show ?thesis
      using True w by simp
  next
    case False
    then show ?thesis
      using Suc w by (simp add: mult.assoc)
  qed
qed simp

lemma calculateBackoffDuration_closed:
  assumes "stackAttempts pbm k = Some n" "0 \<le> initialDuration pbm"
    and "initialDuration pbm \<le> maxDuration pbm" "2 * maxDuration pbm \<le> maxInt64"
  shows "calculateBackoffDuration pbm k = min (maxDuration pbm) (initialDuration pbm * 2 ^ nat (n - 1))"
  using assms by (simp add: calculateBackoffDuration_def backoff_loop_closed)

lemma BackoffStack_durations [simp]:
  "initialDuration (BackoffStack pbm now k) = initialDuration pbm"
  "maxDuration (BackoffStack pbm now k) = maxDuration pbm"
  by (simp_all add: BackoffStack_def)

text \<open>
  C33: the backoff of a stack after \<open>n\<close> failed attempts is the initial duration doubled \<open>n - 1\<close> times
  and capped at the maximum; it lies between the two, and one more attempt restarts it with a
  duration that is not shorter.
\<close>

theorem backoff_duration_closed_form:
  assumes "stackAttempts pbm k = Some n" "1 \<le> n" "n < maxInt64" "0 \<le> initialDuration pbm"
    and "initialDuration pbm \<le> maxDuration pbm" "2 * maxDuration pbm \<le> maxInt64"
  shows "calculateBackoffDuration pbm k = min (maxDuration pbm) (initialDuration pbm * 2 ^ nat (n - 1))
    \<and> calculateBackoffDuration pbm k \<in> {initialDuration pbm .. maxDuration pbm}
    \<and> calculateBackoffDuration pbm k \<le> calculateBackoffDuration (BackoffStack pbm now k) k
    \<and> GetBackoffTime (BackoffStack pbm now k) k =
        (now + min (maxDuration pbm) (initialDuration pbm * 2 ^ nat n), True)"
proof -
  let ?i = "initialDuration pbm" and ?p = "BackoffStack pbm now k"
  have att: "stackAttempts ?p k = Some (n + 1)"
    using assms(1-3) by (simp add: BackoffStack_def)
  have c: "calculateBackoffDuration pbm k = min (maxDuration pbm) (?i * 2 ^ nat (n - 1))"
    using calculateBackoffDuration_closed assms by blast
  have c': "calculateBackoffDuration ?p k = min (maxDuration pbm) (?i * 2 ^ nat n)"
    using calculateBackoffDuration_closed [OF att] assms by simp
  have one: "?i * 1 \<le> ?i * 2 ^ nat (n - 1)" "?i * 2 ^ nat (n - 1) \<le> ?i * 2 ^ nat n"
    using assms(4) by (intro mult_left_mono power_increasing nat_mono; simp)+
  have "GetBackoffTime ?p k = (now + calculateBackoffDuration ?p k, True)"
    using att by (simp add: GetBackoffTime_def) (simp add: BackoffStack_def)
  with c c' one assms(5) show ?thesis
    by (auto intro: min.coboundedI2)
qed

theorem backoff_duration_closed_form_witness:
  "\<exists>pbm k. stackAttempts pbm k = Some 4 \<and> initialDuration pbm = 1000000000 \<and>
     calculateBackoffDuration pbm k = 8000000000 \<and>
     GetBackoffTime (BackoffStack pbm 7 k) k = (10000000007, True)"
proof (intro exI conjI)
  let ?k = "\<lparr>nn_Tenant = ''t'', nn_Namespace = ''ns'', nn_Name = ''n''\<rparr>"
  let ?pbm = "(NewStackBackoffMap 1000000000 10000000000)\<lparr>stackAttempts := [?k \<mapsto> 4]\<rparr>"
  show "stackAttempts ?pbm ?k = Some 4" "initialDuration ?pbm = 1000000000"
    by (simp_all add: NewStackBackoffMap_def)
  then show "calculateBackoffDuration ?pbm ?k = 8000000000"
    "GetBackoffTime (BackoffStack ?pbm 7 ?k) ?k = (10000000007, True)"
    using backoff_duration_closed_form [of ?pbm ?k 4 7] by (simp_all add: NewStackBackoffMap_def)
qed

end
