(* ===== verification/SchedulingQueue.thy ===== *)
theory SchedulingQueue
  imports HeapOrder StackBackoff
begin

text \<open>
  The priority queue of stacks waiting to be scheduled
  (\<open>pkg/scheduler/internal/queue/scheduling_queue.go\<close>): the state and every operation.

  The operations hold the queue's lock throughout, so each is one atomic step on the record
  \<open>PriorityQueue\<close>. \<open>lessFn\<close> is the comparison of the active queue chosen at construction. \<open>now\<close> is the
  reading of the injected clock and \<open>tnow\<close> that of \<open>time.Now()\<close>, which the backoff map uses; each is
  read once per call. \<open>ks\<close> is the iteration order of the unschedulable map. \<open>Pop\<close> on an empty queue
  that is not closed waits on the condition variable: that outcome is \<open>PopBlocked\<close>.
\<close>

section \<open>Stack infos and the unschedulable map\<close>

record StackInfo =
  si_Stack :: Stack
  Timestamp :: gotime
  Attempts :: int
  InitialAttemptTimestamp :: gotime

definition newStackInfoNoTimestamp :: "Stack \<Rightarrow> StackInfo" where
  "newStackInfoNoTimestamp stack =
     \<lparr>si_Stack = stack, Timestamp = 0, Attempts = 0, InitialAttemptTimestamp = 0\<rparr>"

definition newStackInfo :: "gotime \<Rightarrow> Stack \<Rightarrow> StackInfo" where
  "newStackInfo now stack =
     \<lparr>si_Stack = stack, Timestamp = now, Attempts = 0, InitialAttemptTimestamp = 0\<rparr>"

definition stackInfoKeyFunc :: "StackInfo keyFunc" where
  "stackInfoKeyFunc i =
     (let stack = si_Stack i in Inr (Tenant stack @ ''/'' @ PodNamespace stack @ ''/'' @ PodName stack))"

definition activeQComp :: "StackInfo \<Rightarrow> StackInfo \<Rightarrow> bool" where
  "activeQComp p1 p2 =
     (let prio1 = GetStackPriority (si_Stack p1); prio2 = GetStackPriority (si_Stack p2)
      in prio2 < prio1 \<or> (prio1 = prio2 \<and> Timestamp p1 < Timestamp p2))"

type_synonym UnschedulableStacksMap = "string \<rightharpoonup> StackInfo"

definition addOrUpdate :: "UnschedulableStacksMap \<Rightarrow> StackInfo \<Rightarrow> UnschedulableStacksMap" where
  "addOrUpdate u pInfo = u(GetStackFullName (si_Stack pInfo) \<mapsto> pInfo)"

definition unschedulable_delete :: "UnschedulableStacksMap \<Rightarrow> Stack \<Rightarrow> UnschedulableStacksMap" where
  "unschedulable_delete u stack = u(GetStackFullName stack := None)"

definition unschedulable_get :: "UnschedulableStacksMap \<Rightarrow> Stack \<Rightarrow> StackInfo option" where
  "unschedulable_get u stack = u (GetStackFullName stack)"

definition unschedulable_clear :: "UnschedulableStacksMap \<Rightarrow> UnschedulableStacksMap" where
  "unschedulable_clear u = Map.empty"

section \<open>Nominated stacks\<close>

record nominatedStackMap =
  nominatedStacks :: "string \<rightharpoonup> Stack list"
  nominatedStackToSite :: "string \<rightharpoonup> string"

definition NominatedSiteID :: "Stack \<Rightarrow> string" where
  "NominatedSiteID stack = []"

definition newNominatedStackMap :: nominatedStackMap where
  "newNominatedStackMap = \<lparr>nominatedStacks = Map.empty, nominatedStackToSite = Map.empty\<rparr>"

definition nominated_delete :: "nominatedStackMap \<Rightarrow> Stack \<Rightarrow> nominatedStackMap" where
  "nominated_delete npm p =
     (case nominatedStackToSite npm (UID p) of
        None \<Rightarrow> npm
      | Some nnn \<Rightarrow>
          let l = map_get [] (nominatedStacks npm) nnn;
              stacks =
                (case first_index (\<lambda>np. UID np = UID p) l of
                   None \<Rightarrow> nominatedStacks npm
                 | Some i \<Rightarrow>
                     let l' = slice_remove i l in
                     if l' = [] then (nominatedStacks npm)(nnn := None)
                     else (nominatedStacks npm)(nnn \<mapsto> l'))
          in \<lparr>nominatedStacks = stacks,
              nominatedStackToSite = (nominatedStackToSite npm)(UID p := None)\<rparr>)"

definition nominated_add :: "nominatedStackMap \<Rightarrow> Stack \<Rightarrow> string \<Rightarrow> nominatedStackMap" where
  "nominated_add npm0 p siteID =
     (let npm = nominated_delete npm0 p;
          nnn = (if siteID = [] then NominatedSiteID p else siteID)
      in if nnn = [] then npm
         else
           let npm1 = npm\<lparr>nominatedStackToSite := (nominatedStackToSite npm)(UID p \<mapsto> nnn)\<rparr>;
               l = map_get [] (nominatedStacks npm1) nnn
           in if \<exists>np \<in> set l. UID np = UID p then npm1
              else npm1\<lparr>nominatedStacks := (nominatedStacks npm1)(nnn \<mapsto> l @ [p])\<rparr>)"

text \<open>\<open>update\<close> reads the UID of the old stack, so a nil old stack panics.\<close>

definition nominated_update ::
  "nominatedStackMap \<Rightarrow> Stack option \<Rightarrow> Stack \<Rightarrow> nominatedStackMap option" where
  "nominated_update npm oldStack newStack =
     (case oldStack of
        None \<Rightarrow> None
      | Some os \<Rightarrow>
          let siteID =
                (if NominatedSiteID os = [] \<and> NominatedSiteID newStack = []
                 then map_get [] (nominatedStackToSite npm) (UID os) else [])
          in Some (nominated_add (nominated_delete npm os) newStack siteID))"

definition stacksForSite :: "nominatedStackMap \<Rightarrow> string \<Rightarrow> Stack list" where
  "stacksForSite npm siteID = map_get [] (nominatedStacks npm) siteID"

section \<open>The queue\<close>

record PriorityQueue =
  stackBackoff :: StackBackoffMap
  activeQ :: "StackInfo Heap"
  stackBackoffQ :: "StackInfo Heap"
  unschedulableQ :: UnschedulableStacksMap
  nominatedMap :: nominatedStackMap
  schedulingCycle :: int
  moveRequestCycle :: int
  closed :: bool

datatype queue_error =
    HeapError heap_error
  | AlreadyInUnschedulableQ
  | AlreadyInActiveQ
  | AlreadyInBackoffQ
  | BackoffAddError heap_error
  | QueueClosed

type_synonym queue_result = "(queue_error option \<times> PriorityQueue) option"

definition NewPriorityQueue :: PriorityQueue where
  "NewPriorityQueue =
     \<lparr>stackBackoff = NewStackBackoffMap 1000000000 10000000000,
      activeQ = NewHeap, stackBackoffQ = NewHeap, unschedulableQ = Map.empty,
      nominatedMap = newNominatedStackMap, schedulingCycle = 0, moveRequestCycle = - 1, closed = False\<rparr>"

definition nsNameForStack :: "Stack \<Rightarrow> NamespacedName" where
  "nsNameForStack stack =
     \<lparr>nn_Tenant = Tenant stack, nn_Namespace = PodNamespace stack, nn_Name = PodName stack\<rparr>"

definition stacksCompareBackoffCompleted :: "StackBackoffMap \<Rightarrow> StackInfo \<Rightarrow> StackInfo \<Rightarrow> bool" where
  "stacksCompareBackoffCompleted pbm p1 p2 =
     (fst (GetBackoffTime pbm (nsNameForStack (si_Stack p1)))
        < fst (GetBackoffTime pbm (nsNameForStack (si_Stack p2))))"

text \<open>The heap operations as the queue calls them, with the comparisons of the two heaps.\<close>

abbreviation active_Add where
  "active_Add lessFn p i \<equiv> Heap_Add stackInfoKeyFunc lessFn (activeQ p) i"

abbreviation active_Delete where
  "active_Delete lessFn p i \<equiv> Heap_Delete stackInfoKeyFunc lessFn (activeQ p) i"

abbreviation backoff_Add where
  "backoff_Add p i \<equiv>
     Heap_Add stackInfoKeyFunc (stacksCompareBackoffCompleted (stackBackoff p)) (stackBackoffQ p) i"

abbreviation backoff_Delete where
  "backoff_Delete p i \<equiv>
     Heap_Delete stackInfoKeyFunc (stacksCompareBackoffCompleted (stackBackoff p)) (stackBackoffQ p) i"

text \<open>\<open>_, exists, _ := heap.Get(pInfo)\<close>\<close>

definition heap_exists :: "StackInfo Heap \<Rightarrow> StackInfo \<Rightarrow> StackInfo option" where
  "heap_exists h i = (case Heap_Get stackInfoKeyFunc h i of Inl _ \<Rightarrow> None | Inr r \<Rightarrow> r)"

definition PQ_Add :: "(StackInfo \<Rightarrow> StackInfo \<Rightarrow> bool) \<Rightarrow> gotime \<Rightarrow> PriorityQueue \<Rightarrow> Stack \<Rightarrow> queue_result" where
  "PQ_Add lessFn now p stack = do {
     let pInfo = newStackInfo now stack;
     (err, a) \<leftarrow> active_Add lessFn p pInfo;
     case err of
       Some e \<Rightarrow> Some (Some (HeapError e), p\<lparr>activeQ := a\<rparr>)
     | None \<Rightarrow> do {
         let p1 = p\<lparr>activeQ := a\<rparr>;
         let p2 = (if unschedulable_get (unschedulableQ p1) stack \<noteq> None
                   then p1\<lparr>unschedulableQ := unschedulable_delete (unschedulableQ p1) stack\<rparr> else p1);
         (_, b) \<leftarrow> backoff_Delete p2 pInfo;
         let p3 = p2\<lparr>stackBackoffQ := b\<rparr>;
         Some (None, p3\<lparr>nominatedMap := nominated_add (nominatedMap p3) stack []\<rparr>) } }"

definition PQ_AddIfNotPresent ::
  "(StackInfo \<Rightarrow> StackInfo \<Rightarrow> bool) \<Rightarrow> gotime \<Rightarrow> PriorityQueue \<Rightarrow> Stack \<Rightarrow> queue_result" where
  "PQ_AddIfNotPresent lessFn now p stack =
     (if unschedulable_get (unschedulableQ p) stack \<noteq> None then Some (None, p)
      else
        let pInfo = newStackInfo now stack in
        if heap_exists (activeQ p) pInfo \<noteq> None then Some (None, p)
        else if heap_exists (stackBackoffQ p) pInfo \<noteq> None then Some (None, p)
        else do {
          (err, a) \<leftarrow> active_Add lessFn p pInfo;
          let p1 = p\<lparr>activeQ := a\<rparr>;
          case err of
            Some e \<Rightarrow> Some (Some (HeapError e), p1)
          | None \<Rightarrow> Some (None, p1\<lparr>nominatedMap := nominated_add (nominatedMap p1) stack []\<rparr>) })"

definition PQ_clearStackBackoff :: "PriorityQueue \<Rightarrow> Stack \<Rightarrow> PriorityQueue" where
  "PQ_clearStackBackoff p stack =
     p\<lparr>stackBackoff := ClearStackBackoff (stackBackoff p) (nsNameForStack stack)\<rparr>"

definition isStackBackingOff :: "gotime \<Rightarrow> PriorityQueue \<Rightarrow> Stack \<Rightarrow> bool" where
  "isStackBackingOff now p stack =
     (let (boTime, exists) = GetBackoffTime (stackBackoff p) (nsNameForStack stack)
      in exists \<and> now < boTime)"

definition backoffStack :: "gotime \<Rightarrow> gotime \<Rightarrow> PriorityQueue \<Rightarrow> Stack \<Rightarrow> PriorityQueue" where
  "backoffStack now tnow p stack =
     (let bm = CleanupStacksCompletesBackingoff (stackBackoff p) tnow;
          stackID = nsNameForStack stack;
          (boTime, found) = GetBackoffTime bm stackID
      in p\<lparr>stackBackoff := (if \<not> found \<or> boTime < now then BackoffStack bm tnow stackID else bm)\<rparr>)"

definition AddUnschedulableIfNotPresent ::
  "gotime \<Rightarrow> gotime \<Rightarrow> PriorityQueue \<Rightarrow> Stack \<Rightarrow> int \<Rightarrow> queue_result" where
  "AddUnschedulableIfNotPresent now tnow p stack stackSchedulingCycle =
     (if unschedulable_get (unschedulableQ p) stack \<noteq> None then Some (Some AlreadyInUnschedulableQ, p)
      else
        let pInfo = newStackInfo now stack in
        if heap_exists (activeQ p) pInfo \<noteq> None then Some (Some AlreadyInActiveQ, p)
        else if heap_exists (stackBackoffQ p) pInfo \<noteq> None then Some (Some AlreadyInBackoffQ, p)
        else
          let p1 = backoffStack now tnow p stack in
          if stackSchedulingCycle \<le> moveRequestCycle p1 then do {
            (err, b) \<leftarrow> backoff_Add p1 pInfo;
            let p2 = p1\<lparr>stackBackoffQ := b\<rparr>;
            case err of
              Some e \<Rightarrow> Some (Some (BackoffAddError e), p2)
            | None \<Rightarrow> Some (None, p2\<lparr>nominatedMap := nominated_add (nominatedMap p2) stack []\<rparr>) }
          else
            let p2 = p1\<lparr>unschedulableQ := addOrUpdate (unschedulableQ p1) pInfo\<rparr>
            in Some (None, p2\<lparr>nominatedMap := nominated_add (nominatedMap p2) stack []\<rparr>))"

text \<open>
  \<open>flushBackoffQCompleted\<close>: the loop ends because every round that continues pops the backoff queue.
  Errors of \<open>activeQ.Add\<close>, and of the first \<open>Pop\<close>, are ignored by the code.
\<close>

function flushBackoffQCompleted ::
  "(StackInfo \<Rightarrow> StackInfo \<Rightarrow> bool) \<Rightarrow> gotime \<Rightarrow> PriorityQueue \<Rightarrow> PriorityQueue option" where
  "flushBackoffQCompleted lessFn now p =
     (case Heap_Peek (stackBackoffQ p) of
        None \<Rightarrow> None
      | Some None \<Rightarrow> Some p
      | Some (Some raw) \<Rightarrow>
          (case GetBackoffTime (stackBackoff p) (nsNameForStack (si_Stack raw)) of
             (boTime, found) \<Rightarrow>
               if \<not> found then
                 (case Heap_Pop (stacksCompareBackoffCompleted (stackBackoff p)) (stackBackoffQ p) of
                    None \<Rightarrow> None
                  | Some (_, b) \<Rightarrow>
                      (case active_Add lessFn p raw of
                         None \<Rightarrow> None
                       | Some (_, a) \<Rightarrow>
                           flushBackoffQCompleted lessFn now (p\<lparr>activeQ := a, stackBackoffQ := b\<rparr>)))
               else if now < boTime then Some p
               else
                 (case Heap_Pop (stacksCompareBackoffCompleted (stackBackoff p)) (stackBackoffQ p) of
                    None \<Rightarrow> None
                  | Some (Inl _, b) \<Rightarrow> Some (p\<lparr>stackBackoffQ := b\<rparr>)
                  | Some (Inr _, b) \<Rightarrow>
                      (case active_Add lessFn p raw of
                         None \<Rightarrow> None
                       | Some (_, a) \<Rightarrow>
                           flushBackoffQCompleted lessFn now (p\<lparr>activeQ := a, stackBackoffQ := b\<rparr>)))))"
  by pat_completeness auto
termination
  by (relation "measure (\<lambda>(_, _, p). Heap_Len (stackBackoffQ p))") (auto dest: Heap_Pop_length)

declare flushBackoffQCompleted.simps [simp del]

text \<open>One round of \<open>moveStacksToActiveQueue\<close> before the entry is deleted, and of \<open>MoveAllToActiveQueue\<close>.\<close>

definition requeue ::
  "(StackInfo \<Rightarrow> StackInfo \<Rightarrow> bool) \<Rightarrow> gotime \<Rightarrow> StackInfo \<Rightarrow> PriorityQueue \<Rightarrow> PriorityQueue option" where
  "requeue lessFn now pInfo p =
     (if isStackBackingOff now p (si_Stack pInfo)
      then do { (_, b) \<leftarrow> backoff_Add p pInfo; Some (p\<lparr>stackBackoffQ := b\<rparr>) }
      else do { (_, a) \<leftarrow> active_Add lessFn p pInfo; Some (p\<lparr>activeQ := a\<rparr>) })"

definition moveStacksToActiveQueue ::
  "(StackInfo \<Rightarrow> StackInfo \<Rightarrow> bool) \<Rightarrow> gotime \<Rightarrow> PriorityQueue \<Rightarrow> StackInfo list \<Rightarrow> PriorityQueue option" where
  "moveStacksToActiveQueue lessFn now p stackInfoList = do {
     p1 \<leftarrow> foldM (\<lambda>pInfo p. do {
              p' \<leftarrow> requeue lessFn now pInfo p;
              Some (p'\<lparr>unschedulableQ := unschedulable_delete (unschedulableQ p') (si_Stack pInfo)\<rparr>) })
            stackInfoList p;
     Some (p1\<lparr>moveRequestCycle := schedulingCycle p1\<rparr>) }"

definition unschedulableQTimeInterval :: duration where
  "unschedulableQTimeInterval = 60 * 1000000000"

definition flushUnschedulableQLeftover ::
  "(StackInfo \<Rightarrow> StackInfo \<Rightarrow> bool) \<Rightarrow> gotime \<Rightarrow> string list \<Rightarrow> PriorityQueue \<Rightarrow> PriorityQueue option" where
  "flushUnschedulableQLeftover lessFn now ks p =
     (let stacksToMove =
            filter (\<lambda>pInfo. unschedulableQTimeInterval < now - Timestamp pInfo)
              (List.map_filter (unschedulableQ p) ks)
      in if stacksToMove \<noteq> [] then moveStacksToActiveQueue lessFn now p stacksToMove else Some p)"

definition MoveAllToActiveQueue ::
  "(StackInfo \<Rightarrow> StackInfo \<Rightarrow> bool) \<Rightarrow> gotime \<Rightarrow> string list \<Rightarrow> PriorityQueue \<Rightarrow> PriorityQueue option" where
  "MoveAllToActiveQueue lessFn now ks p = do {
     p1 \<leftarrow> foldM (requeue lessFn now) (List.map_filter (unschedulableQ p) ks) p;
     Some (p1\<lparr>unschedulableQ := unschedulable_clear (unschedulableQ p1),
              moveRequestCycle := schedulingCycle p1\<rparr>) }"

datatype pop_result = PopBlocked | PopErr queue_error | PopOk Stack

definition PQ_Pop ::
  "(StackInfo \<Rightarrow> StackInfo \<Rightarrow> bool) \<Rightarrow> PriorityQueue \<Rightarrow> (pop_result \<times> PriorityQueue) option" where
  "PQ_Pop lessFn p =
     (if Heap_Len (activeQ p) = 0
      then Some (if closed p then PopErr QueueClosed else PopBlocked, p)
      else do {
        (r, a) \<leftarrow> Heap_Pop lessFn (activeQ p);
        case r of
          Inl e \<Rightarrow> Some (PopErr (HeapError e), p\<lparr>activeQ := a\<rparr>)
        | Inr pInfo \<Rightarrow>
            Some (PopOk (si_Stack pInfo),
                  p\<lparr>activeQ := a, schedulingCycle := wrap64 (schedulingCycle p + 1)\<rparr>) })"

text \<open>\<open>reflect.DeepEqual\<close> on the two stacks, nil included.\<close>

definition isStackUpdated :: "Stack option \<Rightarrow> Stack \<Rightarrow> bool" where
  "isStackUpdated oldStack newStack = (map_option Stack_DeepCopy oldStack \<noteq> Some (Stack_DeepCopy newStack))"

definition PQ_Update ::
  "(StackInfo \<Rightarrow> StackInfo \<Rightarrow> bool) \<Rightarrow> gotime \<Rightarrow> PriorityQueue \<Rightarrow> Stack option \<Rightarrow> Stack \<Rightarrow> queue_result" where
  "PQ_Update lessFn now p oldStack newStack =
     (case Option.bind oldStack (\<lambda>os. heap_exists (activeQ p) (newStackInfoNoTimestamp os)) of
        Some oldInfo \<Rightarrow> do {
          npm \<leftarrow> nominated_update (nominatedMap p) oldStack newStack;
          let newInfo = (newStackInfoNoTimestamp newStack)\<lparr>Timestamp := Timestamp oldInfo\<rparr>;
          (err, a) \<leftarrow> Heap_Update stackInfoKeyFunc lessFn (activeQ p) newInfo;
          Some (map_option HeapError err, p\<lparr>nominatedMap := npm, activeQ := a\<rparr>) }
      | None \<Rightarrow>
     (case Option.bind oldStack (\<lambda>os. heap_exists (stackBackoffQ p) (newStackInfoNoTimestamp os)) of
        Some oldInfo \<Rightarrow> do {
          os \<leftarrow> oldStack;
          npm \<leftarrow> nominated_update (nominatedMap p) oldStack newStack;
          (_, b) \<leftarrow> backoff_Delete p (newStackInfoNoTimestamp os);
          let newInfo = (newStackInfoNoTimestamp newStack)\<lparr>Timestamp := Timestamp oldInfo\<rparr>;
          (err, a) \<leftarrow> active_Add lessFn p newInfo;
          Some (map_option HeapError err, p\<lparr>nominatedMap := npm, stackBackoffQ := b, activeQ := a\<rparr>) }
      | None \<Rightarrow>
     (case unschedulable_get (unschedulableQ p) newStack of
        Some usInfo \<Rightarrow> do {
          npm \<leftarrow> nominated_update (nominatedMap p) oldStack newStack;
          let p1 = p\<lparr>nominatedMap := npm\<rparr>;
          let newInfo = (newStackInfoNoTimestamp newStack)\<lparr>Timestamp := Timestamp usInfo\<rparr>;
          if isStackUpdated oldStack newStack then do {
            let p2 = PQ_clearStackBackoff p1 newStack;
            let p3 = p2\<lparr>unschedulableQ := unschedulable_delete (unschedulableQ p2) (si_Stack usInfo)\<rparr>;
            (err, a) \<leftarrow> active_Add lessFn p3 newInfo;
            Some (map_option HeapError err, p3\<lparr>activeQ := a\<rparr>) }
          else Some (None, p1\<lparr>unschedulableQ := addOrUpdate (unschedulableQ p1) newInfo\<rparr>) }
      | None \<Rightarrow> do {
          (err, a) \<leftarrow> active_Add lessFn p (newStackInfo now newStack);
          let p1 = p\<lparr>activeQ := a\<rparr>;
          case err of
            Some e \<Rightarrow> Some (Some (HeapError e), p1)
          | None \<Rightarrow> Some (None, p1\<lparr>nominatedMap := nominated_add (nominatedMap p1) newStack []\<rparr>) })))"

definition PQ_Delete ::
  "(StackInfo \<Rightarrow> StackInfo \<Rightarrow> bool) \<Rightarrow> PriorityQueue \<Rightarrow> Stack \<Rightarrow> PriorityQueue option" where
  "PQ_Delete lessFn p stack = do {
     let p1 = p\<lparr>nominatedMap := nominated_delete (nominatedMap p) stack\<rparr>;
     (err, a) \<leftarrow> active_Delete lessFn p1 (newStackInfoNoTimestamp stack);
     let p2 = p1\<lparr>activeQ := a\<rparr>;
     if err \<noteq> None then do {
       let p3 = PQ_clearStackBackoff p2 stack;
       (_, b) \<leftarrow> backoff_Delete p3 (newStackInfoNoTimestamp stack);
       let p4 = p3\<lparr>stackBackoffQ := b\<rparr>;
       Some (p4\<lparr>unschedulableQ := unschedulable_delete (unschedulableQ p4) stack\<rparr>) }
     else Some p2 }"

definition NominatedStacksForSite :: "PriorityQueue \<Rightarrow> string \<Rightarrow> Stack list" where
  "NominatedStacksForSite p siteID = stacksForSite (nominatedMap p) siteID"

text \<open>\<open>PendingStacks\<close> lists the three maps in the orders \<open>ka\<close>, \<open>kb\<close> and \<open>ku\<close>.\<close>

definition PendingStacks :: "string list \<Rightarrow> string list \<Rightarrow> string list \<Rightarrow> PriorityQueue \<Rightarrow> Stack list" where
  "PendingStacks ka kb ku p =
     map si_Stack (Heap_List ka (activeQ p)) @ map si_Stack (Heap_List kb (stackBackoffQ p))
       @ map si_Stack (List.map_filter (unschedulableQ p) ku)"

definition PQ_Close :: "PriorityQueue \<Rightarrow> PriorityQueue" where
  "PQ_Close p = p\<lparr>closed := True\<rparr>"

definition DeleteNominatedStackIfExists :: "PriorityQueue \<Rightarrow> Stack \<Rightarrow> PriorityQueue" where
  "DeleteNominatedStackIfExists p stack = p\<lparr>nominatedMap := nominated_delete (nominatedMap p) stack\<rparr>"

definition UpdateNominatedStackForSite :: "PriorityQueue \<Rightarrow> Stack \<Rightarrow> string \<Rightarrow> PriorityQueue" where
  "UpdateNominatedStackForSite p stack siteID = p\<lparr>nominatedMap := nominated_add (nominatedMap p) stack siteID\<rparr>"

end
