(* ===== verification/QueueInvariants.thy ===== *)
theory QueueInvariants
  imports SchedulingQueue
begin

text \<open>
  Correctness of the scheduling queue. The queue is seen as a map from the names of the pending
  stacks to the sub-queue that holds them (\<open>queue_abs\<close>); \<open>queue_inv\<close> says that the two heaps are
  well-formed and that no stack is in two sub-queues. The unschedulable map is keyed by name and
  namespace only, so the results are for the stacks of one tenant (\<open>okid\<close>, which also states that a
  namespace has no slash and a name no underscore, as Kubernetes guarantees); the property on another tenant in \<open>QueueProperties\<close> shows
  what happens with two tenants.
\<close>

section \<open>Nominated stacks\<close>

definition nom_inv :: "nominatedStackMap \<Rightarrow> bool" where
  "nom_inv npm \<longleftrightarrow>
     (\<forall>u s. nominatedStackToSite npm u = Some s \<longrightarrow>
        s \<noteq> [] \<and> u \<in> UID ` set (stacksForSite npm s)) \<and>
     (\<forall>s. nominatedStacks npm s \<noteq> Some [] \<and> distinct (map UID (stacksForSite npm s)) \<and>
        (\<forall>p \<in> set (stacksForSite npm s). nominatedStackToSite npm (UID p) = Some s))"

lemma nom_invD:
  assumes "nom_inv npm"
  shows "nominatedStackToSite npm u = Some s \<Longrightarrow> s \<noteq> [] \<and> u \<in> UID ` set (stacksForSite npm s)"
    "nominatedStacks npm s \<noteq> Some []" "distinct (map UID (stacksForSite npm s))"
    "q \<in> set (stacksForSite npm s) \<Longrightarrow> nominatedStackToSite npm (UID q) = Some s"
  using assms by (simp_all add: nom_inv_def)

lemma image_filter_neq: "u \<in> f ` {x \<in> A. f x \<noteq> v} \<longleftrightarrow> u \<noteq> v \<and> u \<in> f ` A"
  by auto

lemma nominated_delete_inv:
  fixes p :: Stack
  assumes inv: "nom_inv npm"
  defines "npm' \<equiv> nominated_delete npm p"
  shows "nom_inv npm'" "nominatedStackToSite npm' = (nominatedStackToSite npm)(UID p := None)"
    "stacksForSite npm' s = filter (\<lambda>q. UID q \<noteq> UID p) (stacksForSite npm s)"
proof -
  have keep: "filter (\<lambda>q. UID q \<noteq> UID p) (stacksForSite npm t) = stacksForSite npm t"
    if "nominatedStackToSite npm (UID p) \<noteq> Some t" for t
    using that nom_invD(4) [OF inv] by (force simp: filter_id_conv)
  show to: "nominatedStackToSite npm' = (nominatedStackToSite npm)(UID p := None)"
    by (auto simp: npm'_def nominated_delete_def Let_def fun_eq_iff split: option.splits)
  show st: "stacksForSite npm' s = filter (\<lambda>q. UID q \<noteq> UID p) (stacksForSite npm s)" for s
  proof (cases "nominatedStackToSite npm (UID p)")
    case None
    then show ?thesis
      using keep by (simp add: npm'_def nominated_delete_def)
  next
    case (Some n)
    then have "UID p \<in> UID ` set (stacksForSite npm n)" "distinct (map UID (stacksForSite npm n))"
      using inv by (simp_all add: nom_inv_def)
    then obtain l where l: "nominatedStacks npm n = Some l" "distinct (map UID l)" "UID p \<in> UID ` set l"
      by (cases "nominatedStacks npm n") (auto simp: stacksForSite_def)
    then obtain i where i: "first_index (\<lambda>np. UID np = UID p) l = Some i"
      by (cases "first_index (\<lambda>np. UID np = UID p) l") auto
    then have "slice_remove i l = filter (\<lambda>q. UID q \<noteq> UID p) l"
      by (rule slice_remove_first_index [OF l(2)])
    then show ?thesis
      using Some l(1) i keep [of s]
      by (auto simp: npm'_def nominated_delete_def stacksForSite_def Let_def)
  qed
  have "nominatedStacks npm' t \<noteq> Some []" for t
    using inv by (auto simp: npm'_def nominated_delete_def nom_inv_def Let_def split: option.splits if_splits)
  moreover have "distinct (map UID (filter Q (stacksForSite npm t)))" for t Q
    using inv by (simp add: nom_inv_def distinct_map_filter)
  ultimately show "nom_inv npm'"
    using nom_invD(1,4) [OF inv] by (auto simp: nom_inv_def to st image_filter_neq)
qed

lemma nominated_add_inv:
  assumes inv: "nom_inv npm"
  shows "nom_inv (nominated_add npm p s)"
    "nominatedStackToSite (nominated_add npm p s) = (nominatedStackToSite npm)(UID p := if s = [] then None else Some s)"
    "stacksForSite (nominated_add npm p s) t =
       filter (\<lambda>q. UID q \<noteq> UID p) (stacksForSite npm t) @ (if t = s \<and> s \<noteq> [] then [p] else [])"
proof -
  let ?n = "nominated_delete npm p"
  note d = nominated_delete_inv [OF inv, of p]
  have new: "\<not> (\<exists>np \<in> set (map_get [] (nominatedStacks ?n) s). UID np = UID p)"
    using d(3) [of s] by (auto simp: stacksForSite_def)
  have eq: "nominated_add npm p s =
      (if s = [] then ?n
       else ?n\<lparr>nominatedStackToSite := (nominatedStackToSite ?n)(UID p \<mapsto> s),
               nominatedStacks := (nominatedStacks ?n)(s \<mapsto> map_get [] (nominatedStacks ?n) s @ [p])\<rparr>)"
    using new by (auto simp: nominated_add_def Let_def NominatedSiteID_def)
  show to: "nominatedStackToSite (nominated_add npm p s) =
      (nominatedStackToSite npm)(UID p := if s = [] then None else Some s)"
    by (simp add: eq d(2))
  show st: "stacksForSite (nominated_add npm p s) t =
      filter (\<lambda>q. UID q \<noteq> UID p) (stacksForSite npm t) @ (if t = s \<and> s \<noteq> [] then [p] else [])" for t
    using d(3) [of t] by (auto simp: eq stacksForSite_def)
  have "nominatedStacks (nominated_add npm p s) t \<noteq> Some []" for t
    using d(1) by (auto simp: eq nom_inv_def)
  moreover have "distinct (map UID (filter (\<lambda>q. UID q \<noteq> UID p) (stacksForSite npm t)))" for t
    using inv by (simp add: nom_inv_def distinct_map_filter)
  ultimately show "nom_inv (nominated_add npm p s)"
    using nom_invD(1,4) [OF inv] by (auto simp: nom_inv_def to st image_filter_neq image_Un)
qed

lemma nominated_update_inv:
  assumes "nom_inv npm"
  shows "\<exists>npm'. nominated_update npm (Some os) ns = Some npm' \<and> nom_inv npm' \<and>
    (UID os = UID ns \<longrightarrow> nominatedStackToSite npm' = nominatedStackToSite npm)"
proof -
  have "(m(k := None))(k := if map_get [] m k = [] then None else Some (map_get [] m k)) = m"
    if "m k \<noteq> Some []" for m :: "string \<rightharpoonup> string" and k
    using that by (cases "m k") (auto simp: fun_eq_iff)
  moreover have "nominatedStackToSite npm u \<noteq> Some []" for u
    using nom_invD(1) [OF assms, of u] by auto
  ultimately show ?thesis
    using nominated_delete_inv(1,2) [OF assms, of os]
    by (auto simp: nominated_update_def NominatedSiteID_def nominated_add_inv)
qed

lemma newNominatedStackMap_inv [simp]: "nom_inv newNominatedStackMap"
  by (simp add: nom_inv_def newNominatedStackMap_def stacksForSite_def)

section \<open>Names\<close>

definition stackKey :: "NamespacedName \<Rightarrow> string" where
  "stackKey i = nn_Tenant i @ ''/'' @ nn_Namespace i @ ''/'' @ nn_Name i"

definition fullName :: "NamespacedName \<Rightarrow> string" where
  "fullName i = nn_Name i @ ''_'' @ nn_Namespace i"

definition okid :: "string \<Rightarrow> NamespacedName \<Rightarrow> bool" where
  "okid T i \<longleftrightarrow> nn_Tenant i = T \<and> CHR ''/'' \<notin> set (nn_Namespace i) \<and> CHR ''_'' \<notin> set (nn_Name i)"

abbreviation sid :: "StackInfo \<Rightarrow> NamespacedName" where
  "sid i \<equiv> nsNameForStack (si_Stack i)"

lemma split_at_unique:
  "c \<notin> set xs \<Longrightarrow> c \<notin> set xs' \<Longrightarrow> xs @ c # ys = xs' @ c # ys' \<longleftrightarrow> xs = xs' \<and> ys = ys'"
proof (induction xs arbitrary: xs')
  case Nil
  then show ?case
    by (cases xs') auto
next
  case (Cons a xs)
  then show ?case
    by (cases xs') auto
qed

lemma stackKey_inj: "okid T i \<Longrightarrow> okid T j \<Longrightarrow> stackKey i = stackKey j \<longleftrightarrow> i = j"
  by (cases i; cases j) (auto simp: okid_def stackKey_def split_at_unique)

lemma fullName_inj: "okid T i \<Longrightarrow> okid T j \<Longrightarrow> fullName i = fullName j \<longleftrightarrow> i = j"
  by (cases i; cases j) (auto simp: okid_def fullName_def split_at_unique)

lemma stackInfoKeyFunc_key [simp]: "stackInfoKeyFunc i = Inr (stackKey (sid i))"
  by (simp add: stackInfoKeyFunc_def stackKey_def nsNameForStack_def Let_def)

lemma GetStackFullName_full: "GetStackFullName s = fullName (nsNameForStack s)"
  by (simp add: GetStackFullName_def fullName_def nsNameForStack_def)

lemma sid_new [simp]: "si_Stack (newStackInfo now s) = s" "si_Stack (newStackInfoNoTimestamp s) = s"
  by (simp_all add: newStackInfo_def newStackInfoNoTimestamp_def)

section \<open>The sub-queues as maps from names\<close>

definition heap_names :: "string \<Rightarrow> StackInfo Heap \<Rightarrow> NamespacedName \<rightharpoonup> StackInfo" where
  "heap_names T h i = (if okid T i then Heap_abs h (stackKey i) else None)"

definition unsched_names :: "string \<Rightarrow> UnschedulableStacksMap \<Rightarrow> NamespacedName \<rightharpoonup> StackInfo" where
  "unsched_names T u i = (if okid T i then u (fullName i) else None)"

definition heap_ok :: "string \<Rightarrow> StackInfo lessFunc \<Rightarrow> StackInfo Heap \<Rightarrow> bool" where
  "heap_ok T lt h \<longleftrightarrow> Heap_inv stackInfoKeyFunc lt h \<and> (\<forall>x \<in> ran (Heap_abs h). okid T (sid x))"

definition unsched_ok :: "string \<Rightarrow> UnschedulableStacksMap \<Rightarrow> bool" where
  "unsched_ok T u \<longleftrightarrow>
     finite (dom u) \<and> (\<forall>k x. u k = Some x \<longrightarrow> okid T (sid x) \<and> fullName (sid x) = k)"

lemma heap_names_upd:
  "Heap_abs h' = (Heap_abs h)(stackKey i := v) \<Longrightarrow> okid T i \<Longrightarrow>
   heap_names T h' = (heap_names T h)(i := v)"
  by (auto simp: fun_eq_iff heap_names_def stackKey_inj)

lemma heap_Add_names:
  assumes "heap_order lt lf" "heap_ok T lt h" "okid T (sid x)"
  shows "\<exists>h'. Heap_Add stackInfoKeyFunc lf h x = Some (None, h') \<and> heap_ok T lt h' \<and>
    heap_names T h' = (heap_names T h)(sid x \<mapsto> x)"
proof -
  obtain h' where "Heap_Add stackInfoKeyFunc lf h x = Some (None, h')" "Heap_inv stackInfoKeyFunc lt h'"
      "Heap_abs h' = (Heap_abs h)(stackKey (sid x) \<mapsto> x)"
    using heap_order.Heap_Add_order [OF assms(1), of stackInfoKeyFunc h x] assms(2) by (auto simp: heap_ok_def)
  then show ?thesis
    using assms heap_names_upd [OF _ assms(3), of h' h] by (auto simp: heap_ok_def ran_def)
qed

lemma heap_Delete_names:
  assumes "heap_order lt lf" "heap_ok T lt h" "okid T (sid x)"
  shows "\<exists>e h'. Heap_Delete stackInfoKeyFunc lf h x = Some (e, h') \<and> heap_ok T lt h' \<and>
    heap_names T h' = (heap_names T h)(sid x := None) \<and> (e = None \<longleftrightarrow> heap_names T h (sid x) \<noteq> None)"
proof -
  obtain e h' where "Heap_Delete stackInfoKeyFunc lf h x = Some (e, h')" "Heap_inv stackInfoKeyFunc lt h'"
      "Heap_abs h' = (Heap_abs h)(stackKey (sid x) := None)"
      "e = None \<longleftrightarrow> Heap_abs h (stackKey (sid x)) \<noteq> None"
    using heap_order.Heap_Delete_order [OF assms(1), of stackInfoKeyFunc h x] assms(2) by (auto simp: heap_ok_def)
  then show ?thesis
    using assms heap_names_upd [OF _ assms(3), of h' h]
    by (auto simp: heap_ok_def heap_names_def [of T h "sid x"] ran_def)
qed

lemma heap_exists_names: "okid T (sid x) \<Longrightarrow> heap_exists h x = heap_names T h (sid x)"
  by (simp add: heap_exists_def Heap_Get_abs heap_names_def)

lemma heap_names_sid: "heap_ok T lt h \<Longrightarrow> heap_names T h i = Some x \<Longrightarrow> sid x = i"
  using stackKey_inj
  by (auto simp: heap_ok_def heap_names_def Heap_inv_def Heap_wf_def Heap_abs_def ran_def split: if_splits) blast

lemma heap_names_finite: "heap_ok T lt h \<Longrightarrow> finite (dom (heap_names T h))"
proof -
  assume ok: "heap_ok T lt h"
  have "dom (heap_names T h) \<subseteq> sid ` ran (Heap_abs h)"
    using heap_names_sid [OF ok] by (force simp: heap_names_def ran_def split: if_splits)
  moreover have "finite (ran (Heap_abs h))"
    using ok Heap_wf_finite by (auto simp: heap_ok_def Heap_inv_def intro: finite_ran)
  ultimately show ?thesis
    by (meson finite_imageI finite_subset)
qed

lemma heap_names_empty: "heap_ok T lt h \<Longrightarrow> heap_names T h = Map.empty \<longleftrightarrow> Heap_abs h = Map.empty"
proof -
  assume ok: "heap_ok T lt h"
  have "heap_names T h (sid x) = Some x" if "Heap_abs h k = Some x" for k x
    using that ok by (auto simp: heap_ok_def heap_names_def Heap_inv_def Heap_wf_def Heap_abs_def ran_def)
  then show ?thesis
    by (auto simp: fun_eq_iff heap_names_def) (metis not_None_eq)
qed

lemma heap_Pop_names:
  assumes o: "heap_order lt lf" and ok: "heap_ok T lt h" and ne: "heap_names T h \<noteq> Map.empty"
  shows "\<exists>h' x. Heap_Pop lf h = Some (Inr x, h') \<and> heap_ok T lt h' \<and> heap_names T h (sid x) = Some x \<and>
    heap_names T h' = (heap_names T h)(sid x := None) \<and> Heap_Peek h = Some (Some x) \<and>
    (\<forall>y \<in> ran (heap_names T h). \<not> lt y x)"
proof -
  have inv: "Heap_inv stackInfoKeyFunc lt h" and wf: "Heap_wf stackInfoKeyFunc h"
    using ok by (simp_all add: heap_ok_def Heap_inv_def)
  have ne': "Heap_abs h \<noteq> Map.empty"
    using ne heap_names_empty [OF ok] by simp
  obtain h' x k where p: "Heap_Pop lf h = Some (Inr x, h')"
      "k = queue (data h) ! 0" "Heap_abs h k = Some x" "Heap_abs h' = (Heap_abs h)(k := None)"
    using Heap_Pop_wf [OF wf ne', of lf] by blast
  have inv': "Heap_inv stackInfoKeyFunc lt h'" and min: "\<forall>y \<in> ran (Heap_abs h). \<not> lt y x"
    using heap_order.Pop_min [OF o inv ne'] p(1) by auto
  have x: "okid T (sid x)" "k = stackKey (sid x)"
    using ok p(3) wf by (auto simp: heap_ok_def ran_def Heap_wf_def Heap_abs_def)
  have "Heap_Peek h = Some (Some x)"
    using p(2,3) ne' dom_heap_abs [of "data h"] wf
    by (cases "queue (data h)") (auto simp: Heap_Peek_def heapData_Peek_def Heap_abs_def heap_abs_def
        Heap_wf_def)
  moreover have "ran (heap_names T h) \<subseteq> ran (Heap_abs h)"
    by (auto simp: ran_def heap_names_def split: if_splits)
  ultimately show ?thesis
    using p x ok inv' min heap_names_upd [OF _ x(1), of h' h None]
    by (auto simp: heap_ok_def heap_names_def [of T h "sid x"] ran_def)
qed

lemma unsched_names_upd:
  "okid T i \<Longrightarrow> unsched_names T (u(fullName i := v)) = (unsched_names T u)(i := v)"
  by (auto simp: fun_eq_iff unsched_names_def fullName_inj)

lemma unsched_ok_upd:
  "unsched_ok T u \<Longrightarrow> okid T (sid x) \<Longrightarrow> unsched_ok T (u(fullName (sid x) \<mapsto> x))"
  "unsched_ok T u \<Longrightarrow> unsched_ok T (u(k := None))"
  by (auto simp: unsched_ok_def)

lemma unsched_names_sid: "unsched_ok T u \<Longrightarrow> unsched_names T u i = Some x \<Longrightarrow> sid x = i \<and> okid T i"
  using fullName_inj by (auto simp: unsched_ok_def unsched_names_def split: if_splits) blast+

section \<open>The queue as a map from names to sub-queues\<close>

datatype place = InActive | InBackoff | InUnschedulable

abbreviation qA :: "string \<Rightarrow> PriorityQueue \<Rightarrow> NamespacedName \<rightharpoonup> StackInfo" where
  "qA T p \<equiv> heap_names T (activeQ p)"

abbreviation qB :: "string \<Rightarrow> PriorityQueue \<Rightarrow> NamespacedName \<rightharpoonup> StackInfo" where
  "qB T p \<equiv> heap_names T (stackBackoffQ p)"

abbreviation qU :: "string \<Rightarrow> PriorityQueue \<Rightarrow> NamespacedName \<rightharpoonup> StackInfo" where
  "qU T p \<equiv> unsched_names T (unschedulableQ p)"

definition queue_abs :: "string \<Rightarrow> PriorityQueue \<Rightarrow> NamespacedName \<rightharpoonup> place \<times> StackInfo" where
  "queue_abs T p i =
     (case qA T p i of
        Some x \<Rightarrow> Some (InActive, x)
      | None \<Rightarrow>
          (case qB T p i of
             Some x \<Rightarrow> Some (InBackoff, x)
           | None \<Rightarrow> map_option (Pair InUnschedulable) (qU T p i)))"

definition queue_inv :: "string \<Rightarrow> StackInfo lessFunc \<Rightarrow> StackInfo lessFunc \<Rightarrow> PriorityQueue \<Rightarrow> bool" where
  "queue_inv T la lb p \<longleftrightarrow>
     heap_ok T la (activeQ p) \<and> heap_ok T lb (stackBackoffQ p) \<and> unsched_ok T (unschedulableQ p) \<and>
     nom_inv (nominatedMap p) \<and>
     dom (qA T p) \<inter> dom (qB T p) = {} \<and> (dom (qA T p) \<union> dom (qB T p)) \<inter> dom (qU T p) = {}"

lemma queue_abs_maps:
  "\<lbrakk>qA T p' = (qA T p)(i := a); qB T p' = (qB T p)(i := b); qU T p' = (qU T p)(i := u)\<rbrakk> \<Longrightarrow>
   queue_abs T p' = (queue_abs T p)(i :=
     case a of Some x \<Rightarrow> Some (InActive, x)
     | None \<Rightarrow> (case b of Some x \<Rightarrow> Some (InBackoff, x) | None \<Rightarrow> map_option (Pair InUnschedulable) u))"
  by (auto simp: queue_abs_def fun_eq_iff split: option.split)

lemma queue_frame [simp]:
  "queue_abs T (p\<lparr>moveRequestCycle := c\<rparr>) = queue_abs T p" "queue_inv T la lb (p\<lparr>moveRequestCycle := c\<rparr>) = queue_inv T la lb p"
  "queue_abs T (p\<lparr>schedulingCycle := c\<rparr>) = queue_abs T p" "queue_inv T la lb (p\<lparr>schedulingCycle := c\<rparr>) = queue_inv T la lb p"
  "queue_abs T (p\<lparr>closed := b\<rparr>) = queue_abs T p" "queue_inv T la lb (p\<lparr>closed := b\<rparr>) = queue_inv T la lb p"
  "queue_abs T (p\<lparr>stackBackoff := bm\<rparr>) = queue_abs T p" "queue_inv T la lb (p\<lparr>stackBackoff := bm\<rparr>) = queue_inv T la lb p"
  "queue_abs T (p\<lparr>nominatedMap := npm\<rparr>) = queue_abs T p"
  by (auto simp: queue_abs_def queue_inv_def fun_eq_iff split: option.splits)

text \<open>Deleting a missing entry of the unschedulable map changes nothing.\<close>

lemma unsched_cond_delete:
  "(if unschedulable_get (unschedulableQ p) s \<noteq> None
    then p\<lparr>unschedulableQ := unschedulable_delete (unschedulableQ p) s\<rparr> else p) =
   p\<lparr>unschedulableQ := (unschedulableQ p)(fullName (nsNameForStack s) := None)\<rparr>"
  by (auto simp: unschedulable_get_def unschedulable_delete_def GetStackFullName_full fun_upd_idem)

lemma unsched_get_names:
  "okid T (nsNameForStack s) \<Longrightarrow> unschedulable_get (unschedulableQ p) s = qU T p (nsNameForStack s)"
  by (simp add: unschedulable_get_def unsched_names_def GetStackFullName_full)

lemma queue_inv_pointwise:
  "queue_inv T la lb p \<longleftrightarrow>
     heap_ok T la (activeQ p) \<and> heap_ok T lb (stackBackoffQ p) \<and> unsched_ok T (unschedulableQ p) \<and>
     nom_inv (nominatedMap p) \<and> (\<forall>i. qA T p i = None \<or> qB T p i = None) \<and>
     (\<forall>i. qU T p i = None \<or> qA T p i = None \<and> qB T p i = None)"
  unfolding queue_inv_def dom_def disjoint_iff by (auto simp: not_Some_eq) (metis not_Some_eq)+

lemmas queue_inv_parts = queue_inv_def dom_def disjoint_iff

lemma PQ_Add_correct:
  assumes oA: "heap_order la lf" and oB: "heap_order lb (stacksCompareBackoffCompleted (stackBackoff p))" and inv: "queue_inv T la lb p" and ok: "okid T (nsNameForStack s)"
  shows "\<exists>p'. PQ_Add lf now p s = Some (None, p') \<and> queue_inv T la lb p' \<and> stackBackoff p' = stackBackoff p \<and>
    queue_abs T p' = (queue_abs T p)(nsNameForStack s \<mapsto> (InActive, newStackInfo now s))"
proof -
  let ?x = "newStackInfo now s" and ?i = "nsNameForStack s"
  have parts: "heap_ok T la (activeQ p)" "heap_ok T lb (stackBackoffQ p)" "unsched_ok T (unschedulableQ p)"
      "nom_inv (nominatedMap p)"
    using inv by (simp_all add: queue_inv_def)
  obtain a where a: "Heap_Add stackInfoKeyFunc lf (activeQ p) ?x = Some (None, a)" "heap_ok T la a"
      "heap_names T a = (qA T p)(?i \<mapsto> ?x)"
    using heap_Add_names [OF oA parts(1), of ?x] ok by auto
  obtain e b where b: "backoff_Delete p ?x = Some (e, b)" "heap_ok T lb b" "heap_names T b = (qB T p)(?i := None)"
    using heap_Delete_names [OF oB parts(2), of ?x] ok by fastforce
  define p' where "p' = p\<lparr>activeQ := a, unschedulableQ := (unschedulableQ p)(fullName ?i := None),
      stackBackoffQ := b, nominatedMap := nominated_add (nominatedMap p) s []\<rparr>"
  have "PQ_Add lf now p s = Some (None, p')"
    using a(1) b(1) unsched_cond_delete [of "p\<lparr>activeQ := a\<rparr>" s]
    by (simp add: PQ_Add_def p'_def Let_def split: if_splits)
  moreover have "queue_abs T p' = (queue_abs T p)(?i \<mapsto> (InActive, ?x))"
    using queue_abs_maps [of T p' p ?i "Some ?x" None None] a(3) b(3)
    by (simp add: p'_def unsched_names_upd [OF ok])
  moreover have "queue_inv T la lb p'"
    using inv a(2,3) b(2,3) unsched_ok_upd(2) [OF parts(3)] nominated_add_inv(1) [OF parts(4)]
    by (auto simp: p'_def queue_inv_parts unsched_names_upd [OF ok])
  moreover have "stackBackoff p' = stackBackoff p"
    by (simp add: p'_def)
  ultimately show ?thesis
    by blast
qed

lemma PQ_AddIfNotPresent_correct:
  assumes oA: "heap_order la lf" and inv: "queue_inv T la lb p" and ok: "okid T (nsNameForStack s)"
  shows "\<exists>p'. PQ_AddIfNotPresent lf now p s = Some (None, p') \<and> queue_inv T la lb p' \<and> stackBackoff p' = stackBackoff p \<and>
    queue_abs T p' =
      (if queue_abs T p (nsNameForStack s) = None
       then (queue_abs T p)(nsNameForStack s \<mapsto> (InActive, newStackInfo now s)) else queue_abs T p)"
proof (cases "queue_abs T p (nsNameForStack s) = None")
  case True
  let ?x = "newStackInfo now s" and ?i = "nsNameForStack s"
  have parts: "heap_ok T la (activeQ p)" "nom_inv (nominatedMap p)"
    using inv by (simp_all add: queue_inv_def)
  have none: "qA T p ?i = None" "qB T p ?i = None" "qU T p ?i = None"
    using True by (simp_all add: queue_abs_def split: option.splits)
  obtain a where a: "Heap_Add stackInfoKeyFunc lf (activeQ p) ?x = Some (None, a)" "heap_ok T la a"
      "heap_names T a = (qA T p)(?i \<mapsto> ?x)"
    using heap_Add_names [OF oA parts(1), of ?x] ok by auto
  define p' where "p' = p\<lparr>activeQ := a, nominatedMap := nominated_add (nominatedMap p) s []\<rparr>"
  have "PQ_AddIfNotPresent lf now p s = Some (None, p')"
    using a(1) none ok by (simp add: PQ_AddIfNotPresent_def p'_def unsched_get_names [OF ok]
        heap_exists_names [where T = T] Let_def)
  moreover have "queue_abs T p' = (queue_abs T p)(?i \<mapsto> (InActive, ?x))"
    using queue_abs_maps [of T p' p ?i "Some ?x" None None] a(3) none
    by (simp add: p'_def fun_upd_idem)
  moreover have "queue_inv T la lb p'"
    using inv a(2,3) none nominated_add_inv(1) [OF parts(2)] by (auto simp: p'_def queue_inv_parts)
  moreover have "stackBackoff p' = stackBackoff p"
    by (simp add: p'_def)
  ultimately show ?thesis
    using True by simp
next
  case False
  then have "PQ_AddIfNotPresent lf now p s = Some (None, p)"
    using ok by (auto simp: PQ_AddIfNotPresent_def unsched_get_names [OF ok] heap_exists_names [where T = T]
        Let_def queue_abs_def split: option.splits)
  with False inv show ?thesis
    by auto
qed

lemma AddUnschedulableIfNotPresent_correct:
  assumes oB: "heap_order lb (stacksCompareBackoffCompleted (stackBackoff (backoffStack now tnow p s)))" and inv: "queue_inv T la lb p" and ok: "okid T (nsNameForStack s)"
  shows "\<exists>e p'. AddUnschedulableIfNotPresent now tnow p s c = Some (e, p') \<and> queue_inv T la lb p' \<and>
    (stackBackoff p' = stackBackoff (backoffStack now tnow p s) \<or> p' = p) \<and>
    (e = None \<longleftrightarrow> queue_abs T p (nsNameForStack s) = None) \<and>
    queue_abs T p' =
      (if queue_abs T p (nsNameForStack s) = None
       then (queue_abs T p)(nsNameForStack s \<mapsto>
              (if c \<le> moveRequestCycle p then InBackoff else InUnschedulable, newStackInfo now s))
       else queue_abs T p)"
proof (cases "queue_abs T p (nsNameForStack s) = None")
  case True
  let ?x = "newStackInfo now s" and ?i = "nsNameForStack s" and ?p1 = "backoffStack now tnow p s"
  have parts: "heap_ok T lb (stackBackoffQ p)" "unsched_ok T (unschedulableQ p)" "nom_inv (nominatedMap p)"
    using inv by (simp_all add: queue_inv_def)
  have none: "qA T p ?i = None" "qB T p ?i = None" "qU T p ?i = None"
    using True by (simp_all add: queue_abs_def split: option.splits)
  obtain bm where p1: "?p1 = p\<lparr>stackBackoff := bm\<rparr>"
    by (auto simp: backoffStack_def Let_def case_prod_unfold)
  have eval: "AddUnschedulableIfNotPresent now tnow p s c = Some (None, p')"
    if "(if c \<le> moveRequestCycle p
         then map_option (\<lambda>(e, b). (e, b, unschedulableQ p))
                (Heap_Add stackInfoKeyFunc (stacksCompareBackoffCompleted bm) (stackBackoffQ p) ?x)
         else Some (None, stackBackoffQ p, (unschedulableQ p)(fullName ?i \<mapsto> ?x))) = Some (None, b, u)"
      and "p' = p\<lparr>stackBackoff := bm, stackBackoffQ := b, unschedulableQ := u,
             nominatedMap := nominated_add (nominatedMap p) s []\<rparr>" for p' b u
    using that none ok
    by (auto simp: AddUnschedulableIfNotPresent_def unsched_get_names [OF ok] p1 Let_def
        heap_exists_names [where T = T] addOrUpdate_def GetStackFullName_full split: if_splits)
  show ?thesis
  proof (cases "c \<le> moveRequestCycle p")
    case c: True
    obtain b where b: "Heap_Add stackInfoKeyFunc (stacksCompareBackoffCompleted bm) (stackBackoffQ p) ?x = Some (None, b)"
        "heap_ok T lb b" "heap_names T b = (qB T p)(?i \<mapsto> ?x)"
      using heap_Add_names [OF oB [unfolded p1, simplified] parts(1), of ?x] ok by auto
    define p' where "p' = p\<lparr>stackBackoff := bm, stackBackoffQ := b, unschedulableQ := unschedulableQ p,
      nominatedMap := nominated_add (nominatedMap p) s []\<rparr>"
    have "queue_abs T p' = (queue_abs T p)(?i \<mapsto> (InBackoff, ?x))"
      using queue_abs_maps [of T p' p ?i None "Some ?x" None] b(3) none by (simp add: p'_def fun_upd_idem)
    moreover have "queue_inv T la lb p'"
      using inv b(2,3) none nominated_add_inv(1) [OF parts(3)] by (auto simp: p'_def queue_inv_parts)
    ultimately show ?thesis
      using True c eval [of b "unschedulableQ p" p'] b(1) by (simp add: p'_def p1)
  next
    case c: False
    define p' where "p' = p\<lparr>stackBackoff := bm, stackBackoffQ := stackBackoffQ p,
      unschedulableQ := (unschedulableQ p)(fullName ?i \<mapsto> ?x), nominatedMap := nominated_add (nominatedMap p) s []\<rparr>"
    have "queue_abs T p' = (queue_abs T p)(?i \<mapsto> (InUnschedulable, ?x))"
      using queue_abs_maps [of T p' p ?i None None "Some ?x"] none
      by (simp add: p'_def fun_upd_idem unsched_names_upd [OF ok])
    moreover have "queue_inv T la lb p'"
      using inv none nominated_add_inv(1) [OF parts(3)] unsched_ok_upd(1) [OF parts(2), of ?x] ok
      by (auto simp: p'_def queue_inv_parts unsched_names_upd [OF ok])
    ultimately show ?thesis
      using True c eval [of "stackBackoffQ p" "(unschedulableQ p)(fullName ?i \<mapsto> ?x)" p'] by (simp add: p'_def p1)
  qed
next
  case False
  then have "\<exists>e. AddUnschedulableIfNotPresent now tnow p s c = Some (Some e, p)"
    using ok by (auto simp: AddUnschedulableIfNotPresent_def unsched_get_names [OF ok]
        heap_exists_names [where T = T] Let_def queue_abs_def split: option.splits)
  with False inv show ?thesis
    by auto
qed

text \<open>
  \<open>Delete\<close> of the queue first forgets the backoff of the stack, which changes the comparison of the
  backoff queue at that stack, and then removes the stack from the backoff queue.
\<close>

lemma objs_key:
  assumes wf: "Heap_wf stackInfoKeyFunc h" and k: "k < length (queue (data h))"
  shows "queue (data h) ! k = stackKey (sid (objs (data h) ! k))"
proof -
  have "Heap_abs h (queue (data h) ! k) = Some (objs (data h) ! k)"
    using wf k heap_wf_item [of "data h" k]
    by (auto simp: Heap_wf_def Heap_abs_def heap_abs_def)
  then show ?thesis
    using wf by (auto simp: Heap_wf_def Heap_abs_def)
qed

lemma heap_Delete_changed:
  assumes lt: "strict_weak_order lt" and o: "heap_order lt' lf" and ok: "heap_ok T lt h" "okid T (sid x)"
    and agree: "\<And>y z. sid y \<noteq> sid x \<Longrightarrow> sid z \<noteq> sid x \<Longrightarrow> lt' y z \<longleftrightarrow> lt y z"
  shows "\<exists>e h'. Heap_Delete stackInfoKeyFunc lf h x = Some (e, h') \<and> heap_ok T lt' h' \<and>
    heap_names T h' = (heap_names T h)(sid x := None)"
proof -
  let ?k = "stackKey (sid x)" and ?n = "length (queue (data h))" and ?xs = "objs (data h)"
  have wf: "Heap_wf stackInfoKeyFunc h" "heap_wf (data h)" and sorted: "heap_sorted lt ?xs ?n"
    using ok by (auto simp: heap_ok_def Heap_inv_def Heap_wf_def)
  show ?thesis
  proof (cases "items (data h) ?k")
    case None
    then have abs: "Heap_abs h ?k = None"
      by (simp add: Heap_abs_def heap_abs_def)
    have "?k \<notin> set (queue (data h))"
      using None wf(2) by (auto simp: heap_wf_def)
    then have "sid (?xs ! k) \<noteq> sid x" if "k < ?n" for k
      using objs_key [OF wf(1) that] that by (metis nth_mem)
    then have "heap_sorted lt' ?xs ?n"
      using sorted agree by (auto simp: heap_sorted_def)
    then have "heap_ok T lt' h"
      using ok(1) by (simp add: heap_ok_def Heap_inv_def)
    then show ?thesis
      using abs ok(2) by (simp add: Heap_Delete_absent heap_names_def fun_upd_idem)
  next
    case (Some item)
    note idx = heap_index [OF wf(2) Some]
    have ne: "sid (?xs ! k) \<noteq> sid x" if "k < ?n" "k \<noteq> index item" for k
      using objs_key [OF wf(1) that(1)] idx that wf(2) by (metis heap_wf_def nth_eq_iff_index_eq)
    have "heap_defect lt ?xs (index item) ?n"
      using strict_weak_order.sorted_defect [OF lt sorted idx(1) refl] .
    then have "heap_defect lt' ?xs (index item) ?n"
      using ne agree idx(1) by (auto simp: heap_defect_def)
    moreover obtain h' where h': "Heap_Delete stackInfoKeyFunc lf h x = Some (None, h')" "Heap_wf stackInfoKeyFunc h'"
        "Heap_abs h' = (Heap_abs h)(?k := None)"
      using heap_store.del_ok [OF wf(1), of x ?k lf] Some by (auto simp: Heap_abs_def heap_abs_def)
    ultimately have "Heap_inv stackInfoKeyFunc lt' h'"
      using heap_order.Delete_defect_inv [OF o wf(1) _ Some _ h'(1)] by simp
    then show ?thesis
      using h' ok heap_names_upd [OF h'(3) ok(2)] by (auto simp: heap_ok_def ran_def)
  qed
qed

lemma PQ_Delete_correct:
  assumes oA: "heap_order la lf" and lb: "strict_weak_order lb"
    and oB: "heap_order lb' (stacksCompareBackoffCompleted (clearStackBackoff (stackBackoff p) (nsNameForStack s)))"
    and agree: "\<And>x y. sid x \<noteq> nsNameForStack s \<Longrightarrow> sid y \<noteq> nsNameForStack s \<Longrightarrow> lb' x y \<longleftrightarrow> lb x y"
    and inv: "queue_inv T la lb p" and ok: "okid T (nsNameForStack s)"
  shows "\<exists>p'. PQ_Delete lf p s = Some p' \<and>
    (stackBackoff p' = stackBackoff p \<and> queue_inv T la lb p' \<or>
     stackBackoff p' = clearStackBackoff (stackBackoff p) (nsNameForStack s) \<and> queue_inv T la lb' p') \<and>
    queue_abs T p' = (queue_abs T p)(nsNameForStack s := None)"
proof -
  let ?x = "newStackInfoNoTimestamp s" and ?i = "nsNameForStack s"
  have parts: "heap_ok T la (activeQ p)" "heap_ok T lb (stackBackoffQ p)" "unsched_ok T (unschedulableQ p)"
      "nom_inv (nominatedMap p)"
    using inv by (simp_all add: queue_inv_def)
  obtain e a where a: "Heap_Delete stackInfoKeyFunc lf (activeQ p) ?x = Some (e, a)" "heap_ok T la a"
      "heap_names T a = (qA T p)(?i := None)" "e = None \<longleftrightarrow> qA T p ?i \<noteq> None"
    using heap_Delete_names [OF oA parts(1), of ?x] ok by auto
  define p2 where "p2 = PQ_clearStackBackoff (p\<lparr>nominatedMap := nominated_delete (nominatedMap p) s, activeQ := a\<rparr>) s"
  have bm: "stackBackoff p2 = clearStackBackoff (stackBackoff p) ?i"
    by (simp add: p2_def PQ_clearStackBackoff_def ClearStackBackoff_def)
  obtain f b where b: "backoff_Delete p2 ?x = Some (f, b)" "heap_ok T lb' b"
      "heap_names T b = (qB T p)(?i := None)"
    using heap_Delete_changed [OF lb oB parts(2), of ?x] ok agree
    by (auto simp: bm) (auto simp: p2_def PQ_clearStackBackoff_def)
  show ?thesis
  proof (cases e)
    case None
    define p' where "p' = p\<lparr>nominatedMap := nominated_delete (nominatedMap p) s, activeQ := a\<rparr>"
    have "qB T p ?i = None" "qU T p ?i = None"
      using None a(4) inv by (auto simp: queue_inv_parts)
    then have "queue_abs T p' = (queue_abs T p)(?i := None)"
      using queue_abs_maps [of T p' p ?i None None None] a(3) by (simp add: p'_def fun_upd_idem)
    moreover have "queue_inv T la lb p'"
      using inv a(2,3) nominated_delete_inv(1) [OF parts(4)] by (auto simp: p'_def queue_inv_parts)
    ultimately show ?thesis
      using a(1) None by (simp add: PQ_Delete_def p'_def)
  next
    case (Some err)
    define p' where "p' = p2\<lparr>stackBackoffQ := b, unschedulableQ := (unschedulableQ p)(fullName ?i := None)\<rparr>"
    have "queue_abs T p' = (queue_abs T p)(?i := None)"
      using queue_abs_maps [of T p' p ?i None None None] a(3) b(3)
      by (simp add: p'_def p2_def PQ_clearStackBackoff_def unsched_names_upd [OF ok])
    moreover have "queue_inv T la lb' p'"
      using inv a(2,3) b(2,3) nominated_delete_inv(1) [OF parts(4)] unsched_ok_upd(2) [OF parts(3)]
      by (auto simp: p'_def p2_def PQ_clearStackBackoff_def queue_inv_parts unsched_names_upd [OF ok])
    moreover have "PQ_Delete lf p s = Some p'"
      using a(1) b(1) Some
      by (simp add: PQ_Delete_def p'_def p2_def PQ_clearStackBackoff_def unschedulable_delete_def
          GetStackFullName_full Let_def)
    ultimately show ?thesis
      using bm by (simp add: p'_def)
  qed
qed

lemma Heap_Len_names: "heap_ok T lt h \<Longrightarrow> Heap_Len h = 0 \<longleftrightarrow> heap_names T h = Map.empty"
  using Heap_Len_card [of stackInfoKeyFunc h] Heap_wf_finite [of stackInfoKeyFunc h]
  by (simp add: heap_names_empty) (simp add: heap_ok_def Heap_inv_def)

lemma PQ_Pop_correct:
  assumes oA: "heap_order la lf" and inv: "queue_inv T la lb p" and ne: "qA T p \<noteq> Map.empty"
  shows "\<exists>x p' a. PQ_Pop lf p = Some (PopOk (si_Stack x), p') \<and> queue_inv T la lb p' \<and>
    Heap_Pop lf (activeQ p) = Some (Inr x, a) \<and>
    p' = p\<lparr>activeQ := a, schedulingCycle := wrap64 (schedulingCycle p + 1)\<rparr> \<and>
    queue_abs T p (sid x) = Some (InActive, x) \<and> queue_abs T p' = (queue_abs T p)(sid x := None) \<and>
    (\<forall>i y. queue_abs T p i = Some (InActive, y) \<longrightarrow> \<not> la y x)"
proof -
  have ok: "heap_ok T la (activeQ p)"
    using inv by (simp add: queue_inv_def)
  obtain a x where a: "Heap_Pop lf (activeQ p) = Some (Inr x, a)" "heap_ok T la a" "qA T p (sid x) = Some x"
      "heap_names T a = (qA T p)(sid x := None)" "\<forall>y \<in> ran (qA T p). \<not> la y x"
    using heap_Pop_names [OF oA ok ne] by blast
  define p' where "p' = p\<lparr>activeQ := a, schedulingCycle := wrap64 (schedulingCycle p + 1)\<rparr>"
  have "qB T p (sid x) = None" "qU T p (sid x) = None"
    using inv a(3) by (auto simp: queue_inv_parts)
  then have "queue_abs T p' = (queue_abs T p)(sid x := None)"
    using queue_abs_maps [of T p' p "sid x" None None None] a(4) by (simp add: p'_def fun_upd_idem)
  moreover have "queue_inv T la lb p'"
    using inv a(2,4) by (auto simp: p'_def queue_inv_parts)
  moreover have "PQ_Pop lf p = Some (PopOk (si_Stack x), p')"
    using a(1) ne Heap_Len_names [OF ok] by (simp add: PQ_Pop_def p'_def)
  moreover have "queue_abs T p (sid x) = Some (InActive, x)"
    using a(3) by (simp add: queue_abs_def)
  moreover have "\<not> la y x" if "queue_abs T p i = Some (InActive, y)" for i y
    using that a(5) by (auto simp: queue_abs_def ran_def split: option.splits)
  ultimately show ?thesis
    using a(1) by (auto simp: p'_def)
qed

lemma PQ_Pop_empty:
  assumes "queue_inv T la lb p" "qA T p = Map.empty"
  shows "PQ_Pop lf p = Some (if closed p then PopErr QueueClosed else PopBlocked, p)"
  using assms Heap_Len_names [of T la "activeQ p"] by (simp add: PQ_Pop_def queue_inv_def)

section \<open>Moving stacks between the sub-queues\<close>

definition backing_off :: "gotime \<Rightarrow> StackBackoffMap \<Rightarrow> NamespacedName \<Rightarrow> bool" where
  "backing_off now bm i \<longleftrightarrow> snd (GetBackoffTime bm i) \<and> now < fst (GetBackoffTime bm i)"

lemma isStackBackingOff_eq: "isStackBackingOff now p s \<longleftrightarrow> backing_off now (stackBackoff p) (nsNameForStack s)"
  by (simp add: isStackBackingOff_def backing_off_def case_prod_unfold Let_def)

lemma requeue_names:
  assumes oA: "heap_order la lf" and oB: "heap_order lb (stacksCompareBackoffCompleted (stackBackoff p))" and "heap_ok T la (activeQ p)" "heap_ok T lb (stackBackoffQ p)" "okid T (sid x)"
  shows "\<exists>a b. requeue lf now x p = Some (p\<lparr>activeQ := a, stackBackoffQ := b\<rparr>) \<and> heap_ok T la a \<and> heap_ok T lb b \<and>
    heap_names T a = (if backing_off now (stackBackoff p) (sid x) then qA T p else (qA T p)(sid x \<mapsto> x)) \<and>
    heap_names T b = (if backing_off now (stackBackoff p) (sid x) then (qB T p)(sid x \<mapsto> x) else qB T p)"
proof (cases "backing_off now (stackBackoff p) (sid x)")
  case True
  obtain b where "backoff_Add p x = Some (None, b)" "heap_ok T lb b" "heap_names T b = (qB T p)(sid x \<mapsto> x)"
    using heap_Add_names [OF oB assms(4,5)] by blast
  with True assms(3) show ?thesis
    by (intro exI [of _ "activeQ p"] exI [of _ b]) (simp add: requeue_def isStackBackingOff_eq)
next
  case False
  obtain a where "active_Add lf p x = Some (None, a)" "heap_ok T la a" "heap_names T a = (qA T p)(sid x \<mapsto> x)"
    using heap_Add_names [OF oA assms(3,5)] by blast
  with False assms(4) show ?thesis
    by (intro exI [of _ a] exI [of _ "stackBackoffQ p"]) (simp add: requeue_def isStackBackingOff_eq)
qed

lemma requeue_all_names:
  assumes oA: "heap_order la lf" and oB: "heap_order lb (stacksCompareBackoffCompleted (stackBackoff p))" and "heap_ok T la (activeQ p)" "heap_ok T lb (stackBackoffQ p)"
    and "\<forall>x \<in> set xs. okid T (sid x) \<and> m (sid x) = Some x"
  shows "\<exists>a b. foldM (requeue lf now) xs p = Some (p\<lparr>activeQ := a, stackBackoffQ := b\<rparr>) \<and>
    heap_ok T la a \<and> heap_ok T lb b \<and>
    heap_names T a = (\<lambda>i. if i \<in> sid ` set xs \<and> \<not> backing_off now (stackBackoff p) i then m i else qA T p i) \<and>
    heap_names T b = (\<lambda>i. if i \<in> sid ` set xs \<and> backing_off now (stackBackoff p) i then m i else qB T p i)"
  using assms
proof (induction xs arbitrary: p)
  case Nil
  then show ?case
    by (intro exI [of _ "activeQ p"] exI [of _ "stackBackoffQ p"]) simp
next
  case (Cons x xs)
  have x: "okid T (sid x)" "m (sid x) = Some x"
    using Cons.prems(5) by simp_all
  obtain a b where ab: "requeue lf now x p = Some (p\<lparr>activeQ := a, stackBackoffQ := b\<rparr>)" "heap_ok T la a" "heap_ok T lb b"
      "heap_names T a = (if backing_off now (stackBackoff p) (sid x) then qA T p else (qA T p)(sid x \<mapsto> x))"
      "heap_names T b = (if backing_off now (stackBackoff p) (sid x) then (qB T p)(sid x \<mapsto> x) else qB T p)"
    using requeue_names [OF Cons.prems(1-4) x(1)] by blast
  let ?p = "p\<lparr>activeQ := a, stackBackoffQ := b\<rparr>"
  have q: "heap_ok T la (activeQ ?p)" "heap_ok T lb (stackBackoffQ ?p)"
    using ab(2,3) by simp_all
  have mem: "\<forall>x \<in> set xs. okid T (sid x) \<and> m (sid x) = Some x"
    using Cons.prems(5) by simp
  have oB': "heap_order lb (stacksCompareBackoffCompleted (stackBackoff ?p))"
    using Cons.prems(2) by simp
  from Cons.IH [OF Cons.prems(1) oB' q mem] obtain a' b' where "foldM (requeue lf now) xs ?p = Some (?p\<lparr>activeQ := a', stackBackoffQ := b'\<rparr>)"
      "heap_ok T la a'" "heap_ok T lb b'"
      "heap_names T a' = (\<lambda>i. if i \<in> sid ` set xs \<and> \<not> backing_off now (stackBackoff ?p) i then m i else qA T ?p i)"
      "heap_names T b' = (\<lambda>i. if i \<in> sid ` set xs \<and> backing_off now (stackBackoff ?p) i then m i else qB T ?p i)"
    by (elim exE conjE) assumption
  with ab x show ?case
    by (intro exI [of _ a'] exI [of _ b']) (auto simp: fun_eq_iff)
qed

lemma map_filter_unsched:
  assumes ok: "unsched_ok T u" and ks: "range_order ks u"
  shows "set (List.map_filter u ks) = ran u" "x \<in> ran u \<Longrightarrow> okid T (sid x) \<and> unsched_names T u (sid x) = Some x"
    "sid ` ran u = dom (unsched_names T u)"
proof -
  show "set (List.map_filter u ks) = ran u"
    using ks by (auto simp: List.map_filter_def range_order_def ran_def image_iff dom_def) force
  show *: "okid T (sid x) \<and> unsched_names T u (sid x) = Some x" if "x \<in> ran u" for x
    using that ok by (auto simp: unsched_ok_def unsched_names_def ran_def)
  show "sid ` ran u = dom (unsched_names T u)"
  proof (intro equalityI subsetI)
    fix i
    assume "i \<in> dom (unsched_names T u)"
    then obtain x where "unsched_names T u i = Some x"
      by auto
    moreover have "x \<in> ran u"
      using calculation by (auto simp: unsched_names_def ran_def split: if_splits)
    ultimately show "i \<in> sid ` ran u"
      using unsched_names_sid [OF ok] by blast
  qed (use * in blast)
qed

lemma MoveAllToActiveQueue_correct:
  assumes oA: "heap_order la lf" and oB: "heap_order lb (stacksCompareBackoffCompleted (stackBackoff p))" and inv: "queue_inv T la lb p" and ks: "range_order ks (unschedulableQ p)"
  shows "\<exists>p'. MoveAllToActiveQueue lf now ks p = Some p' \<and> queue_inv T la lb p' \<and> stackBackoff p' = stackBackoff p \<and>
    moveRequestCycle p' = schedulingCycle p \<and>
    queue_abs T p' = (\<lambda>i. map_option (\<lambda>(pl, x).
      (if pl = InUnschedulable then if backing_off now (stackBackoff p) i then InBackoff else InActive else pl, x))
      (queue_abs T p i))"
proof -
  let ?u = "unschedulableQ p"
  have parts: "heap_ok T la (activeQ p)" "heap_ok T lb (stackBackoffQ p)" "unsched_ok T ?u"
    using inv by (simp_all add: queue_inv_def)
  note mf = map_filter_unsched [OF parts(3) ks]
  obtain a b where ab: "foldM (requeue lf now) (List.map_filter ?u ks) p = Some (p\<lparr>activeQ := a, stackBackoffQ := b\<rparr>)"
      "heap_ok T la a" "heap_ok T lb b"
      "heap_names T a = (\<lambda>i. if i \<in> dom (qU T p) \<and> \<not> backing_off now (stackBackoff p) i then qU T p i else qA T p i)"
      "heap_names T b = (\<lambda>i. if i \<in> dom (qU T p) \<and> backing_off now (stackBackoff p) i then qU T p i else qB T p i)"
    using requeue_all_names [OF oA oB parts(1,2), of "List.map_filter ?u ks" "qU T p" now] mf by auto
  define p' where "p' = p\<lparr>activeQ := a, stackBackoffQ := b, unschedulableQ := Map.empty,
    moveRequestCycle := schedulingCycle p\<rparr>"
  have "MoveAllToActiveQueue lf now ks p = Some p'"
    using ab(1) by (simp add: MoveAllToActiveQueue_def p'_def unschedulable_clear_def)
  moreover have u: "qU T p' = Map.empty" "unsched_ok T (unschedulableQ p')"
    by (simp_all add: p'_def unsched_names_def unsched_ok_def fun_eq_iff)
  have dis: "qA T p i = None \<or> qB T p i = None" "qU T p i = None \<or> qA T p i = None \<and> qB T p i = None" for i
    using inv by (simp_all add: queue_inv_pointwise)
  have "heap_names T a i = None \<or> heap_names T b i = None" for i
    using dis [of i] by (auto simp: ab(4,5))
  then have "queue_inv T la lb p'"
    using inv ab(2,3) u by (simp add: queue_inv_pointwise) (simp add: p'_def)
  moreover have "queue_abs T p' i = map_option (\<lambda>(pl, x).
      (if pl = InUnschedulable then if backing_off now (stackBackoff p) i then InBackoff else InActive else pl, x))
      (queue_abs T p i)" for i
    using dis [of i] ab(4,5) u(1)
    by (cases "qA T p i"; cases "qB T p i"; cases "qU T p i") (auto simp: queue_abs_def p'_def)
  ultimately show ?thesis
    by (auto simp: p'_def)
qed

lemma queue_abs_unsched:
  assumes "queue_inv T la lb p" "qU T p i = Some x"
  shows "queue_abs T p i = Some (InUnschedulable, x)"
proof -
  have "qU T p i = None \<or> qA T p i = None \<and> qB T p i = None"
    using assms(1) by (simp add: queue_inv_pointwise)
  then show ?thesis
    using assms(2) by (simp add: queue_abs_def)
qed

definition move_place :: "gotime \<Rightarrow> StackBackoffMap \<Rightarrow> NamespacedName \<Rightarrow> place" where
  "move_place now bm i = (if backing_off now bm i then InBackoff else InActive)"

lemma move_step:
  assumes oA: "heap_order la lf" and oB: "heap_order lb (stacksCompareBackoffCompleted (stackBackoff p))" and inv: "queue_inv T la lb p" and x: "qU T p (sid x) = Some x"
  shows "\<exists>a b. requeue lf now x p = Some (p\<lparr>activeQ := a, stackBackoffQ := b\<rparr>) \<and>
    (let p' = p\<lparr>activeQ := a, stackBackoffQ := b,
          unschedulableQ := unschedulable_delete (unschedulableQ p) (si_Stack x)\<rparr> in
     queue_inv T la lb p' \<and> qU T p' = (qU T p)(sid x := None) \<and>
     queue_abs T p' = (queue_abs T p)(sid x \<mapsto> (move_place now (stackBackoff p) (sid x), x)))"
proof -
  let ?bo = "backing_off now (stackBackoff p) (sid x)"
  have parts: "heap_ok T la (activeQ p)" "heap_ok T lb (stackBackoffQ p)" "unsched_ok T (unschedulableQ p)"
    and dis: "\<And>i. qA T p i = None \<or> qB T p i = None" "\<And>i. qU T p i = None \<or> qA T p i = None \<and> qB T p i = None"
    using inv by (simp_all add: queue_inv_pointwise)
  have ok: "okid T (sid x)"
    using unsched_names_sid [OF parts(3) x] by simp
  obtain a b where ab: "requeue lf now x p = Some (p\<lparr>activeQ := a, stackBackoffQ := b\<rparr>)" "heap_ok T la a" "heap_ok T lb b"
      "heap_names T a = (if ?bo then qA T p else (qA T p)(sid x \<mapsto> x))"
      "heap_names T b = (if ?bo then (qB T p)(sid x \<mapsto> x) else qB T p)"
    using requeue_names [OF oA oB parts(1,2) ok] by blast
  define p' where "p' = p\<lparr>activeQ := a, stackBackoffQ := b,
    unschedulableQ := unschedulable_delete (unschedulableQ p) (si_Stack x)\<rparr>"
  have none: "qA T p (sid x) = None" "qB T p (sid x) = None"
    using dis(2) [of "sid x"] x by simp_all
  have u: "qU T p' = (qU T p)(sid x := None)"
    by (simp add: p'_def unschedulable_delete_def GetStackFullName_full unsched_names_upd [OF ok])
  have A: "qA T p' = (qA T p)(sid x := if ?bo then None else Some x)"
    and B: "qB T p' = (qB T p)(sid x := if ?bo then Some x else None)"
    using ab(4,5) none by (auto simp: p'_def fun_upd_idem)
  have "queue_abs T p' = (queue_abs T p)(sid x \<mapsto> (move_place now (stackBackoff p) (sid x), x))"
    using queue_abs_maps [OF A B u] by (simp add: move_place_def)
  moreover have "heap_ok T la (activeQ p')" "heap_ok T lb (stackBackoffQ p')" "unsched_ok T (unschedulableQ p')"
      "nominatedMap p' = nominatedMap p"
    using ab(2,3) unsched_ok_upd(2) [OF parts(3)] by (simp_all add: p'_def unschedulable_delete_def)
  then have "queue_inv T la lb p'"
    using inv dis by (auto simp: queue_inv_pointwise A B u)
  ultimately show ?thesis
    using ab(1) u by (auto simp: p'_def Let_def)
qed

lemma moveStacksToActiveQueue_correct:
  assumes oA: "heap_order la lf" and oB: "heap_order lb (stacksCompareBackoffCompleted (stackBackoff p))" and "queue_inv T la lb p" "distinct (map sid xs)" "\<forall>x \<in> set xs. qU T p (sid x) = Some x"
  shows "\<exists>p'. moveStacksToActiveQueue lf now p xs = Some p' \<and> queue_inv T la lb p' \<and>
    moveRequestCycle p' = schedulingCycle p \<and> schedulingCycle p' = schedulingCycle p \<and> stackBackoff p' = stackBackoff p \<and>
    queue_abs T p' = (\<lambda>i. if i \<in> sid ` set xs
      then map_option (\<lambda>(pl, x). (move_place now (stackBackoff p) i, x)) (queue_abs T p i) else queue_abs T p i)"
proof -
  let ?f = "\<lambda>pInfo p. do {
      p' \<leftarrow> requeue lf now pInfo p;
      Some (p'\<lparr>unschedulableQ := unschedulable_delete (unschedulableQ p') (si_Stack pInfo)\<rparr>) }"
  have "\<exists>p'. foldM ?f xs p = Some p' \<and> queue_inv T la lb p' \<and> schedulingCycle p' = schedulingCycle p \<and> stackBackoff p' = stackBackoff p \<and>
    queue_abs T p' = (\<lambda>i. if i \<in> sid ` set xs
      then map_option (\<lambda>(pl, x). (move_place now (stackBackoff p) i, x)) (queue_abs T p i) else queue_abs T p i)"
    using assms
  proof (induction xs arbitrary: p)
    case (Cons x xs)
    obtain a b where ab: "requeue lf now x p = Some (p\<lparr>activeQ := a, stackBackoffQ := b\<rparr>)" and
        p': "let p' = p\<lparr>activeQ := a, stackBackoffQ := b,
          unschedulableQ := unschedulable_delete (unschedulableQ p) (si_Stack x)\<rparr> in
         queue_inv T la lb p' \<and> qU T p' = (qU T p)(sid x := None) \<and>
         queue_abs T p' = (queue_abs T p)(sid x \<mapsto> (move_place now (stackBackoff p) (sid x), x))"
      using move_step [OF Cons.prems(1-3), of x now] Cons.prems(5) by auto
    define p1 where "p1 = p\<lparr>activeQ := a, stackBackoffQ := b,
      unschedulableQ := unschedulable_delete (unschedulableQ p) (si_Stack x)\<rparr>"
    have p1: "queue_inv T la lb p1" "qU T p1 = (qU T p)(sid x := None)"
        "queue_abs T p1 = (queue_abs T p)(sid x \<mapsto> (move_place now (stackBackoff p) (sid x), x))"
      using p' unfolding Let_def p1_def by blast+
    have same: "stackBackoff p1 = stackBackoff p" "schedulingCycle p1 = schedulingCycle p"
      by (simp_all add: p1_def)
    have fresh: "sid x \<notin> sid ` set xs" and dist: "distinct (map sid xs)"
      using Cons.prems(4) by simp_all
    then have "sid y \<noteq> sid x" if "y \<in> set xs" for y
      using that by (metis image_eqI)
    then have mem: "\<forall>y \<in> set xs. qU T p1 (sid y) = Some y"
      unfolding p1(2) using Cons.prems(5) by simp
    obtain p2 where p2: "foldM ?f xs p1 = Some p2" "queue_inv T la lb p2" "schedulingCycle p2 = schedulingCycle p1"
        "stackBackoff p2 = stackBackoff p1"
        "queue_abs T p2 = (\<lambda>i. if i \<in> sid ` set xs
          then map_option (\<lambda>(pl, x). (move_place now (stackBackoff p1) i, x)) (queue_abs T p1 i)
          else queue_abs T p1 i)"
      using Cons.IH [OF Cons.prems(1) _ p1(1) dist mem] Cons.prems(2) same(1) by auto
    have "queue_abs T p (sid x) = Some (InUnschedulable, x)"
      using Cons.prems(5) queue_abs_unsched [OF Cons.prems(3)] by simp
    with fresh have "queue_abs T p2 = (\<lambda>i. if i \<in> sid ` set (x # xs)
        then map_option (\<lambda>(pl, x). (move_place now (stackBackoff p) i, x)) (queue_abs T p i) else queue_abs T p i)"
      unfolding p2(5) p1(3) same by (auto simp: fun_eq_iff)
    moreover have "foldM ?f (x # xs) p = Some p2"
      using ab p2(1) by (simp add: p1_def)
    ultimately show ?case
      using p2(2-4) same by metis
  qed simp
  then show ?thesis
    unfolding moveStacksToActiveQueue_def by auto
qed

lemma flushUnschedulableQLeftover_correct:
  assumes oA: "heap_order la lf" and oB: "heap_order lb (stacksCompareBackoffCompleted (stackBackoff p))" and inv: "queue_inv T la lb p" and ks: "range_order ks (unschedulableQ p)"
  shows "\<exists>p'. flushUnschedulableQLeftover lf now ks p = Some p' \<and> queue_inv T la lb p' \<and> stackBackoff p' = stackBackoff p \<and>
    queue_abs T p' = (\<lambda>i. map_option (\<lambda>(pl, x).
      (if pl = InUnschedulable \<and> unschedulableQTimeInterval < now - Timestamp x
       then move_place now (stackBackoff p) i else pl, x)) (queue_abs T p i))"
proof -
  let ?u = "unschedulableQ p"
  define xs where "xs = filter (\<lambda>x. unschedulableQTimeInterval < now - Timestamp x) (List.map_filter ?u ks)"
  have uok: "unsched_ok T ?u"
    using inv by (simp add: queue_inv_def)
  note mf = map_filter_unsched [OF uok ks]
  have mem: "\<forall>x \<in> set xs. qU T p (sid x) = Some x"
    using mf by (auto simp: xs_def)
  have "map (fullName \<circ> sid) (List.map_filter ?u l) = filter (\<lambda>k. ?u k \<noteq> None) l" for l
    using uok by (induction l) (auto simp: List.map_filter_def unsched_ok_def)
  then have "distinct (map (fullName \<circ> sid) (List.map_filter ?u ks))"
    using range_orderD(1) [OF ks] by simp
  then have dist: "distinct (map sid xs)"
    unfolding xs_def map_map [symmetric] by (metis distinct_map distinct_map_filter)
  have set: "i \<in> sid ` set xs \<longleftrightarrow>
      (\<exists>x. queue_abs T p i = Some (InUnschedulable, x) \<and> unschedulableQTimeInterval < now - Timestamp x)" for i
  proof
    assume "i \<in> sid ` set xs"
    then obtain x where "x \<in> set xs" "i = sid x"
      by blast
    then show "\<exists>x. queue_abs T p i = Some (InUnschedulable, x) \<and> unschedulableQTimeInterval < now - Timestamp x"
      using mem queue_abs_unsched [OF inv] by (auto simp: xs_def)
  next
    assume "\<exists>x. queue_abs T p i = Some (InUnschedulable, x) \<and> unschedulableQTimeInterval < now - Timestamp x"
    then obtain x where x: "qU T p i = Some x" "unschedulableQTimeInterval < now - Timestamp x"
      by (auto simp: queue_abs_def split: option.splits)
    have "sid x = i"
      using unsched_names_sid [OF uok x(1)] by simp
    moreover have "x \<in> ran ?u"
      using x(1) by (auto simp: unsched_names_def ran_def split: if_splits)
    then have "x \<in> set xs"
      using x(2) mf(1) by (simp add: xs_def)
    ultimately show "i \<in> sid ` set xs"
      by blast
  qed
  obtain p' where "(if xs \<noteq> [] then moveStacksToActiveQueue lf now p xs else Some p) = Some p'" "queue_inv T la lb p'"
      "stackBackoff p' = stackBackoff p"
      "queue_abs T p' = (\<lambda>i. if i \<in> sid ` set xs
      then map_option (\<lambda>(pl, x). (move_place now (stackBackoff p) i, x)) (queue_abs T p i) else queue_abs T p i)"
    using moveStacksToActiveQueue_correct [OF oA oB inv dist mem, of now] inv by (cases "xs = []") auto
  moreover have "flushUnschedulableQLeftover lf now ks p =
      (if xs \<noteq> [] then moveStacksToActiveQueue lf now p xs else Some p)"
    by (simp add: flushUnschedulableQLeftover_def xs_def Let_def)
  moreover have "(if i \<in> sid ` set xs
      then map_option (\<lambda>(pl, x). (move_place now (stackBackoff p) i, x)) (queue_abs T p i) else queue_abs T p i) =
    map_option (\<lambda>(pl, x). (if pl = InUnschedulable \<and> unschedulableQTimeInterval < now - Timestamp x
       then move_place now (stackBackoff p) i else pl, x)) (queue_abs T p i)" for i
    by (cases "queue_abs T p i") (auto simp: set)
  ultimately show ?thesis
    by simp
qed

text \<open>
  \<open>flushBackoffQCompleted\<close> moves a set of stacks from the backoff queue to the active queue, all of
  which have completed their backoff, and stops when the head of the backoff queue has not.
\<close>

lemma flushBackoffQCompleted_moves:
  assumes oA: "heap_order la lf" and oB: "heap_order lb (stacksCompareBackoffCompleted (stackBackoff p))" and "heap_ok T la (activeQ p)" "heap_ok T lb (stackBackoffQ p)" "dom (qA T p) \<inter> dom (qB T p) = {}"
  shows "\<exists>a b M. flushBackoffQCompleted lf now p = Some (p\<lparr>activeQ := a, stackBackoffQ := b\<rparr>) \<and>
    heap_ok T la a \<and> heap_ok T lb b \<and> M \<subseteq> dom (qB T p) \<and> (\<forall>i \<in> M. \<not> backing_off now (stackBackoff p) i) \<and>
    heap_names T a = (\<lambda>i. if i \<in> M then qB T p i else qA T p i) \<and>
    heap_names T b = (\<lambda>i. if i \<in> M then None else qB T p i) \<and>
    (heap_names T b = Map.empty \<or>
      (\<exists>x. Heap_Peek b = Some (Some x) \<and> backing_off now (stackBackoff p) (sid x) \<and>
        (\<forall>y \<in> ran (heap_names T b). \<not> lb y x)))"
  using assms
proof (induction lf now p rule: flushBackoffQCompleted.induct)
  case (1 lf now p)
  note oA = 1(3) and oB = 1(4) and okA = 1(5) and okB = 1(6) and dis = 1(7)
  let ?cmp = "stacksCompareBackoffCompleted (stackBackoff p)"
  show ?case
  proof (cases "qB T p = Map.empty")
    case True
    then have "queue (data (stackBackoffQ p)) = []"
      using okB heap_names_empty [OF okB] dom_heap_abs [of "data (stackBackoffQ p)"]
      by (auto simp: heap_ok_def Heap_inv_def Heap_wf_def Heap_abs_def)
    then have "flushBackoffQCompleted lf now p = Some (p\<lparr>activeQ := activeQ p, stackBackoffQ := stackBackoffQ p\<rparr>)"
      by (subst flushBackoffQCompleted.simps) (simp add: Heap_Peek_def heapData_Peek_def)
    then show ?thesis
      using okA okB True
      by (intro exI [of _ "activeQ p"] exI [of _ "stackBackoffQ p"] exI [of _ "{}"]) simp
  next
    case False
    obtain b x where b: "Heap_Pop ?cmp (stackBackoffQ p) = Some (Inr x, b)" "heap_ok T lb b"
        "qB T p (sid x) = Some x" "heap_names T b = (qB T p)(sid x := None)"
        "Heap_Peek (stackBackoffQ p) = Some (Some x)" "\<forall>y \<in> ran (qB T p). \<not> lb y x"
      using heap_Pop_names [OF oB okB False] by blast
    obtain t f where g: "GetBackoffTime (stackBackoff p) (sid x) = (t, f)"
      by fastforce
    show ?thesis
    proof (cases "f \<and> now < t")
      case True
      then have "flushBackoffQCompleted lf now p = Some (p\<lparr>activeQ := activeQ p, stackBackoffQ := stackBackoffQ p\<rparr>)"
        using b(5) g by (subst flushBackoffQCompleted.simps) simp
      moreover have "backing_off now (stackBackoff p) (sid x)"
        using True g by (simp add: backing_off_def)
      ultimately show ?thesis
        using okA okB b(5,6)
        by (intro exI [of _ "activeQ p"] exI [of _ "stackBackoffQ p"] exI [of _ "{}"]) simp
    next
      case fin: False
      have okx: "okid T (sid x)"
        using b(3) by (simp add: heap_names_def split: if_splits)
      obtain a where a: "active_Add lf p x = Some (None, a)" "heap_ok T la a" "heap_names T a = (qA T p)(sid x \<mapsto> x)"
        using heap_Add_names [OF oA okA okx] by blast
      let ?p = "p\<lparr>activeQ := a, stackBackoffQ := b\<rparr>"
      have step: "flushBackoffQCompleted lf now p = flushBackoffQCompleted lf now ?p"
        using b(1,5) g fin a(1) by (subst flushBackoffQCompleted.simps) auto
      have prems: "heap_ok T la (activeQ ?p)" "heap_ok T lb (stackBackoffQ ?p)" "dom (qA T ?p) \<inter> dom (qB T ?p) = {}"
          "heap_order lb (stacksCompareBackoffCompleted (stackBackoff ?p))"
        using a b dis oB by auto
      have IH: "\<exists>a' b' M. flushBackoffQCompleted lf now ?p = Some (?p\<lparr>activeQ := a', stackBackoffQ := b'\<rparr>) \<and>
          heap_ok T la a' \<and> heap_ok T lb b' \<and> M \<subseteq> dom (qB T ?p) \<and>
          (\<forall>i \<in> M. \<not> backing_off now (stackBackoff ?p) i) \<and>
          heap_names T a' = (\<lambda>i. if i \<in> M then qB T ?p i else qA T ?p i) \<and>
          heap_names T b' = (\<lambda>i. if i \<in> M then None else qB T ?p i) \<and>
          (heap_names T b' = Map.empty \<or>
            (\<exists>x. Heap_Peek b' = Some (Some x) \<and> backing_off now (stackBackoff ?p) (sid x) \<and>
              (\<forall>y \<in> ran (heap_names T b'). \<not> lb y x)))"
        using 1(1,2) oA prems b(1,5) g fin a(1) by (cases f) auto
      then obtain a' b' M where ih: "flushBackoffQCompleted lf now ?p = Some (?p\<lparr>activeQ := a', stackBackoffQ := b'\<rparr>)"
          "heap_ok T la a'" "heap_ok T lb b'" "M \<subseteq> dom (qB T ?p)"
          "\<forall>i \<in> M. \<not> backing_off now (stackBackoff ?p) i"
          "heap_names T a' = (\<lambda>i. if i \<in> M then qB T ?p i else qA T ?p i)"
          "heap_names T b' = (\<lambda>i. if i \<in> M then None else qB T ?p i)"
          "heap_names T b' = Map.empty \<or>
            (\<exists>x. Heap_Peek b' = Some (Some x) \<and> backing_off now (stackBackoff ?p) (sid x) \<and>
              (\<forall>y \<in> ran (heap_names T b'). \<not> lb y x))"
        by (elim exE conjE)
      have nbo: "\<not> backing_off now (stackBackoff p) (sid x)"
        using fin g by (simp add: backing_off_def)
      have M: "insert (sid x) M \<subseteq> dom (qB T p)" "sid x \<notin> M"
        using ih(4) b(3,4) by auto
      have A: "heap_names T a' = (\<lambda>i. if i \<in> insert (sid x) M then qB T p i else qA T p i)"
        and B: "heap_names T b' = (\<lambda>i. if i \<in> insert (sid x) M then None else qB T p i)"
        unfolding ih(6,7) using M(2) b(3,4) a(3) by auto
      have "flushBackoffQCompleted lf now p = Some (p\<lparr>activeQ := a', stackBackoffQ := b'\<rparr>)"
        using ih(1) step by simp
      moreover have "\<forall>i \<in> insert (sid x) M. \<not> backing_off now (stackBackoff p) i"
        using ih(5) nbo by simp
      moreover have "heap_names T b' = Map.empty \<or> (\<exists>x. Heap_Peek b' = Some (Some x) \<and>
          backing_off now (stackBackoff p) (sid x) \<and> (\<forall>y \<in> ran (heap_names T b'). \<not> lb y x))"
        using ih(8) by simp
      ultimately show ?thesis
        using ih(2,3) M(1) A B by blast
    qed
  qed
qed

lemma flushBackoffQCompleted_correct:
  assumes oA: "heap_order la lf" and oB: "heap_order lb (stacksCompareBackoffCompleted (stackBackoff p))" and inv: "queue_inv T la lb p"
  shows "\<exists>p' M. flushBackoffQCompleted lf now p = Some p' \<and> queue_inv T la lb p' \<and>
    (\<forall>i \<in> M. \<not> backing_off now (stackBackoff p) i \<and> (\<exists>x. queue_abs T p i = Some (InBackoff, x))) \<and>
    queue_abs T p' = (\<lambda>i. map_option (\<lambda>(pl, x). (if i \<in> M then InActive else pl, x)) (queue_abs T p i)) \<and>
    ((\<forall>i x. queue_abs T p' i \<noteq> Some (InBackoff, x)) \<or>
      (\<exists>x. backing_off now (stackBackoff p) (sid x) \<and>
        (\<forall>i y. queue_abs T p' i = Some (InBackoff, y) \<longrightarrow> \<not> lb y x))) \<and>
    stackBackoff p' = stackBackoff p"
proof -
  have parts: "heap_ok T la (activeQ p)" "heap_ok T lb (stackBackoffQ p)"
    and dis: "\<And>i. qA T p i = None \<or> qB T p i = None" "\<And>i. qU T p i = None \<or> qA T p i = None \<and> qB T p i = None"
    using inv by (simp_all add: queue_inv_pointwise)
  have "dom (qA T p) \<inter> dom (qB T p) = {}"
    using inv by (simp add: queue_inv_def)
  from flushBackoffQCompleted_moves [OF oA oB parts this, of now] obtain a b M where
    fl: "flushBackoffQCompleted lf now p = Some (p\<lparr>activeQ := a, stackBackoffQ := b\<rparr>)"
    "heap_ok T la a" "heap_ok T lb b" "M \<subseteq> dom (qB T p)" "\<forall>i \<in> M. \<not> backing_off now (stackBackoff p) i"
    "heap_names T a = (\<lambda>i. if i \<in> M then qB T p i else qA T p i)"
    "heap_names T b = (\<lambda>i. if i \<in> M then None else qB T p i)"
    "heap_names T b = Map.empty \<or> (\<exists>x. Heap_Peek b = Some (Some x) \<and> backing_off now (stackBackoff p) (sid x) \<and>
        (\<forall>y \<in> ran (heap_names T b). \<not> lb y x))"
    by (elim exE conjE)
  let ?p = "p\<lparr>activeQ := a, stackBackoffQ := b\<rparr>"
  have "heap_names T a i = None \<or> heap_names T b i = None"
      "qU T p i = None \<or> heap_names T a i = None \<and> heap_names T b i = None" for i
    using dis [of i] by (auto simp: fl(6,7))
  then have "queue_inv T la lb ?p"
    using inv fl(2,3) by (simp add: queue_inv_pointwise)
  moreover have "queue_abs T ?p i = map_option (\<lambda>(pl, x). (if i \<in> M then InActive else pl, x)) (queue_abs T p i)" for i
    using dis [of i] fl(4)
    by (cases "qA T p i"; cases "qB T p i"; cases "qU T p i") (auto simp: queue_abs_def fl(6,7))
  moreover have "\<exists>x. queue_abs T p i = Some (InBackoff, x)" if "i \<in> M" for i
    using that dis(1) [of i] fl(4) by (auto simp: queue_abs_def)
  moreover have inB: "heap_names T b i = Some y" if "queue_abs T ?p i = Some (InBackoff, y)" for i y
    using that by (auto simp: queue_abs_def split: option.splits)
  moreover have "(\<forall>i x. queue_abs T ?p i \<noteq> Some (InBackoff, x)) \<or>
      (\<exists>x. backing_off now (stackBackoff p) (sid x) \<and>
        (\<forall>i y. queue_abs T ?p i = Some (InBackoff, y) \<longrightarrow> \<not> lb y x))"
    using fl(8)
  proof (elim disjE exE conjE)
    fix x
    assume "backing_off now (stackBackoff p) (sid x)" "\<forall>y \<in> ran (heap_names T b). \<not> lb y x"
    then show ?thesis
      using inB by (blast intro: ranI)
  qed (use inB in auto)
  ultimately show ?thesis
    using fl(1,5) by (intro exI [of _ ?p] exI [of _ M]) (simp add: fun_eq_iff)
qed

definition updated_info :: "Stack \<Rightarrow> StackInfo \<Rightarrow> StackInfo" where
  "updated_info ns x = (newStackInfoNoTimestamp ns)\<lparr>Timestamp := Timestamp x\<rparr>"

lemma sid_updated [simp]: "si_Stack (updated_info ns x) = ns"
  by (simp add: updated_info_def newStackInfoNoTimestamp_def)

fun update_entry :: "gotime \<Rightarrow> Stack \<Rightarrow> Stack \<Rightarrow> (place \<times> StackInfo) option \<Rightarrow> place \<times> StackInfo" where
  "update_entry now os ns None = (InActive, newStackInfo now ns)"
| "update_entry now os ns (Some (InUnschedulable, x)) =
     (if os = ns then InUnschedulable else InActive, updated_info ns x)"
| "update_entry now os ns (Some (_, x)) = (InActive, updated_info ns x)"

lemma PQ_Update_correct:
  assumes oA: "heap_order la lf" and oB: "heap_order lb (stacksCompareBackoffCompleted (stackBackoff p))" and inv: "queue_inv T la lb p" and ok: "okid T (nsNameForStack ns)" and same: "nsNameForStack os = nsNameForStack ns"
  shows "\<exists>p'. PQ_Update lf now p (Some os) ns = Some (None, p') \<and> queue_inv T la lb p' \<and>
    (stackBackoff p' = stackBackoff p \<or>
     stackBackoff p' = clearStackBackoff (stackBackoff p) (nsNameForStack ns) \<and> qB T p (nsNameForStack ns) = None) \<and>
    queue_abs T p' = (queue_abs T p)(nsNameForStack ns \<mapsto> update_entry now os ns (queue_abs T p (nsNameForStack ns)))"
proof -
  let ?i = "nsNameForStack ns"
  have parts: "heap_ok T la (activeQ p)" "heap_ok T lb (stackBackoffQ p)" "unsched_ok T (unschedulableQ p)"
      "nom_inv (nominatedMap p)"
    and dis: "qA T p ?i = None \<or> qB T p ?i = None" "qU T p ?i = None \<or> qA T p ?i = None \<and> qB T p ?i = None"
    using inv by (simp_all add: queue_inv_pointwise)
  have ex: "heap_exists h (newStackInfoNoTimestamp os) = heap_names T h ?i" for h
    using heap_exists_names [of T "newStackInfoNoTimestamp os" h] ok same by simp
  have un: "unschedulable_get (unschedulableQ p) ns = qU T p ?i"
    by (rule unsched_get_names [OF ok])
  obtain npm where npm: "nominated_update (nominatedMap p) (Some os) ns = Some npm" "nom_inv npm"
    using nominated_update_inv [OF parts(4), of os ns] by blast
  have add: "\<exists>a. Heap_Add stackInfoKeyFunc lf (activeQ p) x = Some (None, a) \<and> heap_ok T la a \<and>
      heap_names T a = (qA T p)(?i \<mapsto> x)" if "si_Stack x = ns" for x
    using heap_Add_names [OF oA parts(1), of x] ok that by simp
  consider (act) x where "qA T p ?i = Some x" | (bo) x where "qA T p ?i = None" "qB T p ?i = Some x"
    | (un) x where "qA T p ?i = None" "qB T p ?i = None" "qU T p ?i = Some x"
    | (new) "qA T p ?i = None" "qB T p ?i = None" "qU T p ?i = None"
    by (cases "qA T p ?i"; cases "qB T p ?i"; cases "qU T p ?i") auto
  then show ?thesis
  proof cases
    case act
    obtain a where a: "Heap_Add stackInfoKeyFunc lf (activeQ p) (updated_info ns x) = Some (None, a)" "heap_ok T la a"
        "heap_names T a = (qA T p)(?i \<mapsto> updated_info ns x)"
      using add [of "updated_info ns x"] by auto
    let ?p = "p\<lparr>nominatedMap := npm, activeQ := a\<rparr>"
    have abs: "queue_abs T ?p = (queue_abs T p)(?i \<mapsto> (InActive, updated_info ns x))"
      using queue_abs_maps [of T ?p p ?i "Some (updated_info ns x)" None None] a(3) act dis
      by (simp add: fun_upd_idem)
    have "queue_inv T la lb ?p"
      using inv a npm(2) act dis by (auto simp: queue_inv_parts)
    then show ?thesis
      using a(1) npm(1) act abs
      by (simp add: PQ_Update_def ex Heap_Update_def queue_abs_def flip: updated_info_def)
  next
    case bo
    obtain a where a: "Heap_Add stackInfoKeyFunc lf (activeQ p) (updated_info ns x) = Some (None, a)" "heap_ok T la a"
        "heap_names T a = (qA T p)(?i \<mapsto> updated_info ns x)"
      using add [of "updated_info ns x"] by auto
    obtain e b where b: "backoff_Delete p (newStackInfoNoTimestamp os) = Some (e, b)" "heap_ok T lb b"
        "heap_names T b = (qB T p)(?i := None)"
      using heap_Delete_names [OF oB parts(2), of "newStackInfoNoTimestamp os"] ok same by fastforce
    let ?p = "p\<lparr>nominatedMap := npm, stackBackoffQ := b, activeQ := a\<rparr>"
    have abs: "queue_abs T ?p = (queue_abs T p)(?i \<mapsto> (InActive, updated_info ns x))"
      using queue_abs_maps [of T ?p p ?i "Some (updated_info ns x)" None None] a(3) b(3) bo dis
      by (simp add: fun_upd_idem)
    have "queue_inv T la lb ?p"
      using inv a b npm(2) bo dis by (auto simp: queue_inv_parts)
    then show ?thesis
      using a(1) b(1) npm(1) bo abs by (simp add: PQ_Update_def ex queue_abs_def flip: updated_info_def)
  next
    case un: un
    let ?x = "updated_info ns x"
    have sx: "sid x = ?i"
      using unsched_names_sid [OF parts(3) un(3)] by simp
    show ?thesis
    proof (cases "os = ns")
      case True
      let ?p = "p\<lparr>nominatedMap := npm, unschedulableQ := (unschedulableQ p)(fullName ?i \<mapsto> ?x)\<rparr>"
      have abs: "queue_abs T ?p = (queue_abs T p)(?i \<mapsto> (InUnschedulable, ?x))"
        using queue_abs_maps [of T ?p p ?i None None "Some ?x"] un
        by (simp add: fun_upd_idem unsched_names_upd [OF ok])
      have "queue_inv T la lb ?p"
        using inv npm(2) un unsched_ok_upd(1) [OF parts(3), of ?x] ok
        by (auto simp: queue_inv_parts unsched_names_upd [OF ok])
      then show ?thesis
        using npm(1) un abs True
        by (simp add: PQ_Update_def ex [unfolded True] unsched_get_names [OF ok] queue_abs_def isStackUpdated_def Stack_DeepCopy_def
            addOrUpdate_def GetStackFullName_full flip: updated_info_def)
    next
      case False
      obtain a where a: "Heap_Add stackInfoKeyFunc lf (activeQ p) ?x = Some (None, a)" "heap_ok T la a"
          "heap_names T a = (qA T p)(?i \<mapsto> ?x)"
        using add [of ?x] by auto
      let ?p = "(PQ_clearStackBackoff (p\<lparr>nominatedMap := npm\<rparr>) ns)
        \<lparr>unschedulableQ := (unschedulableQ p)(fullName ?i := None), activeQ := a\<rparr>"
      have abs: "queue_abs T ?p = (queue_abs T p)(?i \<mapsto> (InActive, ?x))"
        using queue_abs_maps [of T ?p p ?i "Some ?x" None None] a(3) un
        by (simp add: fun_upd_idem unsched_names_upd [OF ok] PQ_clearStackBackoff_def)
      have "queue_inv T la lb ?p"
        using inv npm(2) un a(2,3) unsched_ok_upd(2) [OF parts(3)]
        by (auto simp: queue_inv_parts unsched_names_upd [OF ok] PQ_clearStackBackoff_def)
      then show ?thesis
        using npm(1) un abs False a(1) sx
        by (simp add: PQ_Update_def ex unsched_get_names [OF ok] queue_abs_def isStackUpdated_def Stack_DeepCopy_def
            unschedulable_delete_def GetStackFullName_full PQ_clearStackBackoff_def ClearStackBackoff_def Let_def flip: updated_info_def)
    qed
  next
    case new
    obtain a where a: "Heap_Add stackInfoKeyFunc lf (activeQ p) (newStackInfo now ns) = Some (None, a)" "heap_ok T la a"
        "heap_names T a = (qA T p)(?i \<mapsto> newStackInfo now ns)"
      using add [of "newStackInfo now ns"] by auto
    let ?p = "p\<lparr>activeQ := a, nominatedMap := nominated_add (nominatedMap p) ns []\<rparr>"
    have abs: "queue_abs T ?p = (queue_abs T p)(?i \<mapsto> (InActive, newStackInfo now ns))"
      using queue_abs_maps [of T ?p p ?i "Some (newStackInfo now ns)" None None] a(3) new by (simp add: fun_upd_idem)
    have "queue_inv T la lb ?p"
      using inv a new nominated_add_inv(1) [OF parts(4)] by (auto simp: queue_inv_parts)
    then show ?thesis
      using a(1) new abs by (simp add: PQ_Update_def ex unsched_get_names [OF ok] queue_abs_def Let_def)
  qed
qed

lemma NewPriorityQueue_inv: "queue_inv T la lb NewPriorityQueue" "queue_abs T NewPriorityQueue = Map.empty"
  by (auto simp: queue_inv_def queue_abs_def NewPriorityQueue_def heap_ok_def heap_names_def unsched_ok_def
      unsched_names_def fun_eq_iff)

end
