(* ===== verification/QueueOrder.thy ===== *)
theory QueueOrder
  imports QueueInvariants
begin

text \<open>
  The scheduling queue as a state machine: one event per operation, with the clock readings the
  operation makes, and the properties of the reachable queues. The comparison of the backoff queue
  reads the backoff map, which changes while stacks are in the queue; what stays true of that heap is
  its order by \<open>max t (backoff time)\<close>, where \<open>t\<close> is the current time (\<open>cmp_at\<close>). This is enough for
  \<open>flushBackoffQCompleted\<close> to release every stack whose backoff has completed.
\<close>

section \<open>The order of the backoff queue\<close>

definition cmp_at :: "gotime \<Rightarrow> StackBackoffMap \<Rightarrow> StackInfo \<Rightarrow> StackInfo \<Rightarrow> bool" where
  "cmp_at t bm x y = (max t (fst (GetBackoffTime bm (sid x))) < max t (fst (GetBackoffTime bm (sid y))))"

definition bm_ok :: "StackBackoffMap \<Rightarrow> bool" where
  "bm_ok bm \<longleftrightarrow> dom (stackAttempts bm) = dom (stackLastUpdateTime bm) \<and> initialDuration bm \<le> maxDuration bm"

lemma cmp_at_order: "heap_order (cmp_at t bm) (stacksCompareBackoffCompleted bm)"
  by unfold_locales (auto simp: cmp_at_def stacksCompareBackoffCompleted_def)

lemma cmp_at_mono: "t \<le> t' \<Longrightarrow> cmp_at t' bm x y \<Longrightarrow> cmp_at t bm x y"
  by (auto simp: cmp_at_def)

lemma backoff_loop_le: "d \<le> mx \<Longrightarrow> backoff_loop mx n d \<le> mx"
  by (induction n arbitrary: d) (auto simp: Let_def)

lemma calculateBackoffDuration_le: "bm_ok bm \<Longrightarrow> calculateBackoffDuration bm i \<le> maxDuration bm"
  by (auto simp: calculateBackoffDuration_def bm_ok_def backoff_loop_le split: option.splits)

lemma GetBackoffTime_cong:
  "stackAttempts bm' i = stackAttempts bm i \<Longrightarrow> stackLastUpdateTime bm' i = stackLastUpdateTime bm i \<Longrightarrow>
   initialDuration bm' = initialDuration bm \<Longrightarrow> maxDuration bm' = maxDuration bm \<Longrightarrow>
   GetBackoffTime bm' i = GetBackoffTime bm i"
  by (simp add: GetBackoffTime_def calculateBackoffDuration_def map_get_def split: option.split)

lemma GetBackoffTime_clear: "i \<noteq> j \<Longrightarrow> GetBackoffTime (clearStackBackoff bm j) i = GetBackoffTime bm i"
  by (rule GetBackoffTime_cong) (simp_all add: clearStackBackoff_def)

lemma GetBackoffTime_BackoffStack: "i \<noteq> j \<Longrightarrow> GetBackoffTime (BackoffStack bm now j) i = GetBackoffTime bm i"
  by (rule GetBackoffTime_cong) (simp_all add: BackoffStack_def)

lemma GetBackoffTime_cleanup:
  assumes ok: "bm_ok bm" and t: "tnow \<le> t" "0 \<le> t"
  shows "max t (fst (GetBackoffTime (CleanupStacksCompletesBackingoff bm tnow) i)) = max t (fst (GetBackoffTime bm i))"
proof (cases "backoff_expired bm tnow i")
  case True
  then obtain v where v: "stackLastUpdateTime bm i = Some v" "v + maxDuration bm < tnow"
    by (auto simp: backoff_expired_def split: option.splits)
  then have "i \<in> dom (stackAttempts bm)"
    using ok by (auto simp: bm_ok_def)
  then have "fst (GetBackoffTime bm i) < tnow"
    using v calculateBackoffDuration_le [OF ok, of i] by (auto simp: GetBackoffTime_def)
  moreover have "GetBackoffTime (CleanupStacksCompletesBackingoff bm tnow) i = (0, False)"
    using True by (simp add: GetBackoffTime_def CleanupStacksCompletesBackingoff_def)
  ultimately show ?thesis
    using t by simp
next
  case False
  then have "GetBackoffTime (CleanupStacksCompletesBackingoff bm tnow) i = GetBackoffTime bm i"
    by (intro GetBackoffTime_cong) (simp_all add: CleanupStacksCompletesBackingoff_def)
  then show ?thesis
    by simp
qed

lemma bm_ok_ops:
  assumes "bm_ok bm"
  shows "bm_ok (clearStackBackoff bm i)" "bm_ok (BackoffStack bm now i)" "bm_ok (CleanupStacksCompletesBackingoff bm now)"
proof -
  show "bm_ok (clearStackBackoff bm i)" "bm_ok (BackoffStack bm now i)"
    using assms by (auto simp: bm_ok_def clearStackBackoff_def BackoffStack_def)
  let ?c = "CleanupStacksCompletesBackingoff bm now"
  have "stackAttempts bm k = None \<longleftrightarrow> stackLastUpdateTime bm k = None" for k
    using assms by (metis bm_ok_def domIff)
  then have "k \<in> dom (stackAttempts ?c) \<longleftrightarrow> k \<in> dom (stackLastUpdateTime ?c)" for k
    by (simp add: domIff CleanupStacksCompletesBackingoff_def del: not_None_eq)
  then have "dom (stackAttempts ?c) = dom (stackLastUpdateTime ?c)"
    by blast
  then show "bm_ok ?c"
    using assms by (simp add: bm_ok_def CleanupStacksCompletesBackingoff_def)
qed

lemma bm_ok_backoffStack: "bm_ok (stackBackoff p) \<Longrightarrow> bm_ok (stackBackoff (backoffStack now tnow p s))"
  by (simp add: backoffStack_def Let_def case_prod_unfold bm_ok_ops)

text \<open>A coarser order on the stored objects keeps the heap in order.\<close>

lemma heap_ok_coarsen:
  assumes ok: "heap_ok T lt h"
    and le: "\<And>x y. x \<in> ran (heap_names T h) \<Longrightarrow> y \<in> ran (heap_names T h) \<Longrightarrow> lt' x y \<Longrightarrow> lt x y"
  shows "heap_ok T lt' h"
proof -
  let ?n = "length (queue (data h))" and ?xs = "objs (data h)"
  have wf: "Heap_wf stackInfoKeyFunc h" "heap_wf (data h)"
    using ok by (auto simp: heap_ok_def Heap_inv_def Heap_wf_def)
  have mem: "?xs ! k \<in> ran (heap_names T h)" if "k < ?n" for k
  proof -
    have abs: "Heap_abs h (queue (data h) ! k) = Some (?xs ! k)"
      using wf(2) that heap_wf_item [of "data h" k] by (auto simp: Heap_abs_def heap_abs_def)
    moreover have "okid T (sid (?xs ! k))"
      using ok abs by (auto simp: heap_ok_def ran_def)
    ultimately show ?thesis
      using objs_key [OF wf(1) that] by (intro ranI [of _ "sid (?xs ! k)"]) (simp add: heap_names_def)
  qed
  have "heap_sorted lt' ?xs ?n"
    unfolding heap_sorted_def
  proof (intro allI impI)
    fix k
    assume k: "k < ?n" "0 < k"
    then have "\<not> lt (?xs ! k) (?xs ! ((k - 1) div 2))"
      using ok by (auto simp: heap_ok_def Heap_inv_def heap_sorted_def)
    moreover have "(k - 1) div 2 < ?n"
      using k by linarith
    ultimately show "\<not> lt' (?xs ! k) (?xs ! ((k - 1) div 2))"
      using le mem k(1) by blast
  qed
  then show ?thesis
    using ok by (simp add: heap_ok_def Heap_inv_def)
qed

lemma queue_inv_coarsen:
  "queue_inv T la lb p \<Longrightarrow>
   (\<And>x y. x \<in> ran (qB T p) \<Longrightarrow> y \<in> ran (qB T p) \<Longrightarrow> lb' x y \<Longrightarrow> lb x y) \<Longrightarrow> queue_inv T la lb' p"
  using heap_ok_coarsen [of T lb "stackBackoffQ p" lb'] by (auto simp: queue_inv_def)

section \<open>Events\<close>

datatype queue_event =
    QAdd Stack
  | QAddIfNotPresent Stack
  | QAddUnschedulable Stack int
  | QPop
  | QUpdate Stack Stack
  | QDelete Stack
  | QMoveAll
  | QFlushBackoff
  | QFlushUnschedulable
  | QClose
  | QNominate Stack string
  | QDeleteNominated Stack

text \<open>An event with the readings of the two clocks and the iteration order of the unschedulable map.\<close>

record queue_call =
  call_event :: queue_event
  call_now :: gotime
  call_tnow :: gotime
  call_order :: "string list"

type_synonym queue_state = "gotime \<times> PriorityQueue"

fun event_ok :: "string \<Rightarrow> queue_event \<Rightarrow> bool" where
  "event_ok T (QAdd s) = okid T (nsNameForStack s)"
| "event_ok T (QAddIfNotPresent s) = okid T (nsNameForStack s)"
| "event_ok T (QAddUnschedulable s c) = okid T (nsNameForStack s)"
| "event_ok T (QUpdate os ns) = (okid T (nsNameForStack ns) \<and> nsNameForStack os = nsNameForStack ns)"
| "event_ok T (QDelete s) = okid T (nsNameForStack s)"
| "event_ok T _ = True"

definition call_ok :: "string \<Rightarrow> queue_call \<Rightarrow> queue_state \<Rightarrow> bool" where
  "call_ok T c s \<longleftrightarrow>
     fst s \<le> call_now c \<and> fst s \<le> call_tnow c \<and> event_ok T (call_event c) \<and>
     range_order (call_order c) (unschedulableQ (snd s))"

fun queue_do :: "StackInfo lessFunc \<Rightarrow> queue_event \<Rightarrow> gotime \<Rightarrow> gotime \<Rightarrow> string list \<Rightarrow> PriorityQueue \<Rightarrow> PriorityQueue option" where
  "queue_do lf (QAdd s) now tnow ks p = map_option snd (PQ_Add lf now p s)"
| "queue_do lf (QAddIfNotPresent s) now tnow ks p = map_option snd (PQ_AddIfNotPresent lf now p s)"
| "queue_do lf (QAddUnschedulable s c) now tnow ks p = map_option snd (AddUnschedulableIfNotPresent now tnow p s c)"
| "queue_do lf QPop now tnow ks p = map_option snd (PQ_Pop lf p)"
| "queue_do lf (QUpdate os ns) now tnow ks p = map_option snd (PQ_Update lf now p (Some os) ns)"
| "queue_do lf (QDelete s) now tnow ks p = PQ_Delete lf p s"
| "queue_do lf QMoveAll now tnow ks p = MoveAllToActiveQueue lf now ks p"
| "queue_do lf QFlushBackoff now tnow ks p = flushBackoffQCompleted lf now p"
| "queue_do lf QFlushUnschedulable now tnow ks p = flushUnschedulableQLeftover lf now ks p"
| "queue_do lf QClose now tnow ks p = Some (PQ_Close p)"
| "queue_do lf (QNominate s n) now tnow ks p = Some (UpdateNominatedStackForSite p s n)"
| "queue_do lf (QDeleteNominated s) now tnow ks p = Some (DeleteNominatedStackIfExists p s)"

definition queue_run :: "StackInfo lessFunc \<Rightarrow> queue_call \<Rightarrow> queue_state \<Rightarrow> queue_state option" where
  "queue_run lf c s =
     map_option (Pair (max (call_now c) (call_tnow c)))
       (queue_do lf (call_event c) (call_now c) (call_tnow c) (call_order c) (snd s))"

inductive queue_step :: "StackInfo lessFunc \<Rightarrow> string \<Rightarrow> queue_state \<Rightarrow> queue_call \<Rightarrow> queue_state \<Rightarrow> bool"
  for lf T where
  step: "call_ok T c s \<Longrightarrow> queue_run lf c s = Some s' \<Longrightarrow> queue_step lf T s c s'"

inductive queue_reach :: "StackInfo lessFunc \<Rightarrow> string \<Rightarrow> queue_state \<Rightarrow> bool" for lf T where
  init: "queue_reach lf T (0, NewPriorityQueue)"
| next_state: "queue_reach lf T s \<Longrightarrow> queue_step lf T s c s' \<Longrightarrow> queue_reach lf T s'"

inductive_cases queue_stepE: "queue_step lf T s c s'"
inductive_simps queue_step_iff: "queue_step lf T s c s'"

definition state_inv :: "StackInfo lessFunc \<Rightarrow> string \<Rightarrow> queue_state \<Rightarrow> bool" where
  "state_inv lf T s \<longleftrightarrow>
     0 \<le> fst s \<and> bm_ok (stackBackoff (snd s)) \<and>
     queue_inv T lf (cmp_at (fst s) (stackBackoff (snd s))) (snd s)"

text \<open>The pending stacks an event may remove.\<close>

definition removes :: "StackInfo lessFunc \<Rightarrow> queue_call \<Rightarrow> queue_state \<Rightarrow> NamespacedName \<Rightarrow> bool" where
  "removes lf c s i =
     (case call_event c of
        QDelete st \<Rightarrow> nsNameForStack st = i
      | QPop \<Rightarrow> (case PQ_Pop lf (snd s) of
                  Some (PopOk st, _) \<Rightarrow> nsNameForStack st = i
                | _ \<Rightarrow> False)
      | _ \<Rightarrow> False)"

text \<open>
  What an operation must establish: it does not panic, the invariant holds at the time it ends, and
  a pending stack stays pending unless the event removes it.
\<close>

definition event_good :: "StackInfo lessFunc \<Rightarrow> string \<Rightarrow> gotime \<Rightarrow> PriorityQueue \<Rightarrow> NamespacedName set \<Rightarrow> PriorityQueue option \<Rightarrow> bool" where
  "event_good lf T t p R r \<longleftrightarrow>
     (\<exists>p'. r = Some p' \<and> bm_ok (stackBackoff p') \<and> queue_inv T lf (cmp_at t (stackBackoff p')) p' \<and>
        dom (queue_abs T p) - R \<subseteq> dom (queue_abs T p'))"

lemma event_good_same:
  assumes "r = Some p'" "stackBackoff p' = stackBackoff p" "bm_ok (stackBackoff p)"
    "queue_inv T lf (cmp_at t (stackBackoff p)) p'" "dom (queue_abs T p) - R \<subseteq> dom (queue_abs T p')"
  shows "event_good lf T t p R r"
  using assms by (simp add: event_good_def)

lemma clear_agree:
  assumes "i \<noteq> sid x" "i \<noteq> sid y"
  shows "cmp_at t (clearStackBackoff bm i) x y \<longleftrightarrow> cmp_at t bm x y"
  using assms GetBackoffTime_clear [of "sid x" i bm] GetBackoffTime_clear [of "sid y" i bm] by (simp add: cmp_at_def)

lemma queue_inv_bm_change:
  assumes inv: "queue_inv T lf (cmp_at t bm) p"
    and same: "\<And>i. i \<in> dom (qB T p) \<Longrightarrow> max t (fst (GetBackoffTime bm' i)) = max t (fst (GetBackoffTime bm i))"
  shows "queue_inv T lf (cmp_at t bm') p"
proof (rule queue_inv_coarsen [OF inv])
  have ok: "heap_ok T (cmp_at t bm) (stackBackoffQ p)"
    using inv by (simp add: queue_inv_def)
  have sid: "sid x \<in> dom (qB T p)" if "x \<in> ran (qB T p)" for x
    using that heap_names_sid [OF ok] by (auto simp: ran_def)
  show "cmp_at t bm x y" if "x \<in> ran (qB T p)" "y \<in> ran (qB T p)" "cmp_at t bm' x y" for x y
    using that same [OF sid [OF that(1)]] same [OF sid [OF that(2)]] by (simp add: cmp_at_def)
qed

lemma AddUnschedulable_good:
  assumes inv: "queue_inv T lf (cmp_at t (stackBackoff p)) p" and bm: "bm_ok (stackBackoff p)"
    and t: "tnow \<le> t" "0 \<le> t" and ok: "okid T (nsNameForStack s)"
  shows "event_good lf T t p {} (map_option snd (AddUnschedulableIfNotPresent now tnow p s c))"
proof -
  let ?b = "stackBackoff (backoffStack now tnow p s)" and ?i = "nsNameForStack s"
  have same: "max t (fst (GetBackoffTime ?b i)) = max t (fst (GetBackoffTime (stackBackoff p) i))" if "i \<noteq> ?i" for i
    using that GetBackoffTime_cleanup [OF bm t, of i]
    by (simp add: backoffStack_def Let_def case_prod_unfold GetBackoffTime_BackoffStack)
  show ?thesis
  proof (cases "queue_abs T p ?i = None")
    case True
    then have "?i \<notin> dom (qB T p)"
      by (auto simp: queue_abs_def split: option.splits)
    then have "queue_inv T lf (cmp_at t ?b) p"
      using queue_inv_bm_change [OF inv] same by metis
    from AddUnschedulableIfNotPresent_correct [OF cmp_at_order this ok, of c] True
    show ?thesis
      using bm bm_ok_backoffStack [OF bm, of now tnow s] inv by (auto simp: event_good_def)
  next
    case False
    then have "\<exists>e. AddUnschedulableIfNotPresent now tnow p s c = Some (Some e, p)"
      using ok by (auto simp: AddUnschedulableIfNotPresent_def unsched_get_names [OF ok]
          heap_exists_names [where T = T] Let_def queue_abs_def split: option.splits)
    then show ?thesis
      using inv bm by (auto simp: event_good_def)
  qed
qed

lemma PQ_Delete_good:
  assumes lf: "strict_weak_order lf" and inv: "queue_inv T lf (cmp_at t (stackBackoff p)) p" and bm: "bm_ok (stackBackoff p)"
    and ok: "okid T (nsNameForStack s)"
  shows "event_good lf T t p {nsNameForStack s} (PQ_Delete lf p s)"
proof -
  let ?i = "nsNameForStack s"
  have swo: "strict_weak_order (cmp_at t (stackBackoff p))"
    using cmp_at_order [of t "stackBackoff p"] by (simp add: heap_order_def)
  have agree: "cmp_at t (clearStackBackoff (stackBackoff p) ?i) x y = cmp_at t (stackBackoff p) x y"
    if "sid x \<noteq> ?i" "sid y \<noteq> ?i" for x y
    using that clear_agree by metis
  from PQ_Delete_correct [OF heap_order_self [OF lf] swo cmp_at_order agree inv ok]
  show ?thesis
    using bm bm_ok_ops(1) [OF bm, of ?i] by (auto simp: event_good_def)
qed

lemma update_entry_place: "fst (update_entry now os ns e) \<noteq> InBackoff"
  by (cases "(now, os, ns, e)" rule: update_entry.cases) auto

lemma queue_abs_backoff:
  assumes "queue_inv T la lb p" "qB T p i = Some x"
  shows "queue_abs T p i = Some (InBackoff, x)"
proof -
  have "qA T p i = None \<or> qB T p i = None"
    using assms(1) by (simp add: queue_inv_pointwise)
  then show ?thesis
    using assms(2) by (simp add: queue_abs_def)
qed

lemma PQ_Update_good:
  assumes lf: "strict_weak_order lf" and inv: "queue_inv T lf (cmp_at t (stackBackoff p)) p" and bm: "bm_ok (stackBackoff p)"
    and ok: "okid T (nsNameForStack ns)" and same: "nsNameForStack os = nsNameForStack ns"
  shows "event_good lf T t p {} (map_option snd (PQ_Update lf now p (Some os) ns))"
proof -
  let ?i = "nsNameForStack ns"
  obtain p' where p': "PQ_Update lf now p (Some os) ns = Some (None, p')" "queue_inv T lf (cmp_at t (stackBackoff p)) p'"
      "stackBackoff p' = stackBackoff p \<or> stackBackoff p' = clearStackBackoff (stackBackoff p) ?i \<and> qB T p ?i = None"
      "queue_abs T p' = (queue_abs T p)(?i \<mapsto> update_entry now os ns (queue_abs T p ?i))"
    using PQ_Update_correct [OF heap_order_self [OF lf] cmp_at_order inv ok same, of now] by blast
  have "queue_inv T lf (cmp_at t (stackBackoff p')) p'"
  proof (cases "stackBackoff p' = stackBackoff p")
    case False
    then have c: "stackBackoff p' = clearStackBackoff (stackBackoff p) ?i" "qB T p ?i = None"
      using p'(3) by auto
    have "?i \<notin> dom (qB T p')"
      using queue_abs_backoff [OF p'(2), of ?i] p'(4) update_entry_place [of now os ns "queue_abs T p ?i"] by auto
    then show ?thesis
      using queue_inv_bm_change [OF p'(2)] c GetBackoffTime_clear by metis
  qed (use p'(2) in simp)
  moreover have "bm_ok (stackBackoff p')"
    using p'(3) bm bm_ok_ops(1) [OF bm] by auto
  ultimately show ?thesis
    using p'(1,4) by (auto simp: event_good_def)
qed

lemma queue_do_good:
  assumes lf: "strict_weak_order lf" and inv: "queue_inv T lf (cmp_at t (stackBackoff p)) p" and bm: "bm_ok (stackBackoff p)"
    and t: "tnow \<le> t" "0 \<le> t" and ev: "event_ok T ev" and ks: "range_order ks (unschedulableQ p)"
  shows "event_good lf T t p {i. removes lf \<lparr>call_event = ev, call_now = now, call_tnow = tnow, call_order = ks\<rparr> (u, p) i}
    (queue_do lf ev now tnow ks p)"
proof -
  note oA = heap_order_self [OF lf] and oB = cmp_at_order [of t "stackBackoff p"]
  show ?thesis
  proof (cases ev)
    case (QAdd s)
    then show ?thesis
      using PQ_Add_correct [OF oA oB inv, of s now] ev bm by (auto simp: event_good_def)
  next
    case (QAddIfNotPresent s)
    then show ?thesis
      using PQ_AddIfNotPresent_correct [OF oA inv, of s now] ev bm by (auto simp: event_good_def)
  next
    case (QAddUnschedulable s c)
    then show ?thesis
      using AddUnschedulable_good [OF inv bm t, of s now c] ev by (auto simp: event_good_def removes_def)
  next
    case QPop
    show ?thesis
    proof (cases "qA T p = Map.empty")
      case True
      then show ?thesis
        using PQ_Pop_empty [OF inv] QPop inv bm by (simp add: event_good_def)
    next
      case False
      obtain x p' a where "PQ_Pop lf p = Some (PopOk (si_Stack x), p')" "queue_inv T lf (cmp_at t (stackBackoff p)) p'"
          "p' = p\<lparr>activeQ := a, schedulingCycle := wrap64 (schedulingCycle p + 1)\<rparr>"
          "queue_abs T p' = (queue_abs T p)(sid x := None)"
        using PQ_Pop_correct [OF oA inv False] by blast
      then show ?thesis
        using QPop bm by (auto simp: event_good_def removes_def)
    qed
  next
    case (QUpdate os ns)
    then show ?thesis
      using PQ_Update_good [OF lf inv bm, of ns os now] ev by (auto simp: event_good_def removes_def)
  next
    case (QDelete s)
    then show ?thesis
      using PQ_Delete_good [OF lf inv bm, of s] ev by (simp add: removes_def)
  next
    case QMoveAll
    then show ?thesis
      using MoveAllToActiveQueue_correct [OF oA oB inv ks, of now] bm by (auto simp: event_good_def)
  next
    case QFlushBackoff
    then show ?thesis
      using flushBackoffQCompleted_correct [OF oA oB inv, of now] bm by (auto simp: event_good_def)
  next
    case QFlushUnschedulable
    then show ?thesis
      using flushUnschedulableQLeftover_correct [OF oA oB inv ks, of now] bm by (auto simp: event_good_def)
  next
    case QClose
    then show ?thesis
      using inv bm by (simp add: event_good_def PQ_Close_def)
  next
    case (QNominate s n)
    then show ?thesis
      using inv bm nominated_add_inv(1) [of "nominatedMap p" s n]
      by (simp add: event_good_def UpdateNominatedStackForSite_def) (simp add: queue_inv_def)
  next
    case (QDeleteNominated s)
    then show ?thesis
      using inv bm nominated_delete_inv(1) [of "nominatedMap p" s]
      by (simp add: event_good_def DeleteNominatedStackIfExists_def) (simp add: queue_inv_def)
  qed
qed

section \<open>The contract of the scheduling queue\<close>

text \<open>The calls of a trace, each made in the state that the calls before it lead to.\<close>

fun call_trace :: "('c \<Rightarrow> 's \<Rightarrow> 's option) \<Rightarrow> ('c \<Rightarrow> 's \<Rightarrow> bool) \<Rightarrow> 'c list \<Rightarrow> 's \<Rightarrow> bool" where
  "call_trace run P [] s = True"
| "call_trace run P (c # cs) s =
     (P c s \<and> (case run c s of None \<Rightarrow> False | Some s' \<Rightarrow> call_trace run P cs s'))"

locale pending_queue =
  fixes inv :: "'s \<Rightarrow> bool"
    and pending :: "'s \<Rightarrow> 'i set"
    and enabled :: "'c \<Rightarrow> 's \<Rightarrow> bool"
    and run :: "'c \<Rightarrow> 's \<Rightarrow> 's option"
    and takes :: "'c \<Rightarrow> 's \<Rightarrow> 'i \<Rightarrow> bool"
  assumes run_ok: "inv s \<Longrightarrow> enabled c s \<Longrightarrow> \<exists>s'. run c s = Some s' \<and> inv s'"
    and run_keeps: "inv s \<Longrightarrow> enabled c s \<Longrightarrow> run c s = Some s' \<Longrightarrow> i \<in> pending s \<Longrightarrow> \<not> takes c s i \<Longrightarrow> i \<in> pending s'"
begin

lemma trace_run: "inv s \<Longrightarrow> call_trace run enabled cs s \<Longrightarrow> \<exists>s'. foldM run cs s = Some s' \<and> inv s'"
proof (induction cs arbitrary: s)
  case (Cons c cs)
  then show ?case
    using run_ok [of s c] by (auto split: option.splits)
qed simp

lemma trace_pending:
  "inv s \<Longrightarrow> call_trace run enabled cs s \<Longrightarrow> call_trace run (\<lambda>c s. \<not> takes c s i) cs s \<Longrightarrow> i \<in> pending s \<Longrightarrow>
   foldM run cs s = Some s' \<Longrightarrow> i \<in> pending s'"
proof (induction cs arbitrary: s)
  case (Cons c cs)
  obtain s1 where s1: "run c s = Some s1" "inv s1"
    using run_ok [of s c] Cons.prems by auto
  moreover have "i \<in> pending s1"
    using run_keeps [of s c s1] Cons.prems s1 by simp
  ultimately show ?case
    using Cons by simp
qed simp

end

lemma queue_run_good:
  assumes lf: "strict_weak_order lf" and inv: "state_inv lf T s" and c: "call_ok T c s"
  shows "\<exists>s'. queue_run lf c s = Some s' \<and> state_inv lf T s' \<and>
    dom (queue_abs T (snd s)) - {i. removes lf c s i} \<subseteq> dom (queue_abs T (snd s'))"
proof -
  obtain t p where s: "s = (t, p)"
    by fastforce
  let ?t = "max (call_now c) (call_tnow c)"
  have t: "0 \<le> t" "t \<le> ?t" "0 \<le> ?t"
    using inv c by (auto simp: s state_inv_def call_ok_def)
  have bm: "bm_ok (stackBackoff p)"
    using inv by (simp add: s state_inv_def)
  have "queue_inv T lf (cmp_at ?t (stackBackoff p)) p"
    using inv cmp_at_mono [OF t(2)] by (auto simp: s state_inv_def intro: queue_inv_coarsen)
  from queue_do_good [OF lf this bm _ t(3), of "call_tnow c" "call_event c" "call_order c" "call_now c" t] c
  obtain p' where p': "queue_do lf (call_event c) (call_now c) (call_tnow c) (call_order c) p = Some p'"
      "bm_ok (stackBackoff p')" "queue_inv T lf (cmp_at ?t (stackBackoff p')) p'"
      "dom (queue_abs T p) - {i. removes lf c (t, p) i} \<subseteq> dom (queue_abs T p')"
    by (cases c) (auto simp: event_good_def call_ok_def s)
  then show ?thesis
    using t(3) by (auto simp: queue_run_def state_inv_def s)
qed

lemma pending_queue_of_order:
  assumes "strict_weak_order lf"
  shows "pending_queue (state_inv lf T) (\<lambda>s. dom (queue_abs T (snd s))) (call_ok T) (queue_run lf) (removes lf)"
proof (unfold_locales, goal_cases)
  case (1 s c)
  then show ?case
    using queue_run_good [OF assms 1] by blast
next
  case (2 s c s' i)
  then show ?case
    using queue_run_good [OF assms 2(1,2)] by auto
qed

text \<open>The comparison used when no queue-sort plugin is configured.\<close>

interpretation active_order: strict_weak_order activeQComp
  by unfold_locales (auto simp: activeQComp_def GetStackPriority_def)

interpretation active_queue: pending_queue "state_inv activeQComp T" "\<lambda>s. dom (queue_abs T (snd s))" "call_ok T"
    "queue_run activeQComp" "removes activeQComp" for T
  by (rule pending_queue_of_order) (rule active_order.strict_weak_order_axioms)

lemma state_inv_init: "state_inv lf T (0, NewPriorityQueue)"
proof -
  have "heap_ok T lt NewHeap" for lt
    by (simp add: heap_ok_def)
  then show ?thesis
    by (auto simp: state_inv_def bm_ok_def NewPriorityQueue_def NewStackBackoffMap_def queue_inv_def unsched_ok_def
        unsched_names_def heap_names_def)
qed

lemma reach_state_inv: "queue_reach lf T s \<Longrightarrow> strict_weak_order lf \<Longrightarrow> state_inv lf T s"
proof (induction rule: queue_reach.induct)
  case init
  show ?case
    by (rule state_inv_init)
next
  case (next_state s c s')
  then show ?case
    using queue_run_good [of lf T s c] by (auto elim!: queue_stepE)
qed

end
