(* ===== verification/QueueProperties.thy ===== *)
theory QueueProperties
  imports QueueOrder
begin

text \<open>
  What the scheduling queue promises to the scheduler. \<open>queue_spec\<close> is the abstract queue: a map from
  the names of the pending stacks to the sub-queue they wait in and their queue entry, with one clause
  per operation. The detailed queue, two heaps with index maps, a map keyed by another name and a
  backoff table, is shown to refine it in every reachable state.
\<close>

section \<open>The abstract queue\<close>

type_synonym pending_map = "NamespacedName \<rightharpoonup> place \<times> StackInfo"

definition relocate :: "gotime \<Rightarrow> StackBackoffMap \<Rightarrow> (place \<Rightarrow> StackInfo \<Rightarrow> bool) \<Rightarrow> pending_map \<Rightarrow> pending_map" where
  "relocate now bm P M i = map_option (\<lambda>(pl, x). (if P pl x then move_place now bm i else pl, x)) (M i)"

definition first_active :: "StackInfo lessFunc \<Rightarrow> pending_map \<Rightarrow> NamespacedName \<Rightarrow> bool" where
  "first_active lf M i \<longleftrightarrow>
     (\<exists>x. M i = Some (InActive, x) \<and> (\<forall>j y. M j = Some (InActive, y) \<longrightarrow> \<not> lf y x))"

fun queue_spec :: "StackInfo lessFunc \<Rightarrow> gotime \<Rightarrow> StackBackoffMap \<Rightarrow> int \<Rightarrow> queue_event \<Rightarrow> pending_map \<Rightarrow> pending_map \<Rightarrow> bool" where
  "queue_spec lf now bm mrc (QAdd s) M M' = (M' = M(nsNameForStack s \<mapsto> (InActive, newStackInfo now s)))"
| "queue_spec lf now bm mrc (QAddIfNotPresent s) M M' =
     (M' = (if M (nsNameForStack s) = None then M(nsNameForStack s \<mapsto> (InActive, newStackInfo now s)) else M))"
| "queue_spec lf now bm mrc (QAddUnschedulable s c) M M' =
     (M' = (if M (nsNameForStack s) = None
            then M(nsNameForStack s \<mapsto> (if c \<le> mrc then InBackoff else InUnschedulable, newStackInfo now s)) else M))"
| "queue_spec lf now bm mrc QPop M M' =
     (if \<forall>i x. M i \<noteq> Some (InActive, x) then M' = M else \<exists>i. first_active lf M i \<and> M' = M(i := None))"
| "queue_spec lf now bm mrc (QUpdate os ns) M M' =
     (M' = M(nsNameForStack ns \<mapsto> update_entry now os ns (M (nsNameForStack ns))))"
| "queue_spec lf now bm mrc (QDelete s) M M' = (M' = M(nsNameForStack s := None))"
| "queue_spec lf now bm mrc QMoveAll M M' = (M' = relocate now bm (\<lambda>pl x. pl = InUnschedulable) M)"
| "queue_spec lf now bm mrc QFlushBackoff M M' = (M' = relocate now bm (\<lambda>pl x. pl = InBackoff) M)"
| "queue_spec lf now bm mrc QFlushUnschedulable M M' =
     (M' = relocate now bm (\<lambda>pl x. pl = InUnschedulable \<and> unschedulableQTimeInterval < now - Timestamp x) M)"
| "queue_spec lf now bm mrc QClose M M' = (M' = M)"
| "queue_spec lf now bm mrc (QNominate s n) M M' = (M' = M)"
| "queue_spec lf now bm mrc (QDeleteNominated s) M M' = (M' = M)"

lemma queue_abs_no_active: "qA T p = Map.empty \<longleftrightarrow> (\<forall>i x. queue_abs T p i \<noteq> Some (InActive, x))"
  by (auto simp: queue_abs_def fun_eq_iff split: option.splits)

lemma queue_abs_frame [simp]:
  "queue_abs T (p\<lparr>closed := b\<rparr>) = queue_abs T p" "queue_abs T (p\<lparr>nominatedMap := m\<rparr>) = queue_abs T p"
  by (simp_all add: queue_abs_def fun_eq_iff)

lemma flushBackoff_exact:
  assumes lf: "strict_weak_order lf" and st: "0 \<le> t" "t \<le> now" and inv: "queue_inv T lf (cmp_at t (stackBackoff p)) p"
  shows "\<exists>p'. flushBackoffQCompleted lf now p = Some p' \<and>
    queue_abs T p' = relocate now (stackBackoff p) (\<lambda>pl x. pl = InBackoff) (queue_abs T p)"
proof -
  obtain p' M where p': "flushBackoffQCompleted lf now p = Some p'" "queue_inv T lf (cmp_at t (stackBackoff p)) p'"
      "\<forall>i \<in> M. \<not> backing_off now (stackBackoff p) i \<and> (\<exists>x. queue_abs T p i = Some (InBackoff, x))"
      "queue_abs T p' = (\<lambda>i. map_option (\<lambda>(pl, x). (if i \<in> M then InActive else pl, x)) (queue_abs T p i))"
      "(\<forall>i x. queue_abs T p' i \<noteq> Some (InBackoff, x)) \<or> (\<exists>x. backing_off now (stackBackoff p) (sid x) \<and>
         (\<forall>i y. queue_abs T p' i = Some (InBackoff, y) \<longrightarrow> \<not> cmp_at t (stackBackoff p) y x))"
    using flushBackoffQCompleted_correct [OF heap_order_self [OF lf] cmp_at_order inv, of now] by blast
  have rest: "backing_off now (stackBackoff p) i" if i: "queue_abs T p' i = Some (InBackoff, y)" for i y
  proof -
    obtain x where x: "backing_off now (stackBackoff p) (sid x)" "\<not> cmp_at t (stackBackoff p) y x"
      using p'(5) i by blast
    have "qB T p' i = Some y"
      using i by (auto simp: queue_abs_def split: option.splits)
    then have "sid y = i"
      using heap_names_sid p'(2) by (auto simp: queue_inv_def)
    then show ?thesis
      using x st by (auto simp: backing_off_def cmp_at_def GetBackoffTime_def split: option.splits)
  qed
  have "i \<in> M \<longleftrightarrow> \<not> backing_off now (stackBackoff p) i" if "queue_abs T p i = Some (InBackoff, x)" for i x
    using that p'(3) rest [of i x] by (cases "i \<in> M") (auto simp: p'(4))
  moreover have "pl = InBackoff" if "i \<in> M" "queue_abs T p i = Some (pl, x)" for i pl x
    using that p'(3) by auto
  ultimately have "queue_abs T p' i = relocate now (stackBackoff p) (\<lambda>pl x. pl = InBackoff) (queue_abs T p) i" for i
    unfolding p'(4) relocate_def move_place_def by (cases "queue_abs T p i") (auto, blast+)
  then show ?thesis
    using p'(1) by blast
qed

fun already_in :: "place \<Rightarrow> queue_error" where
  "already_in InActive = AlreadyInActiveQ"
| "already_in InBackoff = AlreadyInBackoffQ"
| "already_in InUnschedulable = AlreadyInUnschedulableQ"

lemma AddUnschedulable_abs:
  assumes inv: "queue_inv T lf (cmp_at t (stackBackoff p)) p" and bm: "bm_ok (stackBackoff p)"
    and t: "tnow \<le> t" "0 \<le> t" and ok: "okid T (nsNameForStack s)"
  shows "\<exists>e p'. AddUnschedulableIfNotPresent now tnow p s c = Some (e, p') \<and>
    (case queue_abs T p (nsNameForStack s) of
       None \<Rightarrow> e = None \<and> queue_abs T p' = (queue_abs T p)(nsNameForStack s \<mapsto>
              (if c \<le> moveRequestCycle p then InBackoff else InUnschedulable, newStackInfo now s))
     | Some (pl, x) \<Rightarrow> e = Some (already_in pl) \<and> p' = p)"
proof (cases "queue_abs T p (nsNameForStack s) = None")
  case True
  let ?b = "stackBackoff (backoffStack now tnow p s)"
  have "max t (fst (GetBackoffTime ?b i)) = max t (fst (GetBackoffTime (stackBackoff p) i))" if "i \<noteq> nsNameForStack s" for i
    using that GetBackoffTime_cleanup [OF bm t, of i]
    by (simp add: backoffStack_def Let_def case_prod_unfold GetBackoffTime_BackoffStack)
  moreover have "nsNameForStack s \<notin> dom (qB T p)"
    using True by (auto simp: queue_abs_def split: option.splits)
  ultimately have "queue_inv T lf (cmp_at t ?b) p"
    using queue_inv_bm_change [OF inv] by metis
  from AddUnschedulableIfNotPresent_correct [OF cmp_at_order this ok, of c] True show ?thesis
    by auto
next
  case False
  have dis: "qU T p (nsNameForStack s) = None \<or> qA T p (nsNameForStack s) = None \<and> qB T p (nsNameForStack s) = None"
    using inv by (simp add: queue_inv_pointwise)
  show ?thesis
    using False ok dis by (auto simp: AddUnschedulableIfNotPresent_def unsched_get_names [OF ok]
        heap_exists_names [where T = T] Let_def queue_abs_def split: option.splits)
qed

lemma queue_do_spec:
  assumes lf: "strict_weak_order lf" and inv: "queue_inv T lf (cmp_at t (stackBackoff p)) p" and bm: "bm_ok (stackBackoff p)"
    and now: "t \<le> now" and tnow: "t \<le> tnow" and t: "0 \<le> t"
    and ev: "event_ok T ev" and ks: "range_order ks (unschedulableQ p)"
  shows "\<exists>p'. queue_do lf ev now tnow ks p = Some p' \<and>
    queue_spec lf now (stackBackoff p) (moveRequestCycle p) ev (queue_abs T p) (queue_abs T p')"
proof -
  note oA = heap_order_self [OF lf] and oB = cmp_at_order [of t "stackBackoff p"]
  show ?thesis
  proof (cases ev)
    case (QAdd s)
    then show ?thesis
      using PQ_Add_correct [OF oA oB inv, of s now] ev by auto
  next
    case (QAddIfNotPresent s)
    then show ?thesis
      using PQ_AddIfNotPresent_correct [OF oA inv, of s now] ev by auto
  next
    case (QAddUnschedulable s c)
    have "queue_inv T lf (cmp_at tnow (stackBackoff p)) p"
      using inv cmp_at_mono [OF tnow] by (auto intro: queue_inv_coarsen)
    moreover have "okid T (nsNameForStack s)"
      using ev QAddUnschedulable by simp
    ultimately have "\<exists>e p'. AddUnschedulableIfNotPresent now tnow p s c = Some (e, p') \<and>
        queue_spec lf now (stackBackoff p) (moveRequestCycle p) ev (queue_abs T p) (queue_abs T p')"
      using AddUnschedulable_abs [OF _ bm order.refl, of T lf tnow s now c] t tnow QAddUnschedulable
      by (cases "queue_abs T p (nsNameForStack s)") auto
    then show ?thesis
      using QAddUnschedulable by auto
  next
    case QPop
    show ?thesis
    proof (cases "qA T p = Map.empty")
      case True
      then show ?thesis
        using PQ_Pop_empty [OF inv] QPop queue_abs_no_active [of T p] by simp
    next
      case False
      obtain x p' where x: "PQ_Pop lf p = Some (PopOk (si_Stack x), p')" "queue_abs T p (sid x) = Some (InActive, x)"
          "queue_abs T p' = (queue_abs T p)(sid x := None)"
          "\<forall>i y. queue_abs T p i = Some (InActive, y) \<longrightarrow> \<not> lf y x"
        using PQ_Pop_correct [OF oA inv False] by blast
      then have "first_active lf (queue_abs T p) (sid x)"
        by (simp add: first_active_def)
      moreover have "queue_do lf ev now tnow ks p = Some p'"
        using QPop x(1) by simp
      ultimately show ?thesis
        using QPop False queue_abs_no_active [of T p] x(3) by (metis queue_spec.simps(4))
    qed
  next
    case (QUpdate os ns)
    then show ?thesis
      using PQ_Update_correct [OF oA oB inv, of ns os now] ev by auto
  next
    case (QDelete s)
    have swo: "strict_weak_order (cmp_at t (stackBackoff p))"
      using oB by (simp add: heap_order_def)
    have agree: "cmp_at t (clearStackBackoff (stackBackoff p) (nsNameForStack s)) x y = cmp_at t (stackBackoff p) x y"
      if "sid x \<noteq> nsNameForStack s" "sid y \<noteq> nsNameForStack s" for x y
      using that clear_agree by metis
    show ?thesis
      using PQ_Delete_correct [OF oA swo cmp_at_order agree inv] QDelete ev by auto
  next
    case QMoveAll
    then show ?thesis
      using MoveAllToActiveQueue_correct [OF oA oB inv ks, of now] unfolding move_place_def [symmetric]
      by (auto simp: relocate_def fun_eq_iff)
  next
    case QFlushBackoff
    then show ?thesis
      using flushBackoff_exact [OF lf t now inv] by auto
  next
    case QFlushUnschedulable
    then show ?thesis
      using flushUnschedulableQLeftover_correct [OF oA oB inv ks, of now] by (auto simp: relocate_def fun_eq_iff)
  qed (simp_all add: PQ_Close_def UpdateNominatedStackForSite_def DeleteNominatedStackIfExists_def)
qed

section \<open>An example\<close>

definition demo_stack :: "string \<Rightarrow> Stack" where
  "demo_stack n = zero_Stack\<lparr>PodName := n, PodNamespace := ''ns'', Tenant := ''t'', UID := n\<rparr>"

definition demo_call :: "gotime \<Rightarrow> queue_event \<Rightarrow> queue_call" where
  "demo_call t e = \<lparr>call_event = e, call_now = t, call_tnow = t, call_order = []\<rparr>"

lemma demo_name [simp]: "nsNameForStack (demo_stack n) = \<lparr>nn_Tenant = ''t'', nn_Namespace = ''ns'', nn_Name = n\<rparr>"
  by (simp add: demo_stack_def nsNameForStack_def)

lemma demo_okid: "okid ''t'' \<lparr>nn_Tenant = ''t'', nn_Namespace = ''ns'', nn_Name = ''a''\<rparr>"
  "okid ''t'' \<lparr>nn_Tenant = ''t'', nn_Namespace = ''ns'', nn_Name = ''b''\<rparr>"
  by (simp_all add: okid_def)

lemma demo_call_ok: "call_ok ''t'' (demo_call t (QAdd (demo_stack ''a''))) (u, p) \<longleftrightarrow> u \<le> t \<and> unschedulableQ p = Map.empty"
  "call_ok ''t'' (demo_call t (QAdd (demo_stack ''b''))) (u, p) \<longleftrightarrow> u \<le> t \<and> unschedulableQ p = Map.empty"
  "call_ok ''t'' (demo_call t QFlushBackoff) (u, p) \<longleftrightarrow> u \<le> t \<and> unschedulableQ p = Map.empty"
  by (auto simp: call_ok_def demo_call_def demo_okid range_order_def)

lemma PQ_Add_unsched:
  "PQ_Add lf now p s = Some (e, p') \<Longrightarrow> unschedulableQ p = Map.empty \<Longrightarrow> unschedulableQ p' = Map.empty"
  by (auto simp: PQ_Add_def Let_def unschedulable_get_def bind_eq_Some_conv split: option.splits)

lemma demo_reach:
  "\<exists>p. queue_reach activeQComp ''t'' (5, p) \<and> unschedulableQ p = Map.empty \<and>
     queue_abs ''t'' p = [nsNameForStack (demo_stack ''a'') \<mapsto> (InActive, newStackInfo 5 (demo_stack ''a''))]"
proof -
  let ?s = "demo_stack ''a''"
  obtain p where p: "PQ_Add activeQComp 5 NewPriorityQueue ?s = Some (None, p)"
      "queue_abs ''t'' p = (queue_abs ''t'' NewPriorityQueue)(nsNameForStack ?s \<mapsto> (InActive, newStackInfo 5 ?s))"
    using PQ_Add_correct [OF heap_order_self [OF active_order.strict_weak_order_axioms] cmp_at_order
        NewPriorityQueue_inv(1), where T = "''t''" and s = ?s and now = 5] demo_okid by auto
  have "unschedulableQ NewPriorityQueue = Map.empty"
    by (simp add: NewPriorityQueue_def)
  moreover from this have "queue_step activeQComp ''t'' (0, NewPriorityQueue) (demo_call 5 (QAdd ?s)) (5, p)"
    using p(1) by (auto intro!: queue_step.step simp: demo_call_ok) (simp add: demo_call_def queue_run_def)
  ultimately show ?thesis
    using p PQ_Add_unsched [OF p(1)] NewPriorityQueue_inv(2) [of "''t''"] queue_reach.intros by metis
qed

lemma demo_reach_unschedulable:
  "\<exists>p. queue_reach activeQComp ''t'' (5, p) \<and>
     queue_abs ''t'' p = [nsNameForStack (demo_stack ''a'') \<mapsto> (InUnschedulable, newStackInfo 5 (demo_stack ''a''))]"
proof -
  let ?c = "demo_call 5 (QAddUnschedulable (demo_stack ''a'') 0)"
  have ok: "call_ok ''t'' ?c (0, NewPriorityQueue)"
    by (simp add: call_ok_def demo_call_def demo_okid range_order_def NewPriorityQueue_def)
  have "bm_ok (stackBackoff NewPriorityQueue)"
    using state_inv_init [of activeQComp "''t''"] by (simp add: state_inv_def)
  then obtain e p where "AddUnschedulableIfNotPresent 5 5 NewPriorityQueue (demo_stack ''a'') 0 = Some (e, p)"
      "queue_abs ''t'' p = [nsNameForStack (demo_stack ''a'') \<mapsto> (InUnschedulable, newStackInfo 5 (demo_stack ''a''))]"
    using AddUnschedulable_abs [OF NewPriorityQueue_inv(1) _ order.refl, where T = "''t''" and t = 5
        and s = "demo_stack ''a''" and c = 0 and now = 5] demo_okid
    by (auto simp: NewPriorityQueue_inv(2)) (simp add: NewPriorityQueue_def)
  moreover from this have "queue_step activeQComp ''t'' (0, NewPriorityQueue) ?c (5, p)"
    using ok by (auto intro!: queue_step.step simp: queue_run_def demo_call_def)
  ultimately show ?thesis
    using queue_reach.intros by blast
qed

section \<open>Properties of the reachable queues\<close>







text \<open>
  C24: \<open>Pop\<close> on a reachable queue returns an active stack that no active stack comes before, removes
  exactly that stack and starts a new scheduling cycle; with no active stack it fails when the queue is
  closed and waits otherwise, and the queue does not change.
\<close>

theorem Pop_returns_first:
  assumes "strict_weak_order lf" and "queue_reach lf T (t, p)"
  shows "if \<forall>i x. queue_abs T p i \<noteq> Some (InActive, x)
     then PQ_Pop lf p = Some (if closed p then PopErr QueueClosed else PopBlocked, p)
     else \<exists>x p'. PQ_Pop lf p = Some (PopOk (si_Stack x), p') \<and> first_active lf (queue_abs T p) (sid x) \<and>
       queue_abs T p (sid x) = Some (InActive, x) \<and> queue_abs T p' = (queue_abs T p)(sid x := None) \<and>
       schedulingCycle p' = wrap64 (schedulingCycle p + 1)"
proof -
  have inv: "queue_inv T lf (cmp_at t (stackBackoff p)) p"
    using reach_state_inv [OF assms(2,1)] by (simp add: state_inv_def)
  show ?thesis
  proof (cases "qA T p = Map.empty")
    case True
    then show ?thesis
      using PQ_Pop_empty [OF inv] queue_abs_no_active [of T p] by simp
  next
    case False
    obtain x p' a where x: "PQ_Pop lf p = Some (PopOk (si_Stack x), p')" "queue_abs T p (sid x) = Some (InActive, x)"
        "queue_abs T p' = (queue_abs T p)(sid x := None)" "\<forall>i y. queue_abs T p i = Some (InActive, y) \<longrightarrow> \<not> lf y x"
        "p' = p\<lparr>activeQ := a, schedulingCycle := wrap64 (schedulingCycle p + 1)\<rparr>"
      using PQ_Pop_correct [OF heap_order_self [OF assms(1)] inv False] by blast
    then have "first_active lf (queue_abs T p) (sid x)" "schedulingCycle p' = wrap64 (schedulingCycle p + 1)"
      by (simp_all add: first_active_def)
    then show ?thesis
      using x(1,2,3) by auto
  qed
qed

theorem Pop_returns_first_witness:
  "\<exists>p p'. PQ_Pop activeQComp p = Some (PopOk (demo_stack ''a''), p') \<and> queue_abs ''t'' p' = Map.empty"
proof -
  obtain p where p: "queue_reach activeQComp ''t'' (5, p)"
      "queue_abs ''t'' p = [nsNameForStack (demo_stack ''a'') \<mapsto> (InActive, newStackInfo 5 (demo_stack ''a''))]"
    using demo_reach by blast
  then show ?thesis
    using Pop_returns_first [OF active_order.strict_weak_order_axioms p(1)]
    by (auto split: if_splits) (metis fun_upd_idem fun_upd_upd sid_new(1))
qed



text \<open>
  C35: nominating a stack for a site removes it from the site it was nominated for before, and
  withdrawing the nomination removes it everywhere; the other stacks keep their order.
\<close>

theorem nomination_moves:
  assumes "strict_weak_order lf" and "queue_reach lf T (t, p)"
  shows "NominatedStacksForSite (UpdateNominatedStackForSite p s n) m =
      filter (\<lambda>q. UID q \<noteq> UID s) (NominatedStacksForSite p m) @ (if m = n \<and> n \<noteq> [] then [s] else []) \<and>
    NominatedStacksForSite (DeleteNominatedStackIfExists p s) m = filter (\<lambda>q. UID q \<noteq> UID s) (NominatedStacksForSite p m)"
proof -
  have "nom_inv (nominatedMap p)"
    using reach_state_inv [OF assms(2,1)] by (simp add: state_inv_def queue_inv_def)
  then show ?thesis
    by (simp add: NominatedStacksForSite_def UpdateNominatedStackForSite_def DeleteNominatedStackIfExists_def
        nominated_add_inv(3) nominated_delete_inv(3))
qed

theorem nomination_moves_witness:
  "NominatedStacksForSite (UpdateNominatedStackForSite NewPriorityQueue (demo_stack ''a'') ''s1'') ''s1'' = [demo_stack ''a'']"
  using nomination_moves [OF active_order.strict_weak_order_axioms queue_reach.init, of "demo_stack ''a''" "''s1''" "''s1''"]
  by (simp add: NominatedStacksForSite_def stacksForSite_def map_get_def NewPriorityQueue_def newNominatedStackMap_def)

section \<open>Two behaviours of the code that the abstract queue rules out\<close>

text \<open>
  The unschedulable map is keyed by name and namespace while the heaps are keyed by tenant too:
  adding a stack of another tenant with the same name and namespace removes an unschedulable stack
  from the queue altogether.
\<close>

theorem PQ_Add_drops_other_tenant:
  assumes "strict_weak_order lf" and "queue_reach lf T (t, p)" and "Tenant s2 \<noteq> T"
    and "PodName s2 = nn_Name i" and "PodNamespace s2 = nn_Namespace i"
    and "queue_abs T p i = Some (InUnschedulable, x)"
  shows "\<exists>p'. PQ_Add lf now p s2 = Some (None, p') \<and> queue_abs T p' i = None"
proof -
  have inv: "queue_inv T lf (cmp_at t (stackBackoff p)) p"
    using reach_state_inv [OF assms(2,1)] by (simp add: state_inv_def)
  let ?x = "newStackInfo now s2" and ?k = "stackKey (nsNameForStack s2)"
  have wf: "Heap_wf stackInfoKeyFunc (activeQ p)" "Heap_wf stackInfoKeyFunc (stackBackoffQ p)"
    using inv by (simp_all add: queue_inv_def heap_ok_def Heap_inv_def)
  obtain a where a: "Heap_Add stackInfoKeyFunc lf (activeQ p) ?x = Some (None, a)" "Heap_abs a = (Heap_abs (activeQ p))(?k \<mapsto> ?x)"
    using heap_store.add_ok [OF wf(1), of ?x ?k lf] by auto
  obtain e b where b: "backoff_Delete p ?x = Some (e, b)" "Heap_abs b = (Heap_abs (stackBackoffQ p))(?k := None)"
    using heap_store.del_ok [OF wf(2), of ?x ?k "stacksCompareBackoffCompleted (stackBackoff p)"]
      heap_store.del_absent [OF wf(2), of ?x ?k "stacksCompareBackoffCompleted (stackBackoff p)"]
    by (cases "Heap_abs (stackBackoffQ p) ?k") (auto simp: fun_upd_idem)
  have i: "qA T p i = None" "qB T p i = None" "qU T p i = Some x" "okid T i"
    using assms(6) by (auto simp: queue_abs_def unsched_names_def split: option.splits if_splits)
  then have "?k \<noteq> stackKey i" "GetStackFullName s2 = fullName i"
    using assms(3-5) by (auto simp: stackKey_def okid_def nsNameForStack_def GetStackFullName_def fullName_def)
  then show ?thesis
    using a b i by (auto simp: PQ_Add_def Let_def unschedulable_get_def unschedulable_delete_def queue_abs_def
        heap_names_def unsched_names_def)
qed

theorem PQ_Add_drops_other_tenant_witness:
  "\<exists>p p'. queue_abs ''t'' p (nsNameForStack (demo_stack ''a'')) \<noteq> None \<and>
     PQ_Add activeQComp 6 p ((demo_stack ''a'')\<lparr>Tenant := ''u''\<rparr>) = Some (None, p') \<and>
     queue_abs ''t'' p' (nsNameForStack (demo_stack ''a'')) = None"
proof -
  obtain p where p: "queue_reach activeQComp ''t'' (5, p)"
      "queue_abs ''t'' p = [nsNameForStack (demo_stack ''a'') \<mapsto> (InUnschedulable, newStackInfo 5 (demo_stack ''a''))]"
    using demo_reach_unschedulable by blast
  then have "\<exists>p'. PQ_Add activeQComp 6 p ((demo_stack ''a'')\<lparr>Tenant := ''u''\<rparr>) = Some (None, p') \<and>
      queue_abs ''t'' p' (nsNameForStack (demo_stack ''a'')) = None"
    using PQ_Add_drops_other_tenant [OF active_order.strict_weak_order_axioms p(1), of "(demo_stack ''a'')\<lparr>Tenant := ''u''\<rparr>"
        "nsNameForStack (demo_stack ''a'')" "newStackInfo 5 (demo_stack ''a'')" 6]
    by (simp add: demo_stack_def nsNameForStack_def)
  then show ?thesis
    using p(2) by (metis fun_upd_same option.distinct(1))
qed

text \<open>
  \<open>Update\<close> with no old stack panics when the new stack is in the unschedulable queue, although the
  two tests before it allow for a nil old stack.
\<close>

theorem PQ_Update_nil_old_panics:
  "unschedulableQ p (GetStackFullName s) = Some x \<Longrightarrow> PQ_Update lf now p None s = None"
  by (simp add: PQ_Update_def unschedulable_get_def nominated_update_def)

theorem PQ_Update_nil_old_panics_witness:
  "PQ_Update activeQComp 1 (NewPriorityQueue\<lparr>unschedulableQ := [GetStackFullName (demo_stack ''a'') \<mapsto> newStackInfo 0 (demo_stack ''a'')]\<rparr>)
     None (demo_stack ''a'') = None"
  by (rule PQ_Update_nil_old_panics [where x = "newStackInfo 0 (demo_stack ''a'')"]) simp

end
