(* ===== verification/StringSets.thy ===== *)
theory StringSets
  imports GoPrelude
begin

text \<open>
  Sets of strings (\<open>pkg/scheduler/utils/sets/string.go\<close>). A \<open>sets.String\<close> is a Go map with empty
  values, modelled by the set of its keys. The methods that range over a set take the order in which
  the range visits it, constrained by \<open>set_order\<close>; the lemmas show that no result depends on it,
  except for \<open>UnsortedList\<close> and \<open>PopAny\<close>, which are documented to.
\<close>

type_synonym StringSet = "string set"

definition set_order :: "'a list \<Rightarrow> 'a set \<Rightarrow> bool" where
  "set_order ks s \<longleftrightarrow> distinct ks \<and> set ks = s"

definition sets_Insert :: "StringSet \<Rightarrow> string list \<Rightarrow> StringSet" where
  "sets_Insert s items = foldl (\<lambda>s item. insert item s) s items"

definition sets_NewString :: "string list \<Rightarrow> StringSet" where
  "sets_NewString items = sets_Insert {} items"

definition sets_StringKeySet :: "string list \<Rightarrow> StringSet" where
  "sets_StringKeySet keys = foldl (\<lambda>ret k. sets_Insert ret [k]) {} keys"

definition sets_Delete :: "StringSet \<Rightarrow> string list \<Rightarrow> StringSet" where
  "sets_Delete s items = foldl (\<lambda>s item. s - {item}) s items"

definition sets_Has :: "StringSet \<Rightarrow> string \<Rightarrow> bool" where
  "sets_Has s item = (item \<in> s)"

fun sets_HasAll :: "StringSet \<Rightarrow> string list \<Rightarrow> bool" where
  "sets_HasAll s [] = True"
| "sets_HasAll s (item # items) = (if \<not> sets_Has s item then False else sets_HasAll s items)"

fun sets_HasAny :: "StringSet \<Rightarrow> string list \<Rightarrow> bool" where
  "sets_HasAny s [] = False"
| "sets_HasAny s (item # items) = (if sets_Has s item then True else sets_HasAny s items)"

definition sets_Difference :: "string list \<Rightarrow> StringSet \<Rightarrow> StringSet" where
  "sets_Difference ks s2 =
     foldl (\<lambda>result key. if \<not> sets_Has s2 key then sets_Insert result [key] else result) (sets_NewString []) ks"

definition sets_Union :: "string list \<Rightarrow> string list \<Rightarrow> StringSet" where
  "sets_Union ks1 ks2 =
     foldl (\<lambda>result key. sets_Insert result [key])
       (foldl (\<lambda>result key. sets_Insert result [key]) (sets_NewString []) ks1) ks2"

definition sets_Len :: "StringSet \<Rightarrow> nat" where
  "sets_Len s = card s"

definition sets_Intersection :: "string list \<Rightarrow> StringSet \<Rightarrow> string list \<Rightarrow> StringSet \<Rightarrow> StringSet" where
  "sets_Intersection ks1 s1 ks2 s2 =
     (let (walk, other) = (if sets_Len s1 < sets_Len s2 then (ks1, s2) else (ks2, s1))
      in foldl (\<lambda>result key. if sets_Has other key then sets_Insert result [key] else result) (sets_NewString []) walk)"

fun sets_IsSuperset :: "StringSet \<Rightarrow> string list \<Rightarrow> bool" where
  "sets_IsSuperset s1 [] = True"
| "sets_IsSuperset s1 (item # ks2) = (if \<not> sets_Has s1 item then False else sets_IsSuperset s1 ks2)"

definition sets_Equal :: "StringSet \<Rightarrow> StringSet \<Rightarrow> string list \<Rightarrow> bool" where
  "sets_Equal s1 s2 ks2 = (sets_Len s1 = sets_Len s2 \<and> sets_IsSuperset s1 ks2)"

text \<open>\<open>sort.Sort\<close> on strings: the sorted list is unique, whatever the algorithm.\<close>

definition sets_List :: "string list \<Rightarrow> string list" where
  "sets_List ks = sort (foldl (\<lambda>res key. res @ [key]) [] ks)"

definition sets_UnsortedList :: "string list \<Rightarrow> string list" where
  "sets_UnsortedList ks = foldl (\<lambda>res key. res @ [key]) [] ks"

definition sets_PopAny :: "string list \<Rightarrow> StringSet \<Rightarrow> (string \<times> bool) \<times> StringSet" where
  "sets_PopAny ks s = (case ks of key # _ \<Rightarrow> ((key, True), sets_Delete s [key]) | [] \<Rightarrow> (([], False), s))"

section \<open>The operations are those of sets\<close>

lemma sets_Insert_eq [simp]: "sets_Insert s items = s \<union> set items"
  unfolding sets_Insert_def by (induction items arbitrary: s) auto

lemma sets_NewString_eq [simp]: "sets_NewString items = set items"
  by (simp add: sets_NewString_def)

lemma sets_Delete_eq [simp]: "sets_Delete s items = s - set items"
  unfolding sets_Delete_def by (induction items arbitrary: s) auto

lemma sets_HasAll_eq: "sets_HasAll s items \<longleftrightarrow> set items \<subseteq> s"
  by (induction items) (auto simp: sets_Has_def)

lemma sets_HasAny_eq: "sets_HasAny s items \<longleftrightarrow> set items \<inter> s \<noteq> {}"
  by (induction items) (auto simp: sets_Has_def)

lemma sets_IsSuperset_eq: "sets_IsSuperset s ks \<longleftrightarrow> set ks \<subseteq> s"
  by (induction ks) (auto simp: sets_Has_def)

lemma foldl_collect: "foldl (\<lambda>r k. if P k then sets_Insert r [k] else r) s ks = s \<union> {k \<in> set ks. P k}"
  by (induction ks arbitrary: s) auto

lemma foldl_insert: "foldl (\<lambda>r k. insert k r) s ks = s \<union> set ks"
  by (induction ks arbitrary: s) auto

lemma foldl_append_elems: "foldl (\<lambda>res key. res @ [key]) acc ks = acc @ ks"
  by (induction ks arbitrary: acc) auto

lemma sets_List_eq [simp]: "sets_List ks = sort ks"
  by (simp add: sets_List_def foldl_append_elems)

lemma sets_List_order: "set_order ks s \<Longrightarrow> sets_List ks = sorted_list_of_set s"
  by (auto simp: set_order_def sorted_list_of_set_sort_remdups distinct_remdups_id)

lemma sets_algebra_eqs:
  "sets_Difference ks1 s2 = set ks1 - s2" "sets_Union ks1 ks2 = set ks1 \<union> set ks2"
  "sets_StringKeySet ks1 = set ks1"
  using foldl_collect [where P = "\<lambda>k. k \<notin> s2" and s = "{}" and ks = ks1]
  by (auto simp: sets_Difference_def sets_Union_def sets_StringKeySet_def foldl_insert sets_Has_def)

lemma sets_Intersection_eq: "set_order ks1 s1 \<Longrightarrow> set_order ks2 s2 \<Longrightarrow> sets_Intersection ks1 s1 ks2 s2 = s1 \<inter> s2"
  by (auto simp: sets_Intersection_def foldl_collect sets_Has_def set_order_def)

lemma sets_Equal_eq: "set_order ks1 s1 \<Longrightarrow> set_order ks2 s2 \<Longrightarrow> sets_Equal s1 s2 ks2 \<longleftrightarrow> s1 = s2"
  by (auto simp: sets_Equal_def sets_Len_def sets_IsSuperset_eq set_order_def) (metis List.finite_set card_subset_eq subsetD)

text \<open>
  C37: difference, union, intersection, superset, equality and the sorted list are those of the sets,
  whatever order the maps are visited in.
\<close>

theorem string_sets_algebra:
  assumes "set_order ks1 s1" and "set_order ks2 s2"
  shows "sets_Difference ks1 s2 = s1 - s2 \<and> sets_Union ks1 ks2 = s1 \<union> s2 \<and>
    sets_Intersection ks1 s1 ks2 s2 = s1 \<inter> s2 \<and> (sets_IsSuperset s1 ks2 \<longleftrightarrow> s2 \<subseteq> s1) \<and>
    (sets_Equal s1 s2 ks2 \<longleftrightarrow> s1 = s2) \<and> sets_List ks1 = sorted_list_of_set s1"
proof -
  have "set ks1 = s1" "set ks2 = s2"
    using assms by (simp_all add: set_order_def)
  then show ?thesis
    using sets_Intersection_eq [OF assms] sets_Equal_eq [OF assms] sets_List_order [OF assms(1)]
    by (simp add: sets_algebra_eqs sets_IsSuperset_eq)
qed

theorem string_sets_algebra_witness:
  "sets_Intersection [''b'', ''a''] {''a'', ''b''} [''a'', ''c''] {''a'', ''c''} = {''a''} \<and>
   sets_List [''b'', ''a''] = sorted_list_of_set {''a'', ''b''}"
  using string_sets_algebra [of "[''b'', ''a'']" "{''a'', ''b''}" "[''a'', ''c'']" "{''a'', ''c''}"]
  by (auto simp: set_order_def)

end
