(* ===== verification/Labels.thy ===== *)
theory Labels
  imports StringSets
begin

text \<open>
  Labels and label requirements (\<open>pkg/scheduler/labels/labels.go\<close>, \<open>operator.go\<close> and the part of
  \<open>selector.go\<close> that is not the parser). A \<open>labels.Set\<close> is a map from strings to strings; operations
  that range over one take the order of the range. A selector is either the one that matches nothing
  or a slice of requirements, where \<open>None\<close> is the nil slice. \<open>sort.Sort\<close> is not stable, so the sort of
  requirements by key is an argument \<open>srt\<close> of the operations, constrained by \<open>sorts_by_key\<close>.
\<close>

section \<open>Strings\<close>

text \<open>\<open>strings.Join\<close>, \<open>strings.Split\<close> at one character, \<open>strings.TrimSpace\<close> on ASCII strings.\<close>

fun go_join :: "string list \<Rightarrow> string \<Rightarrow> string" where
  "go_join [] sep = []"
| "go_join [x] sep = x"
| "go_join (x # y # xs) sep = x @ sep @ go_join (y # xs) sep"

fun go_split :: "string \<Rightarrow> char \<Rightarrow> string list" where
  "go_split [] c = [[]]"
| "go_split (x # xs) c =
     (if x = c then [] # go_split xs c
      else case go_split xs c of [] \<Rightarrow> [[x]] | y # ys \<Rightarrow> (x # y) # ys)"

definition ascii_space :: "char \<Rightarrow> bool" where
  "ascii_space c \<longleftrightarrow> c \<in> {CHR '' '', CHR 0x09, CHR 0x0A, CHR 0x0B, CHR 0x0C, CHR 0x0D}"

definition go_trim_space :: "string \<Rightarrow> string" where
  "go_trim_space s = rev (dropWhile ascii_space (rev (dropWhile ascii_space s)))"

text \<open>\<open>strconv.ParseInt(s, 10, 64)\<close>: \<open>None\<close> for a syntax or range error.\<close>

definition digit_val :: "char \<Rightarrow> int option" where
  "digit_val c = (if CHR ''0'' \<le> c \<and> c \<le> CHR ''9'' then Some (of_char c - 48) else None)"

fun parse_digits :: "int \<Rightarrow> string \<Rightarrow> int option" where
  "parse_digits acc [] = Some acc"
| "parse_digits acc (c # cs) = (case digit_val c of None \<Rightarrow> None | Some d \<Rightarrow> parse_digits (acc * 10 + d) cs)"

definition go_ParseInt :: "string \<Rightarrow> int option" where
  "go_ParseInt s =
     (let (neg, ds) = (case s of
                         CHR ''-'' # cs \<Rightarrow> (True, cs)
                       | CHR ''+'' # cs \<Rightarrow> (False, cs)
                       | _ \<Rightarrow> (False, s))
      in if ds = [] then None
         else case parse_digits 0 ds of
                None \<Rightarrow> None
              | Some n \<Rightarrow> (let v = if neg then - n else n in if in_int64 v then Some v else None))"

section \<open>Label sets\<close>

type_synonym LabelSet = "string \<rightharpoonup> string"

datatype label_error =
    InvalidKey string
  | ValueTooLong
  | InEmptyValues
  | ExactOneValue
  | ExistsNoValues
  | CompareOneValue
  | CompareInteger
  | OperatorNotRecognized string
  | InvalidSelector "string list"

definition LabelValueMaxLength :: nat where
  "LabelValueMaxLength = 63"

definition IsValidLabelValue :: "string \<Rightarrow> label_error option" where
  "IsValidLabelValue value = (if LabelValueMaxLength < length value then Some ValueTooLong else None)"

definition validateLabelKey :: "string \<Rightarrow> label_error option" where
  "validateLabelKey k = (if k = [] then Some (InvalidKey k) else None)"

definition validateLabelValue :: "string \<Rightarrow> string \<Rightarrow> label_error option" where
  "validateLabelValue k v = (case IsValidLabelValue v of Some err \<Rightarrow> Some err | None \<Rightarrow> None)"

definition Set_String :: "string list \<Rightarrow> LabelSet \<Rightarrow> string" where
  "Set_String ks ls = go_join (sort (map (\<lambda>key. key @ ''='' @ map_get [] ls key) ks)) '',''"

definition Set_Has :: "LabelSet \<Rightarrow> string \<Rightarrow> bool" where
  "Set_Has ls label = (ls label \<noteq> None)"

definition Set_Get :: "LabelSet \<Rightarrow> string \<Rightarrow> string" where
  "Set_Get ls label = map_get [] ls label"

definition FormatLabels :: "string list \<Rightarrow> LabelSet \<Rightarrow> string" where
  "FormatLabels ks labelMap = (let l = Set_String ks labelMap in if l = [] then ''<none>'' else l)"

text \<open>\<open>Conflicts\<close>, \<open>Merge\<close>, \<open>Equal\<close>: \<open>len\<close> of a map is the number of its keys.\<close>

fun conflicts_loop :: "LabelSet \<Rightarrow> LabelSet \<Rightarrow> string list \<Rightarrow> bool" where
  "conflicts_loop small big [] = False"
| "conflicts_loop small big (k # ks) =
     (case big k of
        Some val \<Rightarrow> if val \<noteq> map_get [] small k then True else conflicts_loop small big ks
      | None \<Rightarrow> conflicts_loop small big ks)"

definition Conflicts :: "string list \<Rightarrow> LabelSet \<Rightarrow> string list \<Rightarrow> LabelSet \<Rightarrow> bool" where
  "Conflicts ks1 labels1 ks2 labels2 =
     (if length ks2 < length ks1 then conflicts_loop labels2 labels1 ks2 else conflicts_loop labels1 labels2 ks1)"

definition Merge :: "string list \<Rightarrow> LabelSet \<Rightarrow> string list \<Rightarrow> LabelSet \<Rightarrow> LabelSet" where
  "Merge ks1 labels1 ks2 labels2 =
     foldl (\<lambda>m k. m(k \<mapsto> map_get [] labels2 k)) (foldl (\<lambda>m k. m(k \<mapsto> map_get [] labels1 k)) Map.empty ks1) ks2"

fun all_labels_in :: "LabelSet \<Rightarrow> LabelSet \<Rightarrow> string list \<Rightarrow> bool" where
  "all_labels_in ls other [] = True"
| "all_labels_in ls other (k # ks) =
     (case other k of
        None \<Rightarrow> False
      | Some value \<Rightarrow> if value \<noteq> map_get [] ls k then False else all_labels_in ls other ks)"

definition Labels_Equal :: "string list \<Rightarrow> LabelSet \<Rightarrow> string list \<Rightarrow> LabelSet \<Rightarrow> bool" where
  "Labels_Equal ks1 labels1 ks2 labels2 =
     (if length ks1 \<noteq> length ks2 then False else all_labels_in labels1 labels2 ks1)"

definition AreLabelsInWhiteList :: "string list \<Rightarrow> LabelSet \<Rightarrow> string list \<Rightarrow> LabelSet \<Rightarrow> bool" where
  "AreLabelsInWhiteList ks ls kw whitelist = (if length kw = 0 then True else all_labels_in ls whitelist ks)"

text \<open>\<open>ConvertSelectorToLabelsMap\<close> returns the map built so far together with the error.\<close>

fun convert_loop :: "LabelSet \<Rightarrow> string list \<Rightarrow> LabelSet \<times> label_error option" where
  "convert_loop labelsMap [] = (labelsMap, None)"
| "convert_loop labelsMap (label # labels) =
     (let l = go_split label CHR ''='' in
      case l of
        [l0, l1] \<Rightarrow>
          (let key = go_trim_space l0 in
           case validateLabelKey key of
             Some err \<Rightarrow> (labelsMap, Some err)
           | None \<Rightarrow>
               (let value = go_trim_space l1 in
                case validateLabelValue key value of
                  Some err \<Rightarrow> (labelsMap, Some err)
                | None \<Rightarrow> convert_loop (labelsMap(key \<mapsto> value)) labels))
      | _ \<Rightarrow> (labelsMap, Some (InvalidSelector l)))"

definition ConvertSelectorToLabelsMap :: "string \<Rightarrow> LabelSet \<times> label_error option" where
  "ConvertSelectorToLabelsMap selector =
     (if length selector = 0 then (Map.empty, None) else convert_loop Map.empty (go_split selector CHR '',''))"

section \<open>Operators and requirements\<close>

type_synonym LabelOperator = string

abbreviation op_DoesNotExist :: LabelOperator where "op_DoesNotExist \<equiv> ''!''"
abbreviation op_Equals :: LabelOperator where "op_Equals \<equiv> ''=''"
abbreviation op_DoubleEquals :: LabelOperator where "op_DoubleEquals \<equiv> ''==''"
abbreviation op_In :: LabelOperator where "op_In \<equiv> ''in''"
abbreviation op_NotEquals :: LabelOperator where "op_NotEquals \<equiv> ''!=''"
abbreviation op_NotIn :: LabelOperator where "op_NotIn \<equiv> ''notin''"
abbreviation op_Exists :: LabelOperator where "op_Exists \<equiv> ''exists''"
abbreviation op_GreaterThan :: LabelOperator where "op_GreaterThan \<equiv> ''gt''"
abbreviation op_LessThan :: LabelOperator where "op_LessThan \<equiv> ''lt''"

record Requirement =
  req_key :: string
  req_operator :: LabelOperator
  req_strValues :: "string list"

text \<open>The copies are deep: the value of the copy is that of the original.\<close>

definition Requirement_DeepCopyInto :: "Requirement \<Rightarrow> Requirement" where
  "Requirement_DeepCopyInto r =
     \<lparr>req_key = req_key r, req_operator = req_operator r, req_strValues = map (\<lambda>v. v) (req_strValues r)\<rparr>"

fun validate_values :: "string \<Rightarrow> string list \<Rightarrow> label_error option" where
  "validate_values key [] = None"
| "validate_values key (v # vals) =
     (case validateLabelValue key v of Some err \<Rightarrow> Some err | None \<Rightarrow> validate_values key vals)"

definition check_operator_values :: "LabelOperator \<Rightarrow> string list \<Rightarrow> label_error option" where
  "check_operator_values op vals =
     (if op = op_In \<or> op = op_NotIn then (if length vals = 0 then Some InEmptyValues else None)
      else if op = op_Equals \<or> op = op_DoubleEquals \<or> op = op_NotEquals
      then (if length vals \<noteq> 1 then Some ExactOneValue else None)
      else if op = op_Exists \<or> op = op_DoesNotExist then (if length vals \<noteq> 0 then Some ExistsNoValues else None)
      else if op = op_GreaterThan \<or> op = op_LessThan
      then (if length vals \<noteq> 1 then Some CompareOneValue
            else if \<exists>v \<in> set vals. go_ParseInt v = None then Some CompareInteger else None)
      else Some (OperatorNotRecognized op))"

definition NewRequirement :: "string \<Rightarrow> LabelOperator \<Rightarrow> string list \<Rightarrow> label_error + Requirement" where
  "NewRequirement key op vals =
     (case validateLabelKey key of
        Some err \<Rightarrow> Inl err
      | None \<Rightarrow>
          (case check_operator_values op vals of
             Some err \<Rightarrow> Inl err
           | None \<Rightarrow>
               (case validate_values key vals of
                  Some err \<Rightarrow> Inl err
                | None \<Rightarrow> Inr \<lparr>req_key = key, req_operator = op, req_strValues = vals\<rparr>)))"

definition hasValue :: "Requirement \<Rightarrow> string \<Rightarrow> bool" where
  "hasValue r value = list_ex (\<lambda>v. v = value) (req_strValues r)"

definition Requirement_Matches :: "Requirement \<Rightarrow> LabelSet \<Rightarrow> bool" where
  "Requirement_Matches r ls =
     (let op = req_operator r; key = req_key r in
      if op = op_In \<or> op = op_Equals \<or> op = op_DoubleEquals
      then (if \<not> Set_Has ls key then False else hasValue r (Set_Get ls key))
      else if op = op_NotIn \<or> op = op_NotEquals
      then (if \<not> Set_Has ls key then True else \<not> hasValue r (Set_Get ls key))
      else if op = op_Exists then Set_Has ls key
      else if op = op_DoesNotExist then \<not> Set_Has ls key
      else if op = op_GreaterThan \<or> op = op_LessThan
      then (if \<not> Set_Has ls key then False
            else case go_ParseInt (Set_Get ls key) of
                   None \<Rightarrow> False
                 | Some lsValue \<Rightarrow>
                     (case req_strValues r of
                        [v] \<Rightarrow>
                          (case go_ParseInt v of
                             None \<Rightarrow> False
                           | Some rValue \<Rightarrow>
                               (op = op_GreaterThan \<and> lsValue > rValue) \<or> (op = op_LessThan \<and> lsValue < rValue))
                      | _ \<Rightarrow> False))
      else False)"

definition Requirement_Values :: "Requirement \<Rightarrow> StringSet" where
  "Requirement_Values r = foldl (\<lambda>ret v. sets_Insert ret [v]) {} (req_strValues r)"

text \<open>\<open>safeSort\<close> sorts a copy; the result is the sorted slice in both branches.\<close>

definition safeSort :: "string list \<Rightarrow> string list" where
  "safeSort xs = (if sorted xs then xs else sort xs)"

definition operator_literal :: "LabelOperator \<Rightarrow> string" where
  "operator_literal op =
     (if op = op_Equals then ''=''
      else if op = op_DoubleEquals then ''==''
      else if op = op_NotEquals then ''!=''
      else if op = op_In then '' in ''
      else if op = op_NotIn then '' notin ''
      else if op = op_GreaterThan then ''>''
      else if op = op_LessThan then ''<''
      else [])"

definition Requirement_String :: "Requirement \<Rightarrow> string" where
  "Requirement_String r =
     (let op = req_operator r;
          buffer = (if op = op_DoesNotExist then ''!'' else []) @ req_key r @ operator_literal op
      in if op = op_Exists \<or> op = op_DoesNotExist then buffer
         else buffer @ (if op = op_In \<or> op = op_NotIn then ''('' else [])
           @ (case req_strValues r of [v] \<Rightarrow> v | _ \<Rightarrow> go_join (safeSort (req_strValues r)) '','')
           @ (if op = op_In \<or> op = op_NotIn then '')'' else []))"

section \<open>Selectors\<close>

datatype LabelSelector = nothingSelector | internalSelector "Requirement list option"

definition Everything :: LabelSelector where
  "Everything = internalSelector (Some [])"

definition NewSelector :: LabelSelector where
  "NewSelector = internalSelector None"

abbreviation selector_reqs :: "Requirement list option \<Rightarrow> Requirement list" where
  "selector_reqs s \<equiv> (case s of None \<Rightarrow> [] | Some rs \<Rightarrow> rs)"

fun DeepCopySelector :: "LabelSelector \<Rightarrow> LabelSelector" where
  "DeepCopySelector nothingSelector = nothingSelector"
| "DeepCopySelector (internalSelector s) = internalSelector (map_option (map Requirement_DeepCopyInto) s)"

definition sorts_by_key :: "(Requirement list \<Rightarrow> Requirement list) \<Rightarrow> bool" where
  "sorts_by_key srt \<longleftrightarrow> (\<forall>rs. mset (srt rs) = mset rs \<and> sorted (map req_key (srt rs)))"

fun Selector_Empty :: "LabelSelector \<Rightarrow> bool" where
  "Selector_Empty nothingSelector = False"
| "Selector_Empty (internalSelector None) = True"
| "Selector_Empty (internalSelector (Some rs)) = (length rs = 0)"

text \<open>\<open>Add\<close> on a slice selector returns a nil interface (\<open>None\<close>) when there is no requirement at all.\<close>

fun Selector_Add :: "(Requirement list \<Rightarrow> Requirement list) \<Rightarrow> LabelSelector \<Rightarrow> Requirement list \<Rightarrow> LabelSelector option" where
  "Selector_Add srt nothingSelector reqs = Some nothingSelector"
| "Selector_Add srt (internalSelector s) reqs =
     (let sel = selector_reqs s @ reqs in if sel = [] then None else Some (internalSelector (Some (srt sel))))"

fun Selector_Matches :: "LabelSelector \<Rightarrow> LabelSet \<Rightarrow> bool" where
  "Selector_Matches nothingSelector l = False"
| "Selector_Matches (internalSelector s) l = list_all (\<lambda>r. Requirement_Matches r l) (selector_reqs s)"

fun Selector_Requirements :: "LabelSelector \<Rightarrow> Requirement list \<times> bool" where
  "Selector_Requirements nothingSelector = ([], False)"
| "Selector_Requirements (internalSelector s) = (selector_reqs s, True)"

fun Selector_String :: "LabelSelector \<Rightarrow> string" where
  "Selector_String nothingSelector = []"
| "Selector_String (internalSelector s) = go_join (map Requirement_String (selector_reqs s)) '',''"

fun exact_match_loop :: "string \<Rightarrow> Requirement list \<Rightarrow> string \<times> bool" where
  "exact_match_loop label [] = ([], False)"
| "exact_match_loop label (r # rs) =
     (if req_key r = label
      then (if req_operator r = op_Equals \<or> req_operator r = op_DoubleEquals \<or> req_operator r = op_In
            then (case req_strValues r of [v] \<Rightarrow> (v, True) | _ \<Rightarrow> ([], False))
            else ([], False))
      else exact_match_loop label rs)"

fun RequiresExactMatch :: "LabelSelector \<Rightarrow> string \<Rightarrow> string \<times> bool" where
  "RequiresExactMatch nothingSelector label = ([], False)"
| "RequiresExactMatch (internalSelector s) label = exact_match_loop label (selector_reqs s)"

fun set_requirements :: "LabelSet \<Rightarrow> string list \<Rightarrow> Requirement list option" where
  "set_requirements ls [] = Some []"
| "set_requirements ls (label # ks) =
     (case NewRequirement label op_Equals [map_get [] ls label] of
        Inl err \<Rightarrow> None
      | Inr r \<Rightarrow> map_option ((#) r) (set_requirements ls ks))"

definition SelectorFromSet :: "(Requirement list \<Rightarrow> Requirement list) \<Rightarrow> string list \<Rightarrow> LabelSet \<Rightarrow> LabelSelector" where
  "SelectorFromSet srt ks ls =
     (if length ks = 0 then internalSelector (Some [])
      else case set_requirements ls ks of
             None \<Rightarrow> internalSelector (Some [])
           | Some requirements \<Rightarrow> internalSelector (Some (srt requirements)))"

definition SelectorFromValidatedSet :: "(Requirement list \<Rightarrow> Requirement list) \<Rightarrow> string list \<Rightarrow> LabelSet \<Rightarrow> LabelSelector" where
  "SelectorFromValidatedSet srt ks ls =
     (if length ks = 0 then internalSelector (Some [])
      else internalSelector (Some (srt
        (map (\<lambda>label. \<lparr>req_key = label, req_operator = op_Equals, req_strValues = [map_get [] ls label]\<rparr>) ks))))"

definition Set_AsSelector :: "(Requirement list \<Rightarrow> Requirement list) \<Rightarrow> string list \<Rightarrow> LabelSet \<Rightarrow> LabelSelector" where
  "Set_AsSelector srt ks ls = SelectorFromSet srt ks ls"

end
