(* ===== verification/LabelParser.thy ===== *)
theory LabelParser
  imports Labels
begin

text \<open>
  The lexer and the recursive-descent parser of label selectors (\<open>pkg/scheduler/labels/selector.go\<close>).
  Every loop of the code is a function with its termination proof. Reading the token slice out of
  range is a panic (\<open>None\<close>). An error of the parser carries the literal it found and what was expected.
\<close>

section \<open>Tokens\<close>

datatype Token =
    ErrorToken
  | EndOfStringToken
  | ClosedParToken
  | CommaToken
  | DoesNotExistToken
  | DoubleEqualsToken
  | EqualsToken
  | GreaterThanToken
  | IdentifierToken
  | InToken
  | LessThanToken
  | NotEqualsToken
  | NotInToken
  | OpenParToken

definition string2token :: "string \<rightharpoonup> Token" where
  "string2token = map_of
     [('')'', ClosedParToken), ('','', CommaToken), (''!'', DoesNotExistToken), (''=='', DoubleEqualsToken),
      (''='', EqualsToken), (''>'', GreaterThanToken), (''in'', InToken), (''<'', LessThanToken),
      (''!='', NotEqualsToken), (''notin'', NotInToken), (''('', OpenParToken)]"

record ScannedItem =
  item_tok :: Token
  item_literal :: string

definition isWhitespace :: "char \<Rightarrow> bool" where
  "isWhitespace ch \<longleftrightarrow> ch = CHR '' '' \<or> ch = CHR 0x09 \<or> ch = CHR 0x0D \<or> ch = CHR 0x0A"

definition isSpecialSymbol :: "char \<Rightarrow> bool" where
  "isSpecialSymbol ch \<longleftrightarrow>
     ch = CHR ''='' \<or> ch = CHR ''!'' \<or> ch = CHR ''('' \<or> ch = CHR '')'' \<or> ch = CHR '','' \<or> ch = CHR ''>'' \<or> ch = CHR ''<''"

section \<open>The lexer\<close>

record Lexer =
  lex_s :: string
  lex_pos :: nat

text \<open>\<open>read\<close> returns the byte 0 at the end of the input, without moving.\<close>

definition Lexer_read :: "Lexer \<Rightarrow> char \<times> Lexer" where
  "Lexer_read l =
     (if lex_pos l < length (lex_s l) then (lex_s l ! lex_pos l, l\<lparr>lex_pos := lex_pos l + 1\<rparr>) else (CHR 0x00, l))"

definition Lexer_unread :: "Lexer \<Rightarrow> Lexer" where
  "Lexer_unread l = l\<lparr>lex_pos := lex_pos l - 1\<rparr>"

abbreviation lex_left :: "Lexer \<Rightarrow> nat" where
  "lex_left l \<equiv> length (lex_s l) - lex_pos l"

lemma Lexer_read_progress:
  "Lexer_read l = (ch, l') \<Longrightarrow> ch \<noteq> CHR 0x00 \<Longrightarrow>
   lex_pos l < length (lex_s l) \<and> ch = lex_s l ! lex_pos l \<and> l' = l\<lparr>lex_pos := lex_pos l + 1\<rparr>"
  by (auto simp: Lexer_read_def split: if_splits)

function id_loop :: "Lexer \<Rightarrow> string \<Rightarrow> string \<times> Lexer" where
  "id_loop l buffer =
     (case Lexer_read l of (ch, l') \<Rightarrow>
        if ch = CHR 0x00 then (buffer, l')
        else if isSpecialSymbol ch \<or> isWhitespace ch then (buffer, Lexer_unread l')
        else id_loop l' (buffer @ [ch]))"
  by pat_completeness auto
termination
  by (relation "measure (\<lambda>(l, _). lex_left l)") (auto dest: Lexer_read_progress [OF sym])

definition scanIDOrKeyword :: "Lexer \<Rightarrow> (Token \<times> string) \<times> Lexer" where
  "scanIDOrKeyword l =
     (case id_loop l [] of (s, l') \<Rightarrow>
        (case string2token s of
           Some val \<Rightarrow> ((val, s), l')
         | None \<Rightarrow> ((IdentifierToken, s), l')))"

text \<open>The loop of \<open>scanSpecialSymbol\<close>; \<open>ErrorToken\<close> is the zero of the last scanned token.\<close>

function special_loop :: "Lexer \<Rightarrow> string \<Rightarrow> Token \<times> string \<Rightarrow> (string \<times> Token \<times> string) \<times> Lexer" where
  "special_loop l buffer lastItem =
     (case Lexer_read l of (ch, l') \<Rightarrow>
        if ch = CHR 0x00 then ((buffer, lastItem), l')
        else if isSpecialSymbol ch then
          (let buffer' = buffer @ [ch] in
           case string2token buffer' of
             Some token \<Rightarrow> special_loop l' buffer' (token, buffer')
           | None \<Rightarrow>
               if fst lastItem \<noteq> ErrorToken then ((buffer', lastItem), Lexer_unread l')
               else special_loop l' buffer' lastItem)
        else ((buffer, lastItem), Lexer_unread l'))"
  by pat_completeness auto
termination
  by (relation "measure (\<lambda>(l, _, _). lex_left l)") (auto dest: Lexer_read_progress [OF sym])

definition scanSpecialSymbol :: "Lexer \<Rightarrow> (Token \<times> string) \<times> Lexer" where
  "scanSpecialSymbol l =
     (case special_loop l [] (ErrorToken, []) of ((buffer, tok, lit), l') \<Rightarrow>
        if tok = ErrorToken then ((ErrorToken, ''error expected: keyword found '' @ buffer), l') else ((tok, lit), l'))"

function skipWhiteSpaces :: "Lexer \<Rightarrow> char \<Rightarrow> char \<times> Lexer" where
  "skipWhiteSpaces l ch =
     (if \<not> isWhitespace ch then (ch, l) else (case Lexer_read l of (ch', l') \<Rightarrow> skipWhiteSpaces l' ch'))"
  by pat_completeness auto
termination
  by (relation "measure (\<lambda>(l, ch). 2 * lex_left l + (if isWhitespace ch then 1 else 0))")
    (auto simp: Lexer_read_def isWhitespace_def split: if_splits)

declare id_loop.simps [simp del] special_loop.simps [simp del] skipWhiteSpaces.simps [simp del]

definition Lex :: "Lexer \<Rightarrow> (Token \<times> string) \<times> Lexer" where
  "Lex l =
     (case Lexer_read l of (ch0, l0) \<Rightarrow>
      case skipWhiteSpaces l0 ch0 of (ch, l1) \<Rightarrow>
        if ch = CHR 0x00 then ((EndOfStringToken, []), l1)
        else if isSpecialSymbol ch then scanSpecialSymbol (Lexer_unread l1)
        else scanIDOrKeyword (Lexer_unread l1))"

subsection \<open>The lexer always moves forward\<close>

lemma id_loop_forward:
  "id_loop l buf = (b, l') \<Longrightarrow> lex_s l' = lex_s l \<and> lex_pos l \<le> lex_pos l' \<and>
     (\<forall>ch l1. Lexer_read l = (ch, l1) \<longrightarrow> ch \<noteq> CHR 0x00 \<longrightarrow> \<not> isSpecialSymbol ch \<longrightarrow> \<not> isWhitespace ch \<longrightarrow> lex_pos l < lex_pos l')"
proof (induction l buf rule: id_loop.induct)
  case (1 l buf)
  obtain ch l1 where r: "Lexer_read l = (ch, l1)"
    by fastforce
  show ?case
    using 1(2) 1(1) [OF r [symmetric]] r Lexer_read_progress [OF r]
    by (subst (asm) id_loop.simps) (auto simp: Lexer_unread_def Lexer_read_def split: if_splits)
qed

lemma special_loop_forward:
  "special_loop l buf lastItem = (r, l') \<Longrightarrow> lex_s l' = lex_s l \<and> lex_pos l \<le> lex_pos l' \<and>
     (\<forall>ch l1. Lexer_read l = (ch, l1) \<longrightarrow> isSpecialSymbol ch \<longrightarrow> fst lastItem = ErrorToken \<longrightarrow> lex_pos l < lex_pos l')"
proof (induction l buf lastItem arbitrary: r rule: special_loop.induct)
  case (1 l buf lastItem)
  obtain ch l1 where rd: "Lexer_read l = (ch, l1)"
    by fastforce
  have zero: "\<not> isSpecialSymbol CHR 0x00"
    by (simp add: isSpecialSymbol_def)
  note eq = 1(3) [unfolded special_loop.simps [of l buf lastItem] rd prod.case]
  show ?case
  proof (cases "isSpecialSymbol ch")
    case False
    then show ?thesis
      using eq rd by (auto simp: Lexer_unread_def Lexer_read_def split: if_splits)
  next
    case True
    then have ch: "ch \<noteq> CHR 0x00" and l1: "l1 = l\<lparr>lex_pos := lex_pos l + 1\<rparr>"
      using zero Lexer_read_progress [OF rd] by auto
    show ?thesis
    proof (cases "string2token (buf @ [ch])")
      case None
      then show ?thesis
        using eq True ch l1 1(1) [OF rd [symmetric] ch True refl None] by (auto simp: Let_def Lexer_unread_def split: if_splits)
    next
      case (Some token)
      then show ?thesis
        using eq True ch l1 1(2) [OF rd [symmetric] ch True refl Some] by (auto simp: Let_def)
    qed
  qed
qed

lemma skipWhiteSpaces_forward:
  "skipWhiteSpaces l ch = (ch', l') \<Longrightarrow> lex_s l' = lex_s l \<and> lex_pos l \<le> lex_pos l' \<and>
     \<not> isWhitespace ch' \<and> (ch' = ch \<and> l' = l \<or> ch' = CHR 0x00 \<or> lex_pos l < lex_pos l' \<and> lex_pos l' \<le> length (lex_s l) \<and> ch' = lex_s l ! (lex_pos l' - 1))"
proof (induction l ch rule: skipWhiteSpaces.induct)
  case (1 l ch)
  obtain ch1 l1 where rd: "Lexer_read l = (ch1, l1)"
    by fastforce
  show ?case
  proof (cases "isWhitespace ch")
    case True
    then have "skipWhiteSpaces l1 ch1 = (ch', l')"
      using 1(2) rd by (subst (asm) skipWhiteSpaces.simps) simp
    then show ?thesis
      using 1(1) [OF _ rd [symmetric]] True rd by (auto simp: Lexer_read_def split: if_splits)
  next
    case False
    then show ?thesis
      using 1(2) by (subst (asm) skipWhiteSpaces.simps) simp
  qed
qed

lemma Lex_forward:
  assumes "Lex l = ((token, lit), l')"
  shows "lex_s l' = lex_s l" "token \<noteq> EndOfStringToken \<Longrightarrow> lex_pos l < lex_pos l' \<and> lex_pos l < length (lex_s l)"
proof -
  obtain ch0 l0 where rd: "Lexer_read l = (ch0, l0)"
    by fastforce
  obtain ch l1 where sk: "skipWhiteSpaces l0 ch0 = (ch, l1)"
    by fastforce
  have l0: "lex_s l0 = lex_s l" "lex_pos l \<le> lex_pos l0"
    using rd by (auto simp: Lexer_read_def split: if_splits)
  have l1: "lex_s l1 = lex_s l" "\<not> isWhitespace ch"
    using skipWhiteSpaces_forward [OF sk] l0 by auto
  have pos: "lex_pos l < lex_pos l1 \<and> lex_pos l1 \<le> length (lex_s l) \<and> Lexer_read (Lexer_unread l1) = (ch, l1)" if "ch \<noteq> CHR 0x00"
    using skipWhiteSpaces_forward [OF sk] l0 that rd
    by (auto simp: Lexer_read_def Lexer_unread_def split: if_splits)
  consider (eos) "ch = CHR 0x00" "l' = l1" "token = EndOfStringToken"
    | (special) r where "ch \<noteq> CHR 0x00" "isSpecialSymbol ch" "special_loop (Lexer_unread l1) [] (ErrorToken, []) = (r, l')"
    | (ident) b where "ch \<noteq> CHR 0x00" "\<not> isSpecialSymbol ch" "id_loop (Lexer_unread l1) [] = (b, l')"
    using assms by (auto simp: Lex_def rd sk scanSpecialSymbol_def scanIDOrKeyword_def split: prod.splits if_splits option.splits)
  then have "lex_s l' = lex_s l \<and> (token \<noteq> EndOfStringToken \<longrightarrow> lex_pos l < lex_pos l' \<and> lex_pos l < length (lex_s l))"
  proof cases
    case eos
    then show ?thesis
      using l1 by simp
  next
    case special
    then show ?thesis
      using special_loop_forward [OF special(3)] pos l1(1) by (auto simp: Lexer_unread_def)
  next
    case ident
    then show ?thesis
      using id_loop_forward [OF ident(3)] pos l1 by (auto simp: Lexer_unread_def)
  qed
  then show "lex_s l' = lex_s l" "token \<noteq> EndOfStringToken \<Longrightarrow> lex_pos l < lex_pos l' \<and> lex_pos l < length (lex_s l)"
    by auto
qed

text \<open>\<open>scan\<close>: the tokens up to and including the end of the string.\<close>

function scan_loop :: "Lexer \<Rightarrow> ScannedItem list \<Rightarrow> ScannedItem list" where
  "scan_loop l items =
     (case Lex l of ((token, literal), l') \<Rightarrow>
        let items' = items @ [\<lparr>item_tok = token, item_literal = literal\<rparr>]
        in if token = EndOfStringToken then items' else scan_loop l' items')"
  by pat_completeness auto
termination
proof (relation "measure (\<lambda>(l, _). lex_left l)")
  show "((l', z), l, items) \<in> measure (\<lambda>(l, _). lex_left l)"
    if "(p, l') = Lex l" "(token, lit) = p" "token \<noteq> EndOfStringToken" for l l' items p token lit z
    using Lex_forward [of l token lit l'] that by (auto simp: diff_less_mono2)
qed simp

declare scan_loop.simps [simp del]

section \<open>The parser\<close>

record Parser =
  prs_scannedItems :: "ScannedItem list"
  prs_position :: nat

datatype ParserContext = KeyAndOperator | Values

datatype parse_error =
    FoundExpected string string
  | LabelError label_error
  | UnableToParse parse_error
  | ParseFailed

type_synonym 'a parse_result = "((parse_error + 'a) \<times> Parser) option"

fun context_token :: "ParserContext \<Rightarrow> Token \<Rightarrow> Token" where
  "context_token Values InToken = IdentifierToken"
| "context_token Values NotInToken = IdentifierToken"
| "context_token _ token = token"

definition lookahead :: "ParserContext \<Rightarrow> Parser \<Rightarrow> (Token \<times> string) option" where
  "lookahead ctx p = do {
     item \<leftarrow> go_index (prs_scannedItems p) (prs_position p);
     Some (context_token ctx (item_tok item), item_literal item) }"

definition consume :: "ParserContext \<Rightarrow> Parser \<Rightarrow> ((Token \<times> string) \<times> Parser) option" where
  "consume ctx p = do {
     item \<leftarrow> go_index (prs_scannedItems p) (prs_position p);
     Some ((context_token ctx (item_tok item), item_literal item), p\<lparr>prs_position := prs_position p + 1\<rparr>) }"

definition Parser_scan :: "string \<Rightarrow> ScannedItem list" where
  "Parser_scan s = scan_loop \<lparr>lex_s = s, lex_pos = 0\<rparr> []"

definition parseKeyAndInferOperator :: "Parser \<Rightarrow> (string \<times> LabelOperator) parse_result" where
  "parseKeyAndInferOperator p = do {
     ((tok0, lit0), p0) \<leftarrow> consume Values p;
     ((token, literal), operator, p1) \<leftarrow>
       (if tok0 = DoesNotExistToken
        then do { (i, p') \<leftarrow> consume Values p0; Some (i, op_DoesNotExist, p') }
        else Some ((tok0, lit0), [], p0));
     if token \<noteq> IdentifierToken then Some (Inl (FoundExpected literal ''identifier''), p1)
     else case validateLabelKey literal of
       Some err \<Rightarrow> Some (Inl (LabelError err), p1)
     | None \<Rightarrow> do {
         (t, _) \<leftarrow> lookahead Values p1;
         let operator' = (if (t = EndOfStringToken \<or> t = CommaToken) \<and> operator \<noteq> op_DoesNotExist
                          then op_Exists else operator);
         Some (Inr (literal, operator'), p1) } }"

fun token_operator :: "Token \<Rightarrow> LabelOperator option" where
  "token_operator InToken = Some op_In"
| "token_operator EqualsToken = Some op_Equals"
| "token_operator DoubleEqualsToken = Some op_DoubleEquals"
| "token_operator GreaterThanToken = Some op_GreaterThan"
| "token_operator LessThanToken = Some op_LessThan"
| "token_operator NotInToken = Some op_NotIn"
| "token_operator NotEqualsToken = Some op_NotEquals"
| "token_operator _ = None"

definition parseOperator :: "Parser \<Rightarrow> LabelOperator parse_result" where
  "parseOperator p = do {
     ((token, lit), p') \<leftarrow> consume KeyAndOperator p;
     case token_operator token of
       Some op \<Rightarrow> Some (Inr op, p')
     | None \<Rightarrow> Some (Inl (FoundExpected lit ''operator''), p') }"

lemma consume_Some:
  "consume ctx p = Some (i, p') \<longleftrightarrow>
     prs_position p < length (prs_scannedItems p) \<and> p' = p\<lparr>prs_position := prs_position p + 1\<rparr> \<and>
     i = (context_token ctx (item_tok (prs_scannedItems p ! prs_position p)), item_literal (prs_scannedItems p ! prs_position p))"
  by (auto simp: consume_def panic_simps)

function parseIdentifiersList :: "Parser \<Rightarrow> StringSet \<Rightarrow> StringSet parse_result" where
  "parseIdentifiersList p s =
     (case consume Values p of
        None \<Rightarrow> None
      | Some ((token, lit), p1) \<Rightarrow>
          if token = IdentifierToken then
            (let s1 = sets_Insert s [lit] in
             case lookahead Values p1 of
               None \<Rightarrow> None
             | Some (tok2, lit2) \<Rightarrow>
                 if tok2 = CommaToken then parseIdentifiersList p1 s1
                 else if tok2 = ClosedParToken then Some (Inr s1, p1)
                 else Some (Inl (FoundExpected lit2 '', or )''), p1))
          else if token = CommaToken then
            (let s1 = (if sets_Len s = 0 then sets_Insert s [[]] else s) in
             case lookahead Values p1 of
               None \<Rightarrow> None
             | Some (tok2, _) \<Rightarrow>
                 if tok2 = ClosedParToken then Some (Inr (sets_Insert s1 [[]]), p1)
                 else if tok2 = CommaToken then
                   (case consume Values p1 of
                      None \<Rightarrow> None
                    | Some (_, p2) \<Rightarrow> parseIdentifiersList p2 (sets_Insert s1 [[]]))
                 else parseIdentifiersList p1 s1)
          else Some (Inl (FoundExpected lit '', or identifier''), p1))"
  by pat_completeness auto
termination
  by (relation "measure (\<lambda>(p, _). length (prs_scannedItems p) - prs_position p)") (auto simp: consume_Some)

declare parseIdentifiersList.simps [simp del]

definition parseValues :: "Parser \<Rightarrow> StringSet parse_result" where
  "parseValues p = do {
     ((tok0, lit0), p0) \<leftarrow> consume Values p;
     if tok0 \<noteq> OpenParToken then Some (Inl (FoundExpected lit0 ''(''), p0)
     else do {
       (token, lit) \<leftarrow> lookahead Values p0;
       if token = IdentifierToken \<or> token = CommaToken then do {
         (r, p1) \<leftarrow> parseIdentifiersList p0 (sets_NewString []);
         case r of
           Inl err \<Rightarrow> Some (Inl err, p1)
         | Inr s \<Rightarrow> do {
             ((tok2, _), p2) \<leftarrow> consume Values p1;
             if tok2 \<noteq> ClosedParToken then Some (Inl (FoundExpected lit '')''), p2) else Some (Inr s, p2) } }
       else if token = ClosedParToken then do {
         (_, p1) \<leftarrow> consume Values p0;
         Some (Inr (sets_NewString [[]]), p1) }
       else Some (Inl (FoundExpected lit '', ) or identifier''), p0) } }"

definition parseExactValue :: "Parser \<Rightarrow> StringSet parse_result" where
  "parseExactValue p = do {
     (tok0, _) \<leftarrow> lookahead Values p;
     if tok0 = EndOfStringToken \<or> tok0 = CommaToken then Some (Inr (sets_Insert (sets_NewString []) [[]]), p)
     else do {
       ((token, lit), p1) \<leftarrow> consume Values p;
       if token = IdentifierToken then Some (Inr (sets_Insert (sets_NewString []) [lit]), p1)
       else Some (Inl (FoundExpected lit ''identifier''), p1) } }"

text \<open>\<open>values.List()\<close> is the sorted list of the set (lemma \<open>sets_List_order\<close>).\<close>

definition parseRequirement :: "Parser \<Rightarrow> Requirement parse_result" where
  "parseRequirement p = do {
     (r, p1) \<leftarrow> parseKeyAndInferOperator p;
     case r of
       Inl err \<Rightarrow> Some (Inl err, p1)
     | Inr (key, operator) \<Rightarrow>
         if operator = op_Exists \<or> operator = op_DoesNotExist
         then Some (map_sum LabelError id (NewRequirement key operator []), p1)
         else do {
           (r2, p2) \<leftarrow> parseOperator p1;
           case r2 of
             Inl err \<Rightarrow> Some (Inl err, p2)
           | Inr op \<Rightarrow> do {
               (r3, p3) \<leftarrow> (if op = op_In \<or> op = op_NotIn then parseValues p2 else parseExactValue p2);
               case r3 of
                 Inl err \<Rightarrow> Some (Inl err, p3)
               | Inr values \<Rightarrow>
                   Some (map_sum LabelError id (NewRequirement key op (sorted_list_of_set values)), p3) } } }"

subsection \<open>The parser never moves back\<close>

definition forward :: "Parser \<Rightarrow> Parser \<Rightarrow> bool" where
  "forward p p' \<longleftrightarrow> prs_scannedItems p' = prs_scannedItems p \<and> prs_position p \<le> prs_position p'"

lemma forward_refl [simp]: "forward p p"
  by (simp add: forward_def)

lemma forward_trans: "forward p q \<Longrightarrow> forward q r \<Longrightarrow> forward p r"
  by (simp add: forward_def)

lemma consume_forward: "consume ctx p = Some (i, p') \<Longrightarrow> forward p p'"
  by (auto simp: consume_Some forward_def)

lemma parseIdentifiersList_forward: "parseIdentifiersList p s = Some (r, p') \<Longrightarrow> forward p p'"
proof (induction p s rule: parseIdentifiersList.induct)
  case (1 p s)
  note eq = 1(4) [unfolded parseIdentifiersList.simps [of p s]]
  obtain token lit p1 where c: "consume Values p = Some ((token, lit), p1)"
    using eq by (auto split: option.splits)
  consider (ident) "token = IdentifierToken" | (comma) "token = CommaToken" | (other) "token \<noteq> IdentifierToken" "token \<noteq> CommaToken"
    by blast
  then have "forward p1 p'"
  proof cases
    case ident
    then show ?thesis
      using eq c 1(1) [OF c refl refl ident refl] by (auto simp: Let_def split: option.splits if_splits)
  next
    case comma
    then have "token \<noteq> IdentifierToken"
      by simp
    then show ?thesis
      using eq c 1(2) [OF c refl refl _ comma refl] 1(3) [OF c refl refl _ comma refl] comma
      by (auto simp: Let_def split: option.splits if_splits dest!: consume_forward intro: forward_trans) (metis forward_trans)+
  next
    case other
    then show ?thesis
      using eq c by simp
  qed
  then show ?case
    using consume_forward [OF c] forward_trans by blast
qed

lemma parseKey_forward: "parseKeyAndInferOperator p = Some (r, p') \<Longrightarrow> forward p p'"
  by (auto simp: forward_def parseKeyAndInferOperator_def Let_def split: if_splits option.splits
      elim!: bind_SomeE dest!: consume_forward)

lemma parseOperator_forward: "parseOperator p = Some (r, p') \<Longrightarrow> forward p p'"
  by (auto simp: forward_def parseOperator_def split: option.splits elim!: bind_SomeE dest!: consume_forward)

lemma parseValues_forward: "parseValues p = Some (r, p') \<Longrightarrow> forward p p'"
  by (auto simp: forward_def parseValues_def split: if_splits sum.splits
      elim!: bind_SomeE dest!: consume_forward parseIdentifiersList_forward)

lemma parseExactValue_forward: "parseExactValue p = Some (r, p') \<Longrightarrow> forward p p'"
  by (auto simp: forward_def parseExactValue_def split: if_splits elim!: bind_SomeE dest!: consume_forward)

lemma parseRequirement_forward: "parseRequirement p = Some (r, p') \<Longrightarrow> forward p p'"
  by (auto simp: forward_def parseRequirement_def split: if_splits sum.splits
      elim!: bind_SomeE dest!: parseKey_forward parseOperator_forward parseValues_forward parseExactValue_forward
     )

subsection \<open>The loop of \<open>parse\<close>\<close>

text \<open>\<open>requirements\<close> is nil until the first requirement is appended.\<close>

function parse_loop :: "Parser \<Rightarrow> Requirement list \<Rightarrow> (parse_error + Requirement list) option" where
  "parse_loop p requirements =
     (case lookahead Values p of
        None \<Rightarrow> None
      | Some (token, lit) \<Rightarrow>
          if token = IdentifierToken \<or> token = DoesNotExistToken then
            (case parseRequirement p of
               None \<Rightarrow> None
             | Some (Inl err, _) \<Rightarrow> Some (Inl (UnableToParse err))
             | Some (Inr r, p1) \<Rightarrow>
                 (case consume Values p1 of
                    None \<Rightarrow> None
                  | Some ((t, l), p2) \<Rightarrow>
                      if t = EndOfStringToken then Some (Inr (requirements @ [r]))
                      else if t = CommaToken then
                        (case lookahead Values p2 of
                           None \<Rightarrow> None
                         | Some (t2, l2) \<Rightarrow>
                             if t2 \<noteq> IdentifierToken \<and> t2 \<noteq> DoesNotExistToken
                             then Some (Inl (FoundExpected l2 ''identifier after ,''))
                             else parse_loop p2 (requirements @ [r]))
                      else Some (Inl (FoundExpected l '', or end of string''))))
          else if token = EndOfStringToken then Some (Inr requirements)
          else Some (Inl (FoundExpected lit ''!, identifier, or end of string'')))"
  by pat_completeness auto
termination
  by (relation "measure (\<lambda>(p, _). length (prs_scannedItems p) - prs_position p)")
    (auto simp: consume_Some forward_def dest!: parseRequirement_forward)

declare parse_loop.simps [simp del]

definition Parser_parse :: "string \<Rightarrow> (parse_error + Requirement list) option" where
  "Parser_parse s = parse_loop \<lparr>prs_scannedItems = Parser_scan s, prs_position = 0\<rparr> []"

text \<open>\<open>parse\<close> returns a nil slice (\<open>None\<close>) when there is no requirement.\<close>

definition parse :: "(Requirement list \<Rightarrow> Requirement list) \<Rightarrow> string \<Rightarrow> (parse_error + Requirement list option) option" where
  "parse srt selector = do {
     r \<leftarrow> Parser_parse selector;
     case r of
       Inl err \<Rightarrow> Some (Inl err)
     | Inr items \<Rightarrow> Some (Inr (if items = [] then None else Some (srt items))) }"

definition Parse :: "(Requirement list \<Rightarrow> Requirement list) \<Rightarrow> string \<Rightarrow> (parse_error + LabelSelector) option" where
  "Parse srt selector = do {
     r \<leftarrow> parse srt selector;
     case r of
       Inl err \<Rightarrow> Some (Inl err)
     | Inr None \<Rightarrow> Some (Inl ParseFailed)
     | Inr parsedSelector \<Rightarrow> Some (Inr (internalSelector parsedSelector)) }"

definition ParseToRequirements :: "(Requirement list \<Rightarrow> Requirement list) \<Rightarrow> string \<Rightarrow> (parse_error + Requirement list option) option" where
  "ParseToRequirements srt selector = parse srt selector"

end
