(* ===== verification/LabelProperties.thy ===== *)
theory LabelProperties
  imports Labels
begin

text \<open>
  What label sets and selectors promise: selectors built from a set match exactly the label sets that
  extend it, adding requirements restricts a selector by them, an exact match that a selector reports
  is implied by it, and the text form of a label set is read back by \<open>ConvertSelectorToLabelsMap\<close>.
\<close>

section \<open>Sorting requirements\<close>

locale key_sort =
  fixes srt :: "Requirement list \<Rightarrow> Requirement list"
  assumes perm: "mset (srt rs) = mset rs"
    and ordered: "sorted (map req_key (srt rs))"
begin

lemma set_srt [simp]: "set (srt rs) = set rs"
  using perm [of rs] by (metis set_mset_mset)

lemma srt_eq_Nil [simp]: "srt rs = [] \<longleftrightarrow> rs = []"
  using perm [of rs] by (metis mset_zero_iff)

lemma srt_distinct: "distinct (map req_key rs) \<Longrightarrow> sorted (map req_key rs) \<Longrightarrow> srt rs = rs"
  by (metis ordered perm list.set_map properties_for_sort_key set_srt
      sorted_sort_id sort_key_inj_key_eq distinct_map mset_eq_setD)

lemma matches_srt: "list_all (\<lambda>r. Requirement_Matches r l) (srt rs) = list_all (\<lambda>r. Requirement_Matches r l) rs"
  by (simp add: list_all_iff)

lemma Add_matches:
  "Selector_Add srt sel rs = Some sel' \<Longrightarrow>
   Selector_Matches sel' l \<longleftrightarrow> Selector_Matches sel l \<and> (\<forall>r \<in> set rs. Requirement_Matches r l)"
  by (cases sel) (auto simp: Let_def matches_srt list_all_iff split: if_splits option.splits)

lemma Add_sorted:
  "Selector_Add srt (internalSelector s) rs = Some (internalSelector s') \<Longrightarrow> sorted (map req_key (selector_reqs s'))"
  using ordered by (auto simp: Let_def split: if_splits)

end

interpretation stable_sort: key_sort "sort_key req_key"
  by unfold_locales (auto simp: sorted_sort_key)

lemma sorts_by_key_iff: "sorts_by_key srt \<longleftrightarrow> key_sort srt"
  by (auto simp: sorts_by_key_def key_sort_def)

section \<open>Selectors from label sets\<close>

definition valid_set :: "LabelSet \<Rightarrow> bool" where
  "valid_set ls \<longleftrightarrow> (\<forall>k v. ls k = Some v \<longrightarrow> k \<noteq> [] \<and> length v \<le> LabelValueMaxLength)"

abbreviation equals_req :: "LabelSet \<Rightarrow> string \<Rightarrow> Requirement" where
  "equals_req ls k \<equiv> \<lparr>req_key = k, req_operator = op_Equals, req_strValues = [map_get [] ls k]\<rparr>"

lemma NewRequirement_equals:
  "NewRequirement k op_Equals [v] =
     (if k = [] then Inl (InvalidKey k) else if LabelValueMaxLength < length v then Inl ValueTooLong
      else Inr \<lparr>req_key = k, req_operator = op_Equals, req_strValues = [v]\<rparr>)"
  by (simp add: NewRequirement_def validateLabelKey_def check_operator_values_def validateLabelValue_def IsValidLabelValue_def)

lemma set_requirements_eq:
  "set_requirements ls ks =
     (if \<forall>k \<in> set ks. k \<noteq> [] \<and> length (map_get [] ls k) \<le> LabelValueMaxLength then Some (map (equals_req ls) ks) else None)"
  by (induction ks) (auto simp: NewRequirement_equals)

lemma equals_req_matches: "Requirement_Matches (equals_req ls k) l \<longleftrightarrow> l k = Some (map_get [] ls k)"
  by (auto simp: Requirement_Matches_def Set_Has_def Set_Get_def hasValue_def)

lemma range_order_ball:
  "range_order ks m \<Longrightarrow> (\<forall>k \<in> set ks. P k (map_get d m k)) \<longleftrightarrow> (\<forall>k v. m k = Some v \<longrightarrow> P k v)"
  by (auto simp: range_order_def dom_def)

lemma all_equals_match:
  assumes "range_order ks ls"
  shows "list_all (\<lambda>r. Requirement_Matches r l) (map (equals_req ls) ks) \<longleftrightarrow> ls \<subseteq>\<^sub>m l"
proof -
  have "list_all (\<lambda>r. Requirement_Matches r l) (map (equals_req ls) ks) \<longleftrightarrow> (\<forall>k v. ls k = Some v \<longrightarrow> l k = Some v)"
    using range_order_ball [OF assms, of "\<lambda>k v. l k = Some v" "[]"] by (simp add: list_all_iff equals_req_matches)
  then show ?thesis
    by (auto simp: map_le_def dom_def)
qed

lemma SelectorFromSet_eq:
  assumes "key_sort srt" and ks: "range_order ks ls"
  shows "Selector_Matches (SelectorFromSet srt ks ls) l \<longleftrightarrow> (valid_set ls \<longrightarrow> ls \<subseteq>\<^sub>m l)"
proof -
  have "(\<forall>k \<in> set ks. k \<noteq> [] \<and> length (map_get [] ls k) \<le> LabelValueMaxLength) \<longleftrightarrow> valid_set ls"
    using range_order_ball [OF ks, of "\<lambda>k v. k \<noteq> [] \<and> length v \<le> LabelValueMaxLength" "[]"] by (simp add: valid_set_def)
  moreover have "ks = [] \<Longrightarrow> ls = Map.empty"
    using ks by simp
  ultimately show ?thesis
    using all_equals_match [OF ks, of l]
    by (auto simp: SelectorFromSet_def set_requirements_eq key_sort.matches_srt [OF assms(1)])
qed

lemma SelectorFromValidatedSet_eq:
  assumes "key_sort srt" and ks: "range_order ks ls"
  shows "Selector_Matches (SelectorFromValidatedSet srt ks ls) l \<longleftrightarrow> ls \<subseteq>\<^sub>m l"
proof (cases "ks = []")
  case True
  then show ?thesis
    using ks by (simp add: SelectorFromValidatedSet_def)
next
  case False
  then show ?thesis
    using all_equals_match [OF ks, of l]
    by (simp add: SelectorFromValidatedSet_def key_sort.matches_srt [OF assms(1)] comp_def)
qed

lemma exact_value_matches:
  "req_operator r = op_Equals \<or> req_operator r = op_DoubleEquals \<or> req_operator r = op_In \<Longrightarrow> req_strValues r = [v] \<Longrightarrow>
   Requirement_Matches r l \<longleftrightarrow> l (req_key r) = Some v"
  by (cases "l (req_key r)"; elim disjE)
    (simp_all add: Requirement_Matches_def Set_Has_def Set_Get_def hasValue_def eq_commute [of v])

lemma exact_match_sound:
  "exact_match_loop label rs = (v, True) \<Longrightarrow> list_all (\<lambda>r. Requirement_Matches r l) rs \<Longrightarrow> l label = Some v"
proof (induction rs)
  case (Cons r rs)
  show ?case
  proof (cases "req_key r = label")
    case True
    then have "req_strValues r = [v]" "req_operator r = op_Equals \<or> req_operator r = op_DoubleEquals \<or> req_operator r = op_In"
      using Cons.prems(1) by (simp_all split: if_splits list.splits)
    then show ?thesis
      using exact_value_matches [of r v l] Cons.prems(2) True by simp
  qed (use Cons in simp)
qed simp

section \<open>Comparing and merging label sets\<close>

lemma conflicts_loop_iff: "conflicts_loop small big ks \<longleftrightarrow> (\<exists>k \<in> set ks. \<exists>v. big k = Some v \<and> v \<noteq> map_get [] small k)"
  by (induction ks) (auto split: option.splits)

lemma all_labels_in_iff: "all_labels_in ls other ks \<longleftrightarrow> (\<forall>k \<in> set ks. other k = Some (map_get [] ls k))"
  by (induction ks) (auto split: option.splits)

lemma all_labels_in_le: "range_order ks ls \<Longrightarrow> all_labels_in ls other ks \<longleftrightarrow> ls \<subseteq>\<^sub>m other"
  using range_order_ball [of ks ls "\<lambda>k v. other k = Some v" "[]"] by (auto simp: all_labels_in_iff map_le_def dom_def)

lemma merge_loop: "foldl (\<lambda>m k. m(k \<mapsto> map_get [] ls k)) m ks = (\<lambda>k. if k \<in> set ks then Some (map_get [] ls k) else m k)"
  by (induction ks arbitrary: m) auto

lemma Merge_eq: "range_order ks1 l1 \<Longrightarrow> range_order ks2 l2 \<Longrightarrow> Merge ks1 l1 ks2 l2 = l1 ++ l2"
  by (auto simp: Merge_def merge_loop range_order_def map_add_def fun_eq_iff dom_def split: option.splits)

definition conflicting :: "LabelSet \<Rightarrow> LabelSet \<Rightarrow> bool" where
  "conflicting l1 l2 \<longleftrightarrow> (\<exists>k v w. l1 k = Some v \<and> l2 k = Some w \<and> v \<noteq> w)"

lemma conflicts_loop_eq:
  assumes "range_order ks l1"
  shows "conflicts_loop l1 l2 ks \<longleftrightarrow> conflicting l1 l2"
proof -
  have "(\<exists>k \<in> set ks. \<exists>w. l2 k = Some w \<and> w \<noteq> map_get [] l1 k) \<longleftrightarrow> (\<exists>k v w. l1 k = Some v \<and> l2 k = Some w \<and> w \<noteq> v)"
    using range_order_ball [OF assms, of "\<lambda>k v. \<forall>w. l2 k = Some w \<longrightarrow> w = v" "[]"] by blast
  then show ?thesis
    unfolding conflicting_def conflicts_loop_iff by metis
qed

lemma conflicting_sym: "conflicting l1 l2 \<longleftrightarrow> conflicting l2 l1"
  unfolding conflicting_def by metis

lemma map_le_same_size: "l1 \<subseteq>\<^sub>m l2 \<Longrightarrow> finite (dom l2) \<Longrightarrow> card (dom l1) = card (dom l2) \<Longrightarrow> l1 = l2"
  by (metis card_subset_eq map_le_antisym map_le_def map_le_implies_dom_le)

lemma Labels_Equal_eq:
  assumes "range_order ks1 l1" "range_order ks2 l2"
  shows "Labels_Equal ks1 l1 ks2 l2 \<longleftrightarrow> l1 = l2"
proof -
  have "finite (dom l2)"
    using assms(2) by (metis List.finite_set range_orderD(2))
  then show ?thesis
    using map_le_same_size [of l1 l2] range_order_length [OF assms(1)] range_order_length [OF assms(2)]
    by (auto simp: Labels_Equal_def all_labels_in_le [OF assms(1)])
qed

section \<open>The text form of a label set\<close>

lemma go_split_nonempty [simp]: "go_split xs c \<noteq> []"
  by (induction xs) (auto split: list.splits)

lemma go_split_no_sep: "c \<notin> set xs \<Longrightarrow> go_split xs c = [xs]"
  by (induction xs) auto

lemma go_split_append: "c \<notin> set xs \<Longrightarrow> go_split (xs @ c # ys) c = xs # go_split ys c"
  by (induction xs) auto

lemma go_split_join: "xs \<noteq> [] \<Longrightarrow> \<forall>x \<in> set xs. c \<notin> set x \<Longrightarrow> go_split (go_join xs [c]) c = xs"
  by (induction xs "[c]" rule: go_join.induct) (auto simp: go_split_no_sep go_split_append)

abbreviation label_text :: "LabelSet \<Rightarrow> string \<Rightarrow> string" where
  "label_text ls k \<equiv> k @ ''='' @ map_get [] ls k"

definition plain_label :: "string \<Rightarrow> bool" where
  "plain_label s \<longleftrightarrow> CHR '','' \<notin> set s \<and> CHR ''='' \<notin> set s \<and> go_trim_space s = s"

definition plain_set :: "LabelSet \<Rightarrow> bool" where
  "plain_set ls \<longleftrightarrow> valid_set ls \<and> (\<forall>k v. ls k = Some v \<longrightarrow> plain_label k \<and> plain_label v)"

lemma convert_text:
  assumes "plain_set ls" "ls k = Some v"
  shows "convert_loop m (label_text ls k # xs) = convert_loop (m(k \<mapsto> v)) xs"
proof -
  have "plain_label k" "plain_label v" "k \<noteq> []" "length v \<le> LabelValueMaxLength"
    using assms by (auto simp: plain_set_def valid_set_def)
  then show ?thesis
    using assms(2) by (simp add: plain_label_def go_split_append go_split_no_sep Let_def
        validateLabelKey_def validateLabelValue_def IsValidLabelValue_def)
qed

lemma convert_texts:
  assumes "plain_set ls" "set ts \<subseteq> label_text ls ` dom ls"
  shows "\<exists>m'. convert_loop m ts = (m', None) \<and> (\<forall>k. m' k = m k \<or> m' k = ls k \<and> k \<in> dom ls) \<and>
    (\<forall>k \<in> dom ls. label_text ls k \<in> set ts \<longrightarrow> m' k = ls k)"
  using assms(2)
proof (induction ts arbitrary: m)
  case (Cons t ts)
  obtain k v where t: "t = label_text ls k" "ls k = Some v"
    using Cons.prems by auto
  obtain m' where m': "convert_loop (m(k \<mapsto> v)) ts = (m', None)"
      "\<forall>j. m' j = (m(k \<mapsto> v)) j \<or> m' j = ls j \<and> j \<in> dom ls" "\<forall>j \<in> dom ls. label_text ls j \<in> set ts \<longrightarrow> m' j = ls j"
    using Cons by fastforce
  have same: "j = k" if "label_text ls j = label_text ls k" "ls j = Some w" for j w
    using that t(2) assms(1) by (auto simp: plain_set_def plain_label_def) (metis go_split_append list.inject)
  have k: "m' k = ls k"
    using m'(2) t(2) by (metis fun_upd_same)
  have "m' j = m j \<or> m' j = ls j \<and> j \<in> dom ls" for j
    using m'(2) [rule_format, of j] k t(2) by (cases "j = k") auto
  moreover have "m' j = ls j" if "j \<in> dom ls" "label_text ls j \<in> set (t # ts)" for j
  proof (cases "label_text ls j = t")
    case True
    then have "j = k"
      using same that(1) t(1) by blast
    then show ?thesis
      using k by simp
  qed (use that m'(3) in simp)
  moreover have "convert_loop m (t # ts) = (m', None)"
    unfolding t(1) convert_text [OF assms(1) t(2)] by (rule m'(1))
  ultimately show ?case
    by blast
qed auto

lemma sort_eq_Nil [simp]: "sort xs = [] \<longleftrightarrow> xs = []"
  by (metis set_empty set_sort)

lemma Set_String_convert:
  assumes "range_order ks ls" "plain_set ls" "ls \<noteq> Map.empty"
  shows "ConvertSelectorToLabelsMap (Set_String ks ls) = (ls, None)"
proof -
  let ?ts = "sort (map (label_text ls) ks)"
  have "ks \<noteq> []" "set ks = dom ls"
    using assms(1,3) range_order_Nil range_orderD(2) by blast+
  then have ts: "set ?ts = label_text ls ` dom ls" "?ts \<noteq> []"
    by simp_all
  have "CHR '','' \<notin> set t" if t: "t \<in> set ?ts" for t
  proof -
    obtain k v where "t = label_text ls k" "ls k = Some v"
      using t unfolding ts(1) by auto
    moreover from this have "plain_label k" "plain_label v"
      using assms(2) by (auto simp: plain_set_def)
    ultimately show ?thesis
      by (simp add: plain_label_def)
  qed
  then have split: "go_split (Set_String ks ls) CHR '','' = ?ts"
    using ts(2) by (auto simp: Set_String_def intro!: go_split_join)
  moreover have "Set_String ks ls \<noteq> []"
  proof
    assume "Set_String ks ls = []"
    then have "?ts = [[]]"
      using split by simp
    then have "[] \<in> label_text ls ` dom ls"
      using ts(1) by (metis list.set_intros(1))
    then show False
      by auto
  qed
  moreover obtain m' where "convert_loop Map.empty ?ts = (m', None)"
      "\<forall>k. m' k = None \<or> m' k = ls k \<and> k \<in> dom ls" "\<forall>k \<in> dom ls. label_text ls k \<in> set ?ts \<longrightarrow> m' k = ls k"
    using convert_texts [OF assms(2), of ?ts Map.empty] ts(1) by auto
  moreover from this have "m' = ls"
    using ts(1) by (metis (no_types, lifting) domIff ext image_eqI)
  ultimately show ?thesis
    by (simp add: ConvertSelectorToLabelsMap_def)
qed

section \<open>Properties\<close>

text \<open>
  C26: a selector made from a label set matches the label sets that extend it. When the set has an
  empty key or a value of more than 63 characters, \<open>SelectorFromSet\<close> gives up and matches every label
  set, while \<open>SelectorFromValidatedSet\<close> does not look at that.
\<close>

theorem SelectorFromSet_matches:
  assumes "sorts_by_key srt" and "range_order ks ls"
  shows "(Selector_Matches (SelectorFromSet srt ks ls) l \<longleftrightarrow> (valid_set ls \<longrightarrow> ls \<subseteq>\<^sub>m l)) \<and>
    (Selector_Matches (SelectorFromValidatedSet srt ks ls) l \<longleftrightarrow> ls \<subseteq>\<^sub>m l)"
  using assms SelectorFromSet_eq SelectorFromValidatedSet_eq by (auto simp: sorts_by_key_iff)

theorem SelectorFromSet_matches_witness:
  "Selector_Matches (SelectorFromSet (sort_key req_key) [''a''] [''a'' \<mapsto> ''1'']) [''a'' \<mapsto> ''1'', ''b'' \<mapsto> ''2''] \<and>
   \<not> Selector_Matches (SelectorFromSet (sort_key req_key) [''a''] [''a'' \<mapsto> ''1'']) [''b'' \<mapsto> ''2'']"
  using SelectorFromSet_matches [of "sort_key req_key" "[''a'']" "[''a'' \<mapsto> ''1'']"] stable_sort.key_sort_axioms
  by (auto simp: sorts_by_key_iff range_order_def map_le_def valid_set_def LabelValueMaxLength_def)

text \<open>
  C25: adding requirements to a selector restricts it by exactly these requirements, whatever order the
  sort leaves requirements with the same key in; the sum of no requirements at all is a nil selector.
\<close>

theorem Selector_Add_restricts:
  assumes "sorts_by_key srt"
  shows "case Selector_Add srt sel rs of
     None \<Rightarrow> rs = [] \<and> Selector_Empty sel
   | Some sel' \<Rightarrow> Selector_Matches sel' l \<longleftrightarrow> Selector_Matches sel l \<and> (\<forall>r \<in> set rs. Requirement_Matches r l)"
proof (cases "Selector_Add srt sel rs")
  case None
  then show ?thesis
    by (cases sel) (auto simp: Let_def split: if_splits option.splits)
next
  case (Some sel')
  then show ?thesis
    using key_sort.Add_matches [of srt sel rs sel' l] assms by (simp add: sorts_by_key_iff)
qed

theorem Selector_Add_restricts_witness:
  "case Selector_Add (sort_key req_key) NewSelector [equals_req [''a'' \<mapsto> ''1''] ''a''] of
     None \<Rightarrow> False
   | Some sel' \<Rightarrow> Selector_Matches sel' [''a'' \<mapsto> ''1''] \<and> \<not> Selector_Matches sel' Map.empty"
  using Selector_Add_restricts [where srt = "sort_key req_key" and sel = NewSelector and
        rs = "[equals_req [''a'' \<mapsto> ''1''] ''a'']" and l = "[''a'' \<mapsto> ''1'']"]
    Selector_Add_restricts [where srt = "sort_key req_key" and sel = NewSelector and
        rs = "[equals_req [''a'' \<mapsto> ''1''] ''a'']" and l = Map.empty]
    stable_sort.key_sort_axioms
  by (simp add: sorts_by_key_iff NewSelector_def Requirement_Matches_def Set_Has_def Set_Get_def hasValue_def)

text \<open>C34: when a selector reports that it requires a label to have a value, it matches no other label set.\<close>

theorem RequiresExactMatch_sound:
  assumes "RequiresExactMatch sel label = (v, True)" and "Selector_Matches sel l"
  shows "l label = Some v"
  using assms exact_match_sound by (cases sel) auto

theorem RequiresExactMatch_sound_witness:
  "RequiresExactMatch (internalSelector (Some [equals_req [''a'' \<mapsto> ''1''] ''a''])) ''a'' = (''1'', True) \<and>
   [''a'' \<mapsto> ''1'', ''b'' \<mapsto> ''2''] ''a'' = Some ''1''"
  using RequiresExactMatch_sound [of "internalSelector (Some [equals_req [''a'' \<mapsto> ''1''] ''a''])" "''a''" "''1''"
      "[''a'' \<mapsto> ''1'', ''b'' \<mapsto> ''2'']"]
  by (simp add: Requirement_Matches_def Set_Has_def Set_Get_def hasValue_def)





end
