(* ===== verification/LabelRoundtrip.thy ===== *)
theory LabelRoundtrip
  imports LabelParser LabelProperties
begin

text \<open>
  Two results on the selector parser. It is total: on every input string it returns a selector or an
  error, and never reads past the token slice (\<open>prs_ok\<close> is the invariant of the parser's position).
  And it inverts printing: the text of a selector whose keys and values contain no operator symbol,
  blank or NUL byte is parsed back to the same requirements, with the values of each sorted.
\<close>

section \<open>Totality\<close>

definition prs_ok :: "Parser \<Rightarrow> bool" where
  "prs_ok p \<longleftrightarrow> prs_position p < length (prs_scannedItems p) \<and>
     (\<forall>k < length (prs_scannedItems p). item_tok (prs_scannedItems p ! k) = EndOfStringToken \<longleftrightarrow>
        k = length (prs_scannedItems p) - 1)"

definition prs_safe :: "'a parse_result \<Rightarrow> bool" where
  "prs_safe r \<longleftrightarrow> (\<exists>x p'. r = Some (x, p') \<and> (\<forall>v. x = Inr v \<longrightarrow> prs_ok p'))"

lemma context_token_eos [simp]: "context_token ctx t = EndOfStringToken \<longleftrightarrow> t = EndOfStringToken"
  by (cases "(ctx, t)" rule: context_token.cases) auto

lemma lookahead_ok: "prs_ok p \<Longrightarrow> \<exists>t l. lookahead ctx p = Some (t, l)"
  by (auto simp: prs_ok_def lookahead_def panic_simps)

lemma consume_ok:
  assumes "prs_ok p"
  obtains t l p' where "consume ctx p = Some ((t, l), p')" "lookahead ctx p = Some (t, l)" "t \<noteq> EndOfStringToken \<Longrightarrow> prs_ok p'"
proof -
  let ?i = "prs_scannedItems p ! prs_position p"
  have k: "prs_position p < length (prs_scannedItems p)"
    using assms by (simp add: prs_ok_def)
  then have "consume ctx p = Some ((context_token ctx (item_tok ?i), item_literal ?i), p\<lparr>prs_position := prs_position p + 1\<rparr>)"
    "lookahead ctx p = Some (context_token ctx (item_tok ?i), item_literal ?i)"
    by (auto simp: consume_def lookahead_def panic_simps)
  moreover have "prs_ok (p\<lparr>prs_position := prs_position p + 1\<rparr>)" if "context_token ctx (item_tok ?i) \<noteq> EndOfStringToken"
  proof -
    have "prs_position p \<noteq> length (prs_scannedItems p) - 1"
      using assms that k by (auto simp: prs_ok_def)
    then show ?thesis
      using assms k by (simp add: prs_ok_def)
  qed
  ultimately show thesis
    using that by blast
qed

lemma prs_safe_simps [simp]:
  "prs_safe (Some (Inl e, p))" "prs_safe (Some (Inr v, p)) \<longleftrightarrow> prs_ok p" "\<not> prs_safe None"
  by (auto simp: prs_safe_def)

lemma parseIdentifiersList_safe: "prs_ok p \<Longrightarrow> prs_safe (parseIdentifiersList p s)"
proof (induction p s rule: parseIdentifiersList.induct)
  case (1 p s)
  obtain token lit p1 where c: "consume Values p = Some ((token, lit), p1)" and ok: "token \<noteq> EndOfStringToken \<Longrightarrow> prs_ok p1"
    using consume_ok [OF 1(4), of Values] by metis
  show ?case
  proof (cases "token = IdentifierToken")
    case True
    then have p1: "prs_ok p1"
      using ok by simp
    then obtain t2 l2 where la: "lookahead Values p1 = Some (t2, l2)"
      using lookahead_ok by blast
    show ?thesis
      using 1(1) [OF c refl refl True refl la refl] c la p1 True
      by (simp add: parseIdentifiersList.simps [of p s] Let_def)
  next
    case False
    show ?thesis
    proof (cases "token = CommaToken")
      case True
      then have p1: "prs_ok p1"
        using ok by simp
      then obtain t2 l2 p2 where la: "lookahead Values p1 = Some (t2, l2)" "consume Values p1 = Some ((t2, l2), p2)"
          "t2 \<noteq> EndOfStringToken \<Longrightarrow> prs_ok p2"
        using consume_ok [OF p1, of Values] by metis
      show ?thesis
        using 1(2) [OF c refl refl False True refl la(1) refl] 1(3) [OF c refl refl False True refl la(1) refl] c la p1 True
        by (simp add: parseIdentifiersList.simps [of p s] Let_def)
    next
      case other: False
      then show ?thesis
        using c False by (simp add: parseIdentifiersList.simps [of p s])
    qed
  qed
qed

lemma parseKey_safe: "prs_ok p \<Longrightarrow> prs_safe (parseKeyAndInferOperator p)"
proof -
  assume "prs_ok p"
  then obtain t0 l0 p0 where c0: "consume Values p = Some ((t0, l0), p0)" "t0 \<noteq> EndOfStringToken \<Longrightarrow> prs_ok p0"
    using consume_ok by metis
  show ?thesis
  proof (cases "t0 = DoesNotExistToken")
    case True
    then have "prs_ok p0"
      using c0(2) by simp
    then obtain t1 l1 p1 where c1: "consume Values p0 = Some ((t1, l1), p1)" "t1 \<noteq> EndOfStringToken \<Longrightarrow> prs_ok p1"
      using consume_ok by metis
    show ?thesis
    proof (cases "t1 = IdentifierToken")
      case id: True
      then show ?thesis
        using c0 c1 True lookahead_ok [of p1 Values]
        by (auto simp: parseKeyAndInferOperator_def Let_def split: option.splits)
    qed (use c0 c1 True in \<open>simp add: parseKeyAndInferOperator_def\<close>)
  next
    case False
    show ?thesis
    proof (cases "t0 = IdentifierToken")
      case id: True
      then show ?thesis
        using c0 lookahead_ok [of p0 Values] by (auto simp: parseKeyAndInferOperator_def Let_def split: option.splits)
    qed (use c0 False in \<open>simp add: parseKeyAndInferOperator_def\<close>)
  qed
qed

lemma token_operator_eos: "token_operator t = Some op \<Longrightarrow> t \<noteq> EndOfStringToken"
  by auto

lemma parseOperator_safe: "prs_ok p \<Longrightarrow> prs_safe (parseOperator p)"
  by (rule consume_ok [of p KeyAndOperator]) (auto simp: parseOperator_def split: option.splits dest!: token_operator_eos)

lemma parseValues_safe: "prs_ok p \<Longrightarrow> prs_safe (parseValues p)"
proof -
  assume "prs_ok p"
  then obtain t0 l0 p0 where c0: "consume Values p = Some ((t0, l0), p0)" "t0 \<noteq> EndOfStringToken \<Longrightarrow> prs_ok p0"
    using consume_ok by metis
  show ?thesis
  proof (cases "t0 = OpenParToken")
    case True
    then have p0: "prs_ok p0"
      using c0(2) by simp
    then obtain t l q where la: "lookahead Values p0 = Some (t, l)" "consume Values p0 = Some ((t, l), q)" "t \<noteq> EndOfStringToken \<Longrightarrow> prs_ok q"
      using consume_ok by metis
    obtain x p1 where ids: "parseIdentifiersList p0 {} = Some (x, p1)" "\<forall>v. x = Inr v \<longrightarrow> prs_ok p1"
      using parseIdentifiersList_safe [OF p0, of "{}"] unfolding prs_safe_def by blast
    have "prs_safe (do { ((tok2, _), p2) \<leftarrow> consume Values p1;
        if tok2 \<noteq> ClosedParToken then Some (Inl (FoundExpected l '')''), p2) else Some (Inr s, p2) })" if "prs_ok p1" for s
      by (rule consume_ok [OF that, of Values]) auto
    then show ?thesis
      using c0 la ids True by (cases x) (auto simp: parseValues_def)
  qed (use c0 in \<open>simp add: parseValues_def\<close>)
qed

lemma parseExactValue_safe: "prs_ok p \<Longrightarrow> prs_safe (parseExactValue p)"
  by (rule consume_ok [of p Values]) (auto simp: parseExactValue_def)

lemma parseRequirement_safe: "prs_ok p \<Longrightarrow> prs_safe (parseRequirement p)"
proof -
  assume "prs_ok p"
  then obtain x p1 where k: "parseKeyAndInferOperator p = Some (x, p1)" "\<forall>v. x = Inr v \<longrightarrow> prs_ok p1"
    using parseKey_safe unfolding prs_safe_def by blast
  show ?thesis
  proof (cases x)
    case (Inr ko)
    then obtain y p2 where o: "parseOperator p1 = Some (y, p2)" "\<forall>v. y = Inr v \<longrightarrow> prs_ok p2"
      using parseOperator_safe [of p1] k(2) unfolding prs_safe_def by blast
    have "prs_safe (parseRequirement p)"
    proof (cases y)
      case (Inr op)
      obtain z p3 where v: "(if op = op_In \<or> op = op_NotIn then parseValues p2 else parseExactValue p2) = Some (z, p3)"
          "\<forall>w. z = Inr w \<longrightarrow> prs_ok p3"
        using parseValues_safe [of p2] parseExactValue_safe [of p2] o(2) Inr unfolding prs_safe_def
        by (cases "op = op_In \<or> op = op_NotIn") (simp only: if_True if_False refl disj_ac, blast)+
      show ?thesis
        using k o v Inr \<open>x = Inr ko\<close> by (cases ko; cases z) (simp_all add: parseRequirement_def prs_safe_def)
    qed (use k o Inr in \<open>cases ko, simp add: parseRequirement_def prs_safe_def\<close>)
    then show ?thesis .
  qed (use k in \<open>simp add: parseRequirement_def\<close>)
qed

lemma parse_loop_safe: "prs_ok p \<Longrightarrow> no_panic (parse_loop p rs)"
proof (induction p rs rule: parse_loop.induct)
  case (1 p rs)
  obtain t l where la: "lookahead Values p = Some (t, l)"
    using lookahead_ok 1(2) by blast
  obtain x p1 where r: "parseRequirement p = Some (x, p1)" "\<forall>v. x = Inr v \<longrightarrow> prs_ok p1"
    using parseRequirement_safe [OF 1(2)] unfolding prs_safe_def by blast
  show ?case
  proof (cases "(t = IdentifierToken \<or> t = DoesNotExistToken) \<and> (\<exists>v. x = Inr v)")
    case True
    then obtain v where v: "x = Inr v" "prs_ok p1" "t = IdentifierToken \<or> t = DoesNotExistToken"
      using r(2) by blast
    obtain t1 l1 p2 where c: "consume Values p1 = Some ((t1, l1), p2)" "t1 \<noteq> EndOfStringToken \<Longrightarrow> prs_ok p2"
      using consume_ok [OF v(2)] by metis
    show ?thesis
    proof (cases "t1 = CommaToken")
      case True
      then have p2: "prs_ok p2"
        using c(2) by simp
      then obtain t2 l2 where "lookahead Values p2 = Some (t2, l2)"
        using lookahead_ok by blast
      then show ?thesis
        using 1(1) [OF la refl v(3) r(1)] la r(1) v c(1) True p2 by (simp add: parse_loop.simps [of p rs])
    qed (use la r(1) v c(1) in \<open>auto simp: parse_loop.simps [of p rs]\<close>)
  qed (use la r(1) in \<open>cases x; auto simp: parse_loop.simps [of p rs]\<close>)
qed

lemma string2token_not_eos: "string2token s \<noteq> Some EndOfStringToken"
  by (simp add: string2token_def)

lemma special_loop_not_eos:
  "special_loop l buf lastItem = ((b, token, lit), l') \<Longrightarrow> fst lastItem \<noteq> EndOfStringToken \<Longrightarrow> token \<noteq> EndOfStringToken"
proof (induction l buf lastItem rule: special_loop.induct)
  case (1 l buf lastItem)
  obtain ch l1 where rd: "Lexer_read l = (ch, l1)"
    by fastforce
  note eq = 1(3) [unfolded special_loop.simps [of l buf lastItem] rd prod.case]
  show ?case
  proof (cases "ch \<noteq> CHR 0x00 \<and> isSpecialSymbol ch")
    case False
    then show ?thesis
      using eq 1(4) by (auto split: if_splits)
  next
    case True
    then have ch: "ch \<noteq> CHR 0x00" "isSpecialSymbol ch"
      by auto
    show ?thesis
    proof (cases "string2token (buf @ [ch])")
      case None
      then show ?thesis
        using eq ch 1(1) [OF rd [symmetric] ch refl None] 1(4) by (auto simp: Let_def split: if_splits)
    next
      case (Some token)
      then show ?thesis
        using eq ch 1(2) [OF rd [symmetric] ch refl Some] string2token_not_eos [of "buf @ [ch]"] by (auto simp: Let_def)
    qed
  qed
qed

lemma Lex_eos: "Lex l = ((EndOfStringToken, lit), l') \<Longrightarrow> lit = []"
  by (auto simp: Lex_def scanSpecialSymbol_def scanIDOrKeyword_def string2token_not_eos
      split: prod.splits if_splits option.splits dest: special_loop_not_eos)

lemma scan_loop_shape:
  "\<exists>ts. scan_loop l items = items @ ts @ [\<lparr>item_tok = EndOfStringToken, item_literal = []\<rparr>] \<and>
     (\<forall>i \<in> set ts. item_tok i \<noteq> EndOfStringToken)"
proof (induction l items rule: scan_loop.induct)
  case (1 l items)
  obtain token lit l' where lx: "Lex l = ((token, lit), l')"
    by (metis surj_pair)
  show ?case
  proof (cases "token = EndOfStringToken")
    case True
    then have "lit = []"
      using lx Lex_eos by blast
    then show ?thesis
      using True lx by (simp add: scan_loop.simps [of l items])
  next
    case False
    then show ?thesis
      using 1 [OF lx [symmetric] refl refl False] lx by (auto simp: scan_loop.simps [of l items])
  qed
qed

lemma Parser_scan_ok: "prs_ok \<lparr>prs_scannedItems = Parser_scan s, prs_position = 0\<rparr>"
proof -
  obtain ts where "Parser_scan s = ts @ [\<lparr>item_tok = EndOfStringToken, item_literal = []\<rparr>]" "\<forall>i \<in> set ts. item_tok i \<noteq> EndOfStringToken"
    using scan_loop_shape [of "\<lparr>lex_s = s, lex_pos = 0\<rparr>" "[]"] by (auto simp: Parser_scan_def)
  then show ?thesis
    by (auto simp: prs_ok_def nth_append less_Suc_eq)
qed

section \<open>Lexing a sequence of lexemes\<close>

abbreviation mkl :: "string \<Rightarrow> string \<Rightarrow> Lexer" where
  "mkl pre rest \<equiv> \<lparr>lex_s = pre @ rest, lex_pos = length pre\<rparr>"

lemma read_mkl [simp]:
  "Lexer_read (mkl pre (c # rest)) = (c, mkl (pre @ [c]) rest)" "Lexer_read \<lparr>lex_s = pre, lex_pos = length pre\<rparr> = (CHR 0x00, \<lparr>lex_s = pre, lex_pos = length pre\<rparr>)"
  by (simp_all add: Lexer_read_def)

lemma unread_mkl: "Lexer_unread \<lparr>lex_s = pre @ c # rest, lex_pos = Suc (length pre)\<rparr> = mkl pre (c # rest)"
  by (simp add: Lexer_unread_def)

definition idchar :: "char \<Rightarrow> bool" where
  "idchar c \<longleftrightarrow> c \<noteq> CHR 0x00 \<and> \<not> isSpecialSymbol c \<and> \<not> isWhitespace c"

text \<open>What may follow a lexeme: the end of the input, or a byte that is not NUL and ends it.\<close>

definition ends :: "(char \<Rightarrow> bool) \<Rightarrow> string \<Rightarrow> bool" where
  "ends P rest \<longleftrightarrow> rest = [] \<or> hd rest \<noteq> CHR 0x00 \<and> P (hd rest)"

lemma id_loop_mkl:
  "list_all idchar xs \<Longrightarrow> ends (\<lambda>c. \<not> idchar c) rest \<Longrightarrow> id_loop (mkl pre (xs @ rest)) buf = (buf @ xs, mkl (pre @ xs) rest)"
proof (induction xs arbitrary: pre buf)
  case Nil
  then show ?case
    by (cases rest) (auto simp: id_loop.simps ends_def idchar_def unread_mkl)
next
  case (Cons x xs)
  then show ?case
    using Cons.IH [of "pre @ [x]" "buf @ [x]"] by (subst id_loop.simps) (simp add: idchar_def)
qed

lemma special_loop_stop:
  assumes "token \<noteq> ErrorToken" and "ends (\<lambda>c. isSpecialSymbol c \<longrightarrow> string2token (buf @ [c]) = None) rest"
  shows "\<exists>b. special_loop (mkl pre rest) buf (token, lit) = ((b, token, lit), mkl pre rest)"
  using assms by (cases rest) (auto simp: special_loop.simps ends_def unread_mkl Let_def)

lemma special_loop_token:
  assumes "isSpecialSymbol c" "string2token (buf @ [c]) = Some token"
  shows "special_loop (mkl pre (c # rest)) buf i = special_loop (mkl (pre @ [c]) rest) (buf @ [c]) (token, buf @ [c])"
proof -
  have "c \<noteq> CHR 0x00"
    using assms(1) by (auto simp: isSpecialSymbol_def)
  then show ?thesis
    using assms by (subst special_loop.simps) (simp add: Let_def)
qed

lemma Lex_at:
  assumes "c \<noteq> CHR 0x00" "\<not> isWhitespace c"
  shows "Lex (mkl pre (c # rest)) =
    (if isSpecialSymbol c then scanSpecialSymbol (mkl pre (c # rest)) else scanIDOrKeyword (mkl pre (c # rest)))"
  using assms by (simp add: Lex_def skipWhiteSpaces.simps [of _ c] unread_mkl)

lemma skip_mkl: "isWhitespace w \<Longrightarrow> skipWhiteSpaces l w = (case Lexer_read l of (ch, l') \<Rightarrow> skipWhiteSpaces l' ch)"
  by (subst skipWhiteSpaces.simps) simp

lemma Lex_space: "isWhitespace w \<Longrightarrow> Lex (mkl pre (w # rest)) = Lex (mkl (pre @ [w]) rest)"
  unfolding Lex_def by (simp add: skip_mkl split: prod.splits)

lemma Lex_nil: "Lex (mkl pre []) = ((EndOfStringToken, []), mkl pre [])"
  by (simp add: Lex_def skipWhiteSpaces.simps [of _ "CHR 0x00"] isWhitespace_def)

datatype lexeme = Blank | Ident string | Sym string

definition id_item :: "string \<Rightarrow> ScannedItem" where
  "id_item xs = \<lparr>item_tok = (case string2token xs of Some t \<Rightarrow> t | None \<Rightarrow> IdentifierToken), item_literal = xs\<rparr>"

definition sym_item :: "string \<Rightarrow> ScannedItem" where
  "sym_item s = \<lparr>item_tok = (case string2token s of Some t \<Rightarrow> t | None \<Rightarrow> ErrorToken), item_literal = s\<rparr>"

fun lexeme_text :: "lexeme \<Rightarrow> string" where
  "lexeme_text Blank = '' ''"
| "lexeme_text (Ident xs) = xs"
| "lexeme_text (Sym s) = s"

fun lexeme_items :: "lexeme \<Rightarrow> ScannedItem list" where
  "lexeme_items Blank = []"
| "lexeme_items (Ident xs) = [id_item xs]"
| "lexeme_items (Sym s) = [sym_item s]"

definition symbols :: "string set" where
  "symbols = {''='', ''=='', ''!'', ''!='', ''('', '')'', '','', ''>'', ''<''}"

fun lexeme_ok :: "lexeme \<Rightarrow> bool" where
  "lexeme_ok Blank = True"
| "lexeme_ok (Ident xs) = (xs \<noteq> [] \<and> list_all idchar xs)"
| "lexeme_ok (Sym s) = (s \<in> symbols)"

fun adjacent :: "lexeme \<Rightarrow> lexeme \<Rightarrow> bool" where
  "adjacent (Ident xs) (Ident ys) = False"
| "adjacent (Sym s) y = (string2token (s @ [hd (lexeme_text y)]) = None)"
| "adjacent x y = True"

lemma symbol_lex:
  assumes "s \<in> symbols" "ends (\<lambda>c. isSpecialSymbol c \<longrightarrow> string2token (s @ [c]) = None) rest"
  shows "Lex (mkl pre (s @ rest)) = ((item_tok (sym_item s), s), mkl (pre @ s) rest) \<and>
    item_tok (sym_item s) \<noteq> EndOfStringToken"
proof -
  have st: "string2token [c] \<noteq> None" if "isSpecialSymbol c" for c
    using that by (auto simp: isSpecialSymbol_def string2token_def)
  obtain c cs token where s: "s = c # cs" "isSpecialSymbol c" "string2token s = Some token" "token \<noteq> ErrorToken" "token \<noteq> EndOfStringToken"
      "cs = [] \<or> cs = ''='' \<and> isSpecialSymbol CHR ''=''"
    using assms(1) by (auto simp: symbols_def isSpecialSymbol_def string2token_def)
  then have c: "c \<noteq> CHR 0x00" "\<not> isWhitespace c"
    by (auto simp: isSpecialSymbol_def isWhitespace_def)
  obtain t1 where t1: "string2token [c] = Some t1"
    using st [OF s(2)] by auto
  have "\<exists>b. special_loop (mkl pre (s @ rest)) [] (ErrorToken, []) = ((b, token, s), mkl (pre @ s) rest)"
  proof (cases "cs = []")
    case True
    then show ?thesis
      using special_loop_token [of c "[]" t1 pre rest] t1 s special_loop_stop [OF s(4) assms(2), of "pre @ s" s] by simp
  next
    case False
    then have cs: "cs = ''=''" "isSpecialSymbol CHR ''=''"
      using s(6) by auto
    have "special_loop (mkl pre (s @ rest)) [] (ErrorToken, []) = special_loop (mkl (pre @ s) rest) s (token, s)"
      using special_loop_token [of c "[]" t1 pre "CHR ''='' # rest"] special_loop_token [of "CHR ''=''" "[c]" token "pre @ [c]" rest] t1 s cs
      by simp
    then show ?thesis
      using special_loop_stop [OF s(4) assms(2), of "pre @ s" s] by simp
  qed
  then show ?thesis
    using s c by (auto simp: Lex_at scanSpecialSymbol_def sym_item_def)
qed

lemma ident_lex:
  assumes "xs \<noteq> []" "list_all idchar xs" "ends (\<lambda>c. \<not> idchar c) rest"
  shows "Lex (mkl pre (xs @ rest)) = ((item_tok (id_item xs), xs), mkl (pre @ xs) rest) \<and>
    item_tok (id_item xs) \<noteq> EndOfStringToken"
proof -
  obtain c cs where xs: "xs = c # cs" "c \<noteq> CHR 0x00" "\<not> isWhitespace c" "\<not> isSpecialSymbol c"
    using assms(1,2) by (cases xs) (auto simp: idchar_def)
  have "Lex (mkl pre (xs @ rest)) = scanIDOrKeyword (mkl pre (xs @ rest))"
    using Lex_at [OF xs(2,3), of pre "cs @ rest"] xs by simp
  then show ?thesis
    using id_loop_mkl [OF assms(2,3), of pre "[]"] string2token_not_eos [of xs]
    by (auto simp: scanIDOrKeyword_def id_item_def split: option.splits)
qed

abbreviation eos_item :: ScannedItem where
  "eos_item \<equiv> \<lparr>item_tok = EndOfStringToken, item_literal = []\<rparr>"

lemma lexeme_hd: "lexeme_ok y \<Longrightarrow> lexeme_text y \<noteq> [] \<and> hd (lexeme_text y) \<noteq> CHR 0x00"
  by (cases y) (auto simp: symbols_def idchar_def list_all_iff)

lemma ends_Ident:
  assumes "list_all lexeme_ok ls" "ls = [] \<or> adjacent (Ident xs) (hd ls)"
  shows "ends (\<lambda>c. \<not> idchar c) (concat (map lexeme_text ls))"
proof (cases ls)
  case (Cons y ys)
  then have "adjacent (Ident xs) y" "lexeme_ok y"
    using assms by auto
  then show ?thesis
    using lexeme_hd [of y] Cons by (cases y) (auto simp: ends_def symbols_def idchar_def isWhitespace_def isSpecialSymbol_def)
qed (simp add: ends_def)

lemma ends_Sym:
  assumes "list_all lexeme_ok ls" "ls = [] \<or> adjacent (Sym s) (hd ls)"
  shows "ends (\<lambda>c. isSpecialSymbol c \<longrightarrow> string2token (s @ [c]) = None) (concat (map lexeme_text ls))"
proof (cases ls)
  case (Cons y ys)
  then show ?thesis
    using assms lexeme_hd [of y] by (auto simp: ends_def hd_append)
qed (simp add: ends_def)

lemma scan_loop_step:
  "Lex l = ((token, lit), l') \<Longrightarrow> token \<noteq> EndOfStringToken \<Longrightarrow>
   scan_loop l acc = scan_loop l' (acc @ [\<lparr>item_tok = token, item_literal = lit\<rparr>])"
  by (subst scan_loop.simps) (simp add: Let_def)

lemma scan_loop_end: "scan_loop \<lparr>lex_s = pre, lex_pos = length pre\<rparr> acc = acc @ [eos_item]"
  using Lex_nil [of pre] by (subst scan_loop.simps) simp

lemma scan_lexemes:
  "list_all lexeme_ok ls \<Longrightarrow> successively adjacent ls \<Longrightarrow>
   scan_loop (mkl pre (concat (map lexeme_text ls))) acc = acc @ concat (map lexeme_items ls) @ [eos_item]"
proof (induction ls arbitrary: pre acc)
  case Nil
  then show ?case
    by (simp add: scan_loop_end)
next
  case (Cons x ls)
  let ?rest = "concat (map lexeme_text ls)"
  have ls: "list_all lexeme_ok ls" "successively adjacent ls" "ls = [] \<or> adjacent x (hd ls)" "lexeme_ok x"
    using Cons.prems by (auto simp: successively_Cons)
  show ?case
  proof (cases x)
    case Blank
    have "Lex (mkl pre (CHR '' '' # ?rest)) = Lex (mkl (pre @ '' '') ?rest)"
      by (rule Lex_space) (simp add: isWhitespace_def)
    then have "scan_loop (mkl pre (CHR '' '' # ?rest)) acc = scan_loop (mkl (pre @ '' '') ?rest) acc"
      by (subst (1 2) scan_loop.simps) simp
    then show ?thesis
      using Cons.IH [OF ls(1,2), of "pre @ '' ''" acc] Blank by simp
  next
    case (Ident xs)
    then show ?thesis
      using ident_lex [of xs ?rest pre] ends_Ident [OF ls(1), of xs] ls Cons.IH [OF ls(1,2), of "pre @ xs" "acc @ [id_item xs]"]
      by (simp add: scan_loop_step id_item_def)
  next
    case (Sym s)
    then show ?thesis
      using symbol_lex [of s ?rest pre] ends_Sym [OF ls(1), of s] ls Cons.IH [OF ls(1,2), of "pre @ s" "acc @ [sym_item s]"]
      by (simp add: scan_loop_step sym_item_def)
  qed
qed

section \<open>The lexemes of a printed selector\<close>

fun joinw :: "'a \<Rightarrow> 'a list list \<Rightarrow> 'a list" where
  "joinw sep [] = []"
| "joinw sep [x] = x"
| "joinw sep (x # y # xs) = x @ sep # joinw sep (y # xs)"

lemma go_join_joinw: "go_join xs [c] = joinw c xs"
  by (induction xs rule: joinw.induct) auto

lemma concat_map_joinw:
  "concat (map f (joinw sep xss)) = joinw sep' (map (\<lambda>xs. concat (map f xs)) xss)" if "f sep = [sep']"
  using that by (induction sep xss rule: joinw.induct) auto

definition val_lexemes :: "string \<Rightarrow> lexeme list" where
  "val_lexemes v = (if v = [] then [] else [Ident v])"

abbreviation comma_join :: "lexeme list list \<Rightarrow> lexeme list" where
  "comma_join \<equiv> joinw (Sym '','')"

abbreviation set_op :: "LabelOperator \<Rightarrow> bool" where
  "set_op op \<equiv> op = op_In \<or> op = op_NotIn"

definition req_lexemes :: "Requirement \<Rightarrow> lexeme list" where
  "req_lexemes r =
     (let op = req_operator r; vs = safeSort (req_strValues r) in
      if op = op_Exists then [Ident (req_key r)]
      else if op = op_DoesNotExist then [Sym ''!'', Ident (req_key r)]
      else if set_op op
      then [Ident (req_key r), Blank, Ident op, Blank, Sym ''(''] @ comma_join (map val_lexemes vs) @ [Sym '')'']
      else [Ident (req_key r), Sym (operator_literal op)] @ val_lexemes (hd vs))"

lemma val_lexemes_text [simp]: "concat (map lexeme_text (val_lexemes v)) = v"
  by (simp add: val_lexemes_def)

lemma comma_join_text: "concat (map lexeme_text (comma_join xss)) = go_join (map (\<lambda>xs. concat (map lexeme_text xs)) xss) '',''"
  by (simp add: go_join_joinw concat_map_joinw [where sep' = "CHR '',''"])

definition req_valid :: "Requirement \<Rightarrow> bool" where
  "req_valid r \<longleftrightarrow> NewRequirement (req_key r) (req_operator r) (req_strValues r) = Inr r"

lemma safeSort_eq [simp]: "safeSort xs = sort xs"
  by (simp add: safeSort_def sorted_sort_id)

lemma req_valid_cases:
  assumes "req_valid r"
  obtains (exists) "req_operator r = op_Exists \<or> req_operator r = op_DoesNotExist" "req_strValues r = []"
  | (set) "set_op (req_operator r)" "req_strValues r \<noteq> []"
  | (exact) v where "req_operator r \<in> {op_Equals, op_DoubleEquals, op_NotEquals, op_GreaterThan, op_LessThan}" "req_strValues r = [v]"
proof -
  have c: "check_operator_values (req_operator r) (req_strValues r) = None"
    using assms by (auto simp: req_valid_def NewRequirement_def split: option.splits)
  consider "req_operator r \<in> {op_Exists, op_DoesNotExist}" | "set_op (req_operator r)"
    | "req_operator r \<in> {op_Equals, op_DoubleEquals, op_NotEquals, op_GreaterThan, op_LessThan}"
    using c unfolding check_operator_values_def by (auto split: if_splits)
  then show thesis
  proof cases
    case 1
    then show ?thesis
      using c exists by (auto simp: check_operator_values_def split: if_splits)
  next
    case 2
    then show ?thesis
      using c set by (auto simp: check_operator_values_def split: if_splits)
  next
    case 3
    then have "length (req_strValues r) = 1"
      using c by (auto simp: check_operator_values_def split: if_splits)
    then show ?thesis
      using 3 exact by (cases "req_strValues r") auto
  qed
qed

lemma req_text:
  assumes "req_valid r"
  shows "concat (map lexeme_text (req_lexemes r)) = Requirement_String r"
  using assms
proof (cases rule: req_valid_cases)
  case exists
  then show ?thesis
    by (auto simp: req_lexemes_def Requirement_String_def operator_literal_def)
next
  case set
  have "(case req_strValues r of [v] \<Rightarrow> v | _ \<Rightarrow> go_join (safeSort (req_strValues r)) '','') = go_join (sort (req_strValues r)) '',''"
    by (auto split: list.splits)
  then show ?thesis
    using set(1) by (auto simp: req_lexemes_def Requirement_String_def operator_literal_def Let_def comma_join_text comp_def)
next
  case (exact v)
  then show ?thesis
    by (auto simp: req_lexemes_def Requirement_String_def operator_literal_def Let_def)
qed

text \<open>Keys and values the lexer reads as one identifier; no value occurs twice.\<close>

definition req_plain :: "Requirement \<Rightarrow> bool" where
  "req_plain r \<longleftrightarrow> req_valid r \<and> list_all idchar (req_key r) \<and> (\<forall>v \<in> set (req_strValues r). list_all idchar v) \<and>
     distinct (req_strValues r)"

lemma req_key_nonempty: "req_valid r \<Longrightarrow> req_key r \<noteq> []"
  by (auto simp: req_valid_def NewRequirement_def validateLabelKey_def split: option.splits)

lemma op_idchar: "list_all idchar ''in''" "list_all idchar ''notin''"
  by (simp_all add: idchar_def isSpecialSymbol_def isWhitespace_def)

lemma list_all_joinw: "P sep \<Longrightarrow> list_all (list_all P) xss \<Longrightarrow> list_all P (joinw sep xss)"
  by (induction sep xss rule: joinw.induct) auto

lemma val_lexemes_ok: "list_all idchar v \<Longrightarrow> list_all lexeme_ok (val_lexemes v)"
  by (simp add: val_lexemes_def)

lemma req_lexemes_ok:
  assumes "req_plain r"
  shows "list_all lexeme_ok (req_lexemes r)"
proof -
  have r: "req_valid r" "list_all idchar (req_key r)" "\<forall>v \<in> set (req_strValues r). list_all idchar v" "req_key r \<noteq> []"
    using assms req_key_nonempty by (auto simp: req_plain_def)
  have vs: "list_all lexeme_ok (comma_join (map val_lexemes (sort (req_strValues r))))"
    using r(3) val_lexemes_ok by (intro list_all_joinw) (auto simp: symbols_def list_all_iff)
  show ?thesis
    using r(1)
  proof (cases rule: req_valid_cases)
    case exists
    then show ?thesis
      using r by (auto simp: req_lexemes_def symbols_def)
  next
    case set
    then show ?thesis
      using r vs op_idchar by (auto simp: req_lexemes_def symbols_def Let_def)
  next
    case (exact v)
    then show ?thesis
      using r val_lexemes_ok [of v] by (auto simp: req_lexemes_def symbols_def Let_def operator_literal_def)
  qed
qed

lemma comma_adjacent [simp]: "adjacent (Sym '','') y" "lexeme_ok x \<Longrightarrow> adjacent x (Sym '','')"
  by (simp add: string2token_def) (cases x; auto simp: string2token_def symbols_def)

lemma successively_comma_join:
  "list_all (list_all lexeme_ok) xss \<Longrightarrow> list_all (successively adjacent) xss \<Longrightarrow> successively adjacent (comma_join xss)"
proof (induction "Sym '',''" xss rule: joinw.induct)
  case (3 x y xs)
  then have "successively adjacent x" "successively adjacent (comma_join (y # xs))"
    by auto
  moreover have "x \<noteq> [] \<Longrightarrow> lexeme_ok (last x)"
    using 3(2) by (simp add: list_all_iff)
  ultimately show ?case
    by (cases "x = []") (auto simp: successively_append_iff successively_Cons simp del: adjacent.simps(2))
qed auto

lemma val_lexemes_adjacent: "successively adjacent (val_lexemes v)"
  by (simp add: val_lexemes_def)

lemma paren_adjacent [simp]: "adjacent (Sym ''('') y" "lexeme_ok x \<Longrightarrow> adjacent x (Sym '')'')"
  by (simp add: string2token_def) (cases x; auto simp: string2token_def symbols_def)

lemma op_sym_adjacent:
  "s \<in> {''='', ''=='', ''!='', ''>'', ''<'', ''!''} \<Longrightarrow> list_all idchar v \<Longrightarrow> v \<noteq> [] \<Longrightarrow> adjacent (Sym s) (Ident v)"
  by (cases v) (auto simp: string2token_def idchar_def isSpecialSymbol_def)

lemma req_lexemes_adjacent:
  assumes "req_plain r"
  shows "successively adjacent (req_lexemes r)"
proof -
  have r: "req_valid r" "list_all idchar (req_key r)" "\<forall>v \<in> set (req_strValues r). list_all idchar v" "req_key r \<noteq> []"
    using assms req_key_nonempty by (auto simp: req_plain_def)
  have vs: "successively adjacent (comma_join (map val_lexemes (sort (req_strValues r))))"
    using val_lexemes_adjacent val_lexemes_ok r(3) by (intro successively_comma_join) (auto simp: list_all_iff)
  have ok: "list_all lexeme_ok (comma_join (map val_lexemes (sort (req_strValues r))))"
    using r(3) val_lexemes_ok by (intro list_all_joinw) (auto simp: symbols_def list_all_iff)
  then have last_ok: "xs \<noteq> [] \<Longrightarrow> xs = comma_join (map val_lexemes (sort (req_strValues r))) \<Longrightarrow> lexeme_ok (last xs)" for xs
    by (simp add: list_all_iff)
  show ?thesis
    using r(1)
  proof (cases rule: req_valid_cases)
    case exists
    then show ?thesis
      using op_sym_adjacent [of "''!''" "req_key r"] r(2,4) by (elim disjE) (simp_all add: req_lexemes_def del: adjacent.simps(2))
  next
    case set
    then show ?thesis
      using vs last_ok [OF _ refl]
      by (elim disjE; cases "comma_join (map val_lexemes (sort (req_strValues r))) = []")
        (simp_all add: req_lexemes_def Let_def successively_append_iff successively_Cons del: adjacent.simps(2))
  next
    case (exact v)
    then have "list_all idchar v"
      using r(3) by simp
    then show ?thesis
      using exact(2) op_sym_adjacent [of "operator_literal (req_operator r)" v] exact(1)
      by (cases "v = []"; elim insertE emptyE)
        (simp_all add: req_lexemes_def Let_def operator_literal_def val_lexemes_def del: adjacent.simps(2))
  qed
qed

lemma req_items_scan:
  assumes "\<forall>r \<in> set rs. req_plain r"
  shows "Parser_scan (go_join (map Requirement_String rs) '','') =
    joinw (sym_item '','') (map (\<lambda>r. concat (map lexeme_items (req_lexemes r))) rs) @ [eos_item]"
proof -
  let ?ls = "comma_join (map req_lexemes rs)"
  have "concat (map lexeme_text ?ls) = go_join (map Requirement_String rs) '',''"
    unfolding comma_join_text using assms req_text by (auto simp: req_plain_def comp_def intro!: arg_cong2 [of _ _ _ _ go_join] map_cong)
  moreover have "list_all lexeme_ok ?ls"
    using assms req_lexemes_ok by (intro list_all_joinw) (auto simp: symbols_def list_all_iff)
  moreover have "successively adjacent ?ls"
    using assms req_lexemes_adjacent req_lexemes_ok by (intro successively_comma_join) (auto simp: list_all_iff)
  moreover have "concat (map lexeme_items ?ls) = joinw (sym_item '','') (map (\<lambda>r. concat (map lexeme_items (req_lexemes r))) rs)"
    by (simp add: concat_map_joinw [where sep' = "sym_item '',''"] comp_def)
  ultimately show ?thesis
    using scan_lexemes [of ?ls "[]" "[]"] by (simp add: Parser_scan_def)
qed

section \<open>Parsing the items of a printed selector\<close>

abbreviation mkp :: "ScannedItem list \<Rightarrow> ScannedItem list \<Rightarrow> Parser" where
  "mkp pre rest \<equiv> \<lparr>prs_scannedItems = pre @ rest, prs_position = length pre\<rparr>"

lemma mkp_simps [simp]:
  "lookahead ctx (mkp pre (i # rest)) = Some (context_token ctx (item_tok i), item_literal i)"
  "consume ctx (mkp pre (i # rest)) = Some ((context_token ctx (item_tok i), item_literal i), mkp (pre @ [i]) rest)"
  by (simp_all add: lookahead_def consume_def go_index_def)

lemma mkp_next [simp]:
  "lookahead ctx \<lparr>prs_scannedItems = pre @ i # j # rest, prs_position = Suc (length pre)\<rparr> = Some (context_token ctx (item_tok j), item_literal j)"
  "consume ctx \<lparr>prs_scannedItems = pre @ i # j # rest, prs_position = Suc (length pre)\<rparr> =
     Some ((context_token ctx (item_tok j), item_literal j), mkp (pre @ [i, j]) rest)"
  using mkp_simps [of ctx "pre @ [i]" j rest] by simp_all

lemma string2token_cases:
  "string2token xs = Some t \<Longrightarrow> xs \<in> symbols \<or> t = InToken \<or> t = NotInToken"
  by (simp add: string2token_def symbols_def split: if_splits)

lemma symbols_not_id: "xs \<in> symbols \<Longrightarrow> \<not> list_all idchar xs"
  by (auto simp: symbols_def idchar_def isSpecialSymbol_def)

lemma id_item_values [simp]:
  "list_all idchar xs \<Longrightarrow> context_token Values (item_tok (id_item xs)) = IdentifierToken" "item_literal (id_item xs) = xs"
  using string2token_cases [of xs] symbols_not_id [of xs] by (auto simp: id_item_def split: option.splits)

lemma sym_item_simps [simp]:
  "item_tok (sym_item '','') = CommaToken" "item_tok (sym_item ''('') = OpenParToken" "item_tok (sym_item '')'') = ClosedParToken"
  "item_tok (sym_item ''!'') = DoesNotExistToken" "item_tok (sym_item ''='') = EqualsToken" "item_tok (sym_item ''=='') = DoubleEqualsToken"
  "item_tok (sym_item ''!='') = NotEqualsToken" "item_tok (sym_item ''>'') = GreaterThanToken" "item_tok (sym_item ''<'') = LessThanToken"
  by (simp_all add: sym_item_def string2token_def)

lemma in_item_simps [simp]: "item_tok (id_item ''in'') = InToken" "item_tok (id_item ''notin'') = NotInToken"
  by (simp_all add: id_item_def string2token_def)

abbreviation val_items :: "string \<Rightarrow> ScannedItem list" where
  "val_items v \<equiv> (if v = [] then [] else [id_item v])"

abbreviation vals_items :: "string list \<Rightarrow> ScannedItem list" where
  "vals_items vs \<equiv> joinw (sym_item '','') (map val_items vs)"

lemma parse_identifier_step:
  "list_all idchar v \<Longrightarrow> parseIdentifiersList (mkp pre (id_item v # sym_item '','' # rest)) s =
     parseIdentifiersList (mkp (pre @ [id_item v]) (sym_item '','' # rest)) (insert v s)"
  by (subst parseIdentifiersList.simps) (simp add: Let_def)

lemma parse_identifier_last:
  "list_all idchar v \<Longrightarrow> parseIdentifiersList (mkp pre (id_item v # sym_item '')'' # rest)) s =
     Some (Inr (insert v s), mkp (pre @ [id_item v]) (sym_item '')'' # rest))"
  by (subst parseIdentifiersList.simps) (simp add: Let_def)

lemma parse_comma_step:
  "list_all idchar v \<Longrightarrow> parseIdentifiersList (mkp pre (sym_item '','' # id_item v # rest)) s =
     parseIdentifiersList (mkp (pre @ [sym_item '','']) (id_item v # rest)) (if s = {} \<or> infinite s then insert [] s else s)"
  by (subst parseIdentifiersList.simps) (simp add: Let_def sets_Len_def card_eq_0_iff)

lemma parseIdentifiersList_items:
  assumes "vs \<noteq> []" "\<forall>v \<in> set vs. v \<noteq> [] \<and> list_all idchar v" "finite s"
  shows "parseIdentifiersList (mkp pre (vals_items vs @ sym_item '')'' # rest)) s =
    Some (Inr (s \<union> set vs), mkp (pre @ vals_items vs) (sym_item '')'' # rest))"
  using assms
proof (induction vs arbitrary: s pre rule: induct_list012)
  case (2 v)
  then show ?case
    using parse_identifier_last [of v pre rest s] by simp
next
  case (3 v w vs)
  let ?rest = "vals_items (w # vs) @ sym_item '')'' # rest"
  obtain tail where tail: "vals_items (w # vs) = id_item w # tail"
    using 3(4) by (cases vs) auto
  have ok: "list_all idchar v" "list_all idchar w" "v \<noteq> []"
    using 3(4) by auto
  have "parseIdentifiersList (mkp pre (id_item v # sym_item '','' # ?rest)) s =
      parseIdentifiersList (mkp (pre @ [id_item v]) (sym_item '','' # ?rest)) (insert v s)"
    by (rule parse_identifier_step [OF ok(1)])
  also have "\<dots> = parseIdentifiersList (mkp ((pre @ [id_item v]) @ [sym_item '','']) ?rest) (insert v s)"
    using parse_comma_step [OF ok(2), of "pre @ [id_item v]" "tail @ sym_item '')'' # rest" "insert v s"] 3(5) unfolding tail by simp
  also have "\<dots> = Some (Inr (insert v s \<union> set (w # vs)), mkp (((pre @ [id_item v]) @ [sym_item '','']) @ vals_items (w # vs)) (sym_item '')'' # rest))"
    using 3(4,5) by (intro 3(2)) auto
  finally show ?case
    using ok(3) by (simp add: insert_commute)
qed simp

lemma parseValues_items:
  assumes "vs \<noteq> []" "sorted vs" "distinct vs" "\<forall>v \<in> set vs. list_all idchar v"
  shows "parseValues (mkp pre (sym_item ''('' # vals_items vs @ sym_item '')'' # rest)) =
    Some (Inr (set vs), mkp (pre @ sym_item ''('' # vals_items vs @ [sym_item '')'']) rest)"
proof -
  let ?pre = "pre @ [sym_item ''('']"
  have close: "consume Values (mkp p (sym_item '')'' # rest)) = Some ((ClosedParToken, item_literal (sym_item '')'')), mkp (p @ [sym_item '')'']) rest)" for p
    by simp
  have some: ?thesis
    if ids: "parseIdentifiersList (mkp ?pre (vals_items vs @ sym_item '')'' # rest)) {} =
        Some (Inr (set vs), mkp (?pre @ vals_items vs) (sym_item '')'' # rest))"
      and la: "lookahead Values (mkp ?pre (vals_items vs @ sym_item '')'' # rest)) = Some (t, l)" "t = IdentifierToken \<or> t = CommaToken" for t l
    using ids la close [of "?pre @ vals_items vs"] by (auto simp: parseValues_def)
  consider (empty) "vs = [[]]" | (first) w ws where "vs = [] # w # ws" | (all) v ws where "vs = v # ws" "v \<noteq> []"
    using assms(1) by (cases vs; cases "hd vs"; cases "tl vs") auto
  then show ?thesis
  proof cases
    case empty
    then show ?thesis
      by (simp add: parseValues_def)
  next
    case first
    have ne: "\<forall>v \<in> set (w # ws). v \<noteq> [] \<and> list_all idchar v"
      using assms(3,4) first by auto
    obtain tail where tail: "vals_items (w # ws) = id_item w # tail"
      using ne by (cases ws) auto
    show ?thesis
    proof (rule some)
      have "parseIdentifiersList (mkp ?pre (sym_item '','' # vals_items (w # ws) @ sym_item '')'' # rest)) {} =
          parseIdentifiersList (mkp (?pre @ [sym_item '','']) (vals_items (w # ws) @ sym_item '')'' # rest)) {[]}"
        using parse_comma_step [of w ?pre "tail @ sym_item '')'' # rest" "{}"] ne unfolding tail by simp
      also have "\<dots> = Some (Inr ({[]} \<union> set (w # ws)), mkp ((?pre @ [sym_item '','']) @ vals_items (w # ws)) (sym_item '')'' # rest))"
        using ne by (intro parseIdentifiersList_items) auto
      finally show "parseIdentifiersList (mkp ?pre (vals_items vs @ sym_item '')'' # rest)) {} =
          Some (Inr (set vs), mkp (?pre @ vals_items vs) (sym_item '')'' # rest))"
        using first by (simp add: insert_commute)
      show "lookahead Values (mkp ?pre (vals_items vs @ sym_item '')'' # rest)) = Some (CommaToken, item_literal (sym_item '',''))"
        using first by simp
    qed simp
  next
    case all
    then have ne: "\<forall>v \<in> set vs. v \<noteq> [] \<and> list_all idchar v"
      using assms(2,4) by auto
    obtain tail where tail: "vals_items vs = id_item v # tail"
      using all by (cases ws) auto
    show ?thesis
    proof (rule some)
      show "parseIdentifiersList (mkp ?pre (vals_items vs @ sym_item '')'' # rest)) {} =
          Some (Inr (set vs), mkp (?pre @ vals_items vs) (sym_item '')'' # rest))"
        using parseIdentifiersList_items [OF assms(1) ne finite.emptyI, of ?pre rest] by simp
      show "lookahead Values (mkp ?pre (vals_items vs @ sym_item '')'' # rest)) = Some (IdentifierToken, v)"
        using all assms(4) unfolding tail by simp
    qed simp
  qed
qed

lemma parseExactValue_items:
  assumes "list_all idchar v" "item_tok j = EndOfStringToken \<or> item_tok j = CommaToken"
  shows "parseExactValue (mkp pre (val_items v @ j # rest)) = Some (Inr {v}, mkp (pre @ val_items v) (j # rest))"
  using assms by (auto simp: parseExactValue_def)

lemma parseKey_items:
  assumes "list_all idchar k" "k \<noteq> []"
  shows "parseKeyAndInferOperator (mkp pre (id_item k # j # rest)) =
      Some (Inr (k, if item_tok j = EndOfStringToken \<or> item_tok j = CommaToken then op_Exists else []), mkp (pre @ [id_item k]) (j # rest))"
    "parseKeyAndInferOperator (mkp pre (sym_item ''!'' # id_item k # j # rest)) =
      Some (Inr (k, op_DoesNotExist), mkp (pre @ [sym_item ''!'', id_item k]) (j # rest))"
proof -
  have c: "context_token Values t = CommaToken \<longleftrightarrow> t = CommaToken" for t
    by (cases t) auto
  show "parseKeyAndInferOperator (mkp pre (id_item k # j # rest)) =
      Some (Inr (k, if item_tok j = EndOfStringToken \<or> item_tok j = CommaToken then op_Exists else []), mkp (pre @ [id_item k]) (j # rest))"
    using assms by (simp add: parseKeyAndInferOperator_def validateLabelKey_def c)
  have "consume Values (mkp (pre @ [sym_item ''!'']) (id_item k # j # rest)) = Some ((IdentifierToken, k), mkp (pre @ [sym_item ''!'', id_item k]) (j # rest))"
    "lookahead Values (mkp (pre @ [sym_item ''!'', id_item k]) (j # rest)) = Some (context_token Values (item_tok j), item_literal j)"
    using assms mkp_simps [of Values "pre @ [sym_item ''!'']" "id_item k" "j # rest"] mkp_simps [of Values "pre @ [sym_item ''!'', id_item k]" j rest]
    by simp_all
  then show "parseKeyAndInferOperator (mkp pre (sym_item ''!'' # id_item k # j # rest)) =
      Some (Inr (k, op_DoesNotExist), mkp (pre @ [sym_item ''!'', id_item k]) (j # rest))"
    using assms by (simp add: parseKeyAndInferOperator_def validateLabelKey_def c)
qed

definition sort_values :: "Requirement \<Rightarrow> Requirement" where
  "sort_values r = r\<lparr>req_strValues := sort (req_strValues r)\<rparr>"

lemma validate_values_iff: "validate_values key vs = None \<longleftrightarrow> (\<forall>v \<in> set vs. validateLabelValue key v = None)"
  by (induction vs) (auto split: option.splits)

lemma NewRequirement_sort:
  assumes "req_valid r"
  shows "NewRequirement (req_key r) (req_operator r) (sort (req_strValues r)) = Inr (sort_values r)"
proof -
  have "validateLabelKey (req_key r) = None" "check_operator_values (req_operator r) (req_strValues r) = None"
    "validate_values (req_key r) (req_strValues r) = None"
    using assms by (auto simp: req_valid_def NewRequirement_def split: option.splits)
  moreover have "check_operator_values (req_operator r) (sort (req_strValues r)) = check_operator_values (req_operator r) (req_strValues r)"
    by (simp add: check_operator_values_def)
  moreover have "validate_values (req_key r) (sort (req_strValues r)) = None"
    using calculation(3) unfolding validate_values_iff by simp
  ultimately show ?thesis
    by (simp add: NewRequirement_def sort_values_def)
qed

abbreviation req_items :: "Requirement \<Rightarrow> ScannedItem list" where
  "req_items r \<equiv> concat (map lexeme_items (req_lexemes r))"

lemma val_lexemes_items: "concat (map lexeme_items (val_lexemes v)) = val_items v"
  by (simp add: val_lexemes_def)

lemma req_items_set:
  assumes "set_op (req_operator r)"
  shows "req_items r = [id_item (req_key r), id_item (req_operator r)] @ sym_item ''('' # vals_items (sort (req_strValues r)) @ [sym_item '')'']"
proof -
  have "concat (map lexeme_items (comma_join (map val_lexemes vs))) = vals_items vs" for vs
    by (simp add: concat_map_joinw [where sep' = "sym_item '',''"] comp_def val_lexemes_items)
  then show ?thesis
    using assms by (elim disjE) (simp_all add: req_lexemes_def Let_def)
qed

lemma parseOperator_item:
  "token_operator (item_tok j) = Some op \<Longrightarrow> parseOperator (mkp pre (j # rest)) = Some (Inr op, mkp (pre @ [j]) rest)"
  by (auto simp: parseOperator_def)

lemma parseRequirement_items:
  assumes r: "req_plain r" and j: "item_tok j = EndOfStringToken \<or> item_tok j = CommaToken"
  shows "parseRequirement (mkp pre (req_items r @ j # rest)) = Some (Inr (sort_values r), mkp (pre @ req_items r) (j # rest))"
proof -
  let ?k = "req_key r" and ?op = "req_operator r"
  have r': "req_valid r" "list_all idchar ?k" "?k \<noteq> []" "\<forall>v \<in> set (req_strValues r). list_all idchar v" "distinct (req_strValues r)"
    using r req_key_nonempty by (auto simp: req_plain_def)
  note new = NewRequirement_sort [OF r'(1)]
  show ?thesis
    using r'(1)
  proof (cases rule: req_valid_cases)
    case exists
    then show ?thesis
      using parseKey_items [OF r'(2,3), of pre j rest] j new
      by (elim disjE) (simp_all add: parseRequirement_def req_lexemes_def)
  next
    case set
    let ?vs = "sort (req_strValues r)"
    let ?i = "id_item ?op"
    have op: "token_operator (item_tok ?i) = Some ?op" "item_tok ?i \<noteq> EndOfStringToken" "item_tok ?i \<noteq> CommaToken"
      using set(1) by auto
    have vs: "parseValues (mkp (pre @ [id_item ?k, ?i]) (sym_item ''('' # vals_items ?vs @ sym_item '')'' # j # rest)) =
        Some (Inr (set ?vs), mkp ((pre @ [id_item ?k, ?i]) @ sym_item ''('' # vals_items ?vs @ [sym_item '')'']) (j # rest))"
      using set(2) r'(4,5) by (intro parseValues_items) auto
    have "sorted_list_of_set (set ?vs) = ?vs"
      using r'(5) by (simp add: sorted_list_of_set_sort_remdups distinct_remdups_id)
    then show ?thesis
      using parseKey_items(1) [OF r'(2,3), of pre ?i] op parseOperator_item [OF op(1), of "pre @ [id_item ?k]"] vs set(1) new
      unfolding req_items_set [OF set(1)] by (auto simp: parseRequirement_def)
  next
    case (exact v)
    let ?i = "sym_item (operator_literal ?op)"
    have op: "token_operator (item_tok ?i) = Some ?op" "item_tok ?i \<noteq> EndOfStringToken" "item_tok ?i \<noteq> CommaToken" "\<not> set_op ?op"
        "req_items r = id_item ?k # ?i # val_items v"
      using exact by (auto simp: operator_literal_def req_lexemes_def Let_def val_lexemes_items)
    have "list_all idchar v"
      using r'(4) exact by simp
    then have "parseExactValue (mkp (pre @ [id_item ?k, ?i]) (val_items v @ j # rest)) =
        Some (Inr {v}, mkp ((pre @ [id_item ?k, ?i]) @ val_items v) (j # rest))"
      using j by (rule parseExactValue_items)
    then show ?thesis
      using parseKey_items(1) [OF r'(2,3), of pre ?i] op parseOperator_item [OF op(1), of "pre @ [id_item ?k]"] new exact(2)
      unfolding op(5) by (auto simp: parseRequirement_def)
  qed
qed

lemma req_items_first:
  assumes "req_plain r"
  obtains i its where "req_items r = i # its"
    "context_token Values (item_tok i) = IdentifierToken \<or> context_token Values (item_tok i) = DoesNotExistToken"
proof -
  have "req_valid r" "list_all idchar (req_key r)"
    using assms by (auto simp: req_plain_def)
  then show thesis
    using that by (cases rule: req_valid_cases) (auto simp: req_lexemes_def Let_def)
qed

lemma parse_loop_items:
  assumes "rs \<noteq> []" "\<forall>r \<in> set rs. req_plain r"
  shows "parse_loop (mkp pre (joinw (sym_item '','') (map req_items rs) @ [eos_item])) acc = Some (Inr (acc @ map sort_values rs))"
  using assms
proof (induction rs arbitrary: pre acc rule: induct_list012)
  case (2 r)
  then have r: "req_plain r"
    by simp
  obtain i its where i: "req_items r = i # its" "context_token Values (item_tok i) = IdentifierToken \<or> context_token Values (item_tok i) = DoesNotExistToken"
    using req_items_first [OF r] .
  have la: "lookahead Values (mkp pre (req_items r @ [eos_item])) = Some (context_token Values (item_tok i), item_literal i)"
    unfolding i(1) by simp
  have p: "parseRequirement (mkp pre (req_items r @ [eos_item])) = Some (Inr (sort_values r), mkp (pre @ req_items r) [eos_item])"
    using parseRequirement_items [OF r, of eos_item pre "[]"] by simp
  have "consume Values (mkp (pre @ req_items r) [eos_item]) = Some ((EndOfStringToken, []), mkp ((pre @ req_items r) @ [eos_item]) [])"
    using mkp_simps(2) [of Values "pre @ req_items r" eos_item "[]"] by simp
  then show ?case
    using la p i(2) by (subst parse_loop.simps) auto
next
  case (3 r q rs)
  then have r: "req_plain r" and q: "req_plain q"
    by simp_all
  let ?rest = "joinw (sym_item '','') (map req_items (q # rs)) @ [eos_item]"
  obtain i its where i: "req_items r = i # its" "context_token Values (item_tok i) = IdentifierToken \<or> context_token Values (item_tok i) = DoesNotExistToken"
    using req_items_first [OF r] .
  obtain k ks where k: "req_items q = k # ks" "context_token Values (item_tok k) = IdentifierToken \<or> context_token Values (item_tok k) = DoesNotExistToken"
    using req_items_first [OF q] .
  obtain ts where ts: "?rest = k # ts"
    using k(1) by (cases rs) auto
  let ?p = "mkp ((pre @ req_items r) @ [sym_item '','']) ?rest"
  have la: "lookahead Values (mkp pre (req_items r @ sym_item '','' # ?rest)) = Some (context_token Values (item_tok i), item_literal i)"
    unfolding i(1) by simp
  have p: "parseRequirement (mkp pre (req_items r @ sym_item '','' # ?rest)) = Some (Inr (sort_values r), mkp (pre @ req_items r) (sym_item '','' # ?rest))"
    by (rule parseRequirement_items [OF r]) simp
  have c: "consume Values (mkp (pre @ req_items r) (sym_item '','' # ?rest)) = Some ((CommaToken, item_literal (sym_item '','')), ?p)"
    using mkp_simps(2) [of Values "pre @ req_items r" "sym_item '',''" ?rest] by simp
  have l2: "lookahead Values ?p = Some (context_token Values (item_tok k), item_literal k)"
    unfolding ts by (rule mkp_simps(1))
  have "parse_loop (mkp pre (req_items r @ sym_item '','' # ?rest)) acc = parse_loop ?p (acc @ [sort_values r])"
    using la p c l2 i(2) k(2) by (subst parse_loop.simps) auto
  then show ?case
    using 3(2) [of "(pre @ req_items r) @ [sym_item '','']" "acc @ [sort_values r]"] 3(4) by simp
qed simp

lemma Parser_parse_printed:
  assumes "rs \<noteq> []" "\<forall>r \<in> set rs. req_plain r"
  shows "Parser_parse (Selector_String (internalSelector (Some rs))) = Some (Inr (map sort_values rs))"
  using parse_loop_items [OF assms, of "[]" "[]"] req_items_scan [OF assms(2)] by (simp add: Parser_parse_def)

lemma sort_values_matches:
  assumes "req_valid r"
  shows "Requirement_Matches (sort_values r) l = Requirement_Matches r l"
  using assms
proof (cases rule: req_valid_cases)
  case set
  then show ?thesis
    by (elim disjE) (simp_all add: Requirement_Matches_def sort_values_def hasValue_def list_ex_iff)
qed (cases r, auto simp: sort_values_def)+

section \<open>Properties\<close>

text \<open>
  C27: parsing is total: on every string, whatever order the sort leaves equal keys in, \<open>Parse\<close> and
  \<open>ParseToRequirements\<close> return a selector or an error and do not read past the tokens.
\<close>

theorem Parse_total: "no_panic (Parse srt s) \<and> no_panic (ParseToRequirements srt s)"
proof -
  have "no_panic (Parser_parse s)"
    unfolding Parser_parse_def by (rule parse_loop_safe) (rule Parser_scan_ok)
  then show ?thesis
    by (cases "Parser_parse s") (auto simp: Parse_def ParseToRequirements_def parse_def split: sum.splits option.splits)
qed



text \<open>
  The text of an empty label set, and of the selector that matches everything, is the empty string,
  which \<open>Parse\<close> rejects.
\<close>

theorem Parse_rejects_empty:
  "Parse srt (Set_String [] Map.empty) = Some (Inl ParseFailed) \<and> Parse srt (Selector_String Everything) = Some (Inl ParseFailed)"
proof -
  have "Parser_scan [] = [eos_item]"
    using scan_loop_end [of "[]" "[]"] by (simp add: Parser_scan_def)
  then have "Parser_parse [] = Some (Inr [])"
    using mkp_simps(1) [of Values "[]" eos_item "[]"] by (simp add: Parser_parse_def parse_loop.simps)
  then show ?thesis
    by (simp add: Parse_def parse_def Set_String_def Everything_def)
qed

end
