(* ===== verification/LabelTyping.thy ===== *)
theory LabelTyping
  imports LabelRoundtrip
begin

text \<open>
  A typing discipline for label requirements: which operators take which values. What the constructors and the
  parser of \<open>pkg/scheduler/labels/selector.go\<close> return is well typed.
\<close>

inductive req_typed :: "Requirement \<Rightarrow> bool" where
  SetOp: "key \<noteq> [] \<Longrightarrow> op \<in> {op_In, op_NotIn} \<Longrightarrow> vs \<noteq> [] \<Longrightarrow> \<forall>v \<in> set vs. length v \<le> LabelValueMaxLength \<Longrightarrow>
    req_typed \<lparr>req_key = key, req_operator = op, req_strValues = vs\<rparr>"
| ExactOp: "key \<noteq> [] \<Longrightarrow> op \<in> {op_Equals, op_DoubleEquals, op_NotEquals} \<Longrightarrow> length v \<le> LabelValueMaxLength \<Longrightarrow>
    req_typed \<lparr>req_key = key, req_operator = op, req_strValues = [v]\<rparr>"
| ExistsOp: "key \<noteq> [] \<Longrightarrow> op \<in> {op_Exists, op_DoesNotExist} \<Longrightarrow> req_typed \<lparr>req_key = key, req_operator = op, req_strValues = []\<rparr>"
| CompareOp: "key \<noteq> [] \<Longrightarrow> op \<in> {op_GreaterThan, op_LessThan} \<Longrightarrow> length v \<le> LabelValueMaxLength \<Longrightarrow> go_ParseInt v \<noteq> None \<Longrightarrow>
    req_typed \<lparr>req_key = key, req_operator = op, req_strValues = [v]\<rparr>"

inductive_cases req_typedE: "req_typed r"

lemma valid_values_short:
  "validate_values key vs = None \<longleftrightarrow> (\<forall>v \<in> set vs. length v \<le> LabelValueMaxLength)"
  by (auto simp: validate_values_iff validateLabelValue_def IsValidLabelValue_def not_less split: option.splits if_splits)

lemma length_one_values: "length vs = Suc 0 \<Longrightarrow> \<exists>v. vs = [v]"
  by (simp add: length_Suc_conv)

lemma NewRequirement_typed:
  assumes "NewRequirement key op vs = Inr r"
  shows "req_typed r"
proof -
  have r: "r = \<lparr>req_key = key, req_operator = op, req_strValues = vs\<rparr>" "key \<noteq> []"
    and c: "check_operator_values op vs = None" and v: "\<forall>v \<in> set vs. length v \<le> LabelValueMaxLength"
    using assms by (auto simp: NewRequirement_def validateLabelKey_def valid_values_short split: option.splits if_splits)
  consider "op \<in> {op_In, op_NotIn}" | "op \<in> {op_Equals, op_DoubleEquals, op_NotEquals}" | "op \<in> {op_Exists, op_DoesNotExist}"
    | "op \<in> {op_GreaterThan, op_LessThan}"
    using c unfolding check_operator_values_def by (auto split: if_splits)
  then show ?thesis
  proof cases
    case 1
    then have "vs \<noteq> []"
      using c by (auto simp: check_operator_values_def)
    with 1 r v show ?thesis
      by (simp add: req_typed.SetOp)
  next
    case 2
    then obtain x where "vs = [x]"
      using c length_one_values by (auto simp: check_operator_values_def split: if_splits)
    with 2 r v show ?thesis
      by (simp add: req_typed.ExactOp)
  next
    case 3
    then have "vs = []"
      using c by (auto simp: check_operator_values_def split: if_splits)
    with 3 r show ?thesis
      by (simp add: req_typed.ExistsOp)
  next
    case 4
    then obtain x where "vs = [x]" "go_ParseInt x \<noteq> None"
      using c length_one_values by (fastforce simp: check_operator_values_def split: if_splits)
    with 4 r v show ?thesis
      by (simp add: req_typed.CompareOp)
  qed
qed

lemma parseRequirement_typed:
  assumes "parseRequirement p = Some (Inr r, p')"
  shows "req_typed r"
proof -
  have "\<exists>key op vs. NewRequirement key op vs = Inr r"
    using assms unfolding parseRequirement_def
    by (auto elim!: bind_SomeE split: sum.splits if_splits prod.splits simp: map_sum_def) (auto split: sum.splits)
  then show ?thesis
    using NewRequirement_typed by blast
qed

lemma parse_loop_typed:
  "parse_loop p rs = Some (Inr out) \<Longrightarrow> \<forall>r \<in> set rs. req_typed r \<Longrightarrow> \<forall>r \<in> set out. req_typed r"
proof (induction p rs rule: parse_loop.induct)
  case (1 p rs)
  note eq = 1(2) [unfolded parse_loop.simps [of p rs]]
  obtain token lit where la: "lookahead Values p = Some (token, lit)"
    using eq by (auto split: option.splits)
  show ?case
  proof (cases "token = IdentifierToken \<or> token = DoesNotExistToken")
    case True
    obtain r p1 where pr: "parseRequirement p = Some (Inr r, p1)"
      using eq la True by (auto split: option.splits sum.splits)
    obtain t l p2 where co: "consume Values p1 = Some ((t, l), p2)"
      using eq la True pr by (auto split: option.splits)
    have typed: "\<forall>r \<in> set (rs @ [r]). req_typed r"
      using 1(3) parseRequirement_typed [OF pr] by auto
    show ?thesis
      using eq la True pr co typed 1(1) [OF la refl True pr refl refl co refl refl]
      by (auto split: option.splits if_splits)
  qed (use eq la 1(3) in \<open>auto split: if_splits\<close>)
qed

text \<open>C28: Every requirement of a selector that \<open>Parse\<close> returns is well typed: the set operators have at least one
  value, the equalities exactly one, the existence operators none, the comparisons one integer; keys are not empty
  and values have at most 63 characters. The selector has at least one requirement, in key order.\<close>

theorem Parse_well_typed:
  assumes "sorts_by_key srt" and "Parse srt s = Some (Inr sel)"
  shows "\<exists>rs. sel = internalSelector (Some rs) \<and> rs \<noteq> [] \<and> sorted (map req_key rs) \<and> (\<forall>r \<in> set rs. req_typed r)"
proof -
  obtain items where it: "Parser_parse s = Some (Inr items)" "items \<noteq> []" "sel = internalSelector (Some (srt items))"
    using assms(2) by (auto simp: Parse_def parse_def elim!: bind_SomeE split: sum.splits option.splits if_splits)
  have "\<forall>r \<in> set items. req_typed r"
    using parse_loop_typed [OF it(1) [unfolded Parser_parse_def]] by simp
  moreover have "mset (srt items) = mset items" "sorted (map req_key (srt items))"
    using assms(1) by (auto simp: sorts_by_key_def)
  ultimately show ?thesis
    using it(2,3) by (metis mset_zero_iff set_mset_mset)
qed

theorem Parse_well_typed_witness:
  "\<exists>rs. Parse (sort_key req_key) ''y notin (b,a),x > 5'' = Some (Inr (internalSelector (Some rs))) \<and> rs \<noteq> [] \<and>
     sorted (map req_key rs) \<and> (\<forall>r \<in> set rs. req_typed r)"
proof -
  have p: "Parse (sort_key req_key) ''y notin (b,a),x > 5'' =
      Some (Inr (internalSelector (Some [\<lparr>req_key = ''x'', req_operator = op_GreaterThan, req_strValues = [''5'']\<rparr>,
        \<lparr>req_key = ''y'', req_operator = op_NotIn, req_strValues = [''a'', ''b'']\<rparr>])))"
    by code_simp
  have "sorts_by_key (sort_key req_key)"
    using stable_sort.key_sort_axioms by (simp add: sorts_by_key_iff)
  from Parse_well_typed [OF this p] p show ?thesis
    by auto
qed

end
