(* ===== verification/SiteTree.thy ===== *)
theory SiteTree
  imports SchedTypes
begin

text \<open>
  The site tree of the scheduler cache (\<open>pkg/scheduler/internal/cache/site_tree.go\<close>), which fixes the
  order of the sites in a snapshot. A site array is a mutable cursor over the sites of a zone;
  \<open>GetZoneKey\<close> returns the site ID, so every zone has one site. The loop of \<open>next\<close> is bounded by fuel:
  it visits each zone at most once before it resets the cursors, and returns at the visit after that.
\<close>

definition GetZoneKey :: "Site \<Rightarrow> string" where
  "GetZoneKey site = SiteID site"

record siteArray =
  sa_siteIDs :: "string list"
  sa_lastIndex :: nat

record siteTree =
  st_tree :: "string \<rightharpoonup> siteArray"
  st_zones :: "string list"
  st_zoneIndex :: nat
  st_numSites :: int

text \<open>\<open>next\<close> of an array: the site and whether the array is exhausted.\<close>

definition siteArray_next :: "siteArray \<Rightarrow> (string \<times> bool) \<times> siteArray" where
  "siteArray_next na =
     (if length (sa_siteIDs na) = 0 then (([], False), na)
      else if length (sa_siteIDs na) \<le> sa_lastIndex na then (([], True), na)
      else ((sa_siteIDs na ! sa_lastIndex na, False), na\<lparr>sa_lastIndex := sa_lastIndex na + 1\<rparr>))"

definition tree_addSite :: "siteTree \<Rightarrow> Site \<Rightarrow> siteTree" where
  "tree_addSite nt site =
     (let zone = GetZoneKey site in
      case st_tree nt zone of
        Some na \<Rightarrow>
          if SiteID site \<in> set (sa_siteIDs na) then nt
          else nt\<lparr>st_tree := (st_tree nt)(zone \<mapsto> na\<lparr>sa_siteIDs := sa_siteIDs na @ [SiteID site]\<rparr>),
                  st_numSites := st_numSites nt + 1\<rparr>
      | None \<Rightarrow>
          nt\<lparr>st_zones := st_zones nt @ [zone],
             st_tree := (st_tree nt)(zone \<mapsto> \<lparr>sa_siteIDs = [SiteID site], sa_lastIndex = 0\<rparr>),
             st_numSites := st_numSites nt + 1\<rparr>)"

definition newSiteCacheTree :: "Site list \<Rightarrow> siteTree" where
  "newSiteCacheTree sites =
     foldl tree_addSite \<lparr>st_tree = Map.empty, st_zones = [], st_zoneIndex = 0, st_numSites = 0\<rparr> sites"

definition removeZone :: "siteTree \<Rightarrow> string \<Rightarrow> siteTree" where
  "removeZone nt zone =
     (let nt1 = nt\<lparr>st_tree := (st_tree nt)(zone := None)\<rparr> in
      case first_index (\<lambda>z. z = zone) (st_zones nt1) of
        None \<Rightarrow> nt1
      | Some i \<Rightarrow> nt1\<lparr>st_zones := slice_remove i (st_zones nt1)\<rparr>)"

text \<open>\<open>removeSite\<close>: \<open>False\<close> is the error that the site was not found.\<close>

definition tree_removeSite :: "siteTree \<Rightarrow> Site \<Rightarrow> bool \<times> siteTree" where
  "tree_removeSite nt n =
     (let zone = GetZoneKey n in
      case st_tree nt zone of
        None \<Rightarrow> (False, nt)
      | Some na \<Rightarrow>
          (case first_index (\<lambda>siteID. siteID = SiteID n) (sa_siteIDs na) of
             None \<Rightarrow> (False, nt)
           | Some i \<Rightarrow>
               let ids = slice_remove i (sa_siteIDs na);
                   nt1 = nt\<lparr>st_tree := (st_tree nt)(zone \<mapsto> na\<lparr>sa_siteIDs := ids\<rparr>)\<rparr>;
                   nt2 = (if ids = [] then removeZone nt1 zone else nt1)
               in (True, nt2\<lparr>st_numSites := st_numSites nt2 - 1\<rparr>)))"

text \<open>\<open>updateSite\<close>: a nil old site (\<open>None\<close>) is dereferenced by \<open>removeSite\<close> unless the new zone is empty.\<close>

definition tree_updateSite :: "siteTree \<Rightarrow> Site option \<Rightarrow> Site \<Rightarrow> siteTree option" where
  "tree_updateSite nt old new =
     (let oldZone = (case old of Some o' \<Rightarrow> GetZoneKey o' | None \<Rightarrow> []);
          newZone = GetZoneKey new
      in if oldZone = newZone then Some nt
         else case old of
                None \<Rightarrow> None
              | Some o' \<Rightarrow> Some (tree_addSite (snd (tree_removeSite nt o')) new))"

definition resetExhausted :: "siteTree \<Rightarrow> siteTree" where
  "resetExhausted nt =
     nt\<lparr>st_tree := (\<lambda>z. map_option (\<lambda>na. na\<lparr>sa_lastIndex := 0\<rparr>) (st_tree nt z)), st_zoneIndex := 0\<rparr>"

fun next_loop :: "nat \<Rightarrow> siteTree \<Rightarrow> nat \<Rightarrow> (string \<times> siteTree) option" where
  "next_loop 0 nt numExhaustedZones = None"
| "next_loop (Suc fuel) nt numExhaustedZones =
     (let zoneIndex = (if length (st_zones nt) \<le> st_zoneIndex nt then 0 else st_zoneIndex nt) in
      case go_index (st_zones nt) zoneIndex of
        None \<Rightarrow> None
      | Some zone \<Rightarrow>
          (case st_tree nt zone of
             None \<Rightarrow> None
           | Some na \<Rightarrow>
               (case siteArray_next na of ((siteID, exhausted), na') \<Rightarrow>
                  let nt1 = nt\<lparr>st_zoneIndex := zoneIndex + 1, st_tree := (st_tree nt)(zone \<mapsto> na')\<rparr> in
                  if exhausted then
                    (let num = numExhaustedZones + 1;
                         nt2 = (if length (st_zones nt1) \<le> num then resetExhausted nt1 else nt1)
                     in next_loop fuel nt2 num)
                  else Some (siteID, nt1))))"

declare next_loop.simps(2) [simp del]

definition tree_next :: "siteTree \<Rightarrow> (string \<times> siteTree) option" where
  "tree_next nt =
     (if length (st_zones nt) = 0 then Some ([], nt) else next_loop (length (st_zones nt) + 1) nt 0)"

section \<open>Well-formed trees\<close>

text \<open>
  Every zone holds the one site of its name; \<open>fresh\<close> are the zones whose cursor has not passed the site.
\<close>

definition tree_wf :: "siteTree \<Rightarrow> bool" where
  "tree_wf nt \<longleftrightarrow> distinct (st_zones nt) \<and> dom (st_tree nt) = set (st_zones nt) \<and>
     (\<forall>z na. st_tree nt z = Some na \<longrightarrow> sa_siteIDs na = [z] \<and> sa_lastIndex na \<le> 1) \<and>
     st_numSites nt = int (length (st_zones nt))"

definition fresh :: "siteTree \<Rightarrow> string \<Rightarrow> bool" where
  "fresh nt z \<longleftrightarrow> (\<exists>na. st_tree nt z = Some na \<and> sa_lastIndex na = 0)"

definition fresh_suffix :: "siteTree \<Rightarrow> bool" where
  "fresh_suffix nt \<longleftrightarrow> (\<exists>k. filter (fresh nt) (st_zones nt) = drop k (st_zones nt))"

definition cursor :: "siteTree \<Rightarrow> nat" where
  "cursor nt = (if length (st_zones nt) \<le> st_zoneIndex nt then 0 else st_zoneIndex nt)"

lemma tree_wfD:
  assumes "tree_wf nt" "z \<in> set (st_zones nt)"
  obtains na where "st_tree nt z = Some na" "sa_siteIDs na = [z]" "sa_lastIndex na \<le> 1"
proof -
  have "z \<in> dom (st_tree nt)"
    using assms by (simp add: tree_wf_def)
  then obtain na where "st_tree nt z = Some na"
    by blast
  then show thesis
    using assms(1) that by (simp add: tree_wf_def)
qed

lemma cursor_less: "st_zones nt \<noteq> [] \<Longrightarrow> cursor nt < length (st_zones nt)"
  by (auto simp: cursor_def)

text \<open>One visit of the loop: a fresh zone is returned, another one is skipped.\<close>

definition take_zone :: "siteTree \<Rightarrow> nat \<Rightarrow> string \<Rightarrow> siteTree" where
  "take_zone nt i z = nt\<lparr>st_zoneIndex := i + 1, st_tree := (st_tree nt)(z \<mapsto> \<lparr>sa_siteIDs = [z], sa_lastIndex = 1\<rparr>)\<rparr>"

lemma next_loop_fresh:
  assumes "tree_wf nt" "st_zones nt \<noteq> []" "z = st_zones nt ! cursor nt" "fresh nt z"
  shows "next_loop (Suc fuel) nt n = Some (z, take_zone nt (cursor nt) z)"
proof -
  have z: "go_index (st_zones nt) (cursor nt) = Some z"
    using assms(2,3) cursor_less by (auto simp: go_index_def)
  then obtain na where na: "st_tree nt z = Some na" "sa_siteIDs na = [z]" "sa_lastIndex na = 0"
    using assms(1,4) by (auto simp: fresh_def tree_wf_def)
  then have "na = \<lparr>sa_siteIDs = [z], sa_lastIndex = 0\<rparr>"
    by (cases na) simp
  then show ?thesis
    using z na(1) by (simp add: next_loop.simps(2) cursor_def [symmetric] siteArray_next_def take_zone_def Let_def)
qed

lemma next_loop_skip:
  assumes "tree_wf nt" "st_zones nt \<noteq> []" "\<not> fresh nt (st_zones nt ! cursor nt)"
  shows "next_loop (Suc fuel) nt n =
    next_loop fuel (if length (st_zones nt) \<le> n + 1 then resetExhausted (nt\<lparr>st_zoneIndex := cursor nt + 1\<rparr>)
                    else nt\<lparr>st_zoneIndex := cursor nt + 1\<rparr>) (n + 1)"
proof -
  let ?z = "st_zones nt ! cursor nt"
  have z: "go_index (st_zones nt) (cursor nt) = Some ?z" "?z \<in> set (st_zones nt)"
    using assms(2) cursor_less by (auto simp: go_index_def)
  then obtain na where na: "st_tree nt ?z = Some na" "sa_siteIDs na = [?z]" "sa_lastIndex na = 1"
    using tree_wfD [OF assms(1) z(2)] assms(3) by (metis One_nat_def fresh_def le_SucE le_zero_eq)
  then show ?thesis
    using z(1) by (simp add: next_loop.simps(2) cursor_def [symmetric] siteArray_next_def Let_def map_upd_triv)
qed

lemma tree_wf_moves [simp]:
  "tree_wf (nt\<lparr>st_zoneIndex := i\<rparr>) \<longleftrightarrow> tree_wf nt" "fresh (nt\<lparr>st_zoneIndex := i\<rparr>) = fresh nt"
  by (auto simp: tree_wf_def fresh_def fun_eq_iff)

lemma take_zone_wf:
  assumes "tree_wf nt" "z \<in> set (st_zones nt)"
  shows "tree_wf (take_zone nt i z)" "st_zones (take_zone nt i z) = st_zones nt"
    "fresh (take_zone nt i z) y \<longleftrightarrow> fresh nt y \<and> y \<noteq> z" "st_zoneIndex (take_zone nt i z) = i + 1"
  using assms by (auto simp: tree_wf_def fresh_def take_zone_def)

lemma fresh_reset: "fresh (resetExhausted nt) z \<longleftrightarrow> z \<in> dom (st_tree nt)"
  by (cases "st_tree nt z") (auto simp: fresh_def resetExhausted_def)

lemma reset_wf:
  "tree_wf nt \<Longrightarrow> tree_wf (resetExhausted nt)" "st_zones (resetExhausted nt) = st_zones nt"
  "tree_wf nt \<Longrightarrow> fresh (resetExhausted nt) z \<longleftrightarrow> z \<in> set (st_zones nt)" "st_zoneIndex (resetExhausted nt) = 0"
proof -
  show "tree_wf nt \<Longrightarrow> tree_wf (resetExhausted nt)"
    by (auto simp: tree_wf_def resetExhausted_def dom_def)
  show "tree_wf nt \<Longrightarrow> fresh (resetExhausted nt) z \<longleftrightarrow> z \<in> set (st_zones nt)"
    by (simp add: fresh_reset tree_wf_def)
qed (simp_all add: resetExhausted_def)

lemma cursor_step: "st_zones nt \<noteq> [] \<Longrightarrow> cursor (nt\<lparr>st_zoneIndex := cursor nt + 1\<rparr>) = (cursor nt + 1) mod length (st_zones nt)"
  using cursor_less [of nt] by (auto simp: cursor_def le_Suc_eq)

lemma next_loop_finds:
  assumes "tree_wf nt" "st_zones nt \<noteq> []" "fresh nt (st_zones nt ! ((cursor nt + d) mod length (st_zones nt)))"
    "\<forall>e < d. \<not> fresh nt (st_zones nt ! ((cursor nt + e) mod length (st_zones nt)))" "n + d < length (st_zones nt)" "d < fuel"
  shows "\<exists>i < length (st_zones nt). fresh nt (st_zones nt ! i) \<and> next_loop fuel nt n = Some (st_zones nt ! i, take_zone nt i (st_zones nt ! i)) \<and>
    i = (cursor nt + d) mod length (st_zones nt)"
  using assms
proof (induction d arbitrary: nt n fuel)
  case 0
  then obtain f where "fuel = Suc f"
    by (cases fuel) auto
  then show ?case
    using 0 next_loop_fresh [OF 0(1,2) refl, of f n] cursor_less [OF 0(2)] by auto
next
  case (Suc d)
  let ?N = "length (st_zones nt)" and ?nt = "nt\<lparr>st_zoneIndex := cursor nt + 1\<rparr>"
  obtain f where f: "fuel = Suc f" "d < f"
    using Suc.prems(6) by (cases fuel) auto
  have "\<not> fresh nt (st_zones nt ! cursor nt)"
    using Suc.prems(4) [rule_format, of 0] cursor_less [OF Suc.prems(2)] by simp
  then have step: "next_loop fuel nt n = next_loop f ?nt (n + 1)"
    using next_loop_skip [OF Suc.prems(1,2)] Suc.prems(5) f(1) by simp
  have pos: "(cursor ?nt + e) mod ?N = (cursor nt + Suc e) mod ?N" for e
    using cursor_step [OF Suc.prems(2)] by (simp add: mod_add_left_eq)
  have "\<exists>i < length (st_zones ?nt). fresh ?nt (st_zones ?nt ! i) \<and>
      next_loop f ?nt (n + 1) = Some (st_zones ?nt ! i, take_zone ?nt i (st_zones ?nt ! i)) \<and> i = (cursor ?nt + d) mod length (st_zones ?nt)"
    using Suc.prems f(2) pos by (intro Suc.IH) auto
  then show ?case
    using step pos [of d] by (auto simp: take_zone_def)
qed

lemma next_loop_resets:
  assumes "tree_wf nt" "st_zones nt \<noteq> []" "\<forall>z \<in> set (st_zones nt). \<not> fresh nt z" "n + r = length (st_zones nt)" "0 < r" "r < fuel"
  shows "next_loop fuel nt n = Some (st_zones nt ! 0, take_zone (resetExhausted nt) 0 (st_zones nt ! 0))"
  using assms
proof (induction r arbitrary: nt n fuel)
  case (Suc r)
  let ?nt = "nt\<lparr>st_zoneIndex := cursor nt + 1\<rparr>"
  obtain f where f: "fuel = Suc f" "r < f"
    using Suc.prems(6) by (cases fuel) auto
  have skip: "\<not> fresh nt (st_zones nt ! cursor nt)"
    using Suc.prems(3) cursor_less [OF Suc.prems(2)] by auto
  show ?case
  proof (cases "r = 0")
    case True
    then have "next_loop fuel nt n = next_loop f (resetExhausted ?nt) (n + 1)"
      using next_loop_skip [OF Suc.prems(1,2) skip] Suc.prems(4) f(1) by simp
    moreover obtain f' where "f = Suc f'"
      using f(2) by (cases f) auto
    moreover have "resetExhausted ?nt = resetExhausted nt" "cursor (resetExhausted nt) = 0"
      by (simp_all add: resetExhausted_def cursor_def)
    moreover have "fresh (resetExhausted nt) (st_zones nt ! 0)" "tree_wf (resetExhausted nt)"
      using Suc.prems(1,2) reset_wf by auto
    ultimately show ?thesis
      using next_loop_fresh [of "resetExhausted nt" "st_zones nt ! 0" f' "n + 1"] Suc.prems(2) by (simp add: reset_wf(2))
  next
    case False
    then have "next_loop fuel nt n = next_loop f ?nt (n + 1)"
      using next_loop_skip [OF Suc.prems(1,2) skip] Suc.prems(4) f(1) by simp
    also have "\<dots> = Some (st_zones ?nt ! 0, take_zone (resetExhausted ?nt) 0 (st_zones ?nt ! 0))"
      using Suc.prems False f(2) by (intro Suc.IH) auto
    finally show ?thesis
      by (simp add: resetExhausted_def)
  qed
qed simp

lemma tree_next_fresh:
  assumes "tree_wf nt" "z0 \<in> set (st_zones nt)" "fresh nt z0"
  shows "\<exists>i < length (st_zones nt). fresh nt (st_zones nt ! i) \<and> tree_next nt = Some (st_zones nt ! i, take_zone nt i (st_zones nt ! i)) \<and>
    (fresh nt (st_zones nt ! cursor nt) \<longrightarrow> i = cursor nt)"
proof -
  let ?N = "length (st_zones nt)"
  let ?P = "\<lambda>d. fresh nt (st_zones nt ! ((cursor nt + d) mod ?N))"
  have ne: "st_zones nt \<noteq> []"
    using assms(2) by auto
  obtain j where j: "j < ?N" "st_zones nt ! j = z0"
    using assms(2) by (auto simp: in_set_conv_nth)
  have "(cursor nt + (j + ?N - cursor nt) mod ?N) mod ?N = j"
    using cursor_less [OF ne] j(1) by (simp add: mod_add_right_eq)
  then have ex: "?P ((j + ?N - cursor nt) mod ?N)"
    using j(2) assms(3) by simp
  define d where "d = (LEAST d. ?P d)"
  have d: "?P d" "\<forall>e < d. \<not> ?P e"
    using LeastI [of ?P, OF ex] not_less_Least [of _ ?P] unfolding d_def by blast+
  have "d \<le> (j + ?N - cursor nt) mod ?N"
    unfolding d_def by (rule Least_le [of ?P, OF ex])
  also have "\<dots> < ?N"
    using ne by simp
  finally have "d < ?N" .
  have "d = 0" if "fresh nt (st_zones nt ! cursor nt)"
    using that d(2) cursor_less [OF ne] by (metis add.right_neutral gr0I mod_less)
  moreover obtain i where "i < ?N" "fresh nt (st_zones nt ! i)" "i = (cursor nt + d) mod ?N"
      "next_loop (?N + 1) nt 0 = Some (st_zones nt ! i, take_zone nt i (st_zones nt ! i))"
    using next_loop_finds [OF assms(1) ne d(1,2), of 0 "?N + 1"] \<open>d < ?N\<close> by auto
  ultimately show ?thesis
    using ne cursor_less [OF ne] by (intro exI [of _ i]) (auto simp: tree_next_def)
qed

lemma tree_next_reset:
  assumes "tree_wf nt" "st_zones nt \<noteq> []" "\<forall>z \<in> set (st_zones nt). \<not> fresh nt z"
  shows "tree_next nt = Some (st_zones nt ! 0, take_zone (resetExhausted nt) 0 (st_zones nt ! 0))"
  using next_loop_resets [OF assms, of 0 "length (st_zones nt)" "length (st_zones nt) + 1"] assms(2) by (simp add: tree_next_def)

section \<open>Rounds\<close>

text \<open>The sites returned by \<open>n\<close> calls of \<open>next\<close>.\<close>

fun tree_nexts :: "nat \<Rightarrow> siteTree \<Rightarrow> (string list \<times> siteTree) option" where
  "tree_nexts 0 nt = Some ([], nt)"
| "tree_nexts (Suc n) nt = do {
     (siteID, nt1) \<leftarrow> tree_next nt;
     (ids, nt2) \<leftarrow> tree_nexts n nt1;
     Some (siteID # ids, nt2) }"

lemma tree_nexts_add:
  "tree_nexts m nt = Some (xs, nt1) \<Longrightarrow> tree_nexts n nt1 = Some (ys, nt2) \<Longrightarrow> tree_nexts (m + n) nt = Some (xs @ ys, nt2)"
  by (induction m arbitrary: nt xs) (auto elim!: bind_SomeE)

lemma mset_filter_neq: "distinct xs \<Longrightarrow> x \<in> set xs \<Longrightarrow> add_mset x (mset (filter (\<lambda>y. y \<noteq> x) xs)) = mset xs"
proof (induction xs)
  case (Cons a xs)
  then have "a = x \<Longrightarrow> filter (\<lambda>y. y \<noteq> x) xs = xs"
    by (auto simp: filter_id_conv)
  then show ?case
    using Cons by auto
qed simp

lemma nexts_drain:
  "tree_wf nt \<Longrightarrow> length (filter (fresh nt) (st_zones nt)) = u \<Longrightarrow>
   \<exists>xs nt'. tree_nexts u nt = Some (xs, nt') \<and> tree_wf nt' \<and> st_zones nt' = st_zones nt \<and>
     mset xs = mset (filter (fresh nt) (st_zones nt)) \<and> (\<forall>z \<in> set (st_zones nt). \<not> fresh nt' z)"
proof (induction u arbitrary: nt)
  case 0
  then show ?case
    by (auto simp: filter_empty_conv)
next
  case (Suc u)
  then obtain z0 where "z0 \<in> set (st_zones nt)" "fresh nt z0"
    by (metis filter_empty_conv length_0_conv nat.distinct(1))
  then obtain i where i: "i < length (st_zones nt)" "fresh nt (st_zones nt ! i)"
      "tree_next nt = Some (st_zones nt ! i, take_zone nt i (st_zones nt ! i))"
    using tree_next_fresh [OF Suc.prems(1)] by blast
  let ?z = "st_zones nt ! i" and ?nt = "take_zone nt i (st_zones nt ! i)"
  have z: "?z \<in> set (st_zones nt)"
    using i(1) by simp
  note wf = take_zone_wf [OF Suc.prems(1) z, of i]
  have "filter (fresh ?nt) (st_zones nt) = filter (\<lambda>y. y \<noteq> ?z) (filter (fresh nt) (st_zones nt))"
    by (auto simp: wf(3) intro!: filter_cong)
  moreover have "distinct (filter (fresh nt) (st_zones nt))" "?z \<in> set (filter (fresh nt) (st_zones nt))"
    using Suc.prems(1) i(2) z by (auto simp: tree_wf_def)
  ultimately have m: "add_mset ?z (mset (filter (fresh ?nt) (st_zones nt))) = mset (filter (fresh nt) (st_zones nt))"
    by (simp only: mset_filter_neq)
  have "Suc (length (filter (fresh ?nt) (st_zones nt))) = size (add_mset ?z (mset (filter (fresh ?nt) (st_zones nt))))"
    by (simp only: size_add_mset size_mset)
  also have "\<dots> = Suc u"
    using Suc.prems(2) by (simp only: m size_mset)
  finally have "length (filter (fresh ?nt) (st_zones ?nt)) = u"
    using wf(2) by simp
  then obtain xs nt' where "tree_nexts u ?nt = Some (xs, nt')" "tree_wf nt'" "st_zones nt' = st_zones nt"
      "mset xs = mset (filter (fresh ?nt) (st_zones nt))" "\<forall>z \<in> set (st_zones nt). \<not> fresh nt' z"
    using Suc.IH [OF wf(1)] wf(2) by auto
  then show ?case
    using i(3) m by auto
qed

lemma nexts_in_order:
  "tree_wf nt \<Longrightarrow> st_zoneIndex nt = k \<Longrightarrow> k + n \<le> length (st_zones nt) \<Longrightarrow> (\<And>z. fresh nt z \<longleftrightarrow> z \<in> set (drop k (st_zones nt))) \<Longrightarrow>
   \<exists>nt'. tree_nexts n nt = Some (take n (drop k (st_zones nt)), nt') \<and> tree_wf nt' \<and> st_zones nt' = st_zones nt \<and>
     (\<forall>z. fresh nt' z \<longleftrightarrow> z \<in> set (drop (k + n) (st_zones nt)))"
proof (induction n arbitrary: nt k)
  case (Suc n)
  let ?zs = "st_zones nt" and ?z = "st_zones nt ! k" and ?nt = "take_zone nt k (st_zones nt ! k)"
  have k: "k < length ?zs"
    using Suc.prems(3) by simp
  then have dr: "drop k ?zs = ?z # drop (Suc k) ?zs" and c: "cursor nt = k" and z: "?z \<in> set ?zs"
    using Suc.prems(2) by (auto simp: Cons_nth_drop_Suc cursor_def)
  have f: "fresh nt ?z"
    using Suc.prems(4) dr by simp
  obtain i where "fresh nt (?zs ! i)" "tree_next nt = Some (?zs ! i, take_zone nt i (?zs ! i))" "i = cursor nt"
    using tree_next_fresh [OF Suc.prems(1) z f] f c by auto
  then have nx: "tree_next nt = Some (?z, ?nt)"
    using c by simp
  note wf = take_zone_wf [OF Suc.prems(1) z, of k]
  have "distinct (?z # drop (Suc k) ?zs)"
    using Suc.prems(1) dr by (metis distinct_drop tree_wf_def)
  then have "fresh ?nt y \<longleftrightarrow> y \<in> set (drop (Suc k) (st_zones ?nt))" for y
    using Suc.prems(4) [of y] dr wf(2,3) by auto
  then obtain nt' where "tree_nexts n ?nt = Some (take n (drop (Suc k) ?zs), nt')" "tree_wf nt'" "st_zones nt' = ?zs"
      "\<forall>y. fresh nt' y \<longleftrightarrow> y \<in> set (drop (Suc k + n) ?zs)"
    using Suc.IH [OF wf(1), of "Suc k"] wf(2,4) Suc.prems(3) by auto
  then show ?case
    using nx dr by auto
qed auto

lemma nexts_refill:
  assumes "tree_wf nt" "\<forall>z \<in> set (st_zones nt). \<not> fresh nt z" "0 < n" "n \<le> length (st_zones nt)"
  shows "\<exists>nt'. tree_nexts n nt = Some (take n (st_zones nt), nt') \<and> tree_wf nt' \<and> st_zones nt' = st_zones nt \<and>
    (\<forall>z. fresh nt' z \<longleftrightarrow> z \<in> set (drop n (st_zones nt)))"
proof -
  let ?zs = "st_zones nt" and ?nt = "take_zone (resetExhausted nt) 0 (st_zones nt ! 0)"
  have ne: "?zs \<noteq> []"
    using assms(3,4) by auto
  then obtain z zs where zs: "?zs = z # zs"
    by (cases ?zs) auto
  obtain m where m: "n = Suc m"
    using assms(3) by (cases n) auto
  have wf: "tree_wf (resetExhausted nt)" "st_zones (resetExhausted nt) = ?zs"
    using reset_wf assms(1) by auto
  note tz = take_zone_wf [OF wf(1), unfolded wf(2), of z 0]
  have "distinct (z # zs)"
    using assms(1) zs by (metis tree_wf_def)
  then have "fresh ?nt y \<longleftrightarrow> y \<in> set (drop 1 (st_zones ?nt))" for y
    using tz(2,3) reset_wf(3) [OF assms(1)] zs by auto
  then obtain nt' where "tree_nexts m ?nt = Some (take m (drop 1 ?zs), nt')" "tree_wf nt'" "st_zones nt' = ?zs"
      "\<forall>y. fresh nt' y \<longleftrightarrow> y \<in> set (drop (1 + m) ?zs)"
    using nexts_in_order [of ?nt 1 m] tz zs assms(4) m by auto
  then show ?thesis
    using tree_next_reset [OF assms(1) ne assms(2)] m zs by auto
qed

lemma filter_in_drop: "distinct xs \<Longrightarrow> filter (\<lambda>x. x \<in> set (drop k xs)) xs = drop k xs"
proof (induction xs arbitrary: k)
  case (Cons x xs)
  then show ?case
    by (cases k) (auto simp: filter_id_conv dest: in_set_dropD cong: filter_cong)
qed simp

definition tree_ok :: "siteTree \<Rightarrow> bool" where
  "tree_ok nt \<longleftrightarrow> tree_wf nt \<and> fresh_suffix nt"

lemma round_each_once:
  assumes "tree_ok nt"
  shows "\<exists>ids nt'. tree_nexts (length (st_zones nt)) nt = Some (ids, nt') \<and> mset ids = mset (st_zones nt) \<and>
    tree_ok nt' \<and> st_zones nt' = st_zones nt"
proof -
  let ?zs = "st_zones nt"
  obtain k where wf: "tree_wf nt" and k: "filter (fresh nt) ?zs = drop k ?zs" "k \<le> length ?zs"
    using assms by (auto simp: tree_ok_def fresh_suffix_def) (metis drop_all linear)
  obtain xs nt1 where x: "tree_nexts (length ?zs - k) nt = Some (xs, nt1)" "tree_wf nt1" "st_zones nt1 = ?zs"
      "mset xs = mset (drop k ?zs)" "\<forall>z \<in> set ?zs. \<not> fresh nt1 z"
    using nexts_drain [OF wf refl] k(1) by auto
  show ?thesis
  proof (cases "k = 0")
    case True
    then show ?thesis
      using x by (auto simp: tree_ok_def fresh_suffix_def filter_False intro!: exI [of _ "length ?zs"])
  next
    case False
    then obtain nt' where r: "tree_nexts k nt1 = Some (take k ?zs, nt')" "tree_wf nt'" "st_zones nt' = ?zs"
        "\<forall>z. fresh nt' z \<longleftrightarrow> z \<in> set (drop k ?zs)"
      using nexts_refill [of nt1 k] x k(2) by auto
    have "tree_nexts (length ?zs) nt = Some (xs @ take k ?zs, nt')"
      using tree_nexts_add [OF x(1) r(1)] k(2) by simp
    moreover have "mset (xs @ take k ?zs) = mset ?zs"
      using x(4) by (metis append_take_drop_id mset_append union_commute)
    moreover have "filter (fresh nt') ?zs = drop k ?zs"
      using r(4) wf filter_in_drop [of ?zs k] by (simp add: tree_wf_def cong: filter_cong)
    ultimately show ?thesis
      using r(2,3) by (auto simp: tree_ok_def fresh_suffix_def)
  qed
qed

section \<open>Adding and removing sites\<close>

lemma newSiteCacheTree_empty_ok: "tree_ok (newSiteCacheTree [])"
  by (simp add: newSiteCacheTree_def tree_ok_def tree_wf_def fresh_suffix_def)

lemma addSite_ok:
  assumes "tree_ok nt"
  shows "tree_ok (tree_addSite nt s)"
    "st_zones (tree_addSite nt s) = (if SiteID s \<in> set (st_zones nt) then st_zones nt else st_zones nt @ [SiteID s])"
proof -
  let ?z = "SiteID s" and ?zs = "st_zones nt" and ?nt = "tree_addSite nt s"
  have wf: "tree_wf nt" and suf: "fresh_suffix nt"
    using assms by (simp_all add: tree_ok_def)
  have "tree_ok ?nt \<and> st_zones ?nt = (if ?z \<in> set ?zs then ?zs else ?zs @ [?z])"
  proof (cases "?z \<in> set ?zs")
    case True
    then obtain na where "st_tree nt ?z = Some na" "sa_siteIDs na = [?z]"
      using tree_wfD [OF wf] by metis
    then have "?nt = nt"
      by (simp add: tree_addSite_def GetZoneKey_def Let_def)
    then show ?thesis
      using assms True by simp
  next
    case False
    then have none: "st_tree nt ?z = None"
      using wf by (auto simp: tree_wf_def)
    then have nt: "?nt = nt\<lparr>st_zones := ?zs @ [?z], st_tree := (st_tree nt)(?z \<mapsto> \<lparr>sa_siteIDs = [?z], sa_lastIndex = 0\<rparr>),
        st_numSites := st_numSites nt + 1\<rparr>"
      by (simp add: tree_addSite_def GetZoneKey_def Let_def)
    have fr: "fresh ?nt y \<longleftrightarrow> y = ?z \<or> fresh nt y" for y
      using none by (auto simp: nt fresh_def)
    obtain k where k: "filter (fresh nt) ?zs = drop k ?zs" "k \<le> length ?zs"
      using suf by (auto simp: fresh_suffix_def) (metis drop_all linear)
    have "st_zones ?nt = ?zs @ [?z]"
      by (simp add: nt)
    then have "filter (fresh ?nt) (st_zones ?nt) = filter (fresh ?nt) ?zs @ [?z]"
      by (simp add: fr)
    also have "filter (fresh ?nt) ?zs = filter (fresh nt) ?zs"
      using False by (intro filter_cong) (auto simp: fr)
    finally have "filter (fresh ?nt) (st_zones ?nt) = drop k (st_zones ?nt)"
      using k by (simp add: nt)
    moreover have "tree_wf ?nt"
      using wf False by (auto simp: nt tree_wf_def)
    ultimately show ?thesis
      using False by (auto simp: tree_ok_def fresh_suffix_def nt)
  qed
  then show "tree_ok ?nt" "st_zones ?nt = (if ?z \<in> set ?zs then ?zs else ?zs @ [?z])"
    by auto
qed

lemma filter_drop_filter: "\<exists>j. filter P (drop k xs) = drop j (filter P xs)"
proof
  have "filter P xs = filter P (take k xs) @ filter P (drop k xs)"
    by (metis append_take_drop_id filter_append)
  then show "filter P (drop k xs) = drop (length (filter P (take k xs))) (filter P xs)"
    by simp
qed

lemma removeSite_ok:
  assumes "tree_ok nt"
  shows "fst (tree_removeSite nt s) \<longleftrightarrow> SiteID s \<in> set (st_zones nt)" "tree_ok (snd (tree_removeSite nt s))"
    "st_zones (snd (tree_removeSite nt s)) = filter (\<lambda>z. z \<noteq> SiteID s) (st_zones nt)"
proof -
  let ?z = "SiteID s" and ?zs = "st_zones nt"
  have wf: "tree_wf nt" and suf: "fresh_suffix nt"
    using assms by (simp_all add: tree_ok_def)
  have "(fst (tree_removeSite nt s) \<longleftrightarrow> ?z \<in> set ?zs) \<and> tree_ok (snd (tree_removeSite nt s)) \<and>
    st_zones (snd (tree_removeSite nt s)) = filter (\<lambda>z. z \<noteq> ?z) ?zs"
  proof (cases "?z \<in> set ?zs")
    case False
    then have "st_tree nt ?z = None" "filter (\<lambda>z. z \<noteq> ?z) ?zs = ?zs"
      using wf by (auto simp: tree_wf_def filter_id_conv)
    then show ?thesis
      using assms False by (simp add: tree_removeSite_def GetZoneKey_def Let_def)
  next
    case True
    then obtain na where na: "st_tree nt ?z = Some na" "sa_siteIDs na = [?z]"
      using tree_wfD [OF wf] by metis
    obtain i where i: "first_index (\<lambda>z. z = ?z) ?zs = Some i"
      using True by (cases "first_index (\<lambda>z. z = ?z) ?zs") auto
    have sl: "slice_remove i ?zs = filter (\<lambda>z. z \<noteq> ?z) ?zs"
      using slice_remove_first_index [of "\<lambda>z. z" ?zs ?z i] i wf by (simp add: tree_wf_def)
    let ?nt = "nt\<lparr>st_tree := (st_tree nt)(?z := None), st_zones := filter (\<lambda>z. z \<noteq> ?z) ?zs, st_numSites := st_numSites nt - 1\<rparr>"
    have rm: "tree_removeSite nt s = (True, ?nt)"
      using na i sl by (simp add: tree_removeSite_def GetZoneKey_def slice_remove_def removeZone_def Let_def)
    have "Suc (length (filter (\<lambda>z. z \<noteq> ?z) ?zs)) = length ?zs"
      using mset_filter_neq [of ?zs ?z] wf True by (metis size_add_mset size_mset tree_wf_def)
    then have wf': "tree_wf ?nt"
      using wf by (auto simp: tree_wf_def dom_def set_eq_iff)
    have fr: "fresh ?nt y \<longleftrightarrow> y \<noteq> ?z \<and> fresh nt y" for y
      by (auto simp: fresh_def)
    obtain k where k: "filter (fresh nt) ?zs = drop k ?zs"
      using suf by (auto simp: fresh_suffix_def)
    have "filter (fresh ?nt) (st_zones ?nt) = filter (\<lambda>z. z \<noteq> ?z) (filter (fresh nt) ?zs)"
      by (auto simp: fr intro!: filter_cong)
    then have "fresh_suffix ?nt"
      using filter_drop_filter [of "\<lambda>z. z \<noteq> ?z" k ?zs] by (auto simp: fresh_suffix_def k)
    then show ?thesis
      using rm wf' True by (simp add: tree_ok_def)
  qed
  then show "fst (tree_removeSite nt s) \<longleftrightarrow> ?z \<in> set ?zs" "tree_ok (snd (tree_removeSite nt s))"
    "st_zones (snd (tree_removeSite nt s)) = filter (\<lambda>z. z \<noteq> ?z) ?zs"
    by auto
qed

lemma updateSite_ok:
  assumes "tree_ok nt"
  shows "\<exists>nt'. tree_updateSite nt (Some old) new = Some nt' \<and> tree_ok nt' \<and>
    set (st_zones nt') = (if SiteID old = SiteID new then set (st_zones nt) else insert (SiteID new) (set (st_zones nt) - {SiteID old}))"
  using assms addSite_ok [OF removeSite_ok(2) [OF assms], of old new] removeSite_ok(3) [OF assms, of old]
  by (auto simp: tree_updateSite_def GetZoneKey_def Let_def)

text \<open>The trees the cache can build: sites are added, removed and updated between complete rounds.\<close>

inductive tree_reach :: "siteTree \<Rightarrow> bool" where
  new: "tree_reach (newSiteCacheTree [])"
| add: "tree_reach nt \<Longrightarrow> tree_reach (tree_addSite nt s)"
| remove: "tree_reach nt \<Longrightarrow> tree_reach (snd (tree_removeSite nt s))"
| update: "tree_reach nt \<Longrightarrow> tree_updateSite nt (Some old) s = Some nt' \<Longrightarrow> tree_reach nt'"
| round: "tree_reach nt \<Longrightarrow> tree_nexts (nat (st_numSites nt)) nt = Some (ids, nt') \<Longrightarrow> tree_reach nt'"

lemma numSites_length: "tree_ok nt \<Longrightarrow> nat (st_numSites nt) = length (st_zones nt)"
  by (simp add: tree_ok_def tree_wf_def)

lemma tree_reach_ok: "tree_reach nt \<Longrightarrow> tree_ok nt"
proof (induction rule: tree_reach.induct)
  case (update nt old s nt')
  then show ?case
    using updateSite_ok [of nt old s] by auto
next
  case (round nt ids nt')
  then show ?case
    using round_each_once [of nt] numSites_length [of nt] by auto
qed (simp_all add: newSiteCacheTree_empty_ok addSite_ok removeSite_ok)

text \<open>
  C22: however sites were added, removed and renamed between rounds, \<open>numSites\<close> calls of \<open>next\<close> end and
  return every site of the tree exactly once.
\<close>

theorem round_visits_each_site_once:
  assumes "tree_reach nt"
  shows "\<exists>ids nt'. tree_nexts (nat (st_numSites nt)) nt = Some (ids, nt') \<and> mset ids = mset (st_zones nt) \<and>
    distinct ids \<and> st_zones nt' = st_zones nt"
proof -
  have ok: "tree_ok nt"
    using tree_reach_ok [OF assms] .
  then obtain ids nt' where r: "tree_nexts (nat (st_numSites nt)) nt = Some (ids, nt')" "mset ids = mset (st_zones nt)" "st_zones nt' = st_zones nt"
    using round_each_once [OF ok] numSites_length [OF ok] by auto
  moreover have "distinct ids"
    using r(2) ok by (metis mset_eq_imp_distinct_iff tree_ok_def tree_wf_def)
  ultimately show ?thesis
    by blast
qed

definition demo_tree :: siteTree where
  "demo_tree = tree_addSite (tree_addSite (newSiteCacheTree []) (zero_Site\<lparr>SiteID := ''a''\<rparr>)) (zero_Site\<lparr>SiteID := ''b''\<rparr>)"

theorem round_visits_each_site_once_witness:
  "\<exists>ids nt'. tree_nexts (nat (st_numSites demo_tree)) demo_tree = Some (ids, nt') \<and> mset ids = mset [''a'', ''b''] \<and>
     distinct ids \<and> st_zones nt' = [''a'', ''b'']"
proof -
  have "tree_reach demo_tree"
    unfolding demo_tree_def by (intro tree_reach.intros)
  moreover have "st_zones demo_tree = [''a'', ''b'']"
    by code_simp
  ultimately show ?thesis
    using round_visits_each_site_once [of demo_tree] by simp
qed

end
