(* ===== verification/SiteCacheInfo.thy ===== *)
theory SiteCacheInfo
  imports SchedTypes
begin

text \<open>
  Site level aggregated information, \<open>pkg/scheduler/sitecacheinfo/sitecache_info.go\<close>: what is requested
  and what is available on a site, and how many machines of each flavor still fit.

  \<^item> \<open>RequestedResources\<close> is a map of pointers, and \<open>DeductSiteResInfo\<close> stores one pointer under two
    keys. It is modelled by a map to addresses and the cells at these addresses (\<open>reqCells\<close>, \<open>reqNext\<close>
    the next unused address). The other maps hold values that are never shared.
  \<^item> The package variable \<open>generation\<close> is passed as \<open>g\<close> and returned by every operation that bumps it.
  \<^item> The flavors of the informer store are an argument (\<open>flavors\<close>, in the order \<open>List\<close> returns them).
  \<^item> A \<open>float64\<close> is the rational number it denotes and is not rounded. \<open>strconv.ParseFloat\<close> is the argument
    \<open>pf\<close>: the number, and whether there was no error.
\<close>

section \<open>Data\<close>

record OsExtraSpecs =
  ex_ResourceType :: string
  CondOperationStatus :: string
  CondOperationAz :: string
  CondSpotBlockOperationAz :: string
  CondSpotBlockLdh :: string
  CondSpotBlockLdc :: string
  CondSpotBlockInterruptPolicy :: string
  CondSpotOperationAz :: string
  CondSpotOperationStatus :: string

record TypedFlavor =
  tf_ID :: string
  tf_Name :: string
  Vcpus :: string
  Ram :: int
  tf_OsExtraSpecs :: OsExtraSpecs

record RegionFlavor = TypedFlavor +
  RegionFlavorID :: string
  rf_Region :: string

record VolumeCapabilities =
  ProvisionedCapacityGb :: rat
  TotalCapacityGb :: rat
  VolumeType :: string
  MaxOverSubscriptionRatio :: rat

record VolumePoolInfo =
  vp_AvailabilityZone :: string
  Capabilities :: VolumeCapabilities

record RegionVolumePool =
  StoragePools :: "VolumePoolInfo list"
  vp_Region :: string

record IPCommonPool =
  ip_Name :: string
  ip_Size :: int
  ip_Used :: int

record EipPool =
  CommonPools :: "IPCommonPool list"
  eip_Region :: string

record AllResInfo =
  CpuAndMem :: "string \<rightharpoonup> CPUAndMemory"
  ri_Storage :: "string \<rightharpoonup> rat"

record AllocationRatioByType =
  CoreAllocationRatio :: string
  MemAllocationRatio :: string

record AllocationRatio =
  ar_ByType :: AllocationRatioByType
  ar_Flavor :: string

record NetMetricData =
  nm_City :: string
  nm_Delay :: rat
  nm_Lossrate :: rat

record SiteCacheInfo =
  sci_Site :: "Site option"
  RequestedResources :: "string \<rightharpoonup> nat"
  reqCells :: "nat \<Rightarrow> CPUAndMemory"
  reqNext :: nat
  TotalResources :: "string \<rightharpoonup> CPUAndMemory"
  RequestedStorage :: "string \<rightharpoonup> rat"
  TotalStorage :: "string \<rightharpoonup> rat"
  RequestedFlavor :: "string \<rightharpoonup> int"
  AllocatableFlavor :: "string \<rightharpoonup> int"
  AllocatableSpotFlavor :: "string \<rightharpoonup> SpotResource"
  sci_stacks :: "Stack list"
  stacksWithAffinity :: "Stack list"
  sci_eipPool :: "EipPool option"
  Qos :: "string \<rightharpoonup> rat"
  sci_generation :: int

definition zero_CPUAndMemory :: CPUAndMemory where
  "zero_CPUAndMemory = \<lparr>VCPU = 0, Memory = 0\<rparr>"

definition zero_SiteCacheInfo :: SiteCacheInfo where
  "zero_SiteCacheInfo =
     \<lparr>sci_Site = None, RequestedResources = Map.empty, reqCells = (\<lambda>_. zero_CPUAndMemory), reqNext = 0,
      TotalResources = Map.empty, RequestedStorage = Map.empty, TotalStorage = Map.empty,
      RequestedFlavor = Map.empty, AllocatableFlavor = Map.empty, AllocatableSpotFlavor = Map.empty,
      sci_stacks = [], stacksWithAffinity = [], sci_eipPool = None, Qos = Map.empty, sci_generation = 0\<rparr>"

section \<open>Library functions\<close>

text \<open>\<open>strings.Split\<close> with a separator that is not empty.\<close>

function split_str :: "string \<Rightarrow> string \<Rightarrow> string \<Rightarrow> string list" where
  "split_str sep acc s =
     (case s of [] \<Rightarrow> [rev acc]
      | c # cs \<Rightarrow>
          if sep \<noteq> [] \<and> take (length sep) s = sep then rev acc # split_str sep [] (drop (length sep) s)
          else split_str sep (c # acc) cs)"
  by pat_completeness auto
termination
  by (relation "measure (\<lambda>(sep, acc, s). length s)") (auto simp: neq_Nil_conv)

declare split_str.simps [simp del]

definition strings_Split :: "string \<Rightarrow> string \<Rightarrow> string list" where
  "strings_Split s sep = split_str sep [] s"

text \<open>\<open>strconv.ParseInt(s, 10, 64)\<close>: an optional sign and decimal digits, in range.\<close>

definition is_digit :: "char \<Rightarrow> bool" where
  "is_digit c \<longleftrightarrow> CHR ''0'' \<le> c \<and> c \<le> CHR ''9''"

definition digits_value :: "string \<Rightarrow> int" where
  "digits_value s = fold (\<lambda>c v. 10 * v + (of_char c - 48)) s 0"

definition ParseInt :: "string \<Rightarrow> int option" where
  "ParseInt s =
     (let (neg, ds) = (case s of [] \<Rightarrow> (False, []) | c # cs \<Rightarrow>
            if c = CHR ''-'' then (True, cs) else if c = CHR ''+'' then (False, cs) else (False, s)) in
      if ds = [] \<or> \<not> list_all is_digit ds then None
      else let v = (if neg then - digits_value ds else digits_value ds) in
           if in_int64 v then Some v else None)"

text \<open>\<open>int64(f)\<close> for a float in range: truncation towards zero.\<close>

definition int64_of_float :: "rat \<Rightarrow> int" where
  "int64_of_float r = wrap64 (if 0 \<le> r then \<lfloor>r\<rfloor> else \<lceil>r\<rceil>)"

definition IsContain :: "string list \<Rightarrow> string \<Rightarrow> bool" where
  "IsContain allStr dst \<longleftrightarrow> dst \<in> set allStr"

definition GetRegionName :: "string \<Rightarrow> string" where
  "GetRegionName siteID =
     (if siteID = [] then [] else case strings_Split siteID ''--'' of [] \<Rightarrow> [] | s # _ \<Rightarrow> s)"

text \<open>Whether a resource type is one of those a key such as \<open>a||b\<close> names.\<close>

definition has_type :: "string \<Rightarrow> string \<Rightarrow> bool" where
  "has_type key resType = IsContain (strings_Split key ''||'') resType"

text \<open>\<open>ret.VCPU += res.VCPU; ret.Memory += res.Memory\<close>\<close>

definition res_add :: "CPUAndMemory \<Rightarrow> CPUAndMemory \<Rightarrow> CPUAndMemory" where
  "res_add a b = \<lparr>VCPU = wrap64 (VCPU a + VCPU b), Memory = wrap64 (Memory a + Memory b)\<rparr>"

section \<open>Operations\<close>

definition nextGeneration :: "int \<Rightarrow> int" where
  "nextGeneration g = wrap64 (g + 1)"

text \<open>\<open>n.generation = nextGeneration()\<close>\<close>

definition bump :: "int \<Rightarrow> SiteCacheInfo \<Rightarrow> SiteCacheInfo \<times> int" where
  "bump g n = (n\<lparr>sci_generation := nextGeneration g\<rparr>, nextGeneration g)"

text \<open>
  \<open>Clone\<close> copies every requested resource into a cell of its own (the \<open>i\<close>-th key of the order \<open>ks\<close>
  gets address \<open>i\<close>), leaves stacks, EIP pool and generation at their zero values, and dereferences \<open>Site\<close>.
\<close>

definition clone_cells :: "string list \<Rightarrow> SiteCacheInfo \<Rightarrow> (string \<rightharpoonup> nat) \<times> (nat \<Rightarrow> CPUAndMemory) \<times> nat" where
  "clone_cells ks n =
     fold (\<lambda>k (m, c, a). case RequestedResources n k of None \<Rightarrow> (m, c, a)
             | Some p \<Rightarrow> (m(k \<mapsto> a), c(a := CPUAndMemory_Clone (reqCells n p)), Suc a)) ks
       (Map.empty, \<lambda>_. zero_CPUAndMemory, 0)"

definition SiteCacheInfo_Clone :: "string list \<Rightarrow> SiteCacheInfo \<Rightarrow> SiteCacheInfo option" where
  "SiteCacheInfo_Clone ks n = do {
     site \<leftarrow> sci_Site n;
     let (m, c, a) = clone_cells ks n;
     Some (zero_SiteCacheInfo
       \<lparr>sci_Site := Some (Site_Clone site), RequestedResources := m, reqCells := c, reqNext := a,
        TotalResources := (\<lambda>k. map_option CPUAndMemory_Clone (TotalResources n k)),
        RequestedStorage := RequestedStorage n, TotalStorage := TotalStorage n,
        RequestedFlavor := RequestedFlavor n, AllocatableFlavor := AllocatableFlavor n,
        AllocatableSpotFlavor := AllocatableSpotFlavor n, Qos := Qos n\<rparr>) }"

definition sci_AddStack :: "int \<Rightarrow> SiteCacheInfo \<Rightarrow> Stack \<Rightarrow> SiteCacheInfo \<times> int" where
  "sci_AddStack g n stack = bump g (n\<lparr>sci_stacks := sci_stacks n @ [stack]\<rparr>)"

definition sci_RemoveStack :: "SiteCacheInfo \<Rightarrow> Stack \<Rightarrow> SiteCacheInfo" where
  "sci_RemoveStack n stack = n"

definition NewSiteCacheInfo :: "int \<Rightarrow> Stack list \<Rightarrow> SiteCacheInfo \<times> int" where
  "NewSiteCacheInfo g stacks = fold (\<lambda>s (n, g). sci_AddStack g n s) stacks (zero_SiteCacheInfo, g)"

text \<open>
  \<open>getCondOperationAz\<close>: the leftmost match of the expression \<open>([\w-]+)\(([\w]+)\)\<close> in every part between
  commas. No character class contains a parenthesis, so a match takes maximal runs.
\<close>

definition is_word :: "char \<Rightarrow> bool" where
  "is_word c \<longleftrightarrow> is_digit c \<or> CHR ''A'' \<le> c \<and> c \<le> CHR ''Z'' \<or> CHR ''a'' \<le> c \<and> c \<le> CHR ''z'' \<or> c = CHR ''_''"

definition match_az :: "string \<Rightarrow> (string \<times> string) option" where
  "match_az s =
     (let az = takeWhile (\<lambda>c. is_word c \<or> c = CHR ''-'') s; r = dropWhile (\<lambda>c. is_word c \<or> c = CHR ''-'') s in
      case r of [] \<Rightarrow> None | b # r' \<Rightarrow>
        let flag = takeWhile is_word r' in
        case dropWhile is_word r' of [] \<Rightarrow> None | e # _ \<Rightarrow>
          if az \<noteq> [] \<and> b = CHR ''('' \<and> flag \<noteq> [] \<and> e = CHR '')'' then Some (az, flag) else None)"

fun find_az :: "string \<Rightarrow> (string \<times> string) option" where
  "find_az [] = None"
| "find_az (c # cs) = (case match_az (c # cs) of Some r \<Rightarrow> Some r | None \<Rightarrow> find_az cs)"

definition getCondOperationAz :: "string \<Rightarrow> string \<rightharpoonup> string" where
  "getCondOperationAz condAzStr =
     fold (\<lambda>s m. case find_az s of None \<Rightarrow> m | Some (az, flag) \<Rightarrow> m(az \<mapsto> flag)) (strings_Split condAzStr '','') Map.empty"

definition addFlavrFunc :: "TypedFlavor \<Rightarrow> TypedFlavor list \<Rightarrow> TypedFlavor list" where
  "addFlavrFunc flv fs = (if \<exists>one \<in> set fs. tf_ID one = tf_ID flv then fs else fs @ [flv])"

text \<open>Whether a flavor is on sale in the availability zone of the site.\<close>

definition az_allows :: "OsExtraSpecs \<Rightarrow> string \<Rightarrow> bool" where
  "az_allows ex az =
     (case getCondOperationAz (CondOperationAz ex) az of
        Some flag \<Rightarrow> flag \<noteq> ''sellout'' \<and> flag \<noteq> ''abandon''
      | None \<Rightarrow> CondOperationStatus ex \<noteq> ''abandon'')"

definition host_flavor :: "Site \<Rightarrow> RegionFlavor \<Rightarrow> Host \<Rightarrow> TypedFlavor list \<Rightarrow> TypedFlavor list" where
  "host_flavor site rf host fs =
     (if Region (site_RegionAzMap site) \<noteq> rf_Region rf then fs
      else if has_type (host_ResourceType host) (ex_ResourceType (tf_OsExtraSpecs rf)) \<and>
              az_allows (tf_OsExtraSpecs rf) (AvailabilityZone (site_RegionAzMap site))
           then addFlavrFunc (TypedFlavor.truncate rf) fs else fs)"

definition getSupportFlavorsBySite :: "RegionFlavor list \<Rightarrow> SiteCacheInfo \<Rightarrow> TypedFlavor list option" where
  "getSupportFlavorsBySite flavors n =
     foldM (\<lambda>rf fs. do { site \<leftarrow> sci_Site n; Some (fold (host_flavor site rf) (Hosts site) fs) }) flavors []"

definition getTotalResourceByResType :: "string list \<Rightarrow> SiteCacheInfo \<Rightarrow> string \<Rightarrow> CPUAndMemory" where
  "getTotalResourceByResType kt n resType =
     fold (\<lambda>k ret. case TotalResources n k of None \<Rightarrow> ret
             | Some r \<Rightarrow> if has_type k resType then res_add ret r else ret) kt zero_CPUAndMemory"

definition getRequestResourceByResType :: "string list \<Rightarrow> SiteCacheInfo \<Rightarrow> string \<Rightarrow> CPUAndMemory" where
  "getRequestResourceByResType kr n resType =
     fold (\<lambda>k ret. case RequestedResources n k of None \<Rightarrow> ret
             | Some p \<Rightarrow> if has_type k resType then res_add ret (reqCells n p) else ret) kr zero_CPUAndMemory"

definition updateRequestResourceByResType ::
  "string list \<Rightarrow> SiteCacheInfo \<Rightarrow> string \<Rightarrow> CPUAndMemory \<Rightarrow> SiteCacheInfo" where
  "updateRequestResourceByResType kr n resType res =
     (let m = fold (\<lambda>k m. if has_type k resType then m(k := None) else m) kr (RequestedResources n) in
      n\<lparr>RequestedResources := m(resType \<mapsto> reqNext n), reqCells := (reqCells n)(reqNext n := res),
        reqNext := Suc (reqNext n)\<rparr>)"

text \<open>How many machines of a flavor fit: the smaller of the quotients for CPU and for memory.\<close>

definition flavor_count :: "CPUAndMemory \<Rightarrow> CPUAndMemory \<Rightarrow> int \<Rightarrow> int \<Rightarrow> int option" where
  "flavor_count totalRes req vcpu ram = do {
     count \<leftarrow> go_div (wrap64 (VCPU totalRes - VCPU req)) vcpu;
     memCount \<leftarrow> go_div (wrap64 (Memory totalRes - Memory req)) ram;
     Some (if count > memCount then memCount else count) }"

definition add_flavor :: "string list \<Rightarrow> string list \<Rightarrow> TypedFlavor \<Rightarrow> SiteCacheInfo \<Rightarrow> SiteCacheInfo option" where
  "add_flavor kt kr flv n =
     (case ParseInt (Vcpus flv) of None \<Rightarrow> Some n | Some vcpu \<Rightarrow>
        if vcpu \<le> 0 \<or> Ram flv \<le> 0 then Some n
        else let totalRes = getTotalResourceByResType kt n (ex_ResourceType (tf_OsExtraSpecs flv));
                 req = getRequestResourceByResType kr n (ex_ResourceType (tf_OsExtraSpecs flv)) in
             if VCPU totalRes \<le> 0 \<or> Memory totalRes \<le> 0 then Some n
             else do {
               count \<leftarrow> flavor_count totalRes req vcpu (Ram flv);
               Some (n\<lparr>AllocatableFlavor := (AllocatableFlavor n)
                         (tf_ID flv \<mapsto> wrap64 (map_get 0 (AllocatableFlavor n) (tf_ID flv) + count))\<rparr>) })"

definition updateFlavor ::
  "RegionFlavor list \<Rightarrow> string list \<Rightarrow> string list \<Rightarrow> SiteCacheInfo \<Rightarrow> SiteCacheInfo option" where
  "updateFlavor flavors kt kr n = do {
     let n1 = n\<lparr>AllocatableFlavor := Map.empty\<rparr>;
     fs \<leftarrow> getSupportFlavorsBySite flavors n1;
     foldM (add_flavor kt kr) fs n1 }"

definition host_resources :: "(string \<Rightarrow> rat \<times> bool) \<Rightarrow> Host \<Rightarrow> SiteCacheInfo \<Rightarrow> SiteCacheInfo" where
  "host_resources pf no n =
     (let rt = host_ResourceType no;
          n1 = (if RequestedResources n rt = None
                then n\<lparr>RequestedResources := (RequestedResources n)(rt \<mapsto> reqNext n),
                       reqCells := (reqCells n)(reqNext n := zero_CPUAndMemory), reqNext := Suc (reqNext n)\<rparr>
                else n);
          totalRes = map_get zero_CPUAndMemory (TotalResources n) rt;
          ratio = (if CPUAllocationRatio no \<noteq> [] then fst (pf (CPUAllocationRatio no)) else 1);
          p = map_get 0 (RequestedResources n1) rt in
      n1\<lparr>reqCells := (reqCells n1)(p := res_add (reqCells n1 p) \<lparr>VCPU = UsedVCPUs no, Memory = UsedMem no\<rparr>),
         TotalResources := (TotalResources n1)(rt \<mapsto> res_add totalRes
           \<lparr>VCPU = int64_of_float (of_int (TotalVCPUs no) * ratio), Memory = TotalMem no\<rparr>)\<rparr>)"

definition reset_site :: "SiteCacheInfo \<Rightarrow> Site \<Rightarrow> SiteCacheInfo" where
  "reset_site n site =
     n\<lparr>sci_Site := Some site, RequestedResources := Map.empty, TotalResources := Map.empty,
       AllocatableFlavor := Map.empty, RequestedFlavor := Map.empty,
       AllocatableSpotFlavor := SpotResources site\<rparr>"

definition SetSite ::
  "RegionFlavor list \<Rightarrow> (string \<Rightarrow> rat \<times> bool) \<Rightarrow> string list \<Rightarrow> string list \<Rightarrow> int \<Rightarrow> SiteCacheInfo \<Rightarrow> Site \<Rightarrow>
   (SiteCacheInfo \<times> int) option" where
  "SetSite flavors pf kt kr g n site = do {
     n1 \<leftarrow> updateFlavor flavors kt kr (fold (host_resources pf) (Hosts site) (reset_site n site));
     Some (bump g n1) }"

definition sci_UpdateSiteWithEipPool :: "int \<Rightarrow> SiteCacheInfo \<Rightarrow> EipPool \<Rightarrow> SiteCacheInfo \<times> int" where
  "sci_UpdateSiteWithEipPool g n eipPool = bump g (n\<lparr>sci_eipPool := Some eipPool\<rparr>)"

definition volume_pool_step ::
  "SiteCacheInfo \<Rightarrow> VolumePoolInfo \<Rightarrow> (string \<rightharpoonup> rat) \<times> (string \<rightharpoonup> rat) \<Rightarrow>
   ((string \<rightharpoonup> rat) \<times> (string \<rightharpoonup> rat)) option" where
  "volume_pool_step n storage st = do {
     site \<leftarrow> sci_Site n;
     let (allocatable, requested) = st;
     let c = Capabilities storage;
     let voType = VolumeType c;
     let totalDisks = (if MaxOverSubscriptionRatio c > 0
                       then TotalCapacityGb c * MaxOverSubscriptionRatio c else TotalCapacityGb c);
     Some (if AvailabilityZone (site_RegionAzMap site) = vp_AvailabilityZone storage
           then (allocatable(voType \<mapsto> map_get 0 allocatable voType + totalDisks),
                 requested(voType \<mapsto> map_get 0 requested voType + ProvisionedCapacityGb c))
           else st) }"

definition sci_UpdateSiteWithVolumePool ::
  "int \<Rightarrow> SiteCacheInfo \<Rightarrow> RegionVolumePool \<Rightarrow> (SiteCacheInfo \<times> int) option" where
  "sci_UpdateSiteWithVolumePool g n volumePool = do {
     (allocatable, requested) \<leftarrow> foldM (volume_pool_step n) (StoragePools volumePool) (Map.empty, Map.empty);
     Some (bump g (n\<lparr>TotalStorage := allocatable, RequestedStorage := requested\<rparr>)) }"

text \<open>\<open>n.RequestedStorage[volType] += used\<close> for every volume type of the resource info.\<close>

definition add_storage :: "string list \<Rightarrow> AllResInfo \<Rightarrow> SiteCacheInfo \<Rightarrow> SiteCacheInfo" where
  "add_storage ks resInfo n =
     n\<lparr>RequestedStorage :=
        fold (\<lambda>v m. case ri_Storage resInfo v of None \<Rightarrow> m | Some used \<Rightarrow> m(v \<mapsto> map_get 0 m v + used))
          ks (RequestedStorage n)\<rparr>"

text \<open>\<open>reqRes.VCPU += res.VCPU; reqRes.Memory += res.Memory\<close> through the pointer stored under a key.\<close>

definition add_requested :: "CPUAndMemory \<Rightarrow> string \<Rightarrow> SiteCacheInfo \<Rightarrow> SiteCacheInfo" where
  "add_requested res reqType n =
     (case RequestedResources n reqType of None \<Rightarrow> n
      | Some p \<Rightarrow> n\<lparr>reqCells := (reqCells n)(p := res_add (reqCells n p) res)\<rparr>)"

text \<open>
  \<open>vis\<close> lists the keys of \<open>CpuAndMem\<close> in the order visited, each with the order in which the inner
  loop visits \<open>RequestedResources\<close>; \<open>ks\<close> is the order of \<open>Storage\<close>.
\<close>

definition res_info_step :: "AllResInfo \<Rightarrow> string \<times> string list \<Rightarrow> SiteCacheInfo \<Rightarrow> SiteCacheInfo" where
  "res_info_step resInfo v n =
     (case CpuAndMem resInfo (fst v) of None \<Rightarrow> n
      | Some res \<Rightarrow> fold (\<lambda>reqType n. if has_type reqType (fst v) then add_requested res reqType n else n) (snd v) n)"

definition sci_UpdateSiteWithResInfo ::
  "RegionFlavor list \<Rightarrow> (string \<times> string list) list \<Rightarrow> string list \<Rightarrow> string list \<Rightarrow> string list \<Rightarrow> int \<Rightarrow>
   SiteCacheInfo \<Rightarrow> AllResInfo \<Rightarrow> (SiteCacheInfo \<times> int) option" where
  "sci_UpdateSiteWithResInfo flavors vis ks kt kr g n resInfo = do {
     n1 \<leftarrow> updateFlavor flavors kt kr (add_storage ks resInfo (fold (res_info_step resInfo) vis n));
     Some (bump g n1) }"

text \<open>\<open>weight\<close> is the configured QoS weight (\<open>config.DefaultFloat64\<close>). The generation is not bumped.\<close>

definition sci_UpdateQos :: "rat \<Rightarrow> SiteCacheInfo \<Rightarrow> NetMetricData list \<Rightarrow> SiteCacheInfo" where
  "sci_UpdateQos weight n metrics =
     n\<lparr>Qos := fold (\<lambda>d m. m(nm_City d \<mapsto> nm_Delay d + weight * nm_Lossrate d)) metrics Map.empty\<rparr>"

text \<open>\<open>getf\<close> is \<open>InformerFac.GetFlavor\<close>; \<open>ks\<close> the order of the map \<open>resTypeMapRatio\<close>, \<open>kt\<close> and \<open>kr\<close> as above.\<close>

definition ratio_map ::
  "(string \<Rightarrow> string \<Rightarrow> TypedFlavor option) \<Rightarrow> SiteCacheInfo \<Rightarrow> AllocationRatio list \<Rightarrow> (string \<rightharpoonup> AllocationRatio) option" where
  "ratio_map getf n ratios =
     foldM (\<lambda>r m. do { site \<leftarrow> sci_Site n;
              Some (case getf (ar_Flavor r) (Region (site_RegionAzMap site)) of None \<Rightarrow> m
                    | Some f \<Rightarrow> m(ex_ResourceType (tf_OsExtraSpecs f) \<mapsto> r)) }) ratios Map.empty"

definition ratio_step ::
  "(string \<Rightarrow> rat \<times> bool) \<Rightarrow> (string \<rightharpoonup> AllocationRatio) \<Rightarrow> string list \<Rightarrow> string \<times> string list \<Rightarrow> SiteCacheInfo \<Rightarrow>
   SiteCacheInfo" where
  "ratio_step pf m kt v n =
     (case m (fst v) of None \<Rightarrow> n | Some value \<Rightarrow>
        let totalRes = getTotalResourceByResType kt n (fst v);
            cpuRatio = pf (CoreAllocationRatio (ar_ByType value));
            memRatio = pf (MemAllocationRatio (ar_ByType value)) in
        if VCPU totalRes \<le> 0 \<or> Memory totalRes \<le> 0 \<or> \<not> snd cpuRatio \<or> \<not> snd memRatio then n
        else updateRequestResourceByResType (snd v) n (fst v)
               \<lparr>VCPU = int64_of_float (of_int (VCPU totalRes) * fst cpuRatio),
                Memory = int64_of_float (of_int (Memory totalRes) * fst memRatio)\<rparr>)"

definition sci_UpdateSiteWithRatio ::
  "RegionFlavor list \<Rightarrow> (string \<Rightarrow> string \<Rightarrow> TypedFlavor option) \<Rightarrow> (string \<Rightarrow> rat \<times> bool) \<Rightarrow> (string \<times> string list) list \<Rightarrow>
   string list \<Rightarrow> string list \<Rightarrow> int \<Rightarrow> SiteCacheInfo \<Rightarrow> AllocationRatio list \<Rightarrow> (SiteCacheInfo \<times> int) option" where
  "sci_UpdateSiteWithRatio flavors getf pf vis kt kr g n ratios = do {
     m \<leftarrow> ratio_map getf n ratios;
     n1 \<leftarrow> updateFlavor flavors kt kr (fold (ratio_step pf m kt) vis n);
     Some (bump g n1) }"

definition sci_UpdateSpotResources :: "int \<Rightarrow> SiteCacheInfo \<Rightarrow> (string \<rightharpoonup> SpotResource) \<Rightarrow> SiteCacheInfo \<times> int" where
  "sci_UpdateSpotResources g n spotRes = bump g (n\<lparr>AllocatableSpotFlavor := spotRes\<rparr>)"

datatype key_error = EmptyUID

definition GetStackKey :: "Stack \<Rightarrow> key_error + string" where
  "GetStackKey stack = (if length (UID stack) = 0 then Inl EmptyUID else Inr (UID stack))"

section \<open>Deducting a bound stack\<close>

text \<open>
  \<open>DeductSiteResInfo\<close>. The inner loop inserts the key \<open>resType\<close> into the map it ranges over, so Go may or
  may not visit it: an order of \<open>vis\<close> may name it too, and a name that is absent when its turn comes is
  not visited. \<open>len(n.RequestedResources) == 0\<close> holds exactly when the order is empty.
\<close>

definition deduct_requested :: "CPUAndMemory \<Rightarrow> string \<Rightarrow> string \<Rightarrow> SiteCacheInfo \<Rightarrow> SiteCacheInfo" where
  "deduct_requested res resType reqType n =
     (case RequestedResources n reqType of None \<Rightarrow> n
      | Some p \<Rightarrow> if \<not> has_type reqType resType then n
          else (add_requested res reqType n)\<lparr>RequestedResources := (RequestedResources n)(resType \<mapsto> p)\<rparr>)"

definition deduct_step ::
  "AllResInfo \<Rightarrow> string \<times> string list \<Rightarrow> SiteCacheInfo \<times> string list \<Rightarrow> SiteCacheInfo \<times> string list" where
  "deduct_step resInfo v st =
     (case CpuAndMem resInfo (fst v) of None \<Rightarrow> st | Some res \<Rightarrow>
        let (n, types) = st;
            resType = (if fst v = [] then ''vm'' else fst v);
            types1 = (if fst v = [] then types @ [resType] else types) in
        (if snd v = []
         then n\<lparr>RequestedResources := (RequestedResources n)(resType \<mapsto> reqNext n),
                reqCells := (reqCells n)(reqNext n := \<lparr>VCPU = VCPU res, Memory = Memory res\<rparr>),
                reqNext := Suc (reqNext n)\<rparr>
         else fold (deduct_requested res resType) (snd v) n, types1))"

text \<open>\<open>deductFlavor\<close>: one machine less of every flavor.\<close>

definition deductFlavor :: "string list \<Rightarrow> SiteCacheInfo \<Rightarrow> SiteCacheInfo" where
  "deductFlavor ka n =
     fold (\<lambda>k n. case AllocatableFlavor n k of None \<Rightarrow> n
             | Some v \<Rightarrow> n\<lparr>AllocatableFlavor := (AllocatableFlavor n)(k \<mapsto> wrap64 (v - 1)),
                           RequestedFlavor := (RequestedFlavor n)(k \<mapsto>
                             (case RequestedFlavor n k of None \<Rightarrow> 1 | Some r \<Rightarrow> wrap64 (r + 1)))\<rparr>) ka n"

text \<open>The two loops of \<open>updateSiteFlavor\<close>; \<open>Inl\<close> is an early return from the function.\<close>

fun site_flavor_types ::
  "string list \<Rightarrow> string \<Rightarrow> int \<Rightarrow> int \<Rightarrow> string list \<Rightarrow> SiteCacheInfo \<Rightarrow> (SiteCacheInfo + SiteCacheInfo) option" where
  "site_flavor_types ka fid vcpu ram [] n = Some (Inr n)"
| "site_flavor_types ka fid vcpu ram (rt # rts) n =
     (case TotalResources n rt of None \<Rightarrow> Some (Inl (deductFlavor ka n))
      | Some totalRes \<Rightarrow> do {
          let req = (case RequestedResources n rt of None \<Rightarrow> zero_CPUAndMemory | Some p \<Rightarrow> reqCells n p);
          count \<leftarrow> flavor_count totalRes req vcpu ram;
          site_flavor_types ka fid vcpu ram rts
            (n\<lparr>AllocatableFlavor := (AllocatableFlavor n)(fid \<mapsto>
                 (let v = map_get 0 (AllocatableFlavor n) fid in if v > count then count else v))\<rparr>) })"

fun site_flavors ::
  "string list \<Rightarrow> string \<Rightarrow> string list \<Rightarrow> (string \<rightharpoonup> RegionFlavor) \<Rightarrow> string list \<Rightarrow> SiteCacheInfo \<Rightarrow> SiteCacheInfo option" where
  "site_flavors ka regionName types regionFlavors [] n = Some n"
| "site_flavors ka regionName types regionFlavors (fid # fids) n =
     (case regionFlavors (regionName @ ''||'' @ fid) of None \<Rightarrow> Some (deductFlavor ka n)
      | Some flv \<Rightarrow>
         (case ParseInt (Vcpus flv) of None \<Rightarrow> Some (deductFlavor ka n)
          | Some vcpu \<Rightarrow> do {
              r \<leftarrow> site_flavor_types ka fid vcpu (Ram flv) types n;
              (case r of Inl n1 \<Rightarrow> Some n1 | Inr n1 \<Rightarrow> site_flavors ka regionName types regionFlavors fids n1) }))"

definition updateSiteFlavor ::
  "string list \<Rightarrow> string list \<Rightarrow> SiteCacheInfo \<Rightarrow> string list \<Rightarrow> (string \<rightharpoonup> RegionFlavor) \<Rightarrow> SiteCacheInfo option" where
  "updateSiteFlavor ka kd n types regionFlavors = do {
     site \<leftarrow> sci_Site n;
     site_flavors kd (GetRegionName (SiteID site)) types regionFlavors ka n }"

definition DeductSiteResInfo ::
  "(string \<times> string list) list \<Rightarrow> string list \<Rightarrow> string list \<Rightarrow> string list \<Rightarrow> int \<Rightarrow> SiteCacheInfo \<Rightarrow> AllResInfo \<Rightarrow>
   (string \<rightharpoonup> RegionFlavor) \<Rightarrow> (SiteCacheInfo \<times> int) option" where
  "DeductSiteResInfo vis ks ka kd g n resInfo regionFlavorMap = do {
     let (n1, types) = fold (deduct_step resInfo) vis (n, []);
     n2 \<leftarrow> updateSiteFlavor ka kd (add_storage ks resInfo n1) types regionFlavorMap;
     Some (bump g n2) }"

end
