(* ===== verification/SchedCache.thy ===== *)
theory SchedCache
  imports SiteTree SiteCacheInfo StringSets
begin

text \<open>
  The scheduler cache and its snapshot, \<open>pkg/scheduler/internal/cache/cache.go\<close> and \<open>snapshot.go\<close>.

  \<^item> The cached sites form a doubly linked list, most recently updated first. An item is only reached through
    the map \<open>siteCacheInfos\<close> and its neighbours, so the pointer to an item is its site ID: \<open>it_next\<close>, \<open>it_prev\<close>
    and \<open>headSiteCacheInfo\<close> are \<open>string option\<close>, \<open>None\<close> for nil.
  \<^item> The map and the list of a snapshot share pointers, so a snapshot has cells (\<open>snap_cells\<close>) and the map and the
    list hold addresses; \<open>snap_next\<close> is the next unused one.
  \<^item> \<open>g\<close> is the package variable \<open>generation\<close> of the site infos. Operations run under the lock of the cache, one
    after the other. \<open>None\<close> is a call that does not return: a panic, \<open>klog.Fatalf\<close>, or a goroutine that locks
    the mutex it holds.
\<close>

section \<open>State\<close>

record siteCacheInfoListItem =
  it_info :: SiteCacheInfo
  it_next :: "string option"
  it_prev :: "string option"

record StackState =
  ss_stack :: Stack
  ss_deadline :: "gotime option"
  bindingFinished :: bool

record schedulerCache =
  assumedStacks :: "string \<rightharpoonup> bool"
  stackStates :: "string \<rightharpoonup> StackState"
  siteCacheInfos :: "string \<rightharpoonup> siteCacheInfoListItem"
  headSiteCacheInfo :: "string option"
  regionToSite :: "string \<rightharpoonup> string set"
  cache_siteTree :: siteTree

datatype cache_error =
  KeyError key_error
| NotAssumed string
| AlreadyInCache string
| AlreadyAdded string
| NotAdded string
| StackNotFound string
| SiteNotFound string
| TreeError
| Inconsistent int int

definition newSchedulerCache :: schedulerCache where
  "newSchedulerCache =
     \<lparr>assumedStacks = Map.empty, stackStates = Map.empty, siteCacheInfos = Map.empty, headSiteCacheInfo = None,
      regionToSite = Map.empty, cache_siteTree = newSiteCacheTree []\<rparr>"

definition newSiteCacheInfoListItem :: "SiteCacheInfo \<Rightarrow> siteCacheInfoListItem" where
  "newSiteCacheInfoListItem ni = \<lparr>it_info = ni, it_next = None, it_prev = None\<rparr>"

section \<open>The linked list\<close>

type_synonym items = "string \<rightharpoonup> siteCacheInfoListItem"

text \<open>Assignments through a pointer to an item, and through a pointer that may be nil.\<close>

definition upd_item :: "string \<Rightarrow> (siteCacheInfoListItem \<Rightarrow> siteCacheInfoListItem) \<Rightarrow> items \<Rightarrow> items" where
  "upd_item p f m = (case m p of None \<Rightarrow> m | Some it \<Rightarrow> m(p \<mapsto> f it))"

definition upd_ptr :: "string option \<Rightarrow> (siteCacheInfoListItem \<Rightarrow> siteCacheInfoListItem) \<Rightarrow> items \<Rightarrow> items" where
  "upd_ptr p f m = (case p of None \<Rightarrow> m | Some q \<Rightarrow> upd_item q f m)"

text \<open>\<open>if ni.prev != nil {ni.prev.next = ni.next}; if ni.next != nil {ni.next.prev = ni.prev}\<close>\<close>

definition unlink :: "siteCacheInfoListItem \<Rightarrow> items \<Rightarrow> items" where
  "unlink ni m =
     upd_ptr (it_next ni) (\<lambda>it. it\<lparr>it_prev := it_prev ni\<rparr>)
       (upd_ptr (it_prev ni) (\<lambda>it. it\<lparr>it_next := it_next ni\<rparr>) m)"

definition moveSiteCacheInfoToHead :: "string \<Rightarrow> schedulerCache \<Rightarrow> schedulerCache" where
  "moveSiteCacheInfoToHead siteID c =
     (case siteCacheInfos c siteID of None \<Rightarrow> c
      | Some ni \<Rightarrow>
          if headSiteCacheInfo c = Some siteID then c
          else let m1 = unlink ni (siteCacheInfos c);
                   m2 = upd_ptr (headSiteCacheInfo c) (\<lambda>it. it\<lparr>it_prev := Some siteID\<rparr>) m1;
                   m3 = upd_item siteID (\<lambda>it. it\<lparr>it_next := headSiteCacheInfo c, it_prev := None\<rparr>) m2
               in c\<lparr>siteCacheInfos := m3, headSiteCacheInfo := Some siteID\<rparr>)"

definition removeSiteCacheInfoFromList :: "string \<Rightarrow> schedulerCache \<Rightarrow> schedulerCache" where
  "removeSiteCacheInfoFromList siteID c =
     (case siteCacheInfos c siteID of None \<Rightarrow> c
      | Some ni \<Rightarrow>
          c\<lparr>siteCacheInfos := (unlink ni (siteCacheInfos c))(siteID := None),
            headSiteCacheInfo := (if headSiteCacheInfo c = Some siteID then it_next ni else headSiteCacheInfo c)\<rparr>)"

text \<open>\<open>n.info.Op(...)\<close> for the item \<open>n\<close> of a site.\<close>

definition set_info :: "string \<Rightarrow> SiteCacheInfo \<Rightarrow> schedulerCache \<Rightarrow> schedulerCache" where
  "set_info siteID n c = c\<lparr>siteCacheInfos := upd_item siteID (\<lambda>it. it\<lparr>it_info := n\<rparr>) (siteCacheInfos c)\<rparr>"

definition info_of :: "schedulerCache \<Rightarrow> string \<rightharpoonup> SiteCacheInfo" where
  "info_of c siteID = map_option it_info (siteCacheInfos c siteID)"

text \<open>\<open>n, ok := cache.siteCacheInfos[id]; if !ok { n = newSiteCacheInfoListItem(NewSiteCacheInfo()); ... }\<close>\<close>

definition ensure_item :: "string \<Rightarrow> schedulerCache \<Rightarrow> schedulerCache" where
  "ensure_item siteID c =
     (if siteCacheInfos c siteID = None
      then c\<lparr>siteCacheInfos := (siteCacheInfos c)(siteID \<mapsto> newSiteCacheInfoListItem (fst (NewSiteCacheInfo 0 [])))\<rparr>
      else c)"

section \<open>Stacks\<close>

definition cache_addStack :: "int \<Rightarrow> schedulerCache \<Rightarrow> Stack \<Rightarrow> schedulerCache \<times> int" where
  "cache_addStack g c stack =
     (let siteID = sd_SiteID (stk_Selected stack); c1 = ensure_item siteID c in
      case info_of c1 siteID of None \<Rightarrow> (c1, g)
      | Some n \<Rightarrow> let (n1, g1) = sci_AddStack g n stack in
          (moveSiteCacheInfoToHead siteID (set_info siteID n1 c1), g1))"

definition cache_removeStack :: "schedulerCache \<Rightarrow> Stack \<Rightarrow> schedulerCache" where
  "cache_removeStack c stack =
     (let siteID = sd_SiteID (stk_Selected stack) in
      case info_of c siteID of None \<Rightarrow> c
      | Some n \<Rightarrow> moveSiteCacheInfoToHead siteID (set_info siteID (sci_RemoveStack n stack) c))"

definition cache_updateStack :: "int \<Rightarrow> schedulerCache \<Rightarrow> Stack \<Rightarrow> Stack \<Rightarrow> schedulerCache \<times> int" where
  "cache_updateStack g c oldStack newStack = cache_addStack g (cache_removeStack c oldStack) newStack"

definition drop_stack :: "string \<Rightarrow> schedulerCache \<Rightarrow> schedulerCache" where
  "drop_stack key c = c\<lparr>assumedStacks := (assumedStacks c)(key := None), stackStates := (stackStates c)(key := None)\<rparr>"

definition ForgetStack :: "schedulerCache \<Rightarrow> Stack \<Rightarrow> cache_error option \<times> schedulerCache" where
  "ForgetStack c stack =
     (case GetStackKey stack of Inl e \<Rightarrow> (Some (KeyError e), c)
      | Inr key \<Rightarrow>
          if stackStates c key \<noteq> None \<and> map_get False (assumedStacks c) key
          then (None, drop_stack key (cache_removeStack c stack))
          else (Some (NotAssumed key), c))"

definition new_StackState :: "Stack \<Rightarrow> StackState" where
  "new_StackState stack = \<lparr>ss_stack = stack, ss_deadline = None, bindingFinished = False\<rparr>"

definition AssumeStack :: "int \<Rightarrow> schedulerCache \<Rightarrow> Stack \<Rightarrow> cache_error option \<times> schedulerCache \<times> int" where
  "AssumeStack g c stack =
     (case GetStackKey stack of Inl e \<Rightarrow> (Some (KeyError e), c, g)
      | Inr key \<Rightarrow>
          if stackStates c key \<noteq> None then (Some (AlreadyInCache key), c, g)
          else let (c1, g1) = cache_addStack g c stack in
            (None, c1\<lparr>stackStates := (stackStates c1)(key \<mapsto> new_StackState stack),
                      assumedStacks := (assumedStacks c1)(key \<mapsto> True)\<rparr>, g1))"

text \<open>
  \<open>AddStack\<close>. When an assumed stack arrives with another selection, the method calls itself while it holds
  the mutex, and does not return.
\<close>

definition cache_AddStack :: "int \<Rightarrow> schedulerCache \<Rightarrow> Stack \<Rightarrow> (cache_error option \<times> schedulerCache \<times> int) option" where
  "cache_AddStack g c stack =
     (case GetStackKey stack of Inl e \<Rightarrow> Some (Some (KeyError e), c, g)
      | Inr key \<Rightarrow>
         (case stackStates c key of
            Some currState \<Rightarrow>
              if map_get False (assumedStacks c) key
              then if stk_Selected (ss_stack currState) \<noteq> stk_Selected stack then None
                   else Some (None, c\<lparr>assumedStacks := (assumedStacks c)(key := None),
                     stackStates := (stackStates c)(key \<mapsto> currState\<lparr>ss_deadline := None, ss_stack := stack\<rparr>)\<rparr>, g)
              else Some (Some (AlreadyAdded key), c, g)
          | None \<Rightarrow>
              let (c1, g1) = cache_addStack g c stack in
              Some (None, c1\<lparr>stackStates := (stackStates c1)(key \<mapsto> new_StackState stack)\<rparr>, g1)))"

definition cache_UpdateStack ::
  "int \<Rightarrow> schedulerCache \<Rightarrow> Stack \<Rightarrow> Stack \<Rightarrow> cache_error option \<times> schedulerCache \<times> int" where
  "cache_UpdateStack g c oldStack newStack =
     (case GetStackKey oldStack of Inl e \<Rightarrow> (Some (KeyError e), c, g)
      | Inr key \<Rightarrow>
         (case stackStates c key of
            Some currState \<Rightarrow>
              if \<not> map_get False (assumedStacks c) key
              then let (c1, g1) = cache_updateStack g c oldStack newStack in
                (None, c1\<lparr>stackStates := (stackStates c1)(key \<mapsto> currState\<lparr>ss_stack := newStack\<rparr>)\<rparr>, g1)
              else (Some (NotAdded key), c, g)
          | None \<Rightarrow> (Some (NotAdded key), c, g)))"

definition cache_RemoveStack :: "schedulerCache \<Rightarrow> Stack \<Rightarrow> cache_error option \<times> schedulerCache" where
  "cache_RemoveStack c stack =
     (case GetStackKey stack of Inl e \<Rightarrow> (Some (KeyError e), c)
      | Inr key \<Rightarrow>
         (case stackStates c key of
            Some currState \<Rightarrow>
              if \<not> map_get False (assumedStacks c) key
              then (let c1 = cache_removeStack c (ss_stack currState) in
                    (None, c1\<lparr>stackStates := (stackStates c1)(key := None)\<rparr>))
              else (Some (StackNotFound key), c)
          | None \<Rightarrow> (Some (StackNotFound key), c)))"

definition IsAssumedStack :: "schedulerCache \<Rightarrow> Stack \<Rightarrow> cache_error + bool" where
  "IsAssumedStack c stack =
     (case GetStackKey stack of Inl e \<Rightarrow> Inl (KeyError e) | Inr key \<Rightarrow> Inr (map_get False (assumedStacks c) key))"

definition cache_GetStack :: "schedulerCache \<Rightarrow> Stack \<Rightarrow> cache_error + Stack" where
  "cache_GetStack c stack =
     (case GetStackKey stack of Inl e \<Rightarrow> Inl (KeyError e)
      | Inr key \<Rightarrow> (case stackStates c key of None \<Rightarrow> Inl (StackNotFound key) | Some st \<Rightarrow> Inr (ss_stack st)))"

text \<open>\<open>expireStack\<close>, and the periodic \<open>cleanupAssumedStacks\<close> with the clock as \<open>now\<close>; \<open>ks\<close> is the order of \<open>assumedStacks\<close>.\<close>

definition expireStack :: "string \<Rightarrow> StackState \<Rightarrow> schedulerCache \<Rightarrow> schedulerCache" where
  "expireStack key ps c = drop_stack key (cache_removeStack c (ss_stack ps))"

definition cleanup_assumed_step :: "gotime \<Rightarrow> string \<Rightarrow> schedulerCache \<Rightarrow> schedulerCache option" where
  "cleanup_assumed_step now key c = do {
     ps \<leftarrow> stackStates c key;
     if \<not> bindingFinished ps then Some c
     else do { deadline \<leftarrow> ss_deadline ps; Some (if now > deadline then expireStack key ps c else c) } }"

definition cleanupAssumedStacks :: "string list \<Rightarrow> gotime \<Rightarrow> schedulerCache \<Rightarrow> schedulerCache option" where
  "cleanupAssumedStacks ks now c = foldM (cleanup_assumed_step now) ks c"

text \<open>\<open>ks\<close> is the order in which \<open>siteCacheInfos\<close> is visited.\<close>

definition cache_FilteredList :: "string list \<Rightarrow> (Stack \<Rightarrow> bool) \<Rightarrow> schedulerCache \<Rightarrow> Stack list" where
  "cache_FilteredList ks stackFilter c =
     fold (\<lambda>k acc. case info_of c k of None \<Rightarrow> acc | Some n \<Rightarrow> acc @ filter stackFilter (sci_stacks n)) ks []"

definition cache_List :: "string list \<Rightarrow> schedulerCache \<Rightarrow> Stack list" where
  "cache_List ks c = cache_FilteredList ks (\<lambda>_. True) c"

section \<open>Sites\<close>

record SiteEnv =
  env_flavors :: "RegionFlavor list"
  env_ParseFloat :: "string \<Rightarrow> rat \<times> bool"
  env_GetFlavor :: "string \<Rightarrow> string \<Rightarrow> TypedFlavor option"
  env_QosWeight :: rat

definition updateRegionToSite :: "Site \<Rightarrow> schedulerCache \<Rightarrow> schedulerCache" where
  "updateRegionToSite site c =
     (let r = Region (site_RegionAzMap site) in
      c\<lparr>regionToSite := (regionToSite c)(r \<mapsto> insert (SiteID site) (map_get {} (regionToSite c) r))\<rparr>)"

definition deleteRegionToSite :: "Site \<Rightarrow> schedulerCache \<Rightarrow> schedulerCache" where
  "deleteRegionToSite site c =
     (let r = Region (site_RegionAzMap site) in
      case regionToSite c r of None \<Rightarrow> c
      | Some s \<Rightarrow> c\<lparr>regionToSite := (regionToSite c)(r \<mapsto> s - {SiteID site})\<rparr>)"

text \<open>\<open>return n.info.SetSite(site)\<close>; \<open>kt\<close> and \<open>kr\<close> are the orders in which the resource maps are visited.\<close>

definition set_site :: "SiteEnv \<Rightarrow> string list \<Rightarrow> string list \<Rightarrow> int \<Rightarrow> Site \<Rightarrow> schedulerCache \<Rightarrow> (schedulerCache \<times> int) option" where
  "set_site env kt kr g site c = do {
     n \<leftarrow> info_of c (SiteID site);
     (n1, g1) \<leftarrow> SetSite (env_flavors env) (env_ParseFloat env) kt kr g n site;
     Some (set_info (SiteID site) n1 c, g1) }"

definition cache_AddSite ::
  "SiteEnv \<Rightarrow> string list \<Rightarrow> string list \<Rightarrow> int \<Rightarrow> schedulerCache \<Rightarrow> Site \<Rightarrow> (schedulerCache \<times> int) option" where
  "cache_AddSite env kt kr g c site =
     (let c1 = moveSiteCacheInfoToHead (SiteID site) (ensure_item (SiteID site) c);
          c2 = c1\<lparr>cache_siteTree := tree_addSite (cache_siteTree c1) site\<rparr>
      in set_site env kt kr g site (updateRegionToSite site c2))"

definition cache_UpdateSite ::
  "SiteEnv \<Rightarrow> string list \<Rightarrow> string list \<Rightarrow> int \<Rightarrow> schedulerCache \<Rightarrow> Site option \<Rightarrow> Site \<Rightarrow> (schedulerCache \<times> int) option" where
  "cache_UpdateSite env kt kr g c oldSite newSite = do {
     let t = (if siteCacheInfos c (SiteID newSite) = None then tree_addSite (cache_siteTree c) newSite else cache_siteTree c);
     let c1 = moveSiteCacheInfoToHead (SiteID newSite) (ensure_item (SiteID newSite) (c\<lparr>cache_siteTree := t\<rparr>));
     t1 \<leftarrow> tree_updateSite t oldSite newSite;
     old \<leftarrow> oldSite;
     set_site env kt kr g newSite (updateRegionToSite newSite (deleteRegionToSite old (c1\<lparr>cache_siteTree := t1\<rparr>))) }"

definition cache_RemoveSite :: "schedulerCache \<Rightarrow> Site \<Rightarrow> cache_error option \<times> schedulerCache" where
  "cache_RemoveSite c site =
     (if siteCacheInfos c (SiteID site) = None then (Some (SiteNotFound (SiteID site)), c)
      else let c1 = removeSiteCacheInfoFromList (SiteID site) c in
           case tree_removeSite (cache_siteTree c1) site of
             (False, t) \<Rightarrow> (Some TreeError, c1\<lparr>cache_siteTree := t\<rparr>)
           | (True, t) \<Rightarrow> (None, deleteRegionToSite site (c1\<lparr>cache_siteTree := t\<rparr>)))"

text \<open>The updates of one site: run an operation of its info, then move the site to the head.\<close>

definition touch_site ::
  "(SiteCacheInfo \<Rightarrow> (SiteCacheInfo \<times> int) option) \<Rightarrow> string \<Rightarrow> SiteCacheInfo \<Rightarrow> schedulerCache \<Rightarrow> (schedulerCache \<times> int) option" where
  "touch_site upd siteID n c = do {
     (n1, g1) \<leftarrow> upd n;
     Some (moveSiteCacheInfoToHead siteID (set_info siteID n1 c), g1) }"

definition cache_UpdateSiteWithEipPool ::
  "int \<Rightarrow> schedulerCache \<Rightarrow> string \<Rightarrow> EipPool \<Rightarrow> (cache_error option \<times> schedulerCache \<times> int) option" where
  "cache_UpdateSiteWithEipPool g c siteID eipPool =
     (case info_of c siteID of None \<Rightarrow> Some (Some (SiteNotFound siteID), c, g)
      | Some n \<Rightarrow> map_option (Pair None) (touch_site (\<lambda>n. Some (sci_UpdateSiteWithEipPool g n eipPool)) siteID n c))"

definition cache_UpdateSiteWithVolumePool ::
  "int \<Rightarrow> schedulerCache \<Rightarrow> string \<Rightarrow> RegionVolumePool \<Rightarrow> (cache_error option \<times> schedulerCache \<times> int) option" where
  "cache_UpdateSiteWithVolumePool g c siteID volumePool =
     (case info_of c siteID of None \<Rightarrow> Some (Some (SiteNotFound siteID), c, g)
      | Some n \<Rightarrow> map_option (Pair None) (touch_site (\<lambda>n. sci_UpdateSiteWithVolumePool g n volumePool) siteID n c))"

text \<open>The updates of all sites of a region; \<open>ks\<close> is the order of the set \<open>regionToSite[region]\<close>. Errors are logged.\<close>

definition cache_UpdateEipPool ::
  "string list \<Rightarrow> int \<Rightarrow> schedulerCache \<Rightarrow> EipPool \<Rightarrow> (schedulerCache \<times> int) option" where
  "cache_UpdateEipPool ks g c eipPool =
     (if regionToSite c (eip_Region eipPool) = None then Some (c, g)
      else foldM (\<lambda>siteID (c, g). do {
             (e, c1, g1) \<leftarrow> cache_UpdateSiteWithEipPool g c siteID eipPool; Some (c1, g1) }) ks (c, g))"

definition cache_UpdateVolumePool ::
  "string list \<Rightarrow> int \<Rightarrow> schedulerCache \<Rightarrow> RegionVolumePool \<Rightarrow> (schedulerCache \<times> int) option" where
  "cache_UpdateVolumePool ks g c volumePool =
     (if regionToSite c (vp_Region volumePool) = None then Some (c, g)
      else foldM (\<lambda>siteID (c, g). do {
             (e, c1, g1) \<leftarrow> cache_UpdateSiteWithVolumePool g c siteID volumePool; Some (c1, g1) }) ks (c, g))"

text \<open>\<open>vis\<close>, \<open>ks\<close>, \<open>kt\<close> and \<open>kr\<close> are the iteration orders of the operation on the site info.\<close>

definition cache_UpdateSiteWithResInfo ::
  "SiteEnv \<Rightarrow> (string \<times> string list) list \<Rightarrow> string list \<Rightarrow> string list \<Rightarrow> string list \<Rightarrow> int \<Rightarrow> schedulerCache \<Rightarrow> string \<Rightarrow>
   AllResInfo \<Rightarrow> (schedulerCache \<times> int) option" where
  "cache_UpdateSiteWithResInfo env vis ks kt kr g c siteID resInfo =
     (case info_of c siteID of None \<Rightarrow> Some (c, g)
      | Some n \<Rightarrow> touch_site (\<lambda>n. sci_UpdateSiteWithResInfo (env_flavors env) vis ks kt kr g n resInfo) siteID n c)"

definition cache_UpdateQos :: "SiteEnv \<Rightarrow> schedulerCache \<Rightarrow> string \<Rightarrow> NetMetricData list \<Rightarrow> schedulerCache" where
  "cache_UpdateQos env c siteID metrics =
     (case info_of c siteID of None \<Rightarrow> c
      | Some n \<Rightarrow> moveSiteCacheInfoToHead siteID (set_info siteID (sci_UpdateQos (env_QosWeight env) n metrics) c))"

text \<open>
  The first site of a region and zone in the order \<open>ks\<close> of \<open>siteCacheInfos\<close>; an item without a site is
  dereferenced.
\<close>

fun first_site_in :: "string list \<Rightarrow> schedulerCache \<Rightarrow> string \<Rightarrow> string \<Rightarrow> (string \<times> SiteCacheInfo \<times> Site) option option" where
  "first_site_in [] c region az = Some None"
| "first_site_in (k # ks) c region az =
     (case info_of c k of None \<Rightarrow> first_site_in ks c region az
      | Some n \<Rightarrow> do {
          site \<leftarrow> sci_Site n;
          if Region (site_RegionAzMap site) = region \<and> AvailabilityZone (site_RegionAzMap site) = az
          then Some (Some (k, n, site)) else first_site_in ks c region az })"

definition update_first_site ::
  "(SiteCacheInfo \<Rightarrow> (SiteCacheInfo \<times> int) option) \<Rightarrow> string list \<Rightarrow> int \<Rightarrow> schedulerCache \<Rightarrow> string \<Rightarrow> string \<Rightarrow>
   (schedulerCache \<times> int) option" where
  "update_first_site upd ks g c region az = do {
     r \<leftarrow> first_site_in ks c region az;
     (case r of None \<Rightarrow> Some (c, g)
      | Some (k, n, site) \<Rightarrow> do {
          (n1, g1) \<leftarrow> upd n;
          Some (moveSiteCacheInfoToHead (SiteID site) (set_info k n1 c), g1) }) }"

definition cache_UpdateSiteWithRatio ::
  "SiteEnv \<Rightarrow> string list \<Rightarrow> (string \<times> string list) list \<Rightarrow> string list \<Rightarrow> string list \<Rightarrow> int \<Rightarrow> schedulerCache \<Rightarrow> string \<Rightarrow>
   string \<Rightarrow> AllocationRatio list \<Rightarrow> (schedulerCache \<times> int) option" where
  "cache_UpdateSiteWithRatio env ks vis kt kr g c region az ratios =
     update_first_site
       (\<lambda>n. sci_UpdateSiteWithRatio (env_flavors env) (env_GetFlavor env) (env_ParseFloat env) vis kt kr g n ratios) ks g c region az"

definition cache_UpdateSpotResources ::
  "string list \<Rightarrow> int \<Rightarrow> schedulerCache \<Rightarrow> string \<Rightarrow> string \<Rightarrow> (string \<rightharpoonup> SpotResource) \<Rightarrow> (schedulerCache \<times> int) option" where
  "cache_UpdateSpotResources ks g c region az spotRes =
     update_first_site (\<lambda>n. Some (sci_UpdateSpotResources g n spotRes)) ks g c region az"

definition cache_GetRegions :: "string list \<Rightarrow> schedulerCache \<Rightarrow> (string \<rightharpoonup> CloudRegion) option" where
  "cache_GetRegions ks c =
     foldM (\<lambda>k ret. case info_of c k of None \<Rightarrow> Some ret
        | Some n \<Rightarrow> do {
            site \<leftarrow> sci_Site n;
            let region = Region (site_RegionAzMap site);
            let cr = map_get \<lparr>cr_Region = region, cr_AvailabilityZone = []\<rparr> ret region;
            Some (ret(region \<mapsto> cr\<lparr>cr_AvailabilityZone := cr_AvailabilityZone cr @ [AvailabilityZone (site_RegionAzMap site)]\<rparr>)) })
       ks Map.empty"

section \<open>Flavors\<close>

record flavorCache =
  fc_RegionFlavorMap :: "string \<rightharpoonup> RegionFlavor"
  fc_FlavorMap :: "string \<rightharpoonup> RegionFlavor"

definition GetFlavor :: "flavorCache \<Rightarrow> string \<Rightarrow> string \<Rightarrow> RegionFlavor option" where
  "GetFlavor fc flavorID region =
     (if region = [] then fc_FlavorMap fc flavorID else fc_RegionFlavorMap fc (region @ ''||'' @ flavorID))"

definition UpdateFlavorMap :: "flavorCache \<Rightarrow> (string \<rightharpoonup> RegionFlavor) \<Rightarrow> (string \<rightharpoonup> RegionFlavor) \<Rightarrow> flavorCache" where
  "UpdateFlavorMap fc regionFlavorMap flavorMap =
     fc\<lparr>fc_FlavorMap := flavorMap, fc_RegionFlavorMap := regionFlavorMap\<rparr>"

section \<open>Snapshots\<close>

record Snapshot =
  SiteCacheInfoMap :: "string \<rightharpoonup> nat"
  SiteCacheInfoList :: "nat list"
  snap_cells :: "nat \<Rightarrow> SiteCacheInfo"
  snap_next :: nat
  snap_generation :: int
  snap_RegionFlavorMap :: "string \<rightharpoonup> RegionFlavor"
  snap_FlavorMap :: "string \<rightharpoonup> RegionFlavor"

definition NewEmptySnapshot :: Snapshot where
  "NewEmptySnapshot =
     \<lparr>SiteCacheInfoMap = Map.empty, SiteCacheInfoList = [], snap_cells = (\<lambda>_. zero_SiteCacheInfo), snap_next = 0,
      snap_generation = 0, snap_RegionFlavorMap = Map.empty, snap_FlavorMap = Map.empty\<rparr>"

definition Snapshot_Get :: "Snapshot \<Rightarrow> string \<Rightarrow> cache_error + SiteCacheInfo" where
  "Snapshot_Get s siteID =
     (case SiteCacheInfoMap s siteID of None \<Rightarrow> Inl (SiteNotFound siteID) | Some a \<Rightarrow> Inr (snap_cells s a))"

definition stackLister_FilteredList :: "(Stack \<Rightarrow> bool) \<Rightarrow> SiteCacheInfo list \<Rightarrow> Stack list" where
  "stackLister_FilteredList flt p = concat (map (\<lambda>n. filter flt (sci_stacks n)) p)"

text \<open>One site of the list in \<open>UpdateSnapshot\<close>: clone it into its cell, which is a new one for a new site.\<close>

definition snapshot_site ::
  "(string \<Rightarrow> string list) \<Rightarrow> SiteCacheInfo \<Rightarrow> Snapshot \<times> bool \<Rightarrow> (Snapshot \<times> bool) option" where
  "snapshot_site ord n st =
     (case sci_Site n of None \<Rightarrow> Some st
      | Some np \<Rightarrow> do {
          let (s, updateAllLists) = st;
          let (s1, a, upd) = (case SiteCacheInfoMap s (SiteID np) of
               Some a \<Rightarrow> (s, a, updateAllLists)
             | None \<Rightarrow> (s\<lparr>SiteCacheInfoMap := (SiteCacheInfoMap s)(SiteID np \<mapsto> snap_next s), snap_next := Suc (snap_next s)\<rparr>,
                        snap_next s, True));
          clone \<leftarrow> SiteCacheInfo_Clone (ord (SiteID np)) n;
          Some (s1\<lparr>snap_cells := (snap_cells s1)(a := clone)\<rparr>, upd) })"

text \<open>The loop along the linked list; it stops at the first site that is not newer than the snapshot.\<close>

partial_function (option) snapshot_loop ::
  "(string \<Rightarrow> string list) \<Rightarrow> items \<Rightarrow> int \<Rightarrow> string option \<Rightarrow> Snapshot \<times> bool \<Rightarrow> (Snapshot \<times> bool) option" where
  "snapshot_loop ord m gen p st =
     (case p of None \<Rightarrow> Some st
      | Some k \<Rightarrow>
         (case m k of None \<Rightarrow> None
          | Some it \<Rightarrow>
              if sci_generation (it_info it) \<le> gen then Some st
              else Option.bind (snapshot_site ord (it_info it) st) (snapshot_loop ord m gen (it_next it))))"

declare snapshot_loop.simps [code]

text \<open>\<open>removeDeletedSiteCacheInfosFromSnapshot\<close>; \<open>ks\<close> is the order of the snapshot map.\<close>

fun remove_deleted :: "items \<Rightarrow> string list \<Rightarrow> int \<Rightarrow> (string \<rightharpoonup> nat) \<Rightarrow> string \<rightharpoonup> nat" where
  "remove_deleted infos [] toDelete m = m"
| "remove_deleted infos (name # ks) toDelete m =
     (if toDelete \<le> 0 then m
      else if infos name = None then remove_deleted infos ks (toDelete - 1) (m(name := None))
      else remove_deleted infos ks toDelete m)"

definition updateSiteCacheInfoSnapshotList :: "schedulerCache \<Rightarrow> Snapshot \<Rightarrow> (schedulerCache \<times> Snapshot) option" where
  "updateSiteCacheInfoSnapshotList c s = do {
     (ids, t) \<leftarrow> tree_nexts (nat (st_numSites (cache_siteTree c))) (cache_siteTree c);
     Some (c\<lparr>cache_siteTree := t\<rparr>, s\<lparr>SiteCacheInfoList := List.map_filter (SiteCacheInfoMap s) ids\<rparr>) }"

text \<open>
  \<open>UpdateSnapshot\<close>. \<open>km\<close> is the order of the snapshot map after the loop and \<open>kc\<close> one of \<open>siteCacheInfos\<close>; their
  lengths are the lengths of the maps. \<open>ord\<close> gives the order in which \<open>Clone\<close> visits the requested resources of a site.
\<close>

definition UpdateSnapshot ::
  "(string \<Rightarrow> string list) \<Rightarrow> string list \<Rightarrow> string list \<Rightarrow> schedulerCache \<Rightarrow> Snapshot \<Rightarrow>
   (cache_error option \<times> schedulerCache \<times> Snapshot) option" where
  "UpdateSnapshot ord km kc c s = do {
     (s1, upd1) \<leftarrow> snapshot_loop ord (siteCacheInfos c) (snap_generation s) (headSiteCacheInfo c) (s, False);
     s2 \<leftarrow> (case headSiteCacheInfo c of None \<Rightarrow> Some s1
            | Some h \<Rightarrow> do { it \<leftarrow> siteCacheInfos c h; Some (s1\<lparr>snap_generation := sci_generation (it_info it)\<rparr>) });
     let (s3, upd3) = (if length km > length kc
          then (s2\<lparr>SiteCacheInfoMap := remove_deleted (siteCacheInfos c) km (int (length km) - int (length kc)) (SiteCacheInfoMap s2)\<rparr>, True)
          else (s2, upd1));
     (c4, s4) \<leftarrow> (if upd3 then updateSiteCacheInfoSnapshotList c s3 else Some (c, s3));
     if int (length (SiteCacheInfoList s4)) \<noteq> st_numSites (cache_siteTree c4)
     then do {
       (c5, s5) \<leftarrow> updateSiteCacheInfoSnapshotList c4 s4;
       Some (Some (Inconsistent (int (length (SiteCacheInfoList s4))) (st_numSites (cache_siteTree c4))), c5, s5) }
     else Some (None, c4, s4) }"

section \<open>Debugging and tests\<close>

text \<open>\<open>Dump\<close>: \<open>ks\<close> is the order of \<open>siteCacheInfos\<close>, \<open>ord\<close> that of the requested resources of a site.\<close>

definition cache_Dump ::
  "string list \<Rightarrow> (string \<Rightarrow> string list) \<Rightarrow> schedulerCache \<Rightarrow> ((string \<rightharpoonup> SiteCacheInfo) \<times> (string \<rightharpoonup> bool)) option" where
  "cache_Dump ks ord c = do {
     infos \<leftarrow> foldM (\<lambda>k m. case info_of c k of None \<Rightarrow> Some m
        | Some n \<Rightarrow> do { clone \<leftarrow> SiteCacheInfo_Clone (ord k) n; Some (m(k \<mapsto> clone)) }) ks Map.empty;
     Some (infos, assumedStacks c) }"

text \<open>\<open>createSiteInfoCacheMap\<close>: the infos of a list of stacks and a list of sites; \<open>ord\<close> gives the two orders of \<open>SetSite\<close>.\<close>

definition createSiteInfoCacheMap ::
  "SiteEnv \<Rightarrow> (string \<Rightarrow> string list \<times> string list) \<Rightarrow> int \<Rightarrow> Stack list \<Rightarrow> Site list \<Rightarrow>
   ((string \<rightharpoonup> SiteCacheInfo) \<times> int) option" where
  "createSiteInfoCacheMap env ord g stacks sites =
     foldM (\<lambda>site (m, g). do {
         (n1, g1) \<leftarrow> SetSite (env_flavors env) (env_ParseFloat env) (fst (ord (SiteID site))) (snd (ord (SiteID site))) g
           (map_get zero_SiteCacheInfo m (SiteID site)) site;
         Some (m(SiteID site \<mapsto> n1), g1) }) sites
       (fold (\<lambda>stack (m, g).
          let siteID = sd_SiteID (stk_Selected stack); (n1, g1) = sci_AddStack g (map_get zero_SiteCacheInfo m siteID) stack in
          (m(siteID \<mapsto> n1), g1)) stacks (Map.empty, g))"

end
