(* ===== verification/CacheList.thy ===== *)
theory CacheList
  imports SchedCache
begin

text \<open>
  The doubly linked list of the scheduler cache refines a list of site IDs: \<open>linked c l\<close> says that following
  \<open>next\<close> from the head of \<open>c\<close> visits \<open>l\<close>, that every \<open>prev\<close> points back, and that \<open>l\<close> lists every cached site once.
  Moving a site to the head and removing one are the list operations of the same name.
\<close>

section \<open>Doubly linked segments\<close>

definition ptr_hd :: "string list \<Rightarrow> string option \<Rightarrow> string option" where
  "ptr_hd xs n = (if xs = [] then n else Some (hd xs))"

definition ptr_last :: "string option \<Rightarrow> string list \<Rightarrow> string option" where
  "ptr_last p xs = (if xs = [] then p else Some (last xs))"

lemma ptr_SomeD: "ptr_last None xs = Some y \<Longrightarrow> y \<in> set xs" "ptr_hd xs None = Some y \<Longrightarrow> y \<in> set xs"
  by (auto simp: ptr_hd_def ptr_last_def split: if_splits)

lemma ptr_simps [simp]:
  "ptr_hd [] n = n" "ptr_hd (x # xs) n = Some x" "ptr_last p [] = p" "ptr_last p (x # xs) = ptr_last (Some x) xs"
  "ptr_hd (xs @ ys) n = ptr_hd xs (ptr_hd ys n)" "ptr_last p (xs @ ys) = ptr_last (ptr_last p xs) ys"
  by (simp_all add: ptr_hd_def ptr_last_def)

fun dlseg :: "items \<Rightarrow> string option \<Rightarrow> string list \<Rightarrow> string option \<Rightarrow> bool" where
  "dlseg m p [] n \<longleftrightarrow> True"
| "dlseg m p (x # xs) n \<longleftrightarrow> (\<exists>it. m x = Some it \<and> it_prev it = p \<and> it_next it = ptr_hd xs n) \<and> dlseg m (Some x) xs n"

definition item_links :: "items \<Rightarrow> string \<Rightarrow> (string option \<times> string option) option" where
  "item_links m x = map_option (\<lambda>it. (it_prev it, it_next it)) (m x)"

lemma dlseg_append [simp]: "dlseg m p (xs @ ys) n \<longleftrightarrow> dlseg m p xs (ptr_hd ys n) \<and> dlseg m (ptr_last p xs) ys n"
  by (induction xs arbitrary: p) auto

lemma dlseg_frame: "(\<And>x. x \<in> set xs \<Longrightarrow> item_links m' x = item_links m x) \<Longrightarrow> dlseg m' p xs n = dlseg m p xs n"
proof (induction xs arbitrary: p)
  case (Cons x xs)
  then have "item_links m' x = item_links m x" "dlseg m' (Some x) xs n = dlseg m (Some x) xs n"
    by simp_all
  then show ?case
    by (cases "m x"; cases "m' x") (auto simp: item_links_def)
qed simp

lemma upd_item_simps [simp]:
  "dom (upd_item x f m) = dom m" "dom (upd_ptr q f m) = dom m"
  "y \<noteq> x \<Longrightarrow> upd_item x f m y = m y" "upd_item x f m x = map_option f (m x)"
  by (auto simp: upd_item_def upd_ptr_def split: option.splits if_splits)

lemma upd_ptr_other: "q \<noteq> Some y \<Longrightarrow> upd_ptr q f m y = m y"
  by (cases q) (auto simp: upd_ptr_def)

lemma upd_ptr_info:
  assumes "\<And>it. it_info (f it) = it_info it"
  shows "map_option it_info (upd_ptr q f m x) = map_option it_info (m x)"
    "map_option it_info (upd_item y f m x) = map_option it_info (m x)"
  using assms by (auto simp: upd_ptr_def upd_item_def split: option.split)

lemma dlseg_upd_item [simp]: "x \<notin> set xs \<Longrightarrow> dlseg (upd_item x f m) p xs n = dlseg m p xs n"
  by (rule dlseg_frame) (metis item_links_def upd_item_simps(3))

lemma dlseg_set_next:
  assumes "dlseg m p xs n" "distinct xs" "q = ptr_last None xs"
  shows "dlseg (upd_ptr q (\<lambda>it. it\<lparr>it_next := n'\<rparr>) m) p xs n'"
proof (cases xs rule: rev_cases)
  case (snoc ys x)
  with assms show ?thesis
    by (auto simp: upd_ptr_def)
qed simp

lemma dlseg_set_prev:
  assumes "dlseg m p xs n" "distinct xs" "q = ptr_hd xs None"
  shows "dlseg (upd_ptr q (\<lambda>it. it\<lparr>it_prev := p'\<rparr>) m) p' xs n"
proof (cases xs)
  case (Cons x ys)
  with assms show ?thesis
    by (auto simp: upd_ptr_def)
qed simp

lemma dlseg_upd_other:
  assumes "dlseg m p xs n" "\<And>y. q = Some y \<Longrightarrow> y \<notin> set xs"
  shows "dlseg (upd_ptr q f m) p xs n"
  using assms by (cases q) (auto simp: upd_ptr_def)

text \<open>Unlinking an item joins the two segments around it.\<close>

lemma dlseg_unlink:
  assumes "dlseg m None (xs @ x # ys) None" "distinct (xs @ x # ys)" "m x = Some ni"
  shows "dlseg (unlink ni m) None (xs @ ys) None"
proof -
  have ni: "it_prev ni = ptr_last None xs" "it_next ni = ptr_hd ys None"
    and segs: "dlseg m None xs (Some x)" "dlseg m (Some x) ys None"
    using assms by auto
  let ?m1 = "upd_ptr (it_prev ni) (\<lambda>it. it\<lparr>it_next := it_next ni\<rparr>) m"
  have out: "y \<notin> set xs" if "it_next ni = Some y" for y
    using ptr_SomeD(2) [of ys y] that ni(2) assms(2) by auto
  have out': "y \<notin> set ys" if "it_prev ni = Some y" for y
    using ptr_SomeD(1) [of xs y] that ni(1) assms(2) by auto
  have "dlseg ?m1 None xs (it_next ni)"
    using segs(1) assms(2) ni(1) by (intro dlseg_set_next) auto
  from dlseg_upd_other [OF this out] have "dlseg (unlink ni m) None xs (it_next ni)"
    by (simp add: unlink_def)
  moreover have "dlseg (unlink ni m) (it_prev ni) ys None"
    unfolding unlink_def using assms(2) ni(2) by (intro dlseg_set_prev [OF dlseg_upd_other [OF segs(2) out']]) auto
  ultimately show ?thesis
    by (simp add: ni)
qed

section \<open>The list of the cache\<close>

text \<open>Items that were just created are not linked yet.\<close>

definition half_linked :: "schedulerCache \<Rightarrow> string list \<Rightarrow> bool" where
  "half_linked c l \<longleftrightarrow> distinct l \<and> set l \<subseteq> dom (siteCacheInfos c) \<and> headSiteCacheInfo c = ptr_hd l None \<and>
     dlseg (siteCacheInfos c) None l None \<and>
     (\<forall>x it. siteCacheInfos c x = Some it \<and> x \<notin> set l \<longrightarrow> it_next it = None \<and> it_prev it = None)"

definition linked :: "schedulerCache \<Rightarrow> string list \<Rightarrow> bool" where
  "linked c l \<longleftrightarrow> half_linked c l \<and> set l = dom (siteCacheInfos c)"

lemma unlink_info [simp]: "map_option it_info (unlink ni m x) = map_option it_info (m x)"
  by (simp add: unlink_def upd_ptr_info)

lemma unlink_dom [simp]: "dom (unlink ni m) = dom m"
  by (simp add: unlink_def)

lemma unlink_SomeD: "unlink ni m x = Some it \<Longrightarrow> \<exists>it'. m x = Some it'"
  by (metis domD domI unlink_dom)

lemma move_keeps [simp]:
  "info_of (moveSiteCacheInfoToHead x c) = info_of c"
  "dom (siteCacheInfos (moveSiteCacheInfoToHead x c)) = dom (siteCacheInfos c)"
  "cache_siteTree (moveSiteCacheInfoToHead x c) = cache_siteTree c"
  "assumedStacks (moveSiteCacheInfoToHead x c) = assumedStacks c"
  "stackStates (moveSiteCacheInfoToHead x c) = stackStates c"
  "regionToSite (moveSiteCacheInfoToHead x c) = regionToSite c"
  by (simp_all add: moveSiteCacheInfoToHead_def Let_def info_of_def fun_eq_iff upd_ptr_info split: option.split)

lemma half_linked_unlink:
  assumes "half_linked c l" "siteCacheInfos c x = Some ni"
  shows "dlseg (unlink ni (siteCacheInfos c)) None (removeAll x l) None"
    "unlink ni (siteCacheInfos c) x = Some ni"
    "y \<notin> set l \<Longrightarrow> unlink ni (siteCacheInfos c) y = siteCacheInfos c y"
proof -
  let ?m = "siteCacheInfos c"
  have d: "distinct l" and seg: "dlseg ?m None l None" and out: "x \<notin> set l \<Longrightarrow> it_next ni = None \<and> it_prev ni = None"
    using assms by (auto simp: half_linked_def)
  have "dlseg (unlink ni ?m) None (removeAll x l) None \<and> unlink ni ?m x = Some ni \<and> (y \<notin> set l \<longrightarrow> unlink ni ?m y = ?m y)"
  proof (cases "x \<in> set l")
    case True
    then obtain xs ys where l: "l = xs @ x # ys"
      by (meson split_list)
    then have xy: "x \<notin> set xs" "x \<notin> set ys" and ni: "it_prev ni = ptr_last None xs" "it_next ni = ptr_hd ys None"
      using d seg assms(2) by auto
    then have "unlink ni ?m z = ?m z" if "z \<notin> set xs \<union> set ys" for z
      unfolding unlink_def using that by (metis UnI1 UnI2 ptr_SomeD upd_ptr_other)
    then show ?thesis
      using dlseg_unlink [of ?m xs x ys ni] seg d assms(2) l xy by auto
  next
    case False
    then show ?thesis
      using out seg assms(2) by (simp add: unlink_def upd_ptr_def)
  qed
  then show "dlseg (unlink ni ?m) None (removeAll x l) None" "unlink ni ?m x = Some ni"
    "y \<notin> set l \<Longrightarrow> unlink ni ?m y = ?m y"
    by blast+
qed

lemma move_linked:
  assumes "half_linked c l" "x \<in> dom (siteCacheInfos c)"
  shows "half_linked (moveSiteCacheInfoToHead x c) (x # removeAll x l)"
proof -
  obtain ni where ni: "siteCacheInfos c x = Some ni"
    using assms(2) by blast
  show ?thesis
  proof (cases "headSiteCacheInfo c = Some x")
    case True
    then have "x # removeAll x l = l"
      using assms(1) by (cases l) (auto simp: half_linked_def)
    then show ?thesis
      using assms(1) True ni by (simp add: moveSiteCacheInfoToHead_def)
  next
    case False
    let ?l = "removeAll x l"
    define m1 where "m1 = unlink ni (siteCacheInfos c)"
    define m2 where "m2 = upd_ptr (headSiteCacheInfo c) (\<lambda>it. it\<lparr>it_prev := Some x\<rparr>) m1"
    define m3 where "m3 = upd_item x (\<lambda>it. it\<lparr>it_next := headSiteCacheInfo c, it_prev := None\<rparr>) m2"
    have hd: "headSiteCacheInfo c = ptr_hd l None" and d: "distinct l"
      using assms(1) by (simp_all add: half_linked_def)
    have h: "headSiteCacheInfo c = ptr_hd ?l None" "distinct ?l" "x \<notin> set ?l"
      using hd d False by (cases l; simp add: distinct_removeAll)+
    have m2: "dlseg m2 (Some x) ?l None" "m2 x = Some ni"
      using half_linked_unlink [OF assms(1) ni] h False
      by (auto simp: m2_def m1_def upd_ptr_other intro!: dlseg_set_prev)
    then have "dlseg m3 None (x # ?l) None"
      using h by (auto simp: m3_def)
    moreover have "m3 y = siteCacheInfos c y" if "y \<notin> set l" "y \<noteq> x" for y
    proof -
      have "headSiteCacheInfo c \<noteq> Some y"
        using h(1) that ptr_SomeD(2) [of ?l y] by auto
      then show ?thesis
        using half_linked_unlink(3) [OF assms(1) ni that(1)] that(2) by (simp add: m3_def m2_def m1_def upd_ptr_other)
    qed
    moreover have "dom m3 = dom (siteCacheInfos c)"
      by (simp add: m3_def m2_def m1_def)
    moreover have "moveSiteCacheInfoToHead x c = c\<lparr>siteCacheInfos := m3, headSiteCacheInfo := Some x\<rparr>"
      using ni False by (simp add: moveSiteCacheInfoToHead_def m1_def m2_def m3_def Let_def)
    ultimately show ?thesis
      using assms h(2,3) by (auto simp: half_linked_def simp del: dlseg.simps)
  qed
qed

lemma move_links:
  "half_linked c l \<Longrightarrow> dom (siteCacheInfos c) = insert x (set l) \<Longrightarrow> linked (moveSiteCacheInfoToHead x c) (x # removeAll x l)"
  using move_linked [of c l x] by (auto simp: linked_def)

lemma remove_linked:
  assumes "linked c l" "x \<in> set l"
  shows "linked (removeSiteCacheInfoFromList x c) (removeAll x l)"
proof -
  have hl: "half_linked c l" and sl: "set l = dom (siteCacheInfos c)"
    using assms(1) by (simp_all add: linked_def)
  then obtain ni where ni: "siteCacheInfos c x = Some ni"
    using assms(2) by blast
  let ?m = "unlink ni (siteCacheInfos c)"
  have "item_links (?m(x := None)) y = item_links ?m y" if "y \<in> set (removeAll x l)" for y
    using that by (simp add: item_links_def)
  then have "dlseg (?m(x := None)) None (removeAll x l) None"
    using half_linked_unlink(1) [OF hl ni] dlseg_frame by blast
  moreover have "(if headSiteCacheInfo c = Some x then it_next ni else headSiteCacheInfo c) = ptr_hd (removeAll x l) None"
    using hl ni by (cases l) (auto simp: half_linked_def)
  ultimately show ?thesis
    using hl sl ni
    by (auto simp: linked_def half_linked_def removeSiteCacheInfoFromList_def distinct_removeAll dest: unlink_SomeD)
qed

lemma remove_keeps [simp]:
  "info_of (removeSiteCacheInfoFromList x c) = (info_of c)(x := None)"
  "cache_siteTree (removeSiteCacheInfoFromList x c) = cache_siteTree c"
  by (auto simp: removeSiteCacheInfoFromList_def info_of_def fun_eq_iff split: option.split)

end
