(* ===== verification/SiteResources.thy ===== *)
theory SiteResources
  imports SiteCacheInfo
begin

text \<open>
  What the site level accounting of \<open>SiteCacheInfo\<close> guarantees: \<open>SetSite\<close> sums the hosts by resource type,
  the allocatable count of a flavor is the largest that fits into the free resources, and the effect of the
  deductions on the requested amounts.
\<close>

section \<open>Amounts\<close>

text \<open>The requested amounts of a site, read through the pointers, and the absence of shared cells.\<close>

definition requested :: "SiteCacheInfo \<Rightarrow> string \<rightharpoonup> CPUAndMemory" where
  "requested n k = map_option (reqCells n) (RequestedResources n k)"

definition cells_ok :: "SiteCacheInfo \<Rightarrow> bool" where
  "cells_ok n \<longleftrightarrow> inj_on (RequestedResources n) (dom (RequestedResources n)) \<and>
     (\<forall>k p. RequestedResources n k = Some p \<longrightarrow> p < reqNext n)"

definition res_sum :: "CPUAndMemory list \<Rightarrow> CPUAndMemory" where
  "res_sum rs = \<lparr>VCPU = wrap64 (sum_list (map VCPU rs)), Memory = wrap64 (sum_list (map Memory rs))\<rparr>"

definition used_of :: "Host \<Rightarrow> CPUAndMemory" where
  "used_of h = \<lparr>VCPU = UsedVCPUs h, Memory = UsedMem h\<rparr>"

definition total_of :: "(string \<Rightarrow> rat \<times> bool) \<Rightarrow> Host \<Rightarrow> CPUAndMemory" where
  "total_of pf h =
     \<lparr>VCPU = int64_of_float (of_int (TotalVCPUs h) * (if CPUAllocationRatio h \<noteq> [] then fst (pf (CPUAllocationRatio h)) else 1)),
      Memory = TotalMem h\<rparr>"

text \<open>The sum over the hosts of one resource type; a type no host has is not a key.\<close>

definition sum_by_type :: "(Host \<Rightarrow> CPUAndMemory) \<Rightarrow> Host list \<Rightarrow> string \<rightharpoonup> CPUAndMemory" where
  "sum_by_type f hs rt =
     (let l = filter (\<lambda>h. host_ResourceType h = rt) hs in if l = [] then None else Some (res_sum (map f l)))"

lemma res_sum_simps [simp]: "res_sum [] = zero_CPUAndMemory" "res_add (res_sum rs) r = res_sum (rs @ [r])"
  by (simp_all add: res_sum_def zero_CPUAndMemory_def res_add_def)

lemma res_sum_mset: "mset rs = mset rs' \<Longrightarrow> res_sum rs = res_sum rs'"
  unfolding res_sum_def by (metis mset_map sum_mset_sum_list)

lemma requested_cells_update:
  assumes "cells_ok n" "RequestedResources n k = Some p"
  shows "requested (n\<lparr>reqCells := (reqCells n)(p := v)\<rparr>) = (requested n)(k \<mapsto> v)"
proof
  fix x
  have "x = k" if "RequestedResources n x = Some p"
    using assms that by (auto simp: cells_ok_def inj_on_def dom_def)
  then show "requested (n\<lparr>reqCells := (reqCells n)(p := v)\<rparr>) x = ((requested n)(k \<mapsto> v)) x"
    using assms(2) by (cases "RequestedResources n x") (auto simp: requested_def)
qed

lemma requested_alloc:
  assumes "cells_ok n"
  shows "requested (n\<lparr>RequestedResources := (RequestedResources n)(k \<mapsto> reqNext n),
      reqCells := (reqCells n)(reqNext n := v), reqNext := Suc (reqNext n)\<rparr>) = (requested n)(k \<mapsto> v)" (is ?req)
    and "cells_ok (n\<lparr>RequestedResources := (RequestedResources n)(k \<mapsto> reqNext n),
      reqCells := (reqCells n)(reqNext n := v), reqNext := Suc (reqNext n)\<rparr>)" (is ?ok)
proof -
  have f: "RequestedResources n x = Some p \<Longrightarrow> p < reqNext n" for x p
    using assms by (simp add: cells_ok_def)
  show ?req
    by (rule ext) (auto simp: requested_def map_option_case split: option.splits dest: f)
  show ?ok
    using assms f by (fastforce simp: cells_ok_def inj_on_def dom_def less_Suc_eq)
qed

section \<open>The hosts of a site\<close>

text \<open>One host adds its used and its total resources to its resource type.\<close>

lemma host_resources_step:
  fixes pf :: "string \<Rightarrow> rat \<times> bool" and h :: Host and n :: SiteCacheInfo
  assumes "cells_ok n"
  defines "n' \<equiv> host_resources pf h n" and "rt \<equiv> host_ResourceType h"
  shows "requested n' = (requested n)(rt \<mapsto> res_add (map_get zero_CPUAndMemory (requested n) rt) (used_of h))"
    and "cells_ok n'"
    and "TotalResources n' = (TotalResources n)(rt \<mapsto> res_add (map_get zero_CPUAndMemory (TotalResources n) rt) (total_of pf h))"
    and "sci_Site n' = sci_Site n"
proof -
  define n1 where "n1 = (if RequestedResources n rt = None
     then n\<lparr>RequestedResources := (RequestedResources n)(rt \<mapsto> reqNext n),
            reqCells := (reqCells n)(reqNext n := zero_CPUAndMemory), reqNext := Suc (reqNext n)\<rparr> else n)"
  define p where "p = map_get 0 (RequestedResources n1) rt"
  define n2 where "n2 = n1\<lparr>reqCells := (reqCells n1)(p := res_add (reqCells n1 p) (used_of h))\<rparr>"
  have n': "n' = n2\<lparr>TotalResources := (TotalResources n)(rt \<mapsto>
      res_add (map_get zero_CPUAndMemory (TotalResources n) rt) (total_of pf h))\<rparr>"
    by (simp add: n'_def host_resources_def Let_def n2_def p_def n1_def rt_def used_of_def total_of_def)
  have ok1: "cells_ok n1"
    using assms(1) requested_alloc(2) by (simp add: n1_def)
  have req1: "requested n1 rt = Some (map_get zero_CPUAndMemory (requested n) rt)" "requested n1 = (requested n)(rt := requested n1 rt)"
    using requested_alloc(1) [OF assms(1), where k = rt and v = zero_CPUAndMemory]
    by (auto simp: n1_def fun_eq_iff) (auto simp: requested_def map_get_def split: option.splits)
  then have p: "RequestedResources n1 rt = Some p" "reqCells n1 p = map_get zero_CPUAndMemory (requested n) rt"
    by (auto simp: p_def requested_def)
  have r2: "requested n2 = (requested n1)(rt \<mapsto> res_add (reqCells n1 p) (used_of h))"
    unfolding n2_def by (rule requested_cells_update [OF ok1 p(1)])
  have f: "requested n' = requested n2" "cells_ok n' = cells_ok n2" "cells_ok n2 = cells_ok n1" "sci_Site n' = sci_Site n"
    by (simp_all add: n' requested_def fun_eq_iff cells_ok_def n2_def n1_def)
  show "cells_ok n'" "sci_Site n' = sci_Site n"
    using f ok1 by simp_all
  show "TotalResources n' = (TotalResources n)(rt \<mapsto> res_add (map_get zero_CPUAndMemory (TotalResources n) rt) (total_of pf h))"
    by (simp add: n')
  show "requested n' = (requested n)(rt \<mapsto> res_add (map_get zero_CPUAndMemory (requested n) rt) (used_of h))"
    unfolding f(1) r2 p(2) by (subst req1(2)) simp
qed

lemma sum_by_type_snoc:
  "sum_by_type f (hs @ [h]) =
     (sum_by_type f hs)(host_ResourceType h \<mapsto>
        res_add (map_get zero_CPUAndMemory (sum_by_type f hs) (host_ResourceType h)) (f h))"
  by (rule ext) (simp add: sum_by_type_def Let_def map_get_def flip: res_sum_simps(1))

lemma hosts_loop:
  fixes pf :: "string \<Rightarrow> rat \<times> bool" and n :: SiteCacheInfo
  assumes "cells_ok n" "RequestedResources n = Map.empty" "TotalResources n = Map.empty"
  defines "n' \<equiv> \<lambda>hs. fold (host_resources pf) hs n"
  shows "requested (n' hs) = sum_by_type used_of hs \<and> TotalResources (n' hs) = sum_by_type (total_of pf) hs \<and>
    cells_ok (n' hs) \<and> sci_Site (n' hs) = sci_Site n"
proof (induction hs rule: rev_induct)
  case Nil
  show ?case
    using assms by (auto simp: requested_def sum_by_type_def fun_eq_iff)
next
  case (snoc h hs)
  then show ?case
    using host_resources_step [of "n' hs" pf h] by (simp add: n'_def sum_by_type_snoc)
qed

section \<open>Allocatable flavors\<close>

text \<open>The amount of a resource type: the sum over every key that names it, in no particular order.\<close>

definition amount :: "(string \<rightharpoonup> CPUAndMemory) \<Rightarrow> string \<Rightarrow> CPUAndMemory" where
  "amount m rt =
     \<lparr>VCPU = wrap64 (\<Sum>k \<in> {k \<in> dom m. has_type k rt}. VCPU (the (m k))),
      Memory = wrap64 (\<Sum>k \<in> {k \<in> dom m. has_type k rt}. Memory (the (m k)))\<rparr>"

lemma fold_res_sum:
  "fold (\<lambda>k ret. case m k of None \<Rightarrow> ret | Some r \<Rightarrow> if has_type k rt then res_add ret r else ret) ks (res_sum rs) =
   res_sum (rs @ map (the \<circ> m) (filter (\<lambda>k. k \<in> dom m \<and> has_type k rt) ks))"
  by (induction ks arbitrary: rs) (auto split: option.split)

lemma fold_amount:
  assumes "range_order ks m"
  shows "fold (\<lambda>k ret. case m k of None \<Rightarrow> ret | Some r \<Rightarrow> if has_type k rt then res_add ret r else ret) ks zero_CPUAndMemory =
    amount m rt"
proof -
  have "set (filter (\<lambda>k. k \<in> dom m \<and> has_type k rt) ks) = {k \<in> dom m. has_type k rt}"
    "distinct (filter (\<lambda>k. k \<in> dom m \<and> has_type k rt) ks)"
    using assms by (auto simp: range_order_def)
  then have "res_sum (map (the \<circ> m) (filter (\<lambda>k. k \<in> dom m \<and> has_type k rt) ks)) = amount m rt"
    by (simp add: res_sum_def amount_def comp_def sum_list_distinct_conv_sum_set)
  then show ?thesis
    using fold_res_sum [where m = m and rt = rt and ks = ks and rs = "[]"] by simp
qed

lemma requested_dom [simp]: "dom (requested n) = dom (RequestedResources n)"
  by (auto simp: requested_def)

lemma getTotalResourceByResType_amount:
  "range_order kt (TotalResources n) \<Longrightarrow> getTotalResourceByResType kt n rt = amount (TotalResources n) rt"
  by (simp add: getTotalResourceByResType_def fold_amount)

lemma getRequestResourceByResType_amount:
  assumes "range_order kr (RequestedResources n)"
  shows "getRequestResourceByResType kr n rt = amount (requested n) rt"
proof -
  have "range_order kr (requested n)"
    using assms by (simp add: range_order_def)
  from fold_amount [OF this, where rt = rt] show ?thesis
    by (simp add: getRequestResourceByResType_def requested_def case_map_option comp_def cong: option.case_cong)
qed

text \<open>A flavor is supported when it is on sale in the zone of the site and some host has its resource type.\<close>

definition supports :: "Site \<Rightarrow> RegionFlavor \<Rightarrow> bool" where
  "supports site rf \<longleftrightarrow> Region (site_RegionAzMap site) = rf_Region rf \<and>
     az_allows (tf_OsExtraSpecs rf) (AvailabilityZone (site_RegionAzMap site)) \<and>
     (\<exists>h \<in> set (Hosts site). has_type (host_ResourceType h) (ex_ResourceType (tf_OsExtraSpecs rf)))"

lemma addFlavrFunc_idem [simp]: "addFlavrFunc f (addFlavrFunc f fs) = addFlavrFunc f fs"
  by (auto simp: addFlavrFunc_def)

lemma host_flavors:
  "fold (host_flavor site rf) hs fs =
     (if Region (site_RegionAzMap site) = rf_Region rf \<and>
         az_allows (tf_OsExtraSpecs rf) (AvailabilityZone (site_RegionAzMap site)) \<and>
         (\<exists>h \<in> set hs. has_type (host_ResourceType h) (ex_ResourceType (tf_OsExtraSpecs rf)))
      then addFlavrFunc (TypedFlavor.truncate rf) fs else fs)"
  by (induction hs arbitrary: fs) (auto simp: host_flavor_def)

lemma getSupportFlavorsBySite_eq:
  assumes "sci_Site n = Some site"
  shows "getSupportFlavorsBySite flavors n =
    Some (fold (addFlavrFunc \<circ> TypedFlavor.truncate) (filter (supports site) flavors) [])"
proof -
  have "foldM (\<lambda>rf fs. do { site \<leftarrow> sci_Site n; Some (fold (host_flavor site rf) (Hosts site) fs) }) flavors fs =
    Some (fold (addFlavrFunc \<circ> TypedFlavor.truncate) (filter (supports site) flavors) fs)" for fs
    using assms by (induction flavors arbitrary: fs) (auto simp: host_flavors supports_def)
  then show ?thesis
    by (simp add: getSupportFlavorsBySite_def)
qed

lemma fold_addFlavrFunc:
  "distinct (map tf_ID fs) \<Longrightarrow>
   distinct (map tf_ID (fold (addFlavrFunc \<circ> tr) rfs fs)) \<and>
   find (\<lambda>f. tf_ID f = fid) (fold (addFlavrFunc \<circ> tr) rfs fs) =
     (case find (\<lambda>f. tf_ID f = fid) fs of None \<Rightarrow> find (\<lambda>f. tf_ID f = fid) (map tr rfs) | Some f \<Rightarrow> Some f)"
proof (induction rfs arbitrary: fs)
  case Nil
  then show ?case
    by (simp split: option.split)
next
  case (Cons rf rfs)
  have fa: "find P (xs @ ys) = (case find P xs of None \<Rightarrow> find P ys | Some x \<Rightarrow> Some x)" for P and xs ys :: "TypedFlavor list"
    by (induction xs) auto
  have step: "find (\<lambda>f. tf_ID f = fid) (addFlavrFunc f fs) =
      (case find (\<lambda>f. tf_ID f = fid) fs of None \<Rightarrow> if tf_ID f = fid then Some f else None | Some f \<Rightarrow> Some f)" for f
  proof (cases "\<exists>one \<in> set fs. tf_ID one = tf_ID f")
    case True
    then show ?thesis
      by (auto simp: addFlavrFunc_def find_None_iff split: option.split)
  qed (simp add: addFlavrFunc_def fa split: option.split)
  have "distinct (map tf_ID (addFlavrFunc (tr rf) fs))"
    using Cons.prems by (auto simp: addFlavrFunc_def)
  from Cons.IH [OF this] show ?case
    by (simp add: step split: option.split)
qed

text \<open>
  Reference definition of the allocatable count, from the total and the requested amounts: what the first
  supported flavor with this ID gives; none when its size is not positive or the site has no such resource.
\<close>

definition fit :: "CPUAndMemory \<Rightarrow> CPUAndMemory \<Rightarrow> TypedFlavor \<Rightarrow> int option" where
  "fit t r f =
     (case ParseInt (Vcpus f) of None \<Rightarrow> None | Some v \<Rightarrow>
        if v \<le> 0 \<or> Ram f \<le> 0 \<or> VCPU t \<le> 0 \<or> Memory t \<le> 0 then None
        else Some (min (go_quot (wrap64 (VCPU t - VCPU r)) v) (go_quot (wrap64 (Memory t - Memory r)) (Ram f))))"

definition allocatable ::
  "(string \<rightharpoonup> CPUAndMemory) \<Rightarrow> (string \<rightharpoonup> CPUAndMemory) \<Rightarrow> Site \<Rightarrow> RegionFlavor list \<Rightarrow> string \<rightharpoonup> int" where
  "allocatable tot req site flavors fid = do {
     f \<leftarrow> find (\<lambda>f. tf_ID f = fid) (map TypedFlavor.truncate (filter (supports site) flavors));
     fit (amount tot (ex_ResourceType (tf_OsExtraSpecs f))) (amount req (ex_ResourceType (tf_OsExtraSpecs f))) f }"

lemma go_quot_int64: "in_int64 a \<Longrightarrow> 0 < b \<Longrightarrow> in_int64 (go_quot a b)"
proof -
  assume a: "in_int64 a" "0 < b"
  then have q: "0 \<le> \<bar>a\<bar> div b" "\<bar>a\<bar> div b \<le> \<bar>a\<bar>"
    using zdiv_mono2 [of "\<bar>a\<bar>" 1 b] by (simp_all add: pos_imp_zdiv_nonneg_iff)
  with a show ?thesis
    by (cases "a > 0"; cases "a = 0") (auto simp: go_quot_def)
qed

lemma flavor_count_fit:
  assumes "0 < v" "0 < ram"
  shows "flavor_count t r v ram =
    Some (min (go_quot (wrap64 (VCPU t - VCPU r)) v) (go_quot (wrap64 (Memory t - Memory r)) ram))"
  using assms go_quot_int64 [OF wrap64_range, of v "VCPU t - VCPU r"] go_quot_int64 [OF wrap64_range, of ram "Memory t - Memory r"]
  by (simp add: flavor_count_def go_div_def min_def)

lemma add_flavor_eq:
  assumes "range_order kt (TotalResources n)" "range_order kr (RequestedResources n)"
    "AllocatableFlavor n (tf_ID f) = None"
  defines "rt \<equiv> ex_ResourceType (tf_OsExtraSpecs f)"
  shows "add_flavor kt kr f n =
    Some (n\<lparr>AllocatableFlavor := (AllocatableFlavor n)(tf_ID f := fit (amount (TotalResources n) rt) (amount (requested n) rt) f)\<rparr>)"
proof -
  have u: "n\<lparr>AllocatableFlavor := (AllocatableFlavor n)(tf_ID f := None)\<rparr> = n"
    using assms(3) by (simp add: fun_upd_idem)
  have w: "wrap64 (min (go_quot (wrap64 a) v) (go_quot (wrap64 b) r)) = min (go_quot (wrap64 a) v) (go_quot (wrap64 b) r)"
    if "0 < v" "0 < r" for a b v r
    using go_quot_int64 [OF wrap64_range, of v a] go_quot_int64 [OF wrap64_range, of r b] that by (simp add: min_def)
  show ?thesis
    using assms(1-3) u w
    by (auto simp: add_flavor_def Let_def fit_def getTotalResourceByResType_amount getRequestResourceByResType_amount
        rt_def flavor_count_fit not_le split: option.split)
qed

lemma add_flavors_eq:
  assumes "range_order kt (TotalResources n)" "range_order kr (RequestedResources n)"
  shows "distinct (map tf_ID fs) \<Longrightarrow> \<forall>f \<in> set fs. AllocatableFlavor n (tf_ID f) = None \<Longrightarrow>
    foldM (add_flavor kt kr) fs n = Some (n\<lparr>AllocatableFlavor := (\<lambda>fid.
      case find (\<lambda>f. tf_ID f = fid) fs of None \<Rightarrow> AllocatableFlavor n fid
      | Some f \<Rightarrow> fit (amount (TotalResources n) (ex_ResourceType (tf_OsExtraSpecs f)))
                     (amount (requested n) (ex_ResourceType (tf_OsExtraSpecs f))) f)\<rparr>)"
  using assms
proof (induction fs arbitrary: n)
  case (Cons f fs)
  have req: "requested (n\<lparr>AllocatableFlavor := a\<rparr>) = requested n" for a
    by (simp add: requested_def fun_eq_iff)
  have ne: "tf_ID g \<noteq> tf_ID f" if "g \<in> set fs" for g
    using Cons.prems(1) that by (auto simp: image_iff)
  then have fn: "find (\<lambda>g. tf_ID g = tf_ID f) fs = None"
    by (simp add: find_None_iff)
  define n1 where "n1 = n\<lparr>AllocatableFlavor := (AllocatableFlavor n)(tf_ID f :=
    fit (amount (TotalResources n) (ex_ResourceType (tf_OsExtraSpecs f))) (amount (requested n) (ex_ResourceType (tf_OsExtraSpecs f))) f)\<rparr>"
  have "add_flavor kt kr f n = Some n1"
    using Cons.prems add_flavor_eq [of kt n kr f] by (simp add: n1_def)
  moreover have "\<forall>g \<in> set fs. AllocatableFlavor n1 (tf_ID g) = None" "requested n1 = requested n"
    using Cons.prems(2) ne req by (auto simp: n1_def)
  ultimately show ?case
    using Cons.IH [of n1] Cons.prems fn
    by (auto simp: n1_def req fun_eq_iff intro!: arg_cong [where f = "\<lambda>a. n\<lparr>AllocatableFlavor := a\<rparr>"] split: option.split)
qed simp

text \<open>The incremental loop over the supported flavors computes the reference definition.\<close>

lemma updateFlavor_eq:
  assumes "sci_Site n = Some site" "range_order kt (TotalResources n)" "range_order kr (RequestedResources n)"
  shows "updateFlavor flavors kt kr n =
    Some (n\<lparr>AllocatableFlavor := allocatable (TotalResources n) (requested n) site flavors\<rparr>)"
proof -
  define n1 where "n1 = n\<lparr>AllocatableFlavor := Map.empty\<rparr>"
  define fs where "fs = fold (addFlavrFunc \<circ> TypedFlavor.truncate) (filter (supports site) flavors) []"
  have n1: "sci_Site n1 = Some site" "TotalResources n1 = TotalResources n" "RequestedResources n1 = RequestedResources n"
    "AllocatableFlavor n1 = Map.empty" "requested n1 = requested n" "n1\<lparr>AllocatableFlavor := a\<rparr> = n\<lparr>AllocatableFlavor := a\<rparr>" for a
    using assms(1) by (simp_all add: n1_def requested_def fun_eq_iff)
  have fs: "distinct (map tf_ID fs)"
    "find (\<lambda>f. tf_ID f = fid) fs = find (\<lambda>f. tf_ID f = fid) (map TypedFlavor.truncate (filter (supports site) flavors))" for fid
    using fold_addFlavrFunc [of "[]" TypedFlavor.truncate "filter (supports site) flavors" fid] by (simp_all add: fs_def)
  have "updateFlavor flavors kt kr n = foldM (add_flavor kt kr) fs n1"
    using getSupportFlavorsBySite_eq [OF n1(1)] by (simp add: updateFlavor_def fs_def n1_def)
  also have "\<dots> = Some (n\<lparr>AllocatableFlavor := allocatable (TotalResources n) (requested n) site flavors\<rparr>)"
    using add_flavors_eq [of kt n1 kr fs] fs assms(2,3)
    by (auto simp: n1 allocatable_def fun_eq_iff intro!: arg_cong [where f = "\<lambda>a. n\<lparr>AllocatableFlavor := a\<rparr>"] split: option.split bind_splits)
  finally show ?thesis .
qed

section \<open>Setting a site\<close>

lemma reset_site_simps [simp]:
  "sci_Site (reset_site n site) = Some site" "RequestedResources (reset_site n site) = Map.empty"
  "TotalResources (reset_site n site) = Map.empty" "cells_ok (reset_site n site)"
  by (simp_all add: reset_site_def cells_ok_def)

lemma sum_by_type_dom: "dom (sum_by_type f hs) = host_ResourceType ` set hs"
  by (auto simp: sum_by_type_def Let_def filter_empty_conv split: if_splits)

lemma bump_simps [simp]: "fst (bump g n) = n\<lparr>sci_generation := nextGeneration g\<rparr>" "snd (bump g n) = nextGeneration g"
  by (simp_all add: bump_def)

lemma requested_generation [simp]:
  "requested (n\<lparr>sci_generation := x\<rparr>) = requested n" "requested (n\<lparr>AllocatableFlavor := a\<rparr>) = requested n"
  "cells_ok (n\<lparr>sci_generation := x\<rparr>) = cells_ok n" "cells_ok (n\<lparr>AllocatableFlavor := a\<rparr>) = cells_ok n"
  by (simp_all add: requested_def cells_ok_def fun_eq_iff)

lemma SetSite_eq:
  fixes n :: SiteCacheInfo
  assumes "range_order kt (sum_by_type (total_of pf) (Hosts site))" "range_order kr (sum_by_type used_of (Hosts site))"
  defines "n1 \<equiv> fold (host_resources pf) (Hosts site) (reset_site n site)"
  shows "SetSite flavors pf kt kr g n site = Some (bump g (n1\<lparr>AllocatableFlavor :=
    allocatable (sum_by_type (total_of pf) (Hosts site)) (sum_by_type used_of (Hosts site)) site flavors\<rparr>))"
proof -
  have n1: "requested n1 = sum_by_type used_of (Hosts site)" "TotalResources n1 = sum_by_type (total_of pf) (Hosts site)"
    "sci_Site n1 = Some site"
    using hosts_loop [of "reset_site n site" pf "Hosts site"] by (simp_all add: n1_def)
  then have "range_order kr (RequestedResources n1)" "range_order kt (TotalResources n1)"
    using assms(1,2) by (simp_all add: range_order_def flip: requested_dom)
  then show ?thesis
    using updateFlavor_eq [OF n1(3), of kt kr flavors] by (simp add: SetSite_def n1_def [symmetric] n1)
qed

text \<open>
  C20: \<open>SetSite\<close> never panics. It forgets what was recorded before: the requested and the total amount of every
  resource type are the sums over the hosts of that type, no two types share a cell, and the allocatable
  flavors are those of the reference definition \<open>allocatable\<close>, in whatever order the maps are visited.
\<close>

theorem SetSite_accounts:
  assumes "range_order kt (sum_by_type (total_of pf) (Hosts site))" "range_order kr (sum_by_type used_of (Hosts site))"
  shows "\<exists>n'. SetSite flavors pf kt kr g n site = Some (n', nextGeneration g) \<and> sci_Site n' = Some site \<and>
    sci_generation n' = nextGeneration g \<and> cells_ok n' \<and>
    requested n' = sum_by_type used_of (Hosts site) \<and> TotalResources n' = sum_by_type (total_of pf) (Hosts site) \<and>
    AllocatableFlavor n' = allocatable (TotalResources n') (requested n') site flavors"
  using SetSite_eq [OF assms, of flavors g n] hosts_loop [of "reset_site n site" pf "Hosts site"]
  by (simp add: bump_def)

lemma go_quot_largest:
  assumes "0 \<le> a" "0 < b"
  shows "0 \<le> go_quot a b" "go_quot a b * b \<le> a" "a < (go_quot a b + 1) * b"
proof -
  have "a = a div b * b + a mod b" "0 \<le> a mod b" "a mod b < b"
    using assms by simp_all
  then have "a div b * b \<le> a" "a < a div b * b + b"
    by linarith+
  then show "0 \<le> go_quot a b" "go_quot a b * b \<le> a" "a < (go_quot a b + 1) * b"
    using assms by (simp_all add: pos_imp_zdiv_nonneg_iff distrib_right)
qed

lemma fit_largest:
  assumes "fit t r f = Some c" "0 \<le> VCPU r" "VCPU r \<le> VCPU t" "0 \<le> Memory r" "Memory r \<le> Memory t"
    "in_int64 (VCPU t)" "in_int64 (Memory t)"
  obtains v where "ParseInt (Vcpus f) = Some v" "0 < v" "0 < Ram f" "0 \<le> c"
    "VCPU r + c * v \<le> VCPU t" "Memory r + c * Ram f \<le> Memory t"
    "VCPU t < VCPU r + (c + 1) * v \<or> Memory t < Memory r + (c + 1) * Ram f"
proof -
  obtain v where v: "ParseInt (Vcpus f) = Some v" "0 < v" "0 < Ram f"
    and c: "c = min (go_quot (VCPU t - VCPU r) v) (go_quot (Memory t - Memory r) (Ram f))"
    using assms by (auto simp: fit_def split: option.splits if_splits)
  define q where "q = go_quot (VCPU t - VCPU r) v"
  define m where "m = go_quot (Memory t - Memory r) (Ram f)"
  have q: "0 \<le> q" "q * v \<le> VCPU t - VCPU r" "VCPU t - VCPU r < (q + 1) * v"
    and m: "0 \<le> m" "m * Ram f \<le> Memory t - Memory r" "Memory t - Memory r < (m + 1) * Ram f"
    using go_quot_largest v assms by (simp_all add: q_def m_def)
  have "c * v \<le> q * v" "c * Ram f \<le> m * Ram f" "c = q \<or> c = m" "0 \<le> c"
    using v q(1) m(1) by (auto simp: c q_def m_def intro!: mult_right_mono)
  moreover have "VCPU t < VCPU r + (q + 1) * v" "Memory t < Memory r + (m + 1) * Ram f"
    using q(3) m(3) by linarith+
  ultimately have "VCPU r + c * v \<le> VCPU t" "Memory r + c * Ram f \<le> Memory t" "0 \<le> c"
    "VCPU t < VCPU r + (c + 1) * v \<or> Memory t < Memory r + (c + 1) * Ram f"
    using q(2) m(2) by (linarith, linarith, blast+)
  with v show ?thesis
    by (intro that [of v])
qed

lemma amount_int64: "in_int64 (VCPU (amount m rt))" "in_int64 (Memory (amount m rt))"
  using wrap64_range by (simp_all add: amount_def)

lemma allocatable_SomeD:
  assumes "allocatable tot req site flavors fid = Some c"
  obtains f where "f \<in> set flavors" "supports site f" "tf_ID f = fid"
    "fit (amount tot (ex_ResourceType (tf_OsExtraSpecs f))) (amount req (ex_ResourceType (tf_OsExtraSpecs f))) (TypedFlavor.truncate f) = Some c"
proof -
  obtain x where x: "find (\<lambda>f. tf_ID f = fid) (map TypedFlavor.truncate (filter (supports site) flavors)) = Some x"
    "fit (amount tot (ex_ResourceType (tf_OsExtraSpecs x))) (amount req (ex_ResourceType (tf_OsExtraSpecs x))) x = Some c"
    by (rule bind_SomeE [OF assms [unfolded allocatable_def]])
  then have "x \<in> set (map TypedFlavor.truncate (filter (supports site) flavors))" "tf_ID x = fid"
    unfolding find_Some_iff by (auto simp del: set_map nth_map length_map intro: nth_mem)
  then obtain f where "f \<in> set flavors" "supports site f" "x = TypedFlavor.truncate f" "tf_ID x = fid"
    by auto
  with x(2) that [of f] show ?thesis
    by (simp add: TypedFlavor.truncate_def)
qed

text \<open>
  C21: after \<open>SetSite\<close>, the allocatable count of a flavor is the largest number of machines of a flavor on sale with
  this ID that fits into what is free of its resource type, when no more is requested than there is.
\<close>

theorem allocatable_largest_fit:
  assumes "range_order kt (sum_by_type (total_of pf) (Hosts site))" "range_order kr (sum_by_type used_of (Hosts site))"
    and "SetSite flavors pf kt kr g n site = Some (n', g')" and "AllocatableFlavor n' fid = Some c"
  shows "\<exists>f v. f \<in> set flavors \<and> supports site f \<and> tf_ID f = fid \<and> ParseInt (Vcpus f) = Some v \<and>
    (let rt = ex_ResourceType (tf_OsExtraSpecs f); t = amount (TotalResources n') rt; r = amount (requested n') rt in
     0 \<le> VCPU r \<and> VCPU r \<le> VCPU t \<and> 0 \<le> Memory r \<and> Memory r \<le> Memory t \<longrightarrow>
     0 \<le> c \<and> VCPU r + c * v \<le> VCPU t \<and> Memory r + c * Ram f \<le> Memory t \<and>
     (VCPU t < VCPU r + (c + 1) * v \<or> Memory t < Memory r + (c + 1) * Ram f))"
proof -
  have "AllocatableFlavor n' = allocatable (TotalResources n') (requested n') site flavors"
    using SetSite_eq [OF assms(1,2), of flavors g n] hosts_loop [of "reset_site n site" pf "Hosts site"] assms(3)
    by (auto simp: bump_def)
  with assms(4) obtain f where f: "f \<in> set flavors" "supports site f" "tf_ID f = fid"
    and fit: "fit (amount (TotalResources n') (ex_ResourceType (tf_OsExtraSpecs f)))
      (amount (requested n') (ex_ResourceType (tf_OsExtraSpecs f))) (TypedFlavor.truncate f) = Some c"
    by (metis allocatable_SomeD)
  define t where "t = amount (TotalResources n') (ex_ResourceType (tf_OsExtraSpecs f))"
  define r where "r = amount (requested n') (ex_ResourceType (tf_OsExtraSpecs f))"
  have tr: "Vcpus (TypedFlavor.truncate f) = Vcpus f" "Ram (TypedFlavor.truncate f) = Ram f"
    by (simp_all add: TypedFlavor.truncate_def)
  obtain v where v: "ParseInt (Vcpus f) = Some v"
    using fit by (auto simp: fit_def tr split: option.splits)
  have "0 \<le> c \<and> VCPU r + c * v \<le> VCPU t \<and> Memory r + c * Ram f \<le> Memory t \<and>
     (VCPU t < VCPU r + (c + 1) * v \<or> Memory t < Memory r + (c + 1) * Ram f)"
    if h: "0 \<le> VCPU r" "VCPU r \<le> VCPU t" "0 \<le> Memory r" "Memory r \<le> Memory t"
    by (rule fit_largest [OF fit [folded t_def r_def] h]) (use v in \<open>simp_all add: tr t_def amount_int64\<close>)
  then show ?thesis
    using f v unfolding Let_def t_def r_def by blast
qed

section \<open>Deductions\<close>

lemma deductFlavor_keeps [simp]:
  "RequestedResources (deductFlavor ka n) = RequestedResources n" "reqCells (deductFlavor ka n) = reqCells n"
  "TotalResources (deductFlavor ka n) = TotalResources n"
  unfolding deductFlavor_def by (induction ka arbitrary: n) (auto split: option.split)

lemma site_flavors_no_types:
  "\<exists>n'. site_flavors kd rn [] rf ka n = Some n' \<and> RequestedResources n' = RequestedResources n \<and> reqCells n' = reqCells n"
  by (induction ka) (auto split: option.split)

lemma requested_eq: "requested n = (\<lambda>k. map_option (reqCells n) (RequestedResources n k))"
  by (simp add: requested_def fun_eq_iff)

text \<open>Deducting one named resource type only changes the requested amounts, by the inner loop.\<close>

lemma DeductSiteResInfo_one_type:
  assumes "sci_Site n = Some site" "rt \<noteq> []" "CpuAndMem resInfo rt = Some res" "ord \<noteq> []"
  defines "n1 \<equiv> fold (deduct_requested res rt) ord n"
  shows "\<exists>n'. DeductSiteResInfo [(rt, ord)] ks ka kd g n resInfo flavors = Some (n', nextGeneration g) \<and>
    RequestedResources n' = RequestedResources n1 \<and> reqCells n' = reqCells n1"
proof -
  have "sci_Site (deduct_requested res rt k m) = sci_Site m" for k m
    by (simp add: deduct_requested_def add_requested_def split: option.split)
  then have "sci_Site n1 = sci_Site n"
    unfolding n1_def by (induction ord arbitrary: n) simp_all
  then show ?thesis
    using assms(1-4) site_flavors_no_types [of kd "GetRegionName (SiteID site)" flavors ka "add_storage ks resInfo n1"]
    by (auto simp: DeductSiteResInfo_def deduct_step_def updateSiteFlavor_def bump_def n1_def add_storage_def)
qed

text \<open>
  When the requested resources of a site are kept under a key that names several types, as in \<open>a||b\<close>,
  deducting resources of the type \<open>a\<close> stores the same cell under the key \<open>a\<close> as well. Whether or not the loop
  also visits the new key, the amount that counts for \<open>a\<close> afterwards is twice that of the cell, so the
  resources that were requested before are counted twice.
\<close>

theorem DeductSiteResInfo_counts_twice:
  assumes "sci_Site n = Some site" "RequestedResources n = [K \<mapsto> p]" "K \<noteq> rt" "rt \<noteq> []" "has_type K rt" "has_type rt rt"
    and "CpuAndMem resInfo = [rt \<mapsto> res]" "ord = [K] \<or> ord = [K, rt]" "kr = [K, rt] \<or> kr = [rt, K]"
  shows "\<exists>n'. DeductSiteResInfo [(rt, ord)] ks ka kd g n resInfo flavors = Some (n', nextGeneration g) \<and>
    (let cell = (if ord = [K] then res_add (reqCells n p) res else res_add (res_add (reqCells n p) res) res) in
     requested n' = [K \<mapsto> cell, rt \<mapsto> cell] \<and> getRequestResourceByResType kr n' rt = res_add cell cell)"
proof -
  define cell where "cell = (if ord = [K] then res_add (reqCells n p) res else res_add (res_add (reqCells n p) res) res)"
  define n1 where "n1 = fold (deduct_requested res rt) ord n"
  have n1: "RequestedResources n1 = [K \<mapsto> p, rt \<mapsto> p]" "reqCells n1 p = cell"
    using assms by (elim disjE; simp add: n1_def cell_def deduct_requested_def add_requested_def fun_eq_iff)+
  obtain n' where n': "DeductSiteResInfo [(rt, ord)] ks ka kd g n resInfo flavors = Some (n', nextGeneration g)"
    "RequestedResources n' = RequestedResources n1" "reqCells n' = reqCells n1"
    using DeductSiteResInfo_one_type [OF assms(1,4), of resInfo res ord ks ka kd g flavors] assms(7,8)
    by (auto simp: n1_def)
  have "requested n' = [K \<mapsto> cell, rt \<mapsto> cell]"
    using n1 n'(2,3) by (simp add: requested_eq fun_eq_iff)
  moreover have "getRequestResourceByResType kr n' rt = res_add cell cell"
    using assms(3,5,6,9) n1 n'(2,3)
    by (auto simp: getRequestResourceByResType_def res_add_def zero_CPUAndMemory_def)
  ultimately show ?thesis
    using n'(1) by (simp add: cell_def)
qed

section \<open>A concrete site\<close>

definition demo_host :: Host where
  "demo_host = \<lparr>HostID = ''h'', HostName = ''h'', TotalDisk = 0, UsedDisk = 0, TotalVCPUs = 8, UsedVCPUs = 2,
     TotalMem = 1000, UsedMem = 100, host_State = [], host_Status = [], host_ResourceType = ''x||y'',
     CPUAllocationRatio = [], EcsPerformanceType = [], host_MaxCount = 0\<rparr>"

definition demo_site :: Site where
  "demo_site = zero_Site\<lparr>SiteID := ''r--z'', site_RegionAzMap := \<lparr>Region = ''r'', AvailabilityZone = ''z''\<rparr>, Hosts := [demo_host]\<rparr>"

definition demo_flavor :: RegionFlavor where
  "demo_flavor = \<lparr>tf_ID = ''f'', tf_Name = ''f'', Vcpus = ''2'', Ram = 300,
     tf_OsExtraSpecs = \<lparr>ex_ResourceType = ''x'', CondOperationStatus = [], CondOperationAz = ''z(normal)'',
       CondSpotBlockOperationAz = [], CondSpotBlockLdh = [], CondSpotBlockLdc = [], CondSpotBlockInterruptPolicy = [],
       CondSpotOperationAz = [], CondSpotOperationStatus = []\<rparr>,
     RegionFlavorID = ''r||f'', rf_Region = ''r''\<rparr>"

definition demo_info :: SiteCacheInfo where
  "demo_info = fst (the (SetSite [demo_flavor] (\<lambda>_. (1, True)) [''x||y''] [''x||y''] 0 zero_SiteCacheInfo demo_site))"

lemma demo_orders:
  "range_order [''x||y''] (sum_by_type f (Hosts demo_site))"
  by (simp add: range_order_def sum_by_type_dom demo_site_def demo_host_def)

lemma demo_info_eq:
  "SetSite [demo_flavor] (\<lambda>_. (1, True)) [''x||y''] [''x||y''] 0 zero_SiteCacheInfo demo_site = Some (demo_info, 1)"
  "RequestedResources demo_info = [''x||y'' \<mapsto> 0]" "reqCells demo_info 0 = \<lparr>VCPU = 2, Memory = 100\<rparr>"
  "sci_Site demo_info = Some demo_site" "TotalResources demo_info = [''x||y'' \<mapsto> \<lparr>VCPU = 8, Memory = 1000\<rparr>]"
  using SetSite_eq [OF demo_orders demo_orders, where flavors = "[demo_flavor]" and g = 0 and n = zero_SiteCacheInfo and pf = "\<lambda>_. (1, True)"]
  by (simp_all add: demo_info_def bump_def nextGeneration_def demo_site_def demo_host_def host_resources_def Let_def reset_site_def
      zero_SiteCacheInfo_def zero_CPUAndMemory_def res_add_def int64_of_float_def)

theorem SetSite_accounts_witness:
  "\<exists>n'. SetSite [demo_flavor] (\<lambda>_. (1, True)) [''x||y''] [''x||y''] 0 zero_SiteCacheInfo demo_site = Some (n', 1) \<and>
     requested n' ''x||y'' = Some \<lparr>VCPU = 2, Memory = 100\<rparr>"
  using SetSite_accounts [OF demo_orders demo_orders, where flavors = "[demo_flavor]" and g = 0 and n = zero_SiteCacheInfo and pf = "\<lambda>_. (1, True)"]
  by (auto simp: nextGeneration_def sum_by_type_def demo_site_def demo_host_def res_sum_def used_of_def)

theorem allocatable_largest_fit_witness:
  "AllocatableFlavor demo_info ''f'' = Some 3 \<and>
   (\<exists>v. ParseInt (Vcpus demo_flavor) = Some v \<and>
      VCPU (amount (requested demo_info) ''x'') + 3 * v \<le> VCPU (amount (TotalResources demo_info) ''x'') \<and>
      VCPU (amount (TotalResources demo_info) ''x'') = 8 \<and> VCPU (amount (requested demo_info) ''x'') = 2)"
proof -
  have c: "AllocatableFlavor demo_info ''f'' = Some 3" "ex_ResourceType (tf_OsExtraSpecs demo_flavor) = ''x''"
    "getTotalResourceByResType [''x||y''] demo_info ''x'' = \<lparr>VCPU = 8, Memory = 1000\<rparr>"
    "getRequestResourceByResType [''x||y''] demo_info ''x'' = \<lparr>VCPU = 2, Memory = 100\<rparr>"
    by code_simp+
  have "range_order [''x||y''] (TotalResources demo_info)" "range_order [''x||y''] (RequestedResources demo_info)"
    by (simp_all add: demo_info_eq range_order_def)
  then have a: "amount (TotalResources demo_info) ''x'' = \<lparr>VCPU = 8, Memory = 1000\<rparr>"
    "amount (requested demo_info) ''x'' = \<lparr>VCPU = 2, Memory = 100\<rparr>"
    using c(3,4) by (simp_all add: getTotalResourceByResType_amount getRequestResourceByResType_amount)
  show ?thesis
    using allocatable_largest_fit [OF demo_orders demo_orders demo_info_eq(1) c(1)] c(1,2) a by (auto simp: Let_def)
qed

theorem DeductSiteResInfo_counts_twice_witness:
  "\<exists>n'. DeductSiteResInfo [(''x'', [''x||y''])] [] [''f''] [''f''] 1 demo_info
      \<lparr>CpuAndMem = [''x'' \<mapsto> \<lparr>VCPU = 1, Memory = 10\<rparr>], ri_Storage = Map.empty\<rparr> Map.empty = Some (n', 2) \<and>
     getRequestResourceByResType [''x||y'', ''x''] n' ''x'' = \<lparr>VCPU = 6, Memory = 220\<rparr>"
proof -
  have t: "has_type ''x||y'' ''x''" "has_type ''x'' ''x''"
    by code_simp+
  show ?thesis
    using DeductSiteResInfo_counts_twice [where n = demo_info and site = demo_site and K = "''x||y''" and p = 0 and rt = "''x''"
        and resInfo = "\<lparr>CpuAndMem = [''x'' \<mapsto> \<lparr>VCPU = 1, Memory = 10\<rparr>], ri_Storage = Map.empty\<rparr>" and res = "\<lparr>VCPU = 1, Memory = 10\<rparr>"
        and ord = "[''x||y'']" and kr = "[''x||y'', ''x'']" and ks = "[]" and ka = "[''f'']" and kd = "[''f'']" and g = 1 and flavors = Map.empty] demo_info_eq t
    by (auto simp: nextGeneration_def res_add_def Let_def)
qed

end
