(* ===== verification/CacheInvariants.thy ===== *)
theory CacheInvariants
  imports CacheList SiteResources
begin

text \<open>
  Invariants of the scheduler cache and its snapshot. The sites of the list have strictly decreasing
  generations, every cached info belongs to the site it is stored under, and the zone tree holds the cached
  sites. A snapshot holds an exact clone of every site that did not change since it was taken.
\<close>

section \<open>Operations on a site info\<close>

text \<open>A call that keeps the site and takes the next generation.\<close>

definition bumped :: "int \<Rightarrow> SiteCacheInfo \<Rightarrow> (SiteCacheInfo \<times> int) option \<Rightarrow> bool" where
  "bumped g n r \<longleftrightarrow> (\<exists>n'. r = Some (n', nextGeneration g) \<and> sci_Site n' = sci_Site n \<and> sci_generation n' = nextGeneration g)"

lemma bumped_bump: "sci_Site n' = sci_Site n \<Longrightarrow> bumped g n (Some (bump g n'))"
  by (simp add: bumped_def bump_def)

lemma add_flavor_total: "\<exists>n'. add_flavor kt kr f n = Some n' \<and> sci_Site n' = sci_Site n"
  by (auto simp: add_flavor_def Let_def flavor_count_fit split: option.split)

lemma updateFlavor_total:
  assumes "sci_Site n = Some site"
  shows "\<exists>n'. updateFlavor flavors kt kr n = Some n' \<and> sci_Site n' = Some site"
proof -
  have "\<exists>n'. foldM (add_flavor kt kr) fs n1 = Some n' \<and> sci_Site n' = sci_Site n1" for fs n1
    by (rule foldM_invariant [where I = "\<lambda>m. sci_Site m = sci_Site n1"]) (use add_flavor_total in fastforce)+
  from this [of "fold (addFlavrFunc \<circ> TypedFlavor.truncate) (filter (supports site) flavors) []" "n\<lparr>AllocatableFlavor := Map.empty\<rparr>"]
  show ?thesis
    using assms by (simp add: updateFlavor_def getSupportFlavorsBySite_eq)
qed

lemma fold_site: "(\<And>x n. sci_Site (f x n) = sci_Site n) \<Longrightarrow> sci_Site (fold f xs n) = sci_Site n"
  by (induction xs arbitrary: n) simp_all

lemma res_info_step_site: "sci_Site (res_info_step resInfo v n) = sci_Site n"
  by (auto simp: res_info_step_def add_requested_def intro!: fold_site split: option.split)

lemma ratio_step_site: "sci_Site (ratio_step pf m kt v n) = sci_Site n"
  by (auto simp: ratio_step_def updateRequestResourceByResType_def Let_def split: option.split)

lemma host_resources_site: "sci_Site (host_resources pf h n) = sci_Site n"
  by (simp add: host_resources_def Let_def)

lemma SetSite_total:
  "\<exists>n'. SetSite flavors pf kt kr g n site = Some (n', nextGeneration g) \<and> sci_Site n' = Some site \<and>
     sci_generation n' = nextGeneration g"
proof -
  have "sci_Site (fold (host_resources pf) (Hosts site) (reset_site n site)) = Some site"
    by (simp add: fold_site host_resources_site)
  from updateFlavor_total [OF this, of flavors kt kr] show ?thesis
    by (auto simp: SetSite_def bump_def)
qed

lemma sci_ops_bumped:
  assumes "sci_Site n = Some site"
  shows "bumped g n (Some (sci_AddStack g n stack))"
    and "bumped g n (Some (sci_UpdateSiteWithEipPool g n eipPool))"
    and "bumped g n (sci_UpdateSiteWithVolumePool g n volumePool)"
    and "bumped g n (sci_UpdateSiteWithResInfo flavors vis ks kt kr g n resInfo)"
    and "bumped g n (sci_UpdateSiteWithRatio flavors getf pf vis kt kr g n ratios)"
    and "bumped g n (Some (sci_UpdateSpotResources g n spotRes))"
proof -
  show "bumped g n (Some (sci_AddStack g n stack))" "bumped g n (Some (sci_UpdateSiteWithEipPool g n eipPool))"
    "bumped g n (Some (sci_UpdateSpotResources g n spotRes))"
    by (simp_all add: sci_AddStack_def sci_UpdateSiteWithEipPool_def sci_UpdateSpotResources_def bumped_bump)
  have "\<exists>st'. foldM (volume_pool_step n) (StoragePools volumePool) st = Some st'" for st
    using foldM_invariant [of "StoragePools volumePool" "\<lambda>_. True" "volume_pool_step n" st] assms
    by (auto simp: volume_pool_step_def Let_def split: prod.split)
  then obtain al re where "foldM (volume_pool_step n) (StoragePools volumePool) (Map.empty, Map.empty) = Some (al, re)"
    by fastforce
  then show "bumped g n (sci_UpdateSiteWithVolumePool g n volumePool)"
    by (simp add: sci_UpdateSiteWithVolumePool_def bumped_bump)
  have "sci_Site (add_storage ks resInfo (fold (res_info_step resInfo) vis n)) = Some site"
    using assms by (simp add: add_storage_def fold_site res_info_step_site)
  from updateFlavor_total [OF this, of flavors kt kr]
  show "bumped g n (sci_UpdateSiteWithResInfo flavors vis ks kt kr g n resInfo)"
    using assms by (auto simp: sci_UpdateSiteWithResInfo_def bumped_def bump_def)
  have "\<exists>m. ratio_map getf n ratios = Some m \<and> True"
    unfolding ratio_map_def by (rule foldM_invariant) (simp_all add: assms)
  then obtain m where "ratio_map getf n ratios = Some m"
    by blast
  moreover have "sci_Site (fold (ratio_step pf m kt) vis n) = Some site"
    using assms by (simp add: fold_site ratio_step_site)
  ultimately show "bumped g n (sci_UpdateSiteWithRatio flavors getf pf vis kt kr g n ratios)"
    using assms updateFlavor_total [of "fold (ratio_step pf m kt) vis n" site flavors kt kr]
    by (auto simp: sci_UpdateSiteWithRatio_def bumped_def bump_def)
qed

section \<open>Invariants\<close>

text \<open>A clone, with the requested resources copied in some order.\<close>

definition is_clone :: "SiteCacheInfo \<Rightarrow> SiteCacheInfo \<Rightarrow> bool" where
  "is_clone n n' \<longleftrightarrow> (\<exists>ks. range_order ks (RequestedResources n) \<and> SiteCacheInfo_Clone ks n = Some n')"

definition gen_of :: "schedulerCache \<Rightarrow> string \<Rightarrow> int" where
  "gen_of c x = (case info_of c x of None \<Rightarrow> 0 | Some n \<Rightarrow> sci_generation n)"

definition list_inv :: "schedulerCache \<Rightarrow> string list \<Rightarrow> bool" where
  "list_inv c l \<longleftrightarrow> linked c l \<and> sorted_wrt (\<lambda>x y. gen_of c y < gen_of c x) l"

definition cache_inv :: "int \<Rightarrow> schedulerCache \<Rightarrow> bool" where
  "cache_inv g c \<longleftrightarrow> 0 \<le> g \<and> g \<le> maxInt64 \<and> (\<exists>l. list_inv c l) \<and>
     (\<forall>x n. info_of c x = Some n \<longrightarrow> sci_generation n \<le> g \<and> (\<exists>s. sci_Site n = Some s \<and> SiteID s = x)) \<and>
     tree_ok (cache_siteTree c) \<and> set (st_zones (cache_siteTree c)) = dom (info_of c)"

definition snap_inv :: "int \<Rightarrow> schedulerCache \<Rightarrow> Snapshot \<Rightarrow> bool" where
  "snap_inv g c s \<longleftrightarrow> snap_generation s \<le> g \<and> finite (dom (SiteCacheInfoMap s)) \<and>
     inj_on (SiteCacheInfoMap s) (dom (SiteCacheInfoMap s)) \<and> (\<forall>a \<in> ran (SiteCacheInfoMap s). a < snap_next s) \<and>
     distinct (SiteCacheInfoList s) \<and> set (SiteCacheInfoList s) = ran (SiteCacheInfoMap s) \<and>
     (\<forall>x n. info_of c x = Some n \<and> sci_generation n \<le> snap_generation s \<longrightarrow>
        (\<exists>a. SiteCacheInfoMap s x = Some a \<and> is_clone n (snap_cells s a)))"

text \<open>What an operation on the site \<open>x\<close> does: a new generation, the head of the list, a place in the tree.\<close>

definition touched :: "int \<Rightarrow> schedulerCache \<Rightarrow> string \<Rightarrow> schedulerCache \<Rightarrow> bool" where
  "touched g c x c' \<longleftrightarrow>
     (\<exists>n. info_of c' = (info_of c)(x \<mapsto> n) \<and> sci_generation n = g + 1 \<and> (\<exists>s. sci_Site n = Some s \<and> SiteID s = x)) \<and>
     (\<forall>l. linked c l \<longrightarrow> linked c' (x # removeAll x l)) \<and>
     tree_ok (cache_siteTree c') \<and> set (st_zones (cache_siteTree c')) = insert x (set (st_zones (cache_siteTree c)))"

lemma touched_inv:
  assumes "cache_inv g c" "touched g c x c'" "g < maxInt64"
  shows "cache_inv (g + 1) c'"
proof -
  obtain n where n: "info_of c' = (info_of c)(x \<mapsto> n)" "sci_generation n = g + 1" "\<exists>s. sci_Site n = Some s \<and> SiteID s = x"
    and t: "tree_ok (cache_siteTree c')" "set (st_zones (cache_siteTree c')) = insert x (set (st_zones (cache_siteTree c)))"
    using assms(2) by (auto simp: touched_def)
  obtain l where l: "linked c l" "sorted_wrt (\<lambda>x y. gen_of c y < gen_of c x) l"
    using assms(1) by (auto simp: cache_inv_def list_inv_def)
  have le: "gen_of c y < g + 1" for y
    using assms(1) by (fastforce simp: cache_inv_def gen_of_def split: option.split)
  have g: "gen_of c' y = (if y = x then g + 1 else gen_of c y)" for y
    using n by (simp add: gen_of_def)
  have "sorted_wrt (\<lambda>x y. gen_of c' y < gen_of c' x) (removeAll x l)"
    by (rule sorted_wrt_mono_rel [of _ "\<lambda>x y. gen_of c y < gen_of c x"])
      (use l(2) in \<open>auto simp: g removeAll_filter_not_eq sorted_wrt_filter\<close>)
  then have "list_inv c' (x # removeAll x l)"
    using assms(2) l(1) le g by (auto simp: list_inv_def touched_def)
  then show ?thesis
    using assms(1,3) n t by (auto simp: cache_inv_def) force
qed

lemma touched_snap:
  assumes "snap_inv g c s" "touched g c x c'"
  shows "snap_inv (g + 1) c' s"
  using assms by (auto simp: snap_inv_def touched_def split: if_splits)

section \<open>The operations of the cache\<close>

lemma linked_other_fields [simp]:
  "linked (c\<lparr>cache_siteTree := t\<rparr>) l = linked c l" "linked (c\<lparr>regionToSite := r\<rparr>) l = linked c l"
  "linked (c\<lparr>assumedStacks := a\<rparr>) l = linked c l" "linked (c\<lparr>stackStates := st\<rparr>) l = linked c l"
  by (simp_all add: linked_def half_linked_def)

lemma info_other_fields [simp]:
  "info_of (c\<lparr>cache_siteTree := t\<rparr>) = info_of c" "info_of (c\<lparr>regionToSite := r\<rparr>) = info_of c"
  "info_of (c\<lparr>assumedStacks := a\<rparr>) = info_of c" "info_of (c\<lparr>stackStates := st\<rparr>) = info_of c"
  by (simp_all add: info_of_def fun_eq_iff)

lemma info_of_dom: "dom (info_of c) = dom (siteCacheInfos c)"
  by (auto simp: info_of_def)

lemma info_of_None [simp]: "info_of c x = None \<longleftrightarrow> siteCacheInfos c x = None"
  by (simp add: info_of_def)

lemma half_linked_cong:
  assumes "item_links (siteCacheInfos c') = item_links (siteCacheInfos c)" "headSiteCacheInfo c' = headSiteCacheInfo c"
  shows "half_linked c' l = half_linked c l"
proof -
  have "dom m = dom (item_links m)" for m
    by (auto simp: item_links_def)
  moreover have "(\<forall>x it. m x = Some it \<and> x \<notin> set l \<longrightarrow> it_next it = None \<and> it_prev it = None) \<longleftrightarrow>
      (\<forall>x. x \<notin> set l \<longrightarrow> item_links m x = None \<or> item_links m x = Some (None, None))" for m
    by (fastforce simp: item_links_def)
  ultimately show ?thesis
    using assms dlseg_frame [of l "siteCacheInfos c'" "siteCacheInfos c" None None] by (simp add: half_linked_def)
qed

lemma set_info_keeps [simp]:
  "half_linked (set_info x n c) l = half_linked c l" "linked (set_info x n c) l = linked c l"
  "cache_siteTree (set_info x n c) = cache_siteTree c" "dom (siteCacheInfos (set_info x n c)) = dom (siteCacheInfos c)"
proof -
  have "item_links (siteCacheInfos (set_info x n c)) = item_links (siteCacheInfos c)"
    by (auto simp: item_links_def set_info_def upd_item_def fun_eq_iff split: option.split)
  then show "half_linked (set_info x n c) l = half_linked c l"
    by (intro half_linked_cong) (simp_all add: set_info_def)
  then show "linked (set_info x n c) l = linked c l"
    by (simp add: linked_def set_info_def)
qed (simp_all add: set_info_def)

lemma set_info_info: "x \<in> dom (siteCacheInfos c) \<Longrightarrow> info_of (set_info x n c) = (info_of c)(x \<mapsto> n)"
  by (auto simp: info_of_def set_info_def upd_item_def fun_eq_iff)

lemma ensure_item_keeps [simp]:
  "cache_siteTree (ensure_item x c) = cache_siteTree c" "dom (siteCacheInfos (ensure_item x c)) = insert x (dom (siteCacheInfos c))"
  by (auto simp: ensure_item_def)

lemma ensure_item_info:
  "\<exists>n. info_of (ensure_item x c) = (info_of c)(x \<mapsto> n)"
  by (auto simp: ensure_item_def info_of_def fun_eq_iff)

lemma ensure_move_linked:
  assumes "linked c l"
  shows "linked (moveSiteCacheInfoToHead x (ensure_item x c)) (x # removeAll x l)"
proof (rule move_links)
  show "dom (siteCacheInfos (ensure_item x c)) = insert x (set l)"
    using assms by (simp add: linked_def)
  have "dlseg (m(x \<mapsto> it)) None l None = dlseg m None l None" if "x \<notin> set l" for m it
    using that by (intro dlseg_frame) (auto simp: item_links_def)
  then show "half_linked (ensure_item x c) l"
    using assms by (auto simp: linked_def half_linked_def ensure_item_def newSiteCacheInfoListItem_def)
qed

lemma touch_linked: "linked c l \<Longrightarrow> x \<in> dom (siteCacheInfos c) \<Longrightarrow> linked (moveSiteCacheInfoToHead x c) (x # removeAll x l)"
  using ensure_move_linked [of c l x] by (auto simp: ensure_item_def)

lemma nextGeneration_eq: "0 \<le> g \<Longrightarrow> g < maxInt64 \<Longrightarrow> nextGeneration g = g + 1"
  by (simp add: nextGeneration_def)

lemma region_keeps [simp]:
  "info_of (updateRegionToSite s c) = info_of c" "linked (updateRegionToSite s c) l = linked c l"
  "cache_siteTree (updateRegionToSite s c) = cache_siteTree c" "siteCacheInfos (updateRegionToSite s c) = siteCacheInfos c"
  "info_of (deleteRegionToSite s c) = info_of c" "linked (deleteRegionToSite s c) l = linked c l"
  "cache_siteTree (deleteRegionToSite s c) = cache_siteTree c" "siteCacheInfos (deleteRegionToSite s c) = siteCacheInfos c"
  by (simp_all add: updateRegionToSite_def deleteRegionToSite_def Let_def split: option.split)

text \<open>\<open>AddSite\<close> and \<open>UpdateSite\<close> end with \<open>SetSite\<close> on the item at the head.\<close>

lemma set_site_touched:
  assumes "0 \<le> g" "g < maxInt64" and "info_of c1 = (info_of c)(SiteID site \<mapsto> n0)"
    and "\<And>l. linked c l \<Longrightarrow> linked c1 (SiteID site # removeAll (SiteID site) l)"
    and "tree_ok (cache_siteTree c1)" "set (st_zones (cache_siteTree c1)) = insert (SiteID site) (set (st_zones (cache_siteTree c)))"
  shows "\<exists>c'. set_site env kt kr g site c1 = Some (c', g + 1) \<and> touched g c (SiteID site) c'"
proof -
  obtain n1 where n1: "SetSite (env_flavors env) (env_ParseFloat env) kt kr g n0 site = Some (n1, g + 1)"
    "sci_Site n1 = Some site" "sci_generation n1 = g + 1"
    using SetSite_total [of "env_flavors env" "env_ParseFloat env" kt kr g n0 site] assms(1,2)
    by (auto simp: nextGeneration_eq)
  moreover have "SiteID site \<in> dom (siteCacheInfos c1)"
    unfolding info_of_dom [symmetric] assms(3) by simp
  ultimately have "info_of (set_info (SiteID site) n1 c1) = (info_of c)(SiteID site \<mapsto> n1)"
    "set_site env kt kr g site c1 = Some (set_info (SiteID site) n1 c1, g + 1)"
    using assms(3) by (simp_all add: set_info_info set_site_def)
  then show ?thesis
    using assms(4-6) n1(2,3) by (auto simp: touched_def)
qed

lemma AddSite_touched:
  assumes "0 \<le> g" "g < maxInt64" "tree_ok (cache_siteTree c)"
  shows "\<exists>c'. cache_AddSite env kt kr g c site = Some (c', g + 1) \<and> touched g c (SiteID site) c'"
proof -
  obtain n0 where "info_of (ensure_item (SiteID site) c) = (info_of c)(SiteID site \<mapsto> n0)"
    using ensure_item_info by blast
  then show ?thesis
    unfolding cache_AddSite_def Let_def
    using assms ensure_move_linked addSite_ok [OF assms(3), of site]
    by (intro set_site_touched) auto
qed

lemma UpdateSite_touched:
  assumes "0 \<le> g" "g < maxInt64" "tree_ok (cache_siteTree c)" "set (st_zones (cache_siteTree c)) = dom (info_of c)"
    "SiteID old = SiteID site"
  shows "\<exists>c'. cache_UpdateSite env kt kr g c (Some old) site = Some (c', g + 1) \<and> touched g c (SiteID site) c'"
proof -
  define t where "t = (if siteCacheInfos c (SiteID site) = None then tree_addSite (cache_siteTree c) site else cache_siteTree c)"
  have t: "tree_ok t" "set (st_zones t) = insert (SiteID site) (set (st_zones (cache_siteTree c)))"
    "tree_updateSite t (Some old) site = Some t"
    using assms(3-5) addSite_ok [OF assms(3), of site]
    by (auto simp: t_def tree_updateSite_def GetZoneKey_def info_of_dom)
  obtain n0 where n0: "info_of (ensure_item (SiteID site) (c\<lparr>cache_siteTree := t\<rparr>)) = (info_of c)(SiteID site \<mapsto> n0)"
    using ensure_item_info [of "SiteID site" "c\<lparr>cache_siteTree := t\<rparr>"] by auto
  have "linked c l \<Longrightarrow> linked (moveSiteCacheInfoToHead (SiteID site) (ensure_item (SiteID site) (c\<lparr>cache_siteTree := t\<rparr>)))
      (SiteID site # removeAll (SiteID site) l)" for l
    by (rule ensure_move_linked) simp
  then show ?thesis
    unfolding cache_UpdateSite_def t_def [symmetric] using assms(1,2) t n0
    by (auto intro!: set_site_touched)
qed

text \<open>The invariant of cache and snapshot, and the two ways an operation keeps it.\<close>

definition cs_inv :: "int \<Rightarrow> schedulerCache \<Rightarrow> Snapshot \<Rightarrow> bool" where
  "cs_inv g c s \<longleftrightarrow> cache_inv g c \<and> snap_inv g c s"

lemma touched_step: "cs_inv g c s \<Longrightarrow> touched g c x c' \<Longrightarrow> g < maxInt64 \<Longrightarrow> cs_inv (g + 1) c' s"
  unfolding cs_inv_def by (blast intro: touched_inv touched_snap)

lemma inv_other_fields [simp]:
  "cs_inv g (c\<lparr>regionToSite := r\<rparr>) s = cs_inv g c s" "cs_inv g (c\<lparr>assumedStacks := a\<rparr>) s = cs_inv g c s"
  "cs_inv g (c\<lparr>stackStates := st\<rparr>) s = cs_inv g c s"
  by (simp_all add: cs_inv_def cache_inv_def snap_inv_def list_inv_def gen_of_def)

lemma inv_D:
  assumes "cs_inv g c s"
  shows "0 \<le> g" "g \<le> maxInt64" "tree_ok (cache_siteTree c)" "set (st_zones (cache_siteTree c)) = dom (info_of c)"
    "info_of c x = Some n \<Longrightarrow> \<exists>s. sci_Site n = Some s \<and> SiteID s = x"
  using assms by (auto simp: cs_inv_def cache_inv_def)

text \<open>An update of the info of a cached site.\<close>

lemma info_update_step:
  assumes "cs_inv g c s" "g < maxInt64" "info_of c x = Some n" "bumped g n r"
  shows "\<exists>n1. r = Some (n1, g + 1) \<and> cs_inv (g + 1) (moveSiteCacheInfoToHead x (set_info x n1 c)) s"
proof -
  obtain n1 where n1: "r = Some (n1, g + 1)" "sci_Site n1 = sci_Site n" "sci_generation n1 = g + 1"
    using assms(4) inv_D(1) [OF assms(1)] assms(2) by (auto simp: bumped_def nextGeneration_eq)
  have x: "x \<in> dom (siteCacheInfos c)"
    using assms(3) by (auto simp flip: info_of_dom)
  have "touched g c x (moveSiteCacheInfoToHead x (set_info x n1 c))"
    using n1 x inv_D [OF assms(1)] assms(3) touch_linked [of "set_info x n1 c" _ x]
    by (auto simp: touched_def set_info_info insert_absorb)
  then show ?thesis
    using touched_step assms(1,2) n1(1) by blast
qed

lemma touch_site_step:
  assumes "cs_inv g c s" "g < maxInt64" "info_of c x = Some n" "bumped g n (upd n)"
  shows "\<exists>c'. touch_site upd x n c = Some (c', g + 1) \<and> cs_inv (g + 1) c' s"
  using info_update_step [OF assms] by (auto simp: touch_site_def)

lemma pool_steps:
  assumes "cs_inv g c s" "g < maxInt64"
  shows "\<exists>e c' g'. cache_UpdateSiteWithEipPool g c siteID eipPool = Some (e, c', g') \<and> g' \<le> g + 1 \<and> cs_inv g' c' s"
    and "\<exists>e c' g'. cache_UpdateSiteWithVolumePool g c siteID volumePool = Some (e, c', g') \<and> g' \<le> g + 1 \<and> cs_inv g' c' s"
proof -
  have "\<exists>e c' g'. (case info_of c siteID of None \<Rightarrow> Some (Some (SiteNotFound siteID), c, g)
      | Some n \<Rightarrow> map_option (Pair None) (touch_site upd siteID n c)) = Some (e, c', g') \<and> g' \<le> g + 1 \<and> cs_inv g' c' s"
    if "\<And>n site. sci_Site n = Some site \<Longrightarrow> bumped g n (upd n)" for upd
  proof (cases "info_of c siteID")
    case None
    then show ?thesis
      using assms by (auto simp del: info_of_None)
  next
    case (Some n)
    then have "bumped g n (upd n)"
      using that inv_D(5) [OF assms(1) Some] by blast
    from touch_site_step [where upd = upd, OF assms Some this] Some show ?thesis
      by auto
  qed
  from this [of "\<lambda>n. Some (sci_UpdateSiteWithEipPool g n eipPool)"] this [of "\<lambda>n. sci_UpdateSiteWithVolumePool g n volumePool"]
  show "\<exists>e c' g'. cache_UpdateSiteWithEipPool g c siteID eipPool = Some (e, c', g') \<and> g' \<le> g + 1 \<and> cs_inv g' c' s"
    "\<exists>e c' g'. cache_UpdateSiteWithVolumePool g c siteID volumePool = Some (e, c', g') \<and> g' \<le> g + 1 \<and> cs_inv g' c' s"
    using sci_ops_bumped(2,3) by (simp_all add: cache_UpdateSiteWithEipPool_def cache_UpdateSiteWithVolumePool_def)
qed

lemma pool_loop:
  assumes "\<And>g c siteID. cs_inv g c s \<Longrightarrow> g < maxInt64 \<Longrightarrow> \<exists>e c' g'. f g c siteID = Some (e, c', g') \<and> g' \<le> g + 1 \<and> cs_inv g' c' s"
  shows "cs_inv g c s \<Longrightarrow> g + int (length ks) \<le> maxInt64 \<Longrightarrow>
    \<exists>c' g'. foldM (\<lambda>siteID (c, g). do { (e, c1, g1) \<leftarrow> f g c siteID; Some (c1, g1) }) ks (c, g) = Some (c', g') \<and>
      g' \<le> g + int (length ks) \<and> cs_inv g' c' s"
proof (induction ks arbitrary: g c)
  case (Cons k ks)
  obtain e c1 g1 where 1: "f g c k = Some (e, c1, g1)" "g1 \<le> g + 1" "cs_inv g1 c1 s"
    using assms [of g c k] Cons.prems by auto
  with Cons.IH [of g1 c1] Cons.prems show ?case
    by fastforce
qed auto

text \<open>The remaining operations.\<close>

lemma cached_update_step:
  assumes "cs_inv g c s" "g < maxInt64" "\<And>n site. sci_Site n = Some site \<Longrightarrow> bumped g n (upd n)"
  shows "\<exists>c' g'. (case info_of c x of None \<Rightarrow> Some (c, g) | Some n \<Rightarrow> touch_site upd x n c) = Some (c', g') \<and> cs_inv g' c' s"
proof (cases "info_of c x")
  case None
  then show ?thesis
    using assms(1) by (auto simp del: info_of_None)
next
  case (Some n)
  then have "bumped g n (upd n)"
    using assms(3) inv_D(5) [OF assms(1) Some] by blast
  from touch_site_step [where upd = upd, OF assms(1,2) Some this] Some show ?thesis
    by auto
qed

lemma first_site_in_SomeD:
  "first_site_in ks c region az = Some (Some (k, n, site)) \<Longrightarrow> info_of c k = Some n \<and> sci_Site n = Some site"
  by (induction ks) (auto split: option.splits if_splits elim!: bind_SomeE)

lemma first_site_in_total:
  "(\<And>k n. info_of c k = Some n \<Longrightarrow> sci_Site n \<noteq> None) \<Longrightarrow> \<exists>r. first_site_in ks c region az = Some r"
  by (induction ks) (force split: option.split)+

lemma update_first_site_step:
  assumes "cs_inv g c s" "g < maxInt64" "\<And>n site. sci_Site n = Some site \<Longrightarrow> bumped g n (upd n)"
  shows "\<exists>c' g'. update_first_site upd ks g c region az = Some (c', g') \<and> cs_inv g' c' s"
proof -
  obtain r where r: "first_site_in ks c region az = Some r"
    using first_site_in_total [of c ks region az] inv_D(5) [OF assms(1)] by fastforce
  show ?thesis
  proof (cases r)
    case None
    then show ?thesis
      using r assms(1) by (simp add: update_first_site_def)
  next
    case (Some t)
    then obtain k n site where k: "r = Some (k, n, site)" "info_of c k = Some n" "sci_Site n = Some site"
      using r first_site_in_SomeD by (cases t) blast
    then have "SiteID site = k"
      using inv_D(5) [OF assms(1)] by fastforce
    then show ?thesis
      using info_update_step [OF assms(1,2) k(2) assms(3) [OF k(3)]] r k(1) by (auto simp: update_first_site_def)
  qed
qed

lemma addStack_step:
  assumes "cs_inv g c s" "g < maxInt64" "sd_SiteID (stk_Selected stack) \<in> dom (info_of c)"
  shows "\<exists>c'. cache_addStack g c stack = (c', g + 1) \<and> cs_inv (g + 1) c' s \<and>
    stackStates c' = stackStates c \<and> assumedStacks c' = assumedStacks c"
proof -
  obtain n where n: "info_of c (sd_SiteID (stk_Selected stack)) = Some n"
    using assms(3) by blast
  then obtain site where "sci_Site n = Some site"
    using inv_D(5) [OF assms(1)] by blast
  from info_update_step [OF assms(1,2) n sci_ops_bumped(1) [OF this]]
  obtain n1 where n1: "sci_AddStack g n stack = (n1, g + 1)"
    "cs_inv (g + 1) (moveSiteCacheInfoToHead (sd_SiteID (stk_Selected stack)) (set_info (sd_SiteID (stk_Selected stack)) n1 c)) s"
    by auto
  have "ensure_item (sd_SiteID (stk_Selected stack)) c = c"
    using n by (auto simp: ensure_item_def info_of_def)
  then show ?thesis
    using n n1 by (simp add: cache_addStack_def Let_def) (simp add: set_info_def)
qed

lemma RemoveSite_step:
  assumes "cs_inv g c s"
  shows "\<exists>e c'. cache_RemoveSite c site = (e, c') \<and> cs_inv g c' s \<and> (e = None \<longleftrightarrow> SiteID site \<in> dom (info_of c))"
proof (cases "siteCacheInfos c (SiteID site)")
  case None
  then show ?thesis
    using assms by (simp add: cache_RemoveSite_def domIff)
next
  case (Some it)
  define c1 where "c1 = removeSiteCacheInfoFromList (SiteID site) c"
  obtain l where l: "list_inv c l" "SiteID site \<in> set l"
    using assms Some by (auto simp: cs_inv_def cache_inv_def list_inv_def linked_def)
  then have "linked c1 (removeAll (SiteID site) l)"
    unfolding c1_def by (intro remove_linked) (simp_all add: list_inv_def)
  moreover have "sorted_wrt (\<lambda>x y. gen_of c1 y < gen_of c1 x) (removeAll (SiteID site) l)"
    by (rule sorted_wrt_mono_rel [of _ "\<lambda>x y. gen_of c y < gen_of c x"])
      (use l(1) in \<open>auto simp: c1_def gen_of_def list_inv_def removeAll_filter_not_eq sorted_wrt_filter\<close>)
  ultimately have l1: "list_inv c1 (removeAll (SiteID site) l)"
    by (simp add: list_inv_def)
  define t where "t = snd (tree_removeSite (cache_siteTree c) site)"
  have t: "tree_removeSite (cache_siteTree c1) site = (True, t)" "tree_ok t" "set (st_zones t) = dom (info_of c) - {SiteID site}"
    using removeSite_ok [OF inv_D(3) [OF assms], of site] inv_D(4) [OF assms] Some
    by (auto simp: t_def c1_def info_of_dom prod_eq_iff)
  define c2 where "c2 = c1\<lparr>cache_siteTree := t\<rparr>"
  have "list_inv c2 (removeAll (SiteID site) l)"
    using l1 by (simp add: c2_def list_inv_def gen_of_def)
  then have c2: "\<exists>l. list_inv c2 l" "info_of c2 = (info_of c)(SiteID site := None)" "cache_siteTree c2 = t"
    by (auto simp: c2_def c1_def)
  have "cs_inv g c2 s"
    using assms t(2,3) c2 by (auto simp: cs_inv_def cache_inv_def snap_inv_def split: if_splits)
  then have "cs_inv g (deleteRegionToSite site (c1\<lparr>cache_siteTree := t\<rparr>)) s"
    unfolding c2_def by (simp add: deleteRegionToSite_def Let_def split: option.split)
  then show ?thesis
    using Some t(1) by (auto simp: cache_RemoveSite_def c1_def info_of_dom)
qed

end
