(* ===== verification/CacheSnapshot.thy ===== *)
theory CacheSnapshot
  imports CacheInvariants
begin

text \<open>
  \<open>UpdateSnapshot\<close> copies only what changed since the last snapshot. Under the invariant of the cache the result is
  an exact copy of the cache, the list of the snapshot holds every site once, and no error is returned.
\<close>

section \<open>The loop along the list\<close>

text \<open>On a well-linked list the loop is a fold over the sites that are newer than the snapshot.\<close>

lemma snapshot_loop_list:
  assumes "dlseg m p l None"
  shows "snapshot_loop ord m gen (ptr_hd l None) st =
    foldM (\<lambda>x. snapshot_site ord (it_info (the (m x)))) (takeWhile (\<lambda>x. gen < sci_generation (it_info (the (m x)))) l) st"
  using assms
proof (induction l arbitrary: p st)
  case Nil
  then show ?case
    by (simp add: snapshot_loop.simps)
next
  case (Cons x l)
  then obtain it where it: "m x = Some it" "it_next it = ptr_hd l None" "dlseg m (Some x) l None"
    by auto
  have "snapshot_loop ord m gen (ptr_hd l None) = foldM (\<lambda>x. snapshot_site ord (it_info (the (m x))))
      (takeWhile (\<lambda>x. gen < sci_generation (it_info (the (m x)))) l)"
    by (rule ext) (rule Cons.IH [OF it(3)])
  then show ?case
    by (subst snapshot_loop.simps) (simp add: it not_le)
qed

lemma takeWhile_sorted: "sorted_wrt (\<lambda>x y. f y < f x) l \<Longrightarrow> takeWhile (\<lambda>x. b < f x) l = filter (\<lambda>x. b < (f x :: int)) l"
proof (induction l)
  case (Cons x l)
  then have "\<not> b < f x \<Longrightarrow> \<forall>y \<in> set l. \<not> b < f y"
    by force
  then show ?case
    using Cons by (auto simp: filter_empty_conv)
qed simp

text \<open>What the loop has done to the snapshot \<open>s\<close> after the sites \<open>xs\<close>.\<close>

definition loop_state :: "schedulerCache \<Rightarrow> Snapshot \<Rightarrow> string list \<Rightarrow> Snapshot \<Rightarrow> bool \<Rightarrow> bool" where
  "loop_state c s xs s' upd \<longleftrightarrow>
     SiteCacheInfoList s' = SiteCacheInfoList s \<and> snap_generation s' = snap_generation s \<and>
     dom (SiteCacheInfoMap s') = dom (SiteCacheInfoMap s) \<union> set xs \<and> SiteCacheInfoMap s \<subseteq>\<^sub>m SiteCacheInfoMap s' \<and>
     inj_on (SiteCacheInfoMap s') (dom (SiteCacheInfoMap s')) \<and> (\<forall>a \<in> ran (SiteCacheInfoMap s'). a < snap_next s') \<and>
     upd = (\<not> set xs \<subseteq> dom (SiteCacheInfoMap s)) \<and>
     (\<forall>x \<in> set xs. \<forall>n a. info_of c x = Some n \<and> SiteCacheInfoMap s' x = Some a \<longrightarrow> is_clone n (snap_cells s' a)) \<and>
     (\<forall>x a. x \<notin> set xs \<and> SiteCacheInfoMap s x = Some a \<longrightarrow> snap_cells s' a = snap_cells s a)"

lemma loop_state_init: "snap_inv g c s \<Longrightarrow> loop_state c s [] s False"
  by (simp add: loop_state_def snap_inv_def)

lemma Clone_total: "sci_Site n = Some site \<Longrightarrow> \<exists>n'. SiteCacheInfo_Clone ks n = Some n'"
  by (auto simp: SiteCacheInfo_Clone_def split: prod.split)

lemma inj_on_map_iff: "inj_on m (dom m) \<longleftrightarrow> (\<forall>y z a. m y = Some a \<longrightarrow> m z = Some a \<longrightarrow> y = z)"
  by (auto simp: inj_on_def dom_def)

lemma loop_state_step:
  assumes st: "loop_state c s xs s1 u1" and x: "info_of c x = Some n" "sci_Site n = Some site" "SiteID site = x" "x \<notin> set xs"
    and ord: "range_order (ord x) (RequestedResources n)"
  shows "\<exists>s2 u2. snapshot_site ord n (s1, u1) = Some (s2, u2) \<and> loop_state c s (xs @ [x]) s2 u2"
proof -
  obtain n' where n': "SiteCacheInfo_Clone (ord x) n = Some n'"
    using Clone_total [OF x(2)] by blast
  then have cl: "is_clone n n'"
    using ord by (auto simp: is_clone_def)
  have inj: "y = z" if "SiteCacheInfoMap s1 y = Some a" "SiteCacheInfoMap s1 z = Some a" for y z a
    using st that unfolding loop_state_def inj_on_map_iff by blast
  have le: "SiteCacheInfoMap s y = Some a \<Longrightarrow> SiteCacheInfoMap s1 y = Some a" for y a
    using st by (auto simp: loop_state_def map_le_def dom_def)
  have bound: "SiteCacheInfoMap s1 y = Some a \<Longrightarrow> a < snap_next s1" for y a
    using st by (auto simp: loop_state_def ran_def)
  show ?thesis
  proof (cases "SiteCacheInfoMap s1 x")
    case (Some a)
    then have "x \<in> dom (SiteCacheInfoMap s)"
      using st x(4) by (auto simp: loop_state_def)
    then have "loop_state c s (xs @ [x]) (s1\<lparr>snap_cells := (snap_cells s1)(a := n')\<rparr>) u1"
      using st x Some cl inj le by (auto simp: loop_state_def)
    then show ?thesis
      using x n' Some by (simp add: snapshot_site_def)
  next
    case None
    define s2 where "s2 = s1\<lparr>SiteCacheInfoMap := (SiteCacheInfoMap s1)(x \<mapsto> snap_next s1), snap_next := Suc (snap_next s1),
      snap_cells := (snap_cells s1)(snap_next s1 := n')\<rparr>"
    have nx: "x \<notin> dom (SiteCacheInfoMap s)"
      using None le by fastforce
    have "inj_on (SiteCacheInfoMap s2) (dom (SiteCacheInfoMap s2))"
      unfolding inj_on_map_iff
    proof (intro allI impI)
      fix y z a
      assume "SiteCacheInfoMap s2 y = Some a" "SiteCacheInfoMap s2 z = Some a"
      then show "y = z"
        using inj [of y a z] bound [of y a] bound [of z a] by (cases "y = x"; cases "z = x") (auto simp: s2_def)
    qed
    moreover have "SiteCacheInfoMap s \<subseteq>\<^sub>m SiteCacheInfoMap s2"
      using nx le by (auto simp: map_le_def s2_def)
    moreover have "\<forall>a \<in> ran (SiteCacheInfoMap s2). a < snap_next s2"
      using bound by (auto simp: s2_def ran_def less_Suc_eq)
    moreover have "SiteCacheInfoMap s1 y \<noteq> Some (snap_next s1)" "SiteCacheInfoMap s y \<noteq> Some (snap_next s1)" for y
      using bound [of y "snap_next s1"] le [of y "snap_next s1"] by auto
    ultimately have "loop_state c s (xs @ [x]) s2 True"
      using st nx cl x le by (auto simp: loop_state_def s2_def)
    moreover have "snapshot_site ord n (s1, u1) = Some (s2, True)"
      using x n' None by (simp add: snapshot_site_def s2_def)
    ultimately show ?thesis
      by blast
  qed
qed

lemma loop_state_fold:
  assumes st: "loop_state c s xs s1 u1" and "distinct (xs @ ys)"
    and "\<And>x. x \<in> set ys \<Longrightarrow> \<exists>n site. info_of c x = Some n \<and> sci_Site n = Some site \<and> SiteID site = x \<and>
      range_order (ord x) (RequestedResources n)"
  shows "\<exists>s2 u2. foldM (\<lambda>x. snapshot_site ord (it_info (the (siteCacheInfos c x)))) ys (s1, u1) = Some (s2, u2) \<and>
    loop_state c s (xs @ ys) s2 u2"
  using assms
proof (induction ys arbitrary: xs s1 u1)
  case (Cons y ys)
  obtain n site where n: "info_of c y = Some n" "sci_Site n = Some site" "SiteID site = y" "range_order (ord y) (RequestedResources n)"
    using Cons.prems(3) by force
  have "it_info (the (siteCacheInfos c y)) = n"
    using n(1) by (auto simp: info_of_def)
  moreover obtain s2 u2 where "snapshot_site ord n (s1, u1) = Some (s2, u2)" "loop_state c s (xs @ [y]) s2 u2"
    using loop_state_step [of c s xs s1 u1 y n site ord] Cons.prems n by auto
  ultimately show ?case
    using Cons.IH [of "xs @ [y]" s2 u2] Cons.prems(2,3) by auto
qed auto

section \<open>Deleted sites\<close>

lemma remove_deleted_eq:
  "distinct ks \<Longrightarrow> d = int (length (filter (\<lambda>k. infos k = None) ks)) \<Longrightarrow>
   remove_deleted infos ks d m = (\<lambda>x. if x \<in> set ks \<and> infos x = None then None else m x)"
proof (induction ks arbitrary: d m)
  case (Cons k ks)
  show ?case
  proof (cases "infos k = None")
    case True
    then have "remove_deleted infos ks (d - 1) (m(k := None)) = (\<lambda>x. if x \<in> set ks \<and> infos x = None then None else (m(k := None)) x)"
      using Cons.prems by (intro Cons.IH) auto
    moreover have "0 < d"
      using True Cons.prems(2) by simp
    ultimately show ?thesis
      using True by (auto simp: fun_eq_iff)
  next
    case False
    have "infos x \<noteq> None" if "d \<le> 0" "x \<in> set ks" for x
      using Cons.prems(2) that False by (auto simp: filter_empty_conv)
    then have "d \<le> 0 \<Longrightarrow> (\<lambda>x. if x \<in> set ks \<and> infos x = None then None else m x) = m"
      by (auto simp: fun_eq_iff simp del: not_None_eq)
    moreover have "remove_deleted infos ks d m = (\<lambda>x. if x \<in> set ks \<and> infos x = None then None else m x)"
      using Cons.prems False by (intro Cons.IH) auto
    moreover have "(x \<in> set (k # ks) \<and> infos x = None) = (x \<in> set ks \<and> infos x = None)" for x
      using False by auto
    ultimately show ?thesis
      using False by (cases "d \<le> 0") (auto simp del: list.set)
  qed
qed auto

text \<open>The number of deletions is right when the snapshot has every cached site.\<close>

lemma remove_deleted_restrict:
  assumes "distinct km" "set km = dom m" "range_order kc infos" "dom infos \<subseteq> dom m"
  shows "remove_deleted infos km (int (length km) - int (length kc)) m = m |` dom infos"
    "length km \<le> length kc \<Longrightarrow> dom m = dom infos"
proof -
  have "set (filter (\<lambda>k. k \<in> dom infos) km) = dom infos"
    using assms by auto
  then have len: "length (filter (\<lambda>k. k \<in> dom infos) km) = length kc"
    using assms(1,3) by (metis distinct_card distinct_filter range_order_def)
  have "length km = length (filter (\<lambda>k. k \<in> dom infos) km) + length (filter (\<lambda>k. k \<notin> dom infos) km)"
    by (rule sum_length_filter_compl [symmetric])
  then have "int (length km) - int (length kc) = int (length (filter (\<lambda>k. infos k = None) km))"
    using len by (simp add: domIff)
  then show "remove_deleted infos km (int (length km) - int (length kc)) m = m |` dom infos"
    using remove_deleted_eq [OF assms(1), of _ infos m] assms(2)
    by (auto simp: restrict_map_def fun_eq_iff)
  show "dom m = dom infos" if "length km \<le> length kc"
  proof -
    have "length (filter (\<lambda>k. k \<notin> dom infos) km) = 0"
      using that len sum_length_filter_compl [of "\<lambda>k. k \<in> dom infos" km] by linarith
    then show ?thesis
      using assms(2,4) by (auto simp: filter_empty_conv)
  qed
qed

section \<open>The list of the snapshot\<close>

lemma map_filter_dom: "set ids \<subseteq> dom m \<Longrightarrow> List.map_filter m ids = map (the \<circ> m) ids"
  by (induction ids) (auto simp: List.map_filter_simps)

lemma snapshot_list_rebuild:
  assumes "tree_ok (cache_siteTree c)" "set (st_zones (cache_siteTree c)) = dom (SiteCacheInfoMap s)"
    "inj_on (SiteCacheInfoMap s) (dom (SiteCacheInfoMap s))"
  shows "\<exists>t ids. updateSiteCacheInfoSnapshotList c s =
      Some (c\<lparr>cache_siteTree := t\<rparr>, s\<lparr>SiteCacheInfoList := map (the \<circ> SiteCacheInfoMap s) ids\<rparr>) \<and>
    tree_ok t \<and> st_zones t = st_zones (cache_siteTree c) \<and> distinct ids \<and> set ids = dom (SiteCacheInfoMap s) \<and>
    distinct (map (the \<circ> SiteCacheInfoMap s) ids) \<and> int (length ids) = st_numSites t"
proof -
  obtain ids t where t: "tree_nexts (length (st_zones (cache_siteTree c))) (cache_siteTree c) = Some (ids, t)"
    "mset ids = mset (st_zones (cache_siteTree c))" "tree_ok t" "st_zones t = st_zones (cache_siteTree c)"
    using round_each_once [OF assms(1)] by blast
  have ids: "distinct ids" "set ids = dom (SiteCacheInfoMap s)"
    using t(2) assms(1,2) unfolding tree_ok_def tree_wf_def by (metis mset_eq_imp_distinct_iff, metis set_mset_mset)
  have "length ids = length (st_zones t)"
    using t(2,4) by (metis size_mset)
  then have "int (length ids) = st_numSites t"
    using t(3) by (simp add: tree_ok_def tree_wf_def)
  moreover have "inj_on (the \<circ> SiteCacheInfoMap s) (set ids)"
    using assms(3) unfolding ids(2) inj_on_map_iff by (auto simp: inj_on_def)
  ultimately show ?thesis
    using t ids map_filter_dom [of ids "SiteCacheInfoMap s"] numSites_length [OF assms(1)]
    by (auto simp: updateSiteCacheInfoSnapshotList_def distinct_map intro!: exI [of _ t] exI [of _ ids])
qed

lemma restrict_map_dom: "m |` dom m = m"
  by (rule ext) (simp add: restrict_map_def domIff)

lemma ran_restrict_map: "set ids = dom m \<Longrightarrow> set (map (the \<circ> m) ids) = ran m"
  by (force simp: ran_def dom_def image_iff)

section \<open>The snapshot\<close>

text \<open>The iteration orders of a call: of the snapshot map after the loop, of the cached sites, and of \<open>Clone\<close>.\<close>

definition snapshot_orders :: "(string \<Rightarrow> string list) \<Rightarrow> string list \<Rightarrow> string list \<Rightarrow> schedulerCache \<Rightarrow> Snapshot \<Rightarrow> bool" where
  "snapshot_orders ord km kc c s \<longleftrightarrow>
     distinct km \<and> set km = dom (SiteCacheInfoMap s) \<union> dom (siteCacheInfos c) \<and> range_order kc (siteCacheInfos c) \<and>
     (\<forall>x n. info_of c x = Some n \<longrightarrow> range_order (ord x) (RequestedResources n))"

text \<open>A snapshot that is an exact copy of the cache.\<close>

definition exact_copy :: "schedulerCache \<Rightarrow> Snapshot \<Rightarrow> bool" where
  "exact_copy c s \<longleftrightarrow> dom (SiteCacheInfoMap s) = dom (info_of c) \<and>
     (\<forall>x n a. info_of c x = Some n \<and> SiteCacheInfoMap s x = Some a \<longrightarrow> is_clone n (snap_cells s a)) \<and>
     inj_on (SiteCacheInfoMap s) (dom (SiteCacheInfoMap s)) \<and>
     distinct (SiteCacheInfoList s) \<and> set (SiteCacheInfoList s) = ran (SiteCacheInfoMap s)"

lemma gen_of_item: "siteCacheInfos c x = Some it \<Longrightarrow> gen_of c x = sci_generation (it_info it)"
  by (simp add: gen_of_def info_of_def)

text \<open>After the loop the snapshot has a clone of every cached site.\<close>

lemma snapshot_loop_copies:
  assumes inv: "cs_inv g c s" and ord: "snapshot_orders ord km kc c s"
  shows "\<exists>s1 u1 xs. snapshot_loop ord (siteCacheInfos c) (snap_generation s) (headSiteCacheInfo c) (s, False) = Some (s1, u1) \<and>
    loop_state c s xs s1 u1 \<and> dom (SiteCacheInfoMap s1) = set km \<and>
    (\<forall>x n a. info_of c x = Some n \<and> SiteCacheInfoMap s1 x = Some a \<longrightarrow> is_clone n (snap_cells s1 a))"
proof -
  obtain l where l: "linked c l" "sorted_wrt (\<lambda>x y. gen_of c y < gen_of c x) l"
    using inv by (auto simp: cs_inv_def cache_inv_def list_inv_def)
  then have seg: "dlseg (siteCacheInfos c) None l None" "headSiteCacheInfo c = ptr_hd l None" "distinct l" "set l = dom (info_of c)"
    by (simp_all add: linked_def half_linked_def info_of_dom)
  define xs where "xs = filter (\<lambda>x. snap_generation s < gen_of c x) l"
  have "takeWhile (\<lambda>x. snap_generation s < sci_generation (it_info (the (siteCacheInfos c x)))) l = takeWhile (\<lambda>x. snap_generation s < gen_of c x) l"
    using seg(4) by (intro takeWhile_cong) (auto simp: info_of_dom gen_of_item)
  then have xs: "takeWhile (\<lambda>x. snap_generation s < sci_generation (it_info (the (siteCacheInfos c x)))) l = xs"
    using takeWhile_sorted [OF l(2)] by (simp add: xs_def)
  have "\<exists>n site. info_of c x = Some n \<and> sci_Site n = Some site \<and> SiteID site = x \<and> range_order (ord x) (RequestedResources n)"
    if "x \<in> set xs" for x
    using that seg(4) inv_D(5) [OF inv, of x] ord by (fastforce simp: xs_def snapshot_orders_def)
  moreover have snap: "snap_inv g c s"
    using inv by (simp add: cs_inv_def)
  ultimately obtain s1 u1 where s1: "foldM (\<lambda>x. snapshot_site ord (it_info (the (siteCacheInfos c x)))) xs (s, False) = Some (s1, u1)"
    "loop_state c s xs s1 u1"
    using loop_state_fold [OF loop_state_init, of g c s xs ord] seg(3) by (auto simp: xs_def)
  have old: "x \<in> dom (SiteCacheInfoMap s) \<and> (\<forall>n a. info_of c x = Some n \<and> SiteCacheInfoMap s1 x = Some a \<longrightarrow> is_clone n (snap_cells s1 a))"
    if x: "x \<in> dom (info_of c)" "x \<notin> set xs" for x
  proof -
    obtain n where n: "info_of c x = Some n" "sci_generation n \<le> snap_generation s"
      using x seg(4) by (auto simp: xs_def gen_of_def)
    then obtain a where a: "SiteCacheInfoMap s x = Some a" "is_clone n (snap_cells s a)"
      using snap unfolding snap_inv_def by blast
    then have "SiteCacheInfoMap s1 x = Some a" "snap_cells s1 a = snap_cells s a"
      using s1(2) x(2) by (auto simp: loop_state_def map_le_def dom_def)
    with a n show ?thesis
      by auto
  qed
  have "set xs \<subseteq> dom (info_of c)"
    using seg(4) by (auto simp: xs_def)
  then have "dom (SiteCacheInfoMap s1) = set km"
    using s1(2) old ord by (auto simp: loop_state_def snapshot_orders_def simp flip: info_of_dom)
  moreover have "is_clone n (snap_cells s1 a)" if "info_of c x = Some n" "SiteCacheInfoMap s1 x = Some a" for x n a
    using that s1(2) old [of x] by (cases "x \<in> set xs") (auto simp: loop_state_def)
  ultimately show ?thesis
    using s1 snapshot_loop_list [OF seg(1), of ord "snap_generation s" "(s, False)"] xs seg(2) by auto
qed

text \<open>The snapshot after deletions: everything of \<open>exact_copy\<close> but the list.\<close>

definition snap_ready :: "int \<Rightarrow> schedulerCache \<Rightarrow> Snapshot \<Rightarrow> bool" where
  "snap_ready g c s \<longleftrightarrow> snap_generation s \<le> g \<and> dom (SiteCacheInfoMap s) = dom (info_of c) \<and>
     inj_on (SiteCacheInfoMap s) (dom (SiteCacheInfoMap s)) \<and> (\<forall>a \<in> ran (SiteCacheInfoMap s). a < snap_next s) \<and>
     (\<forall>x n a. info_of c x = Some n \<and> SiteCacheInfoMap s x = Some a \<longrightarrow> is_clone n (snap_cells s a))"

lemma snap_ready_inv:
  assumes "snap_ready g c s" "cache_inv g c" "distinct (SiteCacheInfoList s)" "set (SiteCacheInfoList s) = ran (SiteCacheInfoMap s)"
  shows "exact_copy c s" "snap_inv g c s"
proof -
  show "exact_copy c s"
    using assms(1,3,4) unfolding exact_copy_def snap_ready_def by blast
  have "finite (dom (info_of c))"
    using assms(2) unfolding cache_inv_def by (metis List.finite_set)
  moreover have "\<exists>a. SiteCacheInfoMap s x = Some a \<and> is_clone n (snap_cells s a)" if "info_of c x = Some n" for x n
    using that assms(1) unfolding snap_ready_def by (metis domD domI)
  ultimately show "snap_inv g c s"
    using assms(1,3,4) unfolding snap_inv_def snap_ready_def by auto
qed

lemma loop_state_ready:
  assumes "loop_state c s xs s1 u1" "G \<le> g"
    "\<forall>x n a. info_of c x = Some n \<and> SiteCacheInfoMap s1 x = Some a \<longrightarrow> is_clone n (snap_cells s1 a)"
    and "m = SiteCacheInfoMap s1 |` dom (info_of c)" "dom (info_of c) \<subseteq> dom (SiteCacheInfoMap s1)"
  shows "snap_ready g c (s1\<lparr>snap_generation := G, SiteCacheInfoMap := m\<rparr>)"
proof -
  have m: "m x = Some a \<Longrightarrow> SiteCacheInfoMap s1 x = Some a" for x a
    using assms(4) by (auto simp: restrict_map_def split: if_splits)
  have "inj_on m (dom m)"
    using assms(1) m unfolding loop_state_def inj_on_map_iff by metis
  moreover have "ran m \<subseteq> ran (SiteCacheInfoMap s1)"
    using m by (auto simp: ran_def)
  then have "\<forall>a \<in> ran m. a < snap_next s1"
    using assms(1) unfolding loop_state_def by blast
  moreover have "dom m = dom (info_of c)"
    using assms(4,5) by auto
  moreover have "\<forall>x n a. info_of c x = Some n \<and> m x = Some a \<longrightarrow> is_clone n (snap_cells s1 a)"
    using assms(3) m by blast
  ultimately show ?thesis
    using assms(2) by (simp add: snap_ready_def)
qed

lemma finish_snapshot:
  assumes "snap_ready g c s3" "cache_inv g c"
    and "\<not> upd \<Longrightarrow> distinct (SiteCacheInfoList s3) \<and> set (SiteCacheInfoList s3) = ran (SiteCacheInfoMap s3)"
  shows "\<exists>t s4. (if upd then updateSiteCacheInfoSnapshotList c s3 else Some (c, s3)) = Some (c\<lparr>cache_siteTree := t\<rparr>, s4) \<and>
    tree_ok t \<and> st_zones t = st_zones (cache_siteTree c) \<and> int (length (SiteCacheInfoList s4)) = st_numSites t \<and>
    exact_copy c s4 \<and> snap_inv g c s4"
proof -
  let ?m = "SiteCacheInfoMap s3" and ?t = "cache_siteTree c"
  have t: "tree_ok ?t" "set (st_zones ?t) = dom ?m" and inj: "inj_on ?m (dom ?m)"
    using assms(1,2) unfolding snap_ready_def cache_inv_def by auto
  show ?thesis
  proof (cases upd)
    case True
    obtain t ids where r: "updateSiteCacheInfoSnapshotList c s3 = Some (c\<lparr>cache_siteTree := t\<rparr>, s3\<lparr>SiteCacheInfoList := map (the \<circ> ?m) ids\<rparr>)"
      "tree_ok t" "st_zones t = st_zones ?t" "set ids = dom ?m" "distinct (map (the \<circ> ?m) ids)" "int (length ids) = st_numSites t"
      using snapshot_list_rebuild [OF t inj] by blast
    have "snap_ready g c (s3\<lparr>SiteCacheInfoList := map (the \<circ> ?m) ids\<rparr>)"
      using assms(1) by (auto simp: snap_ready_def)
    from snap_ready_inv [OF this assms(2)] show ?thesis
      using r True ran_restrict_map [OF r(4)] by (intro exI [of _ t]) simp
  next
    case False
    then have L: "distinct (SiteCacheInfoList s3)" "set (SiteCacheInfoList s3) = ran ?m"
      using assms(3) by simp_all
    have "ran ?m = (\<lambda>x. the (?m x)) ` dom ?m"
      by (force simp: ran_def dom_def image_iff)
    moreover have "inj_on (\<lambda>x. the (?m x)) (dom ?m)"
      using inj unfolding inj_on_map_iff by (auto simp: inj_on_def)
    ultimately have "length (SiteCacheInfoList s3) = card (set (st_zones ?t))"
      using L t(2) by (metis card_image distinct_card)
    then have "int (length (SiteCacheInfoList s3)) = st_numSites ?t"
      using t(1) by (simp add: tree_ok_def tree_wf_def distinct_card)
    moreover have "c\<lparr>cache_siteTree := ?t\<rparr> = c"
      by simp
    ultimately show ?thesis
      using snap_ready_inv [OF assms(1,2) L] t(1) False by (intro exI [of _ ?t]) simp
  qed
qed

text \<open>The main lemma: no error, an exact copy, and the invariant again.\<close>

lemma UpdateSnapshot_copies:
  assumes inv: "cs_inv g c s" and ord: "snapshot_orders ord km kc c s"
  shows "\<exists>c' s'. UpdateSnapshot ord km kc c s = Some (None, c', s') \<and> exact_copy c s' \<and> cs_inv g c' s' \<and>
    info_of c' = info_of c \<and> int (length (SiteCacheInfoList s')) = st_numSites (cache_siteTree c')"
proof -
  have cinv: "cache_inv g c" and sinv: "snap_inv g c s"
    using inv by (simp_all add: cs_inv_def)
  obtain s1 u1 xs where s1: "snapshot_loop ord (siteCacheInfos c) (snap_generation s) (headSiteCacheInfo c) (s, False) = Some (s1, u1)"
    "loop_state c s xs s1 u1" "dom (SiteCacheInfoMap s1) = set km"
    "\<forall>x n a. info_of c x = Some n \<and> SiteCacheInfoMap s1 x = Some a \<longrightarrow> is_clone n (snap_cells s1 a)"
    using snapshot_loop_copies [OF inv ord] by blast
  define G where "G = (case headSiteCacheInfo c of None \<Rightarrow> snap_generation s1 | Some h \<Rightarrow> gen_of c h)"
  have head: "\<exists>it. siteCacheInfos c h = Some it" if "headSiteCacheInfo c = Some h" for h
    using cinv that by (force simp: cache_inv_def list_inv_def linked_def half_linked_def ptr_hd_def split: if_splits)
  then have s2: "(case headSiteCacheInfo c of None \<Rightarrow> Some s1
      | Some h \<Rightarrow> do { it \<leftarrow> siteCacheInfos c h; Some (s1\<lparr>snap_generation := sci_generation (it_info it)\<rparr>) }) = Some (s1\<lparr>snap_generation := G\<rparr>)"
    by (fastforce simp: G_def gen_of_item split: option.split)
  have "gen_of c h \<le> g" if "headSiteCacheInfo c = Some h" for h
    using head [OF that] cinv by (fastforce simp: cache_inv_def gen_of_def info_of_def)
  then have G: "G \<le> g"
    using sinv s1(2) by (auto simp: G_def snap_inv_def loop_state_def split: option.split)
  have km: "distinct km" "dom (siteCacheInfos c) \<subseteq> dom (SiteCacheInfoMap s1)" "range_order kc (siteCacheInfos c)"
    using ord s1(3) by (auto simp: snapshot_orders_def)
  let ?del = "length km > length kc"
  let ?m = "SiteCacheInfoMap s1 |` dom (info_of c)"
  have m: "?m = (if ?del then remove_deleted (siteCacheInfos c) km (int (length km) - int (length kc)) (SiteCacheInfoMap s1) else SiteCacheInfoMap s1)"
    using remove_deleted_restrict [OF km(1) s1(3) [symmetric] km(3,2)] restrict_map_dom [of "SiteCacheInfoMap s1"]
    by (auto simp: info_of_dom)
  define s3 where "s3 = s1\<lparr>snap_generation := G, SiteCacheInfoMap := ?m\<rparr>"
  have ready: "snap_ready g c s3"
    unfolding s3_def by (rule loop_state_ready [OF s1(2) G s1(4) refl]) (use km(2) in \<open>simp add: info_of_dom\<close>)
  have "distinct (SiteCacheInfoList s3) \<and> set (SiteCacheInfoList s3) = ran (SiteCacheInfoMap s3)" if "\<not> (?del \<or> u1)"
  proof -
    have d: "dom (SiteCacheInfoMap s1) = dom (SiteCacheInfoMap s)" and le: "SiteCacheInfoMap s \<subseteq>\<^sub>m SiteCacheInfoMap s1"
      using s1(2) that unfolding loop_state_def by blast+
    have "SiteCacheInfoMap s1 = SiteCacheInfoMap s"
    proof
      fix x
      show "SiteCacheInfoMap s1 x = SiteCacheInfoMap s x"
        using d le unfolding map_le_def by (metis domIff)
    qed
    then show ?thesis
      using that sinv s1(2) m by (simp add: s3_def snap_inv_def loop_state_def)
  qed
  from finish_snapshot [OF ready cinv this] obtain t s4 where s4:
    "(if ?del \<or> u1 then updateSiteCacheInfoSnapshotList c s3 else Some (c, s3)) = Some (c\<lparr>cache_siteTree := t\<rparr>, s4)"
    "tree_ok t" "st_zones t = st_zones (cache_siteTree c)" "int (length (SiteCacheInfoList s4)) = st_numSites t"
    "exact_copy c s4" "snap_inv g c s4"
    by blast
  have s3: "?del \<Longrightarrow> s1\<lparr>snap_generation := G, SiteCacheInfoMap := remove_deleted (siteCacheInfos c) km (int (length km) - int (length kc)) (SiteCacheInfoMap s1)\<rparr> = s3"
    "\<not> ?del \<Longrightarrow> s1\<lparr>snap_generation := G\<rparr> = s3"
    using m by (simp_all add: s3_def)
  have "UpdateSnapshot ord km kc c s = Some (None, c\<lparr>cache_siteTree := t\<rparr>, s4)"
    unfolding UpdateSnapshot_def s1(1) Option.bind.simps prod.case s2 Let_def
  proof (cases "?del \<or> u1", goal_cases)
    case 1
    then show ?case
      using s4(1,4) s3 by (cases ?del) auto
  next
    case 2
    then have "c = c\<lparr>cache_siteTree := t\<rparr>" and s: "s4 = s3"
      using s4(1) by auto
    from arg_cong [OF this(1), of cache_siteTree] have t: "t = cache_siteTree c"
      by simp
    from 2 show ?case
      using s4(4) s3(2) unfolding s t by simp
  qed
  moreover have "cs_inv g (c\<lparr>cache_siteTree := t\<rparr>) s4"
    using cinv s4 by (auto simp: cs_inv_def cache_inv_def snap_inv_def list_inv_def gen_of_def)
  ultimately show ?thesis
    using s4 by auto
qed

end
