(* ===== verification/CacheProperties.thy ===== *)
theory CacheProperties
  imports CacheSnapshot
begin

text \<open>
  The properties of the scheduler cache: what a snapshot shows of it, what its linked list does, and the
  life of a stack in it.
\<close>

section \<open>Reachable caches\<close>

text \<open>
  The calls that bump the generation of the site they move to the head, between snapshots, in any order. A
  site keeps its ID when it is updated, and stacks are placed on cached sites. \<open>UpdateQos\<close> and the removal of a
  stack move a site without a new generation; they are treated below.
\<close>

inductive cache_reach :: "int \<Rightarrow> schedulerCache \<Rightarrow> Snapshot \<Rightarrow> bool" where
  new: "cache_reach 0 newSchedulerCache NewEmptySnapshot"
| AddSite: "cache_reach g c s \<Longrightarrow> g < maxInt64 \<Longrightarrow> cache_AddSite env kt kr g c site = Some (c', g') \<Longrightarrow> cache_reach g' c' s"
| UpdateSite: "cache_reach g c s \<Longrightarrow> g < maxInt64 \<Longrightarrow> SiteID old = SiteID site \<Longrightarrow>
    cache_UpdateSite env kt kr g c (Some old) site = Some (c', g') \<Longrightarrow> cache_reach g' c' s"
| RemoveSite: "cache_reach g c s \<Longrightarrow> cache_RemoveSite c site = (e, c') \<Longrightarrow> cache_reach g c' s"
| UpdateEipPool: "cache_reach g c s \<Longrightarrow> g + int (length ks) \<le> maxInt64 \<Longrightarrow>
    cache_UpdateEipPool ks g c eipPool = Some (c', g') \<Longrightarrow> cache_reach g' c' s"
| UpdateVolumePool: "cache_reach g c s \<Longrightarrow> g + int (length ks) \<le> maxInt64 \<Longrightarrow>
    cache_UpdateVolumePool ks g c volumePool = Some (c', g') \<Longrightarrow> cache_reach g' c' s"
| UpdateSiteWithResInfo: "cache_reach g c s \<Longrightarrow> g < maxInt64 \<Longrightarrow>
    cache_UpdateSiteWithResInfo env vis ks kt kr g c siteID resInfo = Some (c', g') \<Longrightarrow> cache_reach g' c' s"
| UpdateSiteWithRatio: "cache_reach g c s \<Longrightarrow> g < maxInt64 \<Longrightarrow>
    cache_UpdateSiteWithRatio env ks vis kt kr g c region az ratios = Some (c', g') \<Longrightarrow> cache_reach g' c' s"
| UpdateSpotResources: "cache_reach g c s \<Longrightarrow> g < maxInt64 \<Longrightarrow>
    cache_UpdateSpotResources ks g c region az spotRes = Some (c', g') \<Longrightarrow> cache_reach g' c' s"
| AssumeStack: "cache_reach g c s \<Longrightarrow> g < maxInt64 \<Longrightarrow> sd_SiteID (stk_Selected stack) \<in> dom (info_of c) \<Longrightarrow>
    AssumeStack g c stack = (e, c', g') \<Longrightarrow> cache_reach g' c' s"
| AddStack: "cache_reach g c s \<Longrightarrow> g < maxInt64 \<Longrightarrow> sd_SiteID (stk_Selected stack) \<in> dom (info_of c) \<Longrightarrow>
    cache_AddStack g c stack = Some (e, c', g') \<Longrightarrow> cache_reach g' c' s"
| UpdateSnapshot: "cache_reach g c s \<Longrightarrow> snapshot_orders ord km kc c s \<Longrightarrow>
    UpdateSnapshot ord km kc c s = Some (e, c', s') \<Longrightarrow> cache_reach g c' s'"

lemma cs_inv_new: "cs_inv 0 newSchedulerCache NewEmptySnapshot"
proof -
  have "list_inv newSchedulerCache []"
    by (simp add: list_inv_def linked_def half_linked_def newSchedulerCache_def)
  then show ?thesis
    using newSiteCacheTree_empty_ok
    by (auto simp: cs_inv_def cache_inv_def snap_inv_def info_of_def newSchedulerCache_def NewEmptySnapshot_def newSiteCacheTree_def)
qed

lemma AssumeStack_step:
  assumes "cs_inv g c s" "g < maxInt64" "sd_SiteID (stk_Selected stack) \<in> dom (info_of c)"
  shows "AssumeStack g c stack = (e, c', g') \<Longrightarrow> cs_inv g' c' s" "cache_AddStack g c stack = Some (e, c', g') \<Longrightarrow> cs_inv g' c' s"
  using assms(1) addStack_step [OF assms]
  by (auto simp: AssumeStack_def cache_AddStack_def split: sum.splits if_splits option.splits)

lemma cache_reach_inv: "cache_reach g c s \<Longrightarrow> cs_inv g c s"
proof (induction rule: cache_reach.induct)
  case new
  show ?case
    by (rule cs_inv_new)
next
  case (AddSite g c s env kt kr site c' g')
  then show ?case
    using AddSite_touched [of g c env kt kr site] inv_D(1,3) [OF AddSite.IH] touched_step by auto
next
  case (UpdateSite g c s old site env kt kr c' g')
  then show ?case
    using UpdateSite_touched [of g c old site env kt kr] inv_D(1,3,4) [OF UpdateSite.IH] touched_step by auto
next
  case (RemoveSite g c s site e c')
  then show ?case
    using RemoveSite_step [of g c s site] by auto
next
  case (UpdateEipPool g c s ks eipPool c' g')
  then show ?case
    using pool_loop [where f = "\<lambda>g c k. cache_UpdateSiteWithEipPool g c k eipPool", OF pool_steps(1), of s g c ks] by (auto simp: cache_UpdateEipPool_def split: if_splits)
next
  case (UpdateVolumePool g c s ks volumePool c' g')
  then show ?case
    using pool_loop [where f = "\<lambda>g c k. cache_UpdateSiteWithVolumePool g c k volumePool", OF pool_steps(2), of s g c ks] by (auto simp: cache_UpdateVolumePool_def split: if_splits)
next
  case (UpdateSiteWithResInfo g c s env vis ks kt kr siteID resInfo c' g')
  have "\<exists>c' g'. cache_UpdateSiteWithResInfo env vis ks kt kr g c siteID resInfo = Some (c', g') \<and> cs_inv g' c' s"
    unfolding cache_UpdateSiteWithResInfo_def by (rule cached_update_step [OF UpdateSiteWithResInfo.IH UpdateSiteWithResInfo.hyps(2)]) (rule sci_ops_bumped(4))
  then show ?case
    using UpdateSiteWithResInfo.hyps(3) by auto
next
  case (UpdateSiteWithRatio g c s env ks vis kt kr region az ratios c' g')
  have "\<exists>c' g'. cache_UpdateSiteWithRatio env ks vis kt kr g c region az ratios = Some (c', g') \<and> cs_inv g' c' s"
    unfolding cache_UpdateSiteWithRatio_def by (rule update_first_site_step [OF UpdateSiteWithRatio.IH UpdateSiteWithRatio.hyps(2)]) (rule sci_ops_bumped(5))
  then show ?case
    using UpdateSiteWithRatio.hyps(3) by auto
next
  case (UpdateSpotResources g c s ks region az spotRes c' g')
  have "\<exists>c' g'. cache_UpdateSpotResources ks g c region az spotRes = Some (c', g') \<and> cs_inv g' c' s"
    unfolding cache_UpdateSpotResources_def by (rule update_first_site_step [OF UpdateSpotResources.IH UpdateSpotResources.hyps(2)]) (rule sci_ops_bumped(6))
  then show ?case
    using UpdateSpotResources.hyps(3) by auto
next
  case (AssumeStack g c s stack e c' g')
  then show ?case
    by (blast intro: AssumeStack_step(1))
next
  case (AddStack g c s stack e c' g')
  then show ?case
    by (blast intro: AssumeStack_step(2))
next
  case (UpdateSnapshot g c s ord km kc e c' s')
  then show ?case
    using UpdateSnapshot_copies [of g c s ord km kc] by auto
qed

section \<open>Snapshots\<close>


lemma CPUAndMemory_Clone_id [simp]: "CPUAndMemory_Clone cm = cm"
  by (cases cm) (simp add: CPUAndMemory_Clone_def)

lemma map_Clone_id [simp]: "map_option CPUAndMemory_Clone x = x"
  by (cases x) simp_all

lemma clone_cells_spec:
  fixes n :: SiteCacheInfo
  assumes "distinct ks"
  defines "r \<equiv> clone_cells ks n"
  shows "dom (fst r) = set ks \<inter> dom (RequestedResources n) \<and>
    (\<forall>k p. fst r k = Some p \<longrightarrow> p < snd (snd r) \<and> requested n k = Some (fst (snd r) p)) \<and> inj_on (fst r) (dom (fst r))"
  using assms(1) unfolding r_def
proof (induction ks rule: rev_induct)
  case Nil
  then show ?case
    by (simp add: clone_cells_def)
next
  case (snoc k ks)
  obtain m c a where r: "clone_cells ks n = (m, c, a)"
    by (metis prod_cases3)
  have IH: "dom m = set ks \<inter> dom (RequestedResources n)" "\<And>k p. m k = Some p \<Longrightarrow> p < a \<and> requested n k = Some (c p)" "inj_on m (dom m)"
    using snoc r by auto
  show ?case
  proof (cases "RequestedResources n k")
    case None
    then have "clone_cells (ks @ [k]) n = (m, c, a)"
      using r by (simp add: clone_cells_def)
    then show ?thesis
      using IH None by auto
  next
    case (Some p)
    then have e: "clone_cells (ks @ [k]) n = (m(k \<mapsto> a), c(a := reqCells n p), Suc a)"
      using r by (simp add: clone_cells_def)
    have "inj_on (m(k \<mapsto> a)) (dom (m(k \<mapsto> a)))"
      unfolding inj_on_map_iff
    proof (intro allI impI)
      fix y z b
      assume "(m(k \<mapsto> a)) y = Some b" "(m(k \<mapsto> a)) z = Some b"
      then show "y = z"
        using IH(2) [of y b] IH(2) [of z b] IH(3) unfolding inj_on_map_iff by (cases "y = k"; cases "z = k") auto
    qed
    moreover have "p' < Suc a \<and> requested n k' = Some ((c(a := reqCells n p)) p')" if "(m(k \<mapsto> a)) k' = Some p'" for k' p'
      using that IH(2) [of k' p'] Some by (cases "k' = k") (auto simp: requested_def)
    moreover have "dom (m(k \<mapsto> a)) = set (ks @ [k]) \<inter> dom (RequestedResources n)"
      using IH(1) Some by auto
    ultimately show ?thesis
      unfolding e fst_conv snd_conv by blast
  qed
qed

text \<open>
  C38: a clone has the same amounts and flavors, no two keys share a cell, and a clone of the site; the stacks,
  the EIP pool and the generation are not copied, so a snapshot never shows them.
\<close>

theorem Clone_copies:
  assumes "range_order ks (RequestedResources n)" "sci_Site n = Some site"
  shows "\<exists>n'. SiteCacheInfo_Clone ks n = Some n' \<and> requested n' = requested n \<and> cells_ok n' \<and>
    TotalResources n' = TotalResources n \<and> RequestedStorage n' = RequestedStorage n \<and> TotalStorage n' = TotalStorage n \<and>
    AllocatableFlavor n' = AllocatableFlavor n \<and> RequestedFlavor n' = RequestedFlavor n \<and> Qos n' = Qos n \<and>
    AllocatableSpotFlavor n' = AllocatableSpotFlavor n \<and> sci_Site n' = Some (Site_Clone site) \<and>
    sci_stacks n' = [] \<and> sci_eipPool n' = None \<and> sci_generation n' = 0"
proof -
  obtain m c a where r: "clone_cells ks n = (m, c, a)"
    by (metis prod_cases3)
  have m: "dom m = dom (RequestedResources n)" "\<And>k p. m k = Some p \<Longrightarrow> p < a \<and> requested n k = Some (c p)" "inj_on m (dom m)"
    using clone_cells_spec [of ks n] assms(1) r by (auto simp: range_order_def)
  have "map_option c (m k) = requested n k" for k
  proof (cases "m k")
    case None
    then have "RequestedResources n k = None"
      using m(1) by (metis domIff)
    with None show ?thesis
      by (simp add: requested_def)
  qed (use m(2) in auto)
  then show ?thesis
    using assms(2) r m by (auto simp: SiteCacheInfo_Clone_def requested_def cells_ok_def zero_SiteCacheInfo_def fun_eq_iff)
qed

text \<open>
  \<open>UpdateQos\<close> moves its site to the head of the list and keeps its generation. If that site is not newer than
  the snapshot, the next \<open>UpdateSnapshot\<close> stops at once: it returns no error and copies none of the changes
  that other sites had in the meantime.
\<close>

theorem UpdateQos_hides_updates:
  assumes "info_of c x = Some n" "sci_generation n \<le> snap_generation s"
    and "length km \<le> length kc" "int (length (SiteCacheInfoList s)) = st_numSites (cache_siteTree c)"
  shows "let c1 = cache_UpdateQos env c x metrics in
    UpdateSnapshot ord km kc c1 s = Some (None, c1, s\<lparr>snap_generation := sci_generation n\<rparr>)"
proof -
  define n1 where "n1 = sci_UpdateQos (env_QosWeight env) n metrics"
  define c1 where "c1 = cache_UpdateQos env c x metrics"
  have c1: "c1 = moveSiteCacheInfoToHead x (set_info x n1 c)"
    using assms(1) by (simp add: c1_def cache_UpdateQos_def n1_def)
  have x: "x \<in> dom (siteCacheInfos c)"
    using assms(1) by (auto simp flip: info_of_dom)
  have "info_of c1 x = Some n1" "cache_siteTree c1 = cache_siteTree c"
    using x by (simp_all add: c1 set_info_info)
  moreover have "headSiteCacheInfo c1 = Some x"
    using x by (auto simp: c1 moveSiteCacheInfoToHead_def set_info_def Let_def split: option.split)
  moreover have "sci_generation n1 = sci_generation n"
    by (simp add: n1_def sci_UpdateQos_def)
  ultimately obtain it where "siteCacheInfos c1 x = Some it" "sci_generation (it_info it) = sci_generation n"
    "headSiteCacheInfo c1 = Some x" "cache_siteTree c1 = cache_siteTree c"
    by (auto simp: info_of_def)
  then have "UpdateSnapshot ord km kc c1 s = Some (None, c1, s\<lparr>snap_generation := sci_generation n\<rparr>)"
    using assms(2-4) by (simp add: UpdateSnapshot_def snapshot_loop.simps)
  then show ?thesis
    by (simp add: c1_def)
qed

section \<open>The linked list\<close>

text \<open>
  C29: on a well-linked list, moving a site to the head and removing a site through the pointers are the
  list operations: the other sites keep their order and their infos, and the list stays well linked.
\<close>

theorem list_operations_refine:
  assumes "linked c l" "x \<in> set l"
  shows "linked (moveSiteCacheInfoToHead x c) (x # removeAll x l) \<and> info_of (moveSiteCacheInfoToHead x c) = info_of c \<and>
    linked (removeSiteCacheInfoFromList x c) (removeAll x l) \<and> info_of (removeSiteCacheInfoFromList x c) = (info_of c)(x := None)"
proof -
  have "x \<in> dom (siteCacheInfos c)"
    using assms by (simp add: linked_def)
  then show ?thesis
    using assms touch_linked remove_linked by auto
qed

section \<open>A concrete cache\<close>

definition demo_env :: SiteEnv where
  "demo_env = \<lparr>env_flavors = [], env_ParseFloat = (\<lambda>_. (1, True)), env_GetFlavor = (\<lambda>_ _. None), env_QosWeight = 1\<rparr>"

definition site_a :: Site where
  "site_a = zero_Site\<lparr>SiteID := ''a''\<rparr>"

definition site_b :: Site where
  "site_b = zero_Site\<lparr>SiteID := ''b''\<rparr>"

definition demo_cache :: schedulerCache where
  "demo_cache = fst (the (cache_AddSite demo_env [] [] 1 (fst (the (cache_AddSite demo_env [] [] 0 newSchedulerCache site_a))) site_b))"

lemma demo_add: "cache_AddSite demo_env [] [] 0 newSchedulerCache site_a = Some (fst (the (cache_AddSite demo_env [] [] 0 newSchedulerCache site_a)), 1)"
  "cache_AddSite demo_env [] [] 1 (fst (the (cache_AddSite demo_env [] [] 0 newSchedulerCache site_a))) site_b = Some (demo_cache, 2)"
  unfolding demo_cache_def
  using AddSite_touched [of 0 newSchedulerCache demo_env "[]" "[]" site_a] newSiteCacheTree_empty_ok
    AddSite_touched [of 1 "fst (the (cache_AddSite demo_env [] [] 0 newSchedulerCache site_a))" demo_env "[]" "[]" site_b]
  by (auto simp: newSchedulerCache_def touched_def)

lemma demo_cache_reach: "cache_reach 2 demo_cache NewEmptySnapshot"
  by (rule cache_reach.AddSite [OF cache_reach.AddSite [OF cache_reach.new _ demo_add(1)] _ demo_add(2)]) simp_all

lemma demo_items:
  "siteCacheInfos demo_cache =
     [''a'' \<mapsto> \<lparr>it_info = zero_SiteCacheInfo\<lparr>sci_Site := Some site_a, sci_generation := 1\<rparr>, it_next = None, it_prev = Some ''b''\<rparr>,
      ''b'' \<mapsto> \<lparr>it_info = zero_SiteCacheInfo\<lparr>sci_Site := Some site_b, sci_generation := 2\<rparr>, it_next = Some ''a'', it_prev = None\<rparr>]"
  "headSiteCacheInfo demo_cache = Some ''b''"
  by (simp_all add: demo_cache_def cache_AddSite_def Let_def ensure_item_def newSchedulerCache_def site_a_def site_b_def
      moveSiteCacheInfoToHead_def updateRegionToSite_def set_site_def info_of_def set_info_def upd_item_def upd_ptr_def unlink_def
      SetSite_def updateFlavor_def getSupportFlavorsBySite_def demo_env_def bump_def nextGeneration_def reset_site_def zero_Site_def
      newSiteCacheInfoListItem_def NewSiteCacheInfo_def zero_SiteCacheInfo_def fun_eq_iff)

lemma demo_cache_infos:
  "info_of demo_cache = [''a'' \<mapsto> zero_SiteCacheInfo\<lparr>sci_Site := Some site_a, sci_generation := 1\<rparr>,
     ''b'' \<mapsto> zero_SiteCacheInfo\<lparr>sci_Site := Some site_b, sci_generation := 2\<rparr>]"
  by (rule ext) (simp add: info_of_def demo_items)

lemma demo_cache_orders:
  "dom (siteCacheInfos demo_cache) = {''a'', ''b''}" "snapshot_orders (\<lambda>_. []) [''a'', ''b''] [''b'', ''a''] demo_cache NewEmptySnapshot"
  using demo_cache_infos by (auto simp: snapshot_orders_def range_order_def NewEmptySnapshot_def zero_SiteCacheInfo_def simp flip: info_of_dom split: if_splits)


theorem Clone_copies_witness:
  "\<exists>n'. SiteCacheInfo_Clone [''x||y''] demo_info = Some n' \<and> requested n' ''x||y'' = Some \<lparr>VCPU = 2, Memory = 100\<rparr> \<and>
     sci_generation demo_info = 1 \<and> sci_generation n' = 0"
proof -
  have "range_order [''x||y''] (RequestedResources demo_info)" "requested demo_info ''x||y'' = Some \<lparr>VCPU = 2, Memory = 100\<rparr>"
    by (simp_all add: demo_info_eq range_order_def requested_def)
  moreover have "sci_generation demo_info = 1"
    by code_simp
  ultimately show ?thesis
    using Clone_copies [of "[''x||y'']" demo_info demo_site] demo_info_eq(4) by auto
qed

definition demo_snapshot :: "schedulerCache \<times> Snapshot" where
  "demo_snapshot = snd (the (UpdateSnapshot (\<lambda>_. []) [''a'', ''b''] [''b'', ''a''] demo_cache NewEmptySnapshot))"

text \<open>The operator of the site \<open>b\<close> changes after the snapshot.\<close>

definition demo_changed :: schedulerCache where
  "demo_changed = fst (the (cache_AddSite demo_env [] [] 2 (fst demo_snapshot) (site_b\<lparr>Operator := ''op''\<rparr>)))"

definition operator_of :: "SiteCacheInfo \<Rightarrow> string option" where
  "operator_of n = map_option Operator (sci_Site n)"

theorem UpdateQos_hides_updates_witness:
  "\<exists>s'. UpdateSnapshot (\<lambda>_. []) [''a'', ''b''] [''b'', ''a''] (cache_UpdateQos demo_env demo_changed ''a'' []) (snd demo_snapshot) =
       Some (None, cache_UpdateQos demo_env demo_changed ''a'' [], s') \<and>
     map_option operator_of (info_of demo_changed ''b'') = Some (Some ''op'') \<and>
     map_sum id operator_of (Snapshot_Get s' ''b'') = Inr (Some [])"
proof -
  have v: "map_option sci_generation (info_of demo_changed ''a'') = Some 1" "snap_generation (snd demo_snapshot) = 2"
    "length (SiteCacheInfoList (snd demo_snapshot)) = 2" "st_numSites (cache_siteTree demo_changed) = 2"
    "map_option operator_of (info_of demo_changed ''b'') = Some (Some ''op'')"
    "map_sum id operator_of (Snapshot_Get (snd demo_snapshot) ''b'') = Inr (Some [])"
    by code_simp+
  then obtain n where n: "info_of demo_changed ''a'' = Some n" "sci_generation n = 1"
    by auto
  have "Snapshot_Get (s\<lparr>snap_generation := i\<rparr>) x = Snapshot_Get s x" for s i x
    by (simp add: Snapshot_Get_def split: option.split)
  then show ?thesis
    using UpdateQos_hides_updates [of demo_changed "''a''" n "snd demo_snapshot" "[''a'', ''b'']" "[''b'', ''a'']" demo_env "[]" "\<lambda>_. []"] n v
    by (simp add: Let_def)
qed

theorem list_operations_refine_witness:
  "linked demo_cache [''b'', ''a''] \<and> linked (moveSiteCacheInfoToHead ''a'' demo_cache) [''a'', ''b'']"
proof -
  have "linked demo_cache [''b'', ''a'']"
    by (auto simp: linked_def half_linked_def demo_items split: if_splits)
  then show ?thesis
    using list_operations_refine [of demo_cache "[''b'', ''a'']" "''a''"] by simp
qed

end
