(* ===== verification/StackLifecycle.thy ===== *)
theory StackLifecycle
  imports CacheProperties
begin

text \<open>
  The life of a stack in the scheduler cache. A stack is absent, assumed or added; the five calls that take a
  stack refine a small state machine over these states, per key. Assumed stacks never expire, and a removed
  stack is still listed with its site.
\<close>

section \<open>The abstract machine\<close>

datatype stack_status = Absent | Assumed | Added

instantiation stack_status :: linorder
begin

definition less_stack_status :: "stack_status \<Rightarrow> stack_status \<Rightarrow> bool" where
  "less_stack_status a b \<longleftrightarrow> a = Absent \<and> b \<noteq> Absent \<or> a = Assumed \<and> b = Added"

definition less_eq_stack_status :: "stack_status \<Rightarrow> stack_status \<Rightarrow> bool" where
  "less_eq_stack_status a b \<longleftrightarrow> a < b \<or> a = b"

instance
proof
  fix a b c :: stack_status
  show "(a < b) = (a \<le> b \<and> \<not> b \<le> a)" "a \<le> a" "a \<le> b \<Longrightarrow> b \<le> c \<Longrightarrow> a \<le> c" "a \<le> b \<Longrightarrow> b \<le> a \<Longrightarrow> a = b" "a \<le> b \<or> b \<le> a"
    by (cases a; cases b; cases c; simp add: less_eq_stack_status_def less_stack_status_def)+
qed

end

datatype stack_call = CAssume | CForget | CAdd | CUpdate | CRemove

text \<open>The next status, or \<open>None\<close> when the call returns an error.\<close>

fun life :: "stack_call \<Rightarrow> stack_status \<Rightarrow> stack_status option" where
  "life CAssume st = (if st = Absent then Some Assumed else None)"
| "life CForget st = (if st = Assumed then Some Absent else None)"
| "life CAdd st = (if st \<le> Assumed then Some Added else None)"
| "life CUpdate st = (if st = Added then Some Added else None)"
| "life CRemove st = (if st = Added then Some Absent else None)"

section \<open>Refinement\<close>

definition stack_status_of :: "schedulerCache \<Rightarrow> string \<Rightarrow> stack_status" where
  "stack_status_of c key =
     (if stackStates c key = None then Absent else if map_get False (assumedStacks c) key then Assumed else Added)"

text \<open>Every assumed key has a state, and no binding is reported as finished.\<close>

definition states_ok :: "schedulerCache \<Rightarrow> bool" where
  "states_ok c \<longleftrightarrow> (\<forall>k. assumedStacks c k \<noteq> Some False \<and> (stackStates c k = None \<longrightarrow> assumedStacks c k = None)) \<and>
     (\<forall>k st. stackStates c k = Some st \<longrightarrow> \<not> bindingFinished st)"

text \<open>A call of the cache; \<open>UpdateStack\<close> replaces the stack by \<open>new\<close>.\<close>

fun do_call :: "stack_call \<Rightarrow> Stack \<Rightarrow> Stack \<Rightarrow> int \<Rightarrow> schedulerCache \<Rightarrow> (cache_error option \<times> schedulerCache \<times> int) option" where
  "do_call CAssume stack new g c = Some (AssumeStack g c stack)"
| "do_call CForget stack new g c = Some (case ForgetStack c stack of (e, c') \<Rightarrow> (e, c', g))"
| "do_call CAdd stack new g c = cache_AddStack g c stack"
| "do_call CUpdate stack new g c = Some (cache_UpdateStack g c stack new)"
| "do_call CRemove stack new g c = Some (case cache_RemoveStack c stack of (e, c') \<Rightarrow> (e, c', g))"

lemma item_ops_states [simp]:
  "stackStates (ensure_item x c) = stackStates c" "assumedStacks (ensure_item x c) = assumedStacks c"
  "stackStates (set_info x n c) = stackStates c" "assumedStacks (set_info x n c) = assumedStacks c"
  by (simp_all add: ensure_item_def set_info_def)

lemma stack_ops_states [simp]:
  "stackStates (fst (cache_addStack g c stack)) = stackStates c" "assumedStacks (fst (cache_addStack g c stack)) = assumedStacks c"
  "stackStates (cache_removeStack c stack) = stackStates c" "assumedStacks (cache_removeStack c stack) = assumedStacks c"
  "stackStates (fst (cache_updateStack g c stack new)) = stackStates c"
  "assumedStacks (fst (cache_updateStack g c stack new)) = assumedStacks c"
  by (simp_all add: cache_addStack_def cache_removeStack_def cache_updateStack_def Let_def split: option.split prod.split)

lemma addStack_statesD:
  "cache_addStack g c stack = (c1, g1) \<Longrightarrow> stackStates c1 = stackStates c \<and> assumedStacks c1 = assumedStacks c"
  "cache_updateStack g c stack new = (c1, g1) \<Longrightarrow> stackStates c1 = stackStates c \<and> assumedStacks c1 = assumedStacks c"
  using stack_ops_states(1,2) [of g c stack] stack_ops_states(5,6) [of g c stack new] by (metis fst_conv)+

text \<open>What a call does to the abstract state: the status of its key follows the machine.\<close>

definition follows :: "stack_call \<Rightarrow> string \<Rightarrow> schedulerCache \<Rightarrow> cache_error option \<Rightarrow> schedulerCache \<Rightarrow> bool" where
  "follows call key c e c' \<longleftrightarrow> states_ok c' \<and> (e = None \<longleftrightarrow> life call (stack_status_of c key) \<noteq> None) \<and>
     stack_status_of c' = (stack_status_of c)(key :=
       case life call (stack_status_of c key) of None \<Rightarrow> stack_status_of c key | Some st \<Rightarrow> st)"

text \<open>A call that is refused changes nothing; a call that is accepted rewrites the two entries of its key.\<close>

lemma follows_refused: "states_ok c \<Longrightarrow> life call (stack_status_of c key) = None \<Longrightarrow> follows call key c (Some e) c"
  by (simp add: follows_def)

lemma follows_accepted:
  assumes "states_ok c" "stackStates c' = (stackStates c)(key := st)" "assumedStacks c' = (assumedStacks c)(key := a)"
    and "st = None \<Longrightarrow> a = None" "a \<noteq> Some False" "\<And>s. st = Some s \<Longrightarrow> \<not> bindingFinished s"
    and "life call (stack_status_of c key) = Some (if st = None then Absent else if a = Some True then Assumed else Added)"
  shows "follows call key c None c'"
proof -
  have "states_ok c'"
    using assms(1-6) by (simp add: states_ok_def)
  moreover have "stack_status_of c' k = (if k = key then if st = None then Absent else if a = Some True then Assumed else Added else stack_status_of c k)" for k
    using assms(2,3,5) by (auto simp: stack_status_of_def map_get_def split: option.split)
  ultimately show ?thesis
    using assms(7) by (auto simp: follows_def)
qed

lemma status_le_Assumed: "st \<le> Assumed \<longleftrightarrow> st \<noteq> Added"
  by (cases st) (auto simp: less_eq_stack_status_def less_stack_status_def)

lemma unfinished: "states_ok c \<Longrightarrow> stackStates c key = Some st \<Longrightarrow> \<not> bindingFinished st"
  by (simp add: states_ok_def)

lemma not_assumed: "states_ok c \<Longrightarrow> stackStates c key = None \<Longrightarrow> assumedStacks c key = None"
  by (simp add: states_ok_def)

lemma added_not_assumed: "states_ok c \<Longrightarrow> \<not> map_get False (assumedStacks c) key \<Longrightarrow> assumedStacks c key = None"
  by (auto simp: states_ok_def map_get_def split: option.splits)

lemma assume_follows:
  assumes ok: "states_ok c" and "GetStackKey stack = Inr key" "AssumeStack g c stack = (e, c', g')"
  shows "follows CAssume key c e c'"
proof (cases "stackStates c key")
  case None
  obtain c1 g1 where c1: "cache_addStack g c stack = (c1, g1)"
    by fastforce
  then show ?thesis
    using assms None addStack_statesD(1) [OF c1]
    by (auto simp: AssumeStack_def stack_status_of_def new_StackState_def
        intro!: follows_accepted [OF ok, where st = "Some (new_StackState stack)" and a = "Some True"])
next
  case (Some st)
  then show ?thesis
    using assms by (auto simp: AssumeStack_def stack_status_of_def intro!: follows_refused)
qed

lemma add_follows:
  assumes ok: "states_ok c" and "GetStackKey stack = Inr key" "cache_AddStack g c stack = Some (e, c', g')"
  shows "follows CAdd key c e c'"
proof (cases "stackStates c key")
  case None
  obtain c1 g1 where c1: "cache_addStack g c stack = (c1, g1)"
    by fastforce
  then show ?thesis
    using assms None addStack_statesD(1) [OF c1] not_assumed [OF ok None]
    by (auto simp: cache_AddStack_def stack_status_of_def new_StackState_def status_le_Assumed
        intro!: follows_accepted [OF ok, where st = "Some (new_StackState stack)" and a = None])
next
  case (Some st)
  show ?thesis
  proof (cases "map_get False (assumedStacks c) key")
    case True
    then show ?thesis
      using assms Some unfinished [OF ok Some]
      by (auto simp: cache_AddStack_def stack_status_of_def status_le_Assumed split: if_splits
          intro!: follows_accepted [OF ok, where st = "Some (st\<lparr>ss_deadline := None, ss_stack := stack\<rparr>)" and a = None])
  next
    case False
    then show ?thesis
      using assms Some by (auto simp: cache_AddStack_def stack_status_of_def status_le_Assumed intro!: follows_refused)
  qed
qed

lemma forget_follows:
  assumes ok: "states_ok c" and "GetStackKey stack = Inr key" "ForgetStack c stack = (e, c')"
  shows "follows CForget key c e c'"
proof (cases "stackStates c key \<noteq> None \<and> map_get False (assumedStacks c) key")
  case True
  then show ?thesis
    using assms by (auto simp: ForgetStack_def stack_status_of_def drop_stack_def intro!: follows_accepted [OF ok, where st = None and a = None])
next
  case False
  then show ?thesis
    using assms by (auto simp: ForgetStack_def stack_status_of_def intro!: follows_refused)
qed

lemma update_follows:
  assumes ok: "states_ok c" and "GetStackKey stack = Inr key" "cache_UpdateStack g c stack new = (e, c', g')"
  shows "follows CUpdate key c e c'"
proof (cases "stackStates c key \<noteq> None \<and> \<not> map_get False (assumedStacks c) key")
  case True
  then obtain st where st: "stackStates c key = Some st"
    by blast
  obtain c1 g1 where c1: "cache_updateStack g c stack new = (c1, g1)"
    by fastforce
  have "assumedStacks c key = None"
    using True added_not_assumed [OF ok] by blast
  then show ?thesis
    using assms True st c1 addStack_statesD(2) [OF c1] unfinished [OF ok st]
    by (auto simp: cache_UpdateStack_def stack_status_of_def
        intro!: follows_accepted [OF ok, where st = "Some (st\<lparr>ss_stack := new\<rparr>)" and a = None])
next
  case False
  then show ?thesis
    using assms by (auto simp: cache_UpdateStack_def stack_status_of_def split: option.splits intro!: follows_refused)
qed

lemma remove_follows:
  assumes ok: "states_ok c" and "GetStackKey stack = Inr key" "cache_RemoveStack c stack = (e, c')"
  shows "follows CRemove key c e c'"
proof (cases "stackStates c key \<noteq> None \<and> \<not> map_get False (assumedStacks c) key")
  case True
  then have "assumedStacks c key = None"
    using added_not_assumed [OF ok] by blast
  then show ?thesis
    using assms True
    by (auto simp: cache_RemoveStack_def stack_status_of_def Let_def fun_upd_idem intro!: follows_accepted [OF ok, where st = None and a = None])
next
  case False
  then show ?thesis
    using assms by (auto simp: cache_RemoveStack_def stack_status_of_def split: option.splits intro!: follows_refused)
qed

lemmas call_follows = assume_follows add_follows forget_follows update_follows remove_follows

text \<open>
  C15: the calls of the cache refine the abstract machine. A call that returns has an error exactly when the
  machine has no transition; otherwise the key of the stack takes the next status, and no other key changes.
\<close>

theorem stack_calls_refine:
  assumes "states_ok c" "GetStackKey stack = Inr key" "do_call call stack new g c = Some (e, c', g')"
  shows "(e = None \<longleftrightarrow> life call (stack_status_of c key) \<noteq> None) \<and>
    stack_status_of c' = (stack_status_of c)(key :=
      case life call (stack_status_of c key) of None \<Rightarrow> stack_status_of c key | Some st \<Rightarrow> st) \<and> states_ok c'"
proof -
  have "follows call key c e c'"
    using assms call_follows by (cases call) (auto split: prod.splits)
  then show ?thesis
    unfolding follows_def by blast
qed

section \<open>Expiry\<close>

text \<open>The caches that the calls on stacks can build; the cache's site calls do not touch the states.\<close>

inductive calls_reach :: "int \<Rightarrow> schedulerCache \<Rightarrow> bool" where
  start: "stackStates c = Map.empty \<Longrightarrow> assumedStacks c = Map.empty \<Longrightarrow> calls_reach g c"
| call: "calls_reach g c \<Longrightarrow> do_call call stack new g c = Some (e, c', g') \<Longrightarrow> calls_reach g' c'"
| other: "calls_reach g c \<Longrightarrow> stackStates c' = stackStates c \<Longrightarrow> assumedStacks c' = assumedStacks c \<Longrightarrow> calls_reach g' c'"

inductive_cases calls_reachE: "calls_reach g c"

lemma bad_key_keeps: "GetStackKey stack = Inl k \<Longrightarrow> do_call call stack new g c = Some (e, c', g') \<Longrightarrow> c' = c"
  by (cases call) (auto simp: AssumeStack_def ForgetStack_def cache_AddStack_def cache_UpdateStack_def cache_RemoveStack_def)

lemma calls_reach_ok: "calls_reach g c \<Longrightarrow> states_ok c"
proof (induction rule: calls_reach.induct)
  case (call g c call stack new e c' g')
  show ?case
  proof (cases "GetStackKey stack")
    case (Inl k)
    then show ?thesis
      using bad_key_keeps call by blast
  next
    case (Inr key)
    then have "follows call key c e c'"
      using call call_follows by (cases call) (auto split: prod.splits)
    then show ?thesis
      by (simp add: follows_def)
  qed
qed (auto simp: states_ok_def)

text \<open>
  C39: no call marks a binding as finished, so the periodic cleanup never expires an assumed stack: it returns
  the cache unchanged, at any time and in any order, and never reaches its fatal branch.
\<close>

theorem cleanup_never_expires:
  assumes "calls_reach g c" "range_order ks (assumedStacks c)"
  shows "cleanupAssumedStacks ks now c = Some c"
proof -
  have ok: "states_ok c"
    using calls_reach_ok [OF assms(1)] .
  have "cleanup_assumed_step now k c = Some c" if k: "k \<in> set ks" for k
  proof -
    have "assumedStacks c k \<noteq> None"
      using k assms(2) by (auto simp: range_order_def)
    then have "stackStates c k \<noteq> None"
      using not_assumed [OF ok, of k] by (rule contrapos_nn)
    then obtain st where "stackStates c k = Some st"
      by auto
    then show ?thesis
      using unfinished [OF ok] by (simp add: cleanup_assumed_step_def)
  qed
  then show ?thesis
    unfolding cleanupAssumedStacks_def by (induction ks) auto
qed

section \<open>Removed stacks\<close>

definition stacks_on :: "schedulerCache \<Rightarrow> string \<Rightarrow> Stack list option" where
  "stacks_on c x = map_option sci_stacks (info_of c x)"

lemma removeStack_stacks: "stacks_on (cache_removeStack c stack) = stacks_on c"
proof (cases "info_of c (sd_SiteID (stk_Selected stack))")
  case None
  then show ?thesis
    by (simp add: cache_removeStack_def Let_def del: info_of_None)
next
  case (Some n)
  then have "sd_SiteID (stk_Selected stack) \<in> dom (siteCacheInfos c)"
    by (auto simp flip: info_of_dom)
  then show ?thesis
    using Some by (auto simp: cache_removeStack_def Let_def sci_RemoveStack_def stacks_on_def fun_eq_iff set_info_info)
qed

lemma stacks_on_fields [simp]:
  "stacks_on (c\<lparr>stackStates := x\<rparr>) = stacks_on c" "stacks_on (drop_stack key c) = stacks_on c"
  by (simp_all add: stacks_on_def fun_eq_iff drop_stack_def)

lemma FilteredList_stacks:
  "cache_FilteredList ks flt c = concat (map (\<lambda>k. case stacks_on c k of None \<Rightarrow> [] | Some l \<Rightarrow> filter flt l) ks)"
proof -
  have "fold (\<lambda>k acc. case info_of c k of None \<Rightarrow> acc | Some n \<Rightarrow> acc @ filter flt (sci_stacks n)) ks acc =
    acc @ concat (map (\<lambda>k. case stacks_on c k of None \<Rightarrow> [] | Some l \<Rightarrow> filter flt l) ks)" for acc
    by (induction ks arbitrary: acc) (auto simp: stacks_on_def simp del: info_of_None split: option.split)
  then show ?thesis
    by (simp add: cache_FilteredList_def)
qed

text \<open>
  \<open>ForgetStack\<close> and \<open>RemoveStack\<close> remove the state of a stack, but the site keeps it: whatever the stack and the
  order of the sites, the listing of the cache is the same before and after.
\<close>

theorem removed_stacks_stay_listed:
  "cache_FilteredList ks flt (snd (ForgetStack c stack)) = cache_FilteredList ks flt c \<and>
   cache_FilteredList ks flt (snd (cache_RemoveStack c stack)) = cache_FilteredList ks flt c"
  by (auto simp: FilteredList_stacks ForgetStack_def cache_RemoveStack_def removeStack_stacks Let_def split: sum.split option.split)


section \<open>A concrete stack\<close>

definition demo_placed :: "string \<Rightarrow> Stack" where
  "demo_placed siteID = zero_Stack\<lparr>UID := ''u'', stk_Selected := zero_Selected\<lparr>sd_SiteID := siteID\<rparr>\<rparr>"

definition demo_assumed :: schedulerCache where
  "demo_assumed = fst (snd (AssumeStack 2 demo_cache (demo_placed ''a'')))"

lemma demo_assume: "AssumeStack 2 demo_cache (demo_placed ''a'') = (None, demo_assumed, 3)"
proof -
  have "fst (AssumeStack 2 demo_cache (demo_placed ''a'')) = None" "snd (snd (AssumeStack 2 demo_cache (demo_placed ''a''))) = 3"
    by code_simp+
  then show ?thesis
    by (simp add: demo_assumed_def prod_eq_iff)
qed

lemma AddSite_states:
  "cache_AddSite env kt kr g c site = Some (c', g') \<Longrightarrow> stackStates c' = stackStates c \<and> assumedStacks c' = assumedStacks c"
  by (auto simp: cache_AddSite_def set_site_def Let_def updateRegionToSite_def elim!: bind_SomeE split: prod.splits)

lemma demo_cache_states: "stackStates demo_cache = Map.empty" "assumedStacks demo_cache = Map.empty"
  using AddSite_states [OF demo_add(1)] AddSite_states [OF demo_add(2)] by (simp_all add: newSchedulerCache_def)

lemma demo_key: "GetStackKey (demo_placed x) = Inr ''u''"
  by (simp add: GetStackKey_def demo_placed_def)

lemma demo_calls: "calls_reach 3 demo_assumed"
  using calls_reach.call [OF calls_reach.start [OF demo_cache_states], of CAssume "demo_placed ''a''" "demo_placed ''a''" 2 None demo_assumed 3] demo_assume
  by simp

theorem stack_calls_refine_witness:
  "stack_status_of demo_assumed ''u'' = Assumed \<and> stack_status_of demo_assumed ''v'' = Absent"
proof -
  have "states_ok demo_cache" "stack_status_of demo_cache k = Absent" for k
    by (simp_all add: states_ok_def demo_cache_states stack_status_of_def)
  then show ?thesis
    using stack_calls_refine [of demo_cache "demo_placed ''a''" "''u''" CAssume "demo_placed ''a''" 2 None demo_assumed 3] demo_assume demo_key
    by simp
qed

theorem cleanup_never_expires_witness:
  "cleanupAssumedStacks [''u''] 1000000 demo_assumed = Some demo_assumed \<and> assumedStacks demo_assumed ''u'' = Some True"
proof -
  obtain c1 g1 where c1: "cache_addStack 2 demo_cache (demo_placed ''a'') = (c1, g1)"
    by fastforce
  then have "assumedStacks demo_assumed = [''u'' \<mapsto> True]"
    using addStack_statesD(1) [OF c1] demo_key
    by (simp add: demo_assumed_def AssumeStack_def demo_cache_states)
  then show ?thesis
    using cleanup_never_expires [OF demo_calls, of "[''u'']" 1000000] by (simp add: range_order_def)
qed


end
