(* ===== verification/Balancing.thy ===== *)
theory Balancing
  imports GoPrelude
begin

text \<open>
  The helpers with which the controllers share work: \<open>controllers/util/common.go\<close>, and the binary search of
  the package \<open>sort\<close> that they use.

  \<open>EvenlyDivide\<close> is shown equal to a closed form (\<open>even_bound\<close>), from which the partition follows. The binary
  search is shown to return the first index from which its predicate holds.
\<close>

subsection \<open>Even division\<close>

text \<open>A range is the two-element slice \<open>[start, end]\<close>.\<close>

type_synonym index_range = "int \<times> int"

text \<open>Indexing with such a bound; a negative index panics.\<close>

definition go_index_int :: "'a list \<Rightarrow> int \<Rightarrow> 'a option" where
  "go_index_int xs i = (if i < 0 then None else go_index xs (nat i))"

function divide_loop :: "int \<Rightarrow> int \<Rightarrow> int \<Rightarrow> int \<Rightarrow> int \<Rightarrow> int \<Rightarrow> index_range list" where
  "divide_loop sz upper chunk md i start =
     (if i < sz then
        let end0 = wrap64 (start + chunk - 1);
            end1 = (if i \<le> md then wrap64 (end0 + 1) else end0)
        in if start > upper \<or> end1 > upper then []
           else (start, end1) # divide_loop sz upper chunk md (i + 1) (wrap64 (end1 + 1))
      else [])"
  by pat_completeness auto
termination
  by (relation "measure (\<lambda>(sz, _, _, _, i, _). nat (sz - i))") auto

declare divide_loop.simps [simp del]

definition EvenlyDivide :: "int \<Rightarrow> int \<Rightarrow> index_range list" where
  "EvenlyDivide sz upper =
     (if sz \<le> 0 then []
      else divide_loop sz upper (wrap64 (go_quot upper sz)) (go_rem upper sz) 0 0)"

definition EvenlyDivideInt64 :: "int \<Rightarrow> index_range list" where
  "EvenlyDivideInt64 sz = EvenlyDivide sz maxInt64"

subsection \<open>Removing a cluster\<close>

text \<open>
  \<open>xs[idx], xs[len(xs)-1] = xs[len(xs)-1], xs[idx]\<close> followed by \<open>xs[:len(xs)-1]\<close>. The swap is seen through
  the caller's slice too; the first component is that slice after the call.
\<close>

definition swap_remove :: "('a \<Rightarrow> bool) \<Rightarrow> 'a list \<Rightarrow> ('a list \<times> 'a list) option" where
  "swap_remove P array = do {
     let idx = (case first_index P array of None \<Rightarrow> 0 | Some i \<Rightarrow> i);
     x \<leftarrow> go_index array idx;
     let n = length array - 1;
     l \<leftarrow> go_index array n;
     let array = array[idx := l, n := x];
     Some (array, take n array) }"

definition RemoveCluster :: "string list \<Rightarrow> string \<Rightarrow> (string list \<times> string list) option" where
  "RemoveCluster clusters clusterName = swap_remove (\<lambda>v. v = clusterName) clusters"

subsection \<open>Binary search and sorted slices\<close>

text \<open>\<open>sort.Search(n, f)\<close>, with a predicate that may panic.\<close>

function search_loop :: "(nat \<Rightarrow> bool option) \<Rightarrow> nat \<Rightarrow> nat \<Rightarrow> nat option" where
  "search_loop f i j =
     (if i < j then
        let h = (i + j) div 2
        in case f h of
             None \<Rightarrow> None
           | Some b \<Rightarrow> if \<not> b then search_loop f (h + 1) j else search_loop f i h
      else Some i)"
  by pat_completeness auto
termination
  by (relation "measure (\<lambda>(_, i, j). j - i)") auto

declare search_loop.simps [simp del]

definition sort_Search :: "nat \<Rightarrow> (nat \<Rightarrow> bool option) \<Rightarrow> nat option" where
  "sort_Search n f = search_loop f 0 n"

definition SearchStrings :: "string list \<Rightarrow> string \<Rightarrow> nat option" where
  "SearchStrings a x = sort_Search (length a) (\<lambda>i. map_option (\<lambda>v. v \<ge> x) (go_index a i))"

text \<open>\<open>copy(dst, src)\<close> into the tail of a slice from position \<open>i\<close> on: at most the length of either.\<close>

definition copy_at :: "'a list \<Rightarrow> nat \<Rightarrow> 'a list \<Rightarrow> 'a list" where
  "copy_at xs i src = (let n = min (length xs - i) (length src) in take i xs @ take n src @ drop (i + n) xs)"

definition InsertIntoSortedArray :: "string list \<Rightarrow> string \<Rightarrow> string list option" where
  "InsertIntoSortedArray ss s = do {
     i \<leftarrow> SearchStrings ss s;
     let ss = ss @ [''''];
     let ss = copy_at ss (i + 1) (drop i ss);
     if i < length ss then Some (ss[i := s]) else None }"

definition RemoveFromSortedArray :: "string list \<Rightarrow> string \<Rightarrow> string list option" where
  "RemoveFromSortedArray ss s = do {
     i \<leftarrow> SearchStrings ss s;
     let ssLen = length ss;
     if i < ssLen \<and> ss ! i = s
     then Some (take (ssLen - 1) (copy_at ss i (drop (i + 1) ss)))
     else Some ss }"

subsection \<open>The closed form of the division\<close>

definition even_bound :: "int \<Rightarrow> int \<Rightarrow> int \<Rightarrow> int" where
  "even_bound sz upper i = i * (upper div sz) + min i (upper mod sz + 1)"

definition range_count :: "int \<Rightarrow> int \<Rightarrow> int" where
  "range_count sz upper = min sz (upper + 1)"

definition even_ranges :: "int \<Rightarrow> int \<Rightarrow> index_range list" where
  "even_ranges sz upper =
     map (\<lambda>i. (even_bound sz upper i, even_bound sz upper (i + 1) - 1)) [0..range_count sz upper - 1]"

lemma even_bound_step:
  "even_bound sz upper (i + 1) = even_bound sz upper i + upper div sz + (if i \<le> upper mod sz then 1 else 0)"
  by (auto simp: even_bound_def algebra_simps)

lemma chunk_facts:
  fixes sz upper :: int
  assumes pos: "0 < sz" "0 \<le> upper"
  shows "0 \<le> upper div sz" "0 \<le> upper mod sz" "upper mod sz < sz" "sz * (upper div sz) + upper mod sz = upper"
  using pos by (simp_all add: pos_imp_zdiv_nonneg_iff)

lemma even_bound_last:
  assumes pos: "0 < sz" "0 \<le> upper"
  shows "even_bound sz upper (range_count sz upper) = upper + 1"
proof (cases "sz \<le> upper + 1")
  case True
  then show ?thesis
    using chunk_facts [OF pos] by (simp add: even_bound_def range_count_def)
next
  case False
  then have "upper div sz = 0" "upper mod sz = upper"
    using pos by auto
  with False show ?thesis
    by (simp add: even_bound_def range_count_def)
qed

lemma even_bound_mono:
  assumes pos: "0 < sz" "0 \<le> upper" and "i \<le> j"
  shows "even_bound sz upper i \<le> even_bound sz upper j"
  using chunk_facts(1) [OF pos] assms(3) by (auto simp: even_bound_def intro!: add_mono mult_right_mono)

lemma even_bound_strict:
  assumes pos: "0 < sz" "0 \<le> upper" and i: "0 \<le> i" "i < range_count sz upper"
  shows "even_bound sz upper i < even_bound sz upper (i + 1)"
proof (cases "upper div sz = 0")
  case True
  then have "upper < sz"
    using pos by (auto simp: zdiv_eq_0_iff)
  then have "upper mod sz = upper"
    using pos by simp
  then show ?thesis
    using i True by (simp add: even_bound_step range_count_def)
next
  case False
  then show ?thesis
    using chunk_facts(1) [OF pos] by (simp add: even_bound_step)
qed

lemma divide_loop_end:
  assumes pos: "0 < sz" "0 \<le> upper" and range: "sz \<le> maxInt64" "upper \<le> maxInt64"
  shows "divide_loop sz upper chunk md (range_count sz upper) (wrap64 (upper + 1)) = []"
  using range pos by (subst divide_loop.simps) (auto simp: range_count_def)

lemma divide_loop_from:
  assumes pos: "0 < sz" "0 \<le> upper" and range: "sz \<le> maxInt64" "upper \<le> maxInt64"
  assumes "0 \<le> i" "i \<le> range_count sz upper"
  shows "divide_loop sz upper (upper div sz) (upper mod sz) i (wrap64 (even_bound sz upper i)) =
    map (\<lambda>i. (even_bound sz upper i, even_bound sz upper (i + 1) - 1)) [i..range_count sz upper - 1]"
  using assms(5,6)
proof (induction "nat (range_count sz upper - i)" arbitrary: i)
  case 0
  then have "i = range_count sz upper"
    by simp
  then show ?case
    using divide_loop_end [OF pos range] even_bound_last [OF pos] by simp
next
  case (Suc d)
  let ?b = "even_bound sz upper" and ?n = "range_count sz upper"
  have i: "i < ?n" "i < sz"
    using Suc.hyps(2) by (auto simp: range_count_def)
  have b: "0 \<le> ?b i" "?b i < ?b (i + 1)" "?b (i + 1) \<le> upper + 1"
    using even_bound_mono [OF pos Suc.prems(1)] even_bound_strict [OF pos Suc.prems(1) i(1)]
      even_bound_mono [OF pos, of "i + 1" ?n] i(1) even_bound_last [OF pos] chunk_facts [OF pos]
    by (auto simp: even_bound_def [of _ _ 0])
  have e: "(if i \<le> upper mod sz then wrap64 (wrap64 (?b i + upper div sz - 1) + 1) else wrap64 (?b i + upper div sz - 1)) = ?b (i + 1) - 1"
    using b range chunk_facts(1) [OF pos] by (auto simp: even_bound_step)
  have "divide_loop sz upper (upper div sz) (upper mod sz) i (wrap64 (?b i)) =
      (?b i, ?b (i + 1) - 1) # divide_loop sz upper (upper div sz) (upper mod sz) (i + 1) (wrap64 (?b (i + 1)))"
    using i(2) b range by (subst divide_loop.simps) (simp add: Let_def e)
  also have "\<dots> = map (\<lambda>i. (?b i, ?b (i + 1) - 1)) (i # [i + 1..?n - 1])"
    using Suc.hyps(1) [of "i + 1"] Suc.hyps(2) Suc.prems(1) i(1) by simp
  also have "i # [i + 1..?n - 1] = [i..?n - 1]"
    using i(1) by (simp add: upto_rec1)
  finally show ?case .
qed

lemma EvenlyDivide_eq:
  assumes "0 < sz" "0 \<le> upper" "sz \<le> maxInt64" "upper \<le> maxInt64"
  shows "EvenlyDivide sz upper = even_ranges sz upper"
proof -
  have "upper div sz \<le> upper"
    using chunk_facts [OF assms(1,2)] mult_right_mono [of 1 sz "upper div sz"] assms(1) by linarith
  then have "wrap64 (upper div sz) = upper div sz"
    using chunk_facts(1) [OF assms(1,2)] assms(4) by simp
  moreover have "even_bound sz upper 0 = 0"
    using chunk_facts(2) [OF assms(1,2)] by (simp add: even_bound_def)
  ultimately show ?thesis
    using divide_loop_from [OF assms, of 0] assms(1,2) by (simp add: EvenlyDivide_def even_ranges_def range_count_def)
qed

lemma ranges_concat:
  assumes "0 < sz" "0 \<le> upper" "0 \<le> n" "n \<le> range_count sz upper"
  shows "concat (map (\<lambda>i. [even_bound sz upper i..even_bound sz upper (i + 1) - 1]) [0..n - 1]) = [0..even_bound sz upper n - 1]"
  using assms(3,4)
proof (induction "nat n" arbitrary: n)
  case 0
  then show ?case
    using chunk_facts(2) [OF assms(1,2)] by (simp add: even_bound_def)
next
  case (Suc k)
  let ?b = "even_bound sz upper"
  have n: "0 \<le> n - 1" "[0..n - 1] = [0..n - 1 - 1] @ [n - 1]"
    using Suc.hyps(2) by (auto simp: upto_rec2)
  have b: "0 \<le> ?b (n - 1)" "?b (n - 1) \<le> ?b n"
    using even_bound_mono [OF assms(1,2) n(1)] even_bound_mono [OF assms(1,2), of "n - 1" n] chunk_facts(2) [OF assms(1,2)]
    by (auto simp: even_bound_def [of _ _ 0])
  then have "[0..?b n - 1] = [0..?b (n - 1) - 1] @ [?b (n - 1)..?b n - 1]"
    using upto_split1 [of 0 "?b (n - 1)" "?b n - 1"] by (cases "?b (n - 1) = ?b n") auto
  then show ?case
    using Suc.hyps(1) [of "n - 1"] Suc.hyps(2) Suc.prems n by simp
qed

subsection \<open>The binary search\<close>

text \<open>A predicate on indices that is false up to some point and true from there on.\<close>

definition cut_at :: "nat \<Rightarrow> (nat \<Rightarrow> bool) \<Rightarrow> nat \<Rightarrow> bool" where
  "cut_at n P r \<longleftrightarrow> r \<le> n \<and> (\<forall>k < n. P k \<longleftrightarrow> r \<le> k)"

lemma search_loop_first:
  assumes f: "\<forall>h < n. f h = Some (P h)" and cut: "cut_at n P r"
  assumes "i \<le> r" "r \<le> j" "j \<le> n"
  shows "search_loop f i j = Some r"
  using assms(3-5)
proof (induction "j - i" arbitrary: i j rule: less_induct)
  case less
  let ?h = "(i + j) div 2"
  show ?case
  proof (cases "i < j")
    case True
    then have h: "f ?h = Some (r \<le> ?h)" "i \<le> ?h" "?h < j"
      using f cut less.prems by (auto simp: cut_at_def)
    show ?thesis
    proof (cases "r \<le> ?h")
      case True
      then show ?thesis
        using less.hyps [of ?h i] h \<open>i < j\<close> less.prems by (subst search_loop.simps) simp
    next
      case False
      then show ?thesis
        using less.hyps [of j "?h + 1"] h \<open>i < j\<close> less.prems by (subst search_loop.simps) simp
    qed
  qed (use less.prems in \<open>simp add: search_loop.simps\<close>)
qed

lemma sort_Search_first:
  assumes "\<forall>h < n. f h = Some (P h)" "cut_at n P r"
  shows "sort_Search n f = Some r"
  using search_loop_first [OF assms, of 0 n] assms(2) by (simp add: sort_Search_def cut_at_def)

text \<open>In a sorted list every upward closed predicate has such a point.\<close>

lemma sorted_cut:
  assumes "sorted xs" and up: "\<And>x y. P x \<Longrightarrow> x \<le> y \<Longrightarrow> P y"
  obtains r where "cut_at (length xs) (\<lambda>k. P (xs ! k)) r"
    and "xs = take r xs @ drop r xs" "\<forall>x \<in> set (take r xs). \<not> P x" "\<forall>x \<in> set (drop r xs). P x"
proof -
  define r where "r = length (takeWhile (\<lambda>x. \<not> P x) xs)"
  have tk: "take r xs = takeWhile (\<lambda>x. \<not> P x) xs" "drop r xs = dropWhile (\<lambda>x. \<not> P x) xs"
    by (simp_all add: r_def takeWhile_eq_take dropWhile_eq_drop flip: takeWhile_eq_take)
  have len: "r \<le> length xs"
    by (simp add: r_def length_takeWhile_le)
  have before: "\<not> P (xs ! k)" if "k < r" for k
    using that nth_length_takeWhile by (metis nth_mem r_def set_takeWhileD takeWhile_nth)
  have after: "P (xs ! k)" if "r \<le> k" "k < length xs" for k
  proof -
    have "P (xs ! r)"
      using nth_length_takeWhile [of "\<lambda>x. \<not> P x" xs] that by (simp add: r_def)
    then show ?thesis
      using up sorted_nth_mono [OF assms(1) that] by blast
  qed
  show thesis
  proof (rule that [of r])
    show "cut_at (length xs) (\<lambda>k. P (xs ! k)) r"
      using len before after by (auto simp: cut_at_def not_le [symmetric])
    show "\<forall>x \<in> set (take r xs). \<not> P x"
      using tk(1) set_takeWhileD by metis
    show "\<forall>x \<in> set (drop r xs). P x"
      using after by (auto simp: in_set_conv_nth)
  qed simp
qed

lemma SearchStrings_sorted:
  assumes "sorted a"
  obtains r where "SearchStrings a x = Some r" "r \<le> length a"
    "\<forall>y \<in> set (take r a). y < x" "\<forall>y \<in> set (drop r a). x \<le> y"
proof -
  obtain r where c: "cut_at (length a) (\<lambda>k. x \<le> a ! k) r" "\<forall>y \<in> set (take r a). \<not> x \<le> y" "\<forall>y \<in> set (drop r a). x \<le> y"
    using sorted_cut [OF assms, of "\<lambda>y. x \<le> y"] by (metis order_trans)
  moreover have "SearchStrings a x = Some r"
    unfolding SearchStrings_def by (rule sort_Search_first [OF _ c(1)]) (simp add: go_index_def)
  ultimately show thesis
    using that [of r] by (simp add: cut_at_def linorder_not_le)
qed

subsection \<open>Sorted slices\<close>

lemma insort_append:
  "\<forall>y \<in> set as. y < x \<Longrightarrow> \<forall>y \<in> set bs. x \<le> y \<Longrightarrow> insort x (as @ bs) = as @ x # bs"
  by (induction as) (auto simp: insort_is_Cons)

lemma remove1_append_cut:
  assumes "\<forall>y \<in> set as. y < x" "\<forall>y \<in> set bs. x \<le> y" "sorted bs"
  shows "remove1 x (as @ bs) = (if bs \<noteq> [] \<and> hd bs = x then as @ tl bs else as @ bs)"
proof -
  have "x \<notin> set as"
    using assms(1) by auto
  moreover have "remove1 x bs = (if bs \<noteq> [] \<and> hd bs = x then tl bs else bs)"
    using assms(2,3) by (cases bs) (auto intro!: remove1_idem)
  ultimately show ?thesis
    by (simp add: remove1_append)
qed

lemma copy_at_tail: "length src = length xs - i \<Longrightarrow> i \<le> length xs \<Longrightarrow> copy_at xs i src = take i xs @ src"
  by (simp add: copy_at_def Let_def)

lemma InsertIntoSortedArray_eq:
  assumes "sorted ss"
  shows "InsertIntoSortedArray ss s = Some (insort s ss)"
proof -
  obtain r where r: "SearchStrings ss s = Some r" "r \<le> length ss"
      "\<forall>y \<in> set (take r ss). y < s" "\<forall>y \<in> set (drop r ss). s \<le> y"
    using SearchStrings_sorted [OF assms] .
  have "copy_at (ss @ ['''']) (r + 1) (drop r ss @ ['''']) = take (r + 1) (ss @ ['''']) @ drop r ss"
    using r(2) by (auto simp: copy_at_def Let_def min_def)
  moreover have "(take (r + 1) (ss @ ['''']) @ drop r ss) [r := s] = take r ss @ s # drop r ss"
    using r(2) by (cases "r = length ss") (auto simp: list_update_append take_Suc_conv_app_nth list_update_length)
  ultimately show ?thesis
    using r insort_append [OF r(3,4)] by (simp add: InsertIntoSortedArray_def)
qed

lemma RemoveFromSortedArray_eq:
  assumes "sorted ss"
  shows "RemoveFromSortedArray ss s = Some (remove1 s ss)"
proof -
  obtain r where r: "SearchStrings ss s = Some r" "r \<le> length ss"
      "\<forall>y \<in> set (take r ss). y < s" "\<forall>y \<in> set (drop r ss). s \<le> y"
    using SearchStrings_sorted [OF assms] .
  have eq: "remove1 s ss = (if drop r ss \<noteq> [] \<and> hd (drop r ss) = s then take r ss @ drop (Suc r) ss else ss)"
    using remove1_append_cut [OF r(3,4) sorted_wrt_drop [OF assms]] by (simp add: drop_Suc tl_drop)
  have "take (length ss - 1) (copy_at ss r (drop (r + 1) ss)) = take r ss @ drop (Suc r) ss" if "r < length ss"
    using that by (simp add: copy_at_def Let_def)
  then show ?thesis
    using r(1) eq by (cases "r < length ss") (auto simp: RemoveFromSortedArray_def hd_drop_conv_nth)
qed

subsection \<open>Every index lies in one range\<close>

lemma length_even_ranges: "int (length (even_ranges sz upper)) = max 0 (range_count sz upper)"
  by (simp add: even_ranges_def)

lemma nth_even_ranges:
  "i < length (even_ranges sz upper) \<Longrightarrow> even_ranges sz upper ! i = (even_bound sz upper (int i), even_bound sz upper (int i + 1) - 1)"
  by (simp add: even_ranges_def nth_upto)

lemma even_ranges_concat:
  assumes "0 < sz" "0 \<le> upper"
  shows "concat (map (\<lambda>(a, b). [a..b]) (even_ranges sz upper)) = [0..upper]"
  using ranges_concat [OF assms, of "range_count sz upper"] even_bound_last [OF assms] assms
  by (simp add: even_ranges_def comp_def range_count_def)

lemma even_ranges_unique:
  assumes "0 < sz" "0 \<le> upper" "0 \<le> k" "k \<le> upper"
  shows "\<exists>!i. i < length (even_ranges sz upper) \<and> fst (even_ranges sz upper ! i) \<le> k \<and> k \<le> snd (even_ranges sz upper ! i)"
proof (rule ex_ex1I)
  have "k \<in> set (concat (map (\<lambda>(a, b). [a..b]) (even_ranges sz upper)))"
    using assms by (simp only: even_ranges_concat) simp
  then show "\<exists>i. i < length (even_ranges sz upper) \<and> fst (even_ranges sz upper ! i) \<le> k \<and> k \<le> snd (even_ranges sz upper ! i)"
    by (auto simp: in_set_conv_nth) fastforce
next
  fix i j
  assume i: "i < length (even_ranges sz upper) \<and> fst (even_ranges sz upper ! i) \<le> k \<and> k \<le> snd (even_ranges sz upper ! i)"
    and j: "j < length (even_ranges sz upper) \<and> fst (even_ranges sz upper ! j) \<le> k \<and> k \<le> snd (even_ranges sz upper ! j)"
  have "\<not> i < j" "\<not> j < i"
    using i j even_bound_mono [OF assms(1,2), of "int i + 1" "int j"] even_bound_mono [OF assms(1,2), of "int j + 1" "int i"]
    by (auto simp: nth_even_ranges)
  then show "i = j"
    by simp
qed

end
