(* ===== verification/CrdTypes.thy ===== *)
theory CrdTypes
  imports GoPrelude
begin

text \<open>
  The custom resources that the controllers and the processes exchange through the API server: clusters,
  schedulers, distributors, dispatchers and allocations (\<open>pkg/apis/*/v1/types.go\<close>), and the part of a pod that
  they read. Of the object metadata the records keep name, namespace and what the code reads.

  The API server is not part of the sources. A call that updates an object is a parameter of type
  \<open>api_update\<close>: it takes the state of the server and an object, and returns the new state with an error or the
  object as stored.
\<close>

type_synonym api_error = string
type_synonym ('w, 'o) api_update = "'w \<Rightarrow> 'o \<Rightarrow> 'w \<times> (api_error + 'o)"

text \<open>
  What a successful update does: the server stores the object under its key and returns it; a failed update stores
  nothing. Fields that the server fills in, such as the resource version, are left out.
\<close>

definition api_stores :: "('o \<Rightarrow> 'k) \<Rightarrow> ('w \<Rightarrow> 'k \<rightharpoonup> 'o) \<Rightarrow> ('w, 'o) api_update \<Rightarrow> bool" where
  "api_stores key stored update \<longleftrightarrow>
     (\<forall>w obj. case update w obj of
        (w', Inr obj') \<Rightarrow> obj' = obj \<and> stored w' = (stored w)(key obj \<mapsto> obj)
      | (w', Inl err) \<Rightarrow> stored w' = stored w)"

lemma api_stores_success: "api_stores key stored update \<Longrightarrow> update w obj = (w', Inr obj') \<Longrightarrow>
    obj' = obj \<and> stored w' = (stored w)(key obj \<mapsto> obj)"
  by (auto simp: api_stores_def dest!: spec [of _ w] spec [of _ obj])

text \<open>A server that keeps its objects in a list and accepts every update.\<close>

definition list_server :: "('o \<Rightarrow> 'k) \<Rightarrow> (('k \<times> 'o) list, 'o) api_update" where
  "list_server key w obj = ((key obj, obj) # w, Inr obj)"

lemma list_server_stores [simp]: "api_stores key map_of (list_server key)"
  by (simp add: api_stores_def list_server_def)

subsection \<open>Clusters\<close>

record GeolocationInfo =
  geo_City :: string
  geo_Province :: string
  geo_Area :: string
  geo_Country :: string

record RegionInfo =
  ri_Region :: string
  ri_AvailabilityZone :: string

record OperatorInfo =
  op_Operator :: string

record FlavorInfo =
  fi_FlavorID :: string
  fi_TotalCapacity :: int

record StorageSpec =
  ss_TypeID :: string
  ss_StorageCapacity :: int

record Cluster =
  cl_Name :: string
  cl_Namespace :: string
  cl_IpAddress :: string
  cl_GeoLocation :: GeolocationInfo
  cl_Region :: RegionInfo
  cl_Operator :: OperatorInfo
  cl_Flavors :: "FlavorInfo list"
  cl_Storage :: "StorageSpec list"
  cl_EipCapacity :: int
  cl_CPUCapacity :: int
  cl_MemCapacity :: int
  cl_ServerPrice :: int

subsection \<open>Schedulers\<close>

text \<open>The slices of pointers hold what the pointers lead to; the code compares and copies only that.\<close>

record ClusterUnion =
  un_GeoLocation :: "GeolocationInfo list"
  un_Region :: "RegionInfo list"
  un_Operator :: "OperatorInfo list"
  un_Flavors :: "FlavorInfo list"
  un_Storage :: "StorageSpec list"
  un_EipCapacity :: "int list"
  un_CPUCapacity :: "int list"
  un_MemCapacity :: "int list"
  un_ServerPrice :: "int list"

record Scheduler =
  sch_Name :: string
  sch_Namespace :: string
  sch_Tag :: string
  sch_Cluster :: "string list"
  sch_Union :: ClusterUnion

subsection \<open>Distributors and dispatchers\<close>

record DistributorRange =
  dr_Start :: int
  dr_End :: int

record Distributor =
  dist_Name :: string
  dist_Namespace :: string
  dist_Range :: DistributorRange

record DispatcherRange =
  dpr_Start :: string
  dpr_End :: string

record Dispatcher =
  disp_Name :: string
  disp_Namespace :: string
  disp_ClusterRange :: DispatcherRange

subsection \<open>Pods and allocations\<close>

text \<open>Flavors and network interfaces are their identifiers.\<close>

datatype PodPhase = PodPending | PodBound | ClusterScheduled | PodFailed

record Pod =
  pod_Name :: string
  pod_Namespace :: string
  pod_HashKey :: int
  pod_ResourceType :: string
  pod_GeoLocation :: GeolocationInfo
  pod_VMName :: string
  pod_Image :: string
  pod_Flavors :: "string list"
  pod_SecurityGroupId :: string
  pod_Nics :: "string list"
  pod_ClusterName :: string
  pod_DeletionTimestamp :: "gotime option"
  pod_CreationTimestamp :: gotime
  pod_Phase :: PodPhase
  pod_DispatcherName :: string
  pod_ClusterInstanceId :: string

datatype AllocationPhase = AllocationNew | AllocationAssigned | AllocationBound | AllocationScheduled | AllocationFailed

record ClusterInstance =
  ci_ClusterName :: string
  ci_InstanceId :: string

record AllocResource =
  ar_Name :: string
  ar_Flavors :: "string list"
  ar_Image :: string
  ar_SecurityGroupId :: string
  ar_NicName :: string
  ar_ClusterInstances :: "ClusterInstance list"

record Allocation =
  al_Name :: string
  al_Namespace :: string
  al_HashKey :: int
  al_DeletionTimestamp :: "gotime option"
  al_CreationTimestamp :: gotime
  al_GeoLocation :: GeolocationInfo
  al_Resources :: "AllocResource list"
  al_Phase :: AllocationPhase
  al_DistributorName :: string
  al_SchedulerName :: string
  al_DispatcherName :: string
  al_ClusterNames :: "string list"

end
