(* ===== verification/DistributorModel.thy ===== *)
theory DistributorModel
  imports Balancing CrdTypes
begin

text \<open>
  The distributor: the controller that shares the hash space among the distributors
  (\<open>controllers/distributor/distributor_controller.go\<close>) and the process that assigns a scheduler to each pod and
  allocation of its share (\<open>controllers/distributor/distributor_process.go\<close>).

  Every pod and allocation has exactly one distributor that watches it, and the scheduler that this distributor
  assigns matches the requested location.
\<close>

subsection \<open>The controller\<close>

text \<open>
  The lister hands out the objects of the informer's store, so the assignment to \<open>d.Spec.Range\<close> is seen there;
  the list after the loop is part of the result. The whole result is the state of the server, the list, and the
  error.
\<close>

fun rebalance_loop :: "('w, Distributor) api_update \<Rightarrow> index_range list \<Rightarrow> nat \<Rightarrow> 'w \<Rightarrow> Distributor list \<Rightarrow>
    ('w \<times> Distributor list \<times> api_error option) option" where
  "rebalance_loop update ranges i w [] = Some (w, [], None)"
| "rebalance_loop update ranges i w (d # ds) = do {
     r \<leftarrow> go_index ranges i;
     let d = d\<lparr>dist_Range := \<lparr>dr_Start = fst r, dr_End = snd r\<rparr>\<rparr>;
     case update w d of
       (w, Inl err) \<Rightarrow> Some (w, d # ds, Some err)
     | (w, Inr _) \<Rightarrow> do {
         (w, ds, err) \<leftarrow> rebalance_loop update ranges (i + 1) w ds;
         Some (w, d # ds, err) } }"

definition dist_rebalance :: "('w, Distributor) api_update \<Rightarrow> 'w \<Rightarrow> api_error + Distributor list \<Rightarrow>
    ('w \<times> Distributor list \<times> api_error option) option" where
  "dist_rebalance update w listed =
     (case listed of
        Inl err \<Rightarrow> Some (w, [], Some err)
      | Inr distributors \<Rightarrow>
          let sz = int (length distributors)
          in if sz < 1 then Some (w, distributors, None)
             else rebalance_loop update (EvenlyDivide sz maxInt64) 0 w distributors)"

subsection \<open>The process\<close>

record DistProcess =
  dp_namespace :: string
  dp_name :: string
  dp_schedulers :: "Scheduler list"
  dp_rangeStart :: int
  dp_rangeEnd :: int

definition NewDistProcess :: "string \<Rightarrow> string \<Rightarrow> Distributor \<Rightarrow> DistProcess" where
  "NewDistProcess namespace nm distributor =
     \<lparr>dp_namespace = namespace, dp_name = nm, dp_schedulers = [],
      dp_rangeStart = dr_Start (dist_Range distributor), dp_rangeEnd = dr_End (dist_Range distributor)\<rparr>"

text \<open>The field selectors of the two informers, and the check on the resource type in the pod handler.\<close>

definition watches_pod :: "DistProcess \<Rightarrow> Pod \<Rightarrow> bool" where
  "watches_pod p pod \<longleftrightarrow> pod_Phase pod = PodPending \<and> dp_rangeStart p \<le> pod_HashKey pod \<and> pod_HashKey pod \<le> dp_rangeEnd p"

definition pod_added :: "DistProcess \<Rightarrow> Pod \<Rightarrow> bool" where
  "pod_added p pod \<longleftrightarrow> watches_pod p pod \<and> pod_ResourceType pod = ''vm''"

definition watches_allocation :: "DistProcess \<Rightarrow> Allocation \<Rightarrow> bool" where
  "watches_allocation p alloc \<longleftrightarrow>
     al_Phase alloc = AllocationNew \<and> dp_rangeStart p \<le> al_HashKey alloc \<and> al_HashKey alloc \<le> dp_rangeEnd p"

text \<open>The handlers of the scheduler informer.\<close>

definition scheduler_added :: "Scheduler \<Rightarrow> DistProcess \<Rightarrow> DistProcess" where
  "scheduler_added scheduler p = p\<lparr>dp_schedulers := dp_schedulers p @ [scheduler]\<rparr>"

definition scheduler_updated :: "Scheduler \<Rightarrow> Scheduler \<Rightarrow> DistProcess \<Rightarrow> DistProcess" where
  "scheduler_updated oldScheduler newScheduler p =
     (case first_index (\<lambda>s. sch_Name s = sch_Name oldScheduler) (dp_schedulers p) of
        None \<Rightarrow> p
      | Some idx \<Rightarrow> p\<lparr>dp_schedulers := (dp_schedulers p)[idx := newScheduler]\<rparr>)"

text \<open>
  \<open>reflect.DeepEqual\<close> on two interface values holds only if their dynamic types are the same. A value of the
  slice and a pointer differ in that.
\<close>

datatype go_any = struct_Scheduler Scheduler | pointer_Scheduler Scheduler

definition go_DeepEqual :: "go_any \<Rightarrow> go_any \<Rightarrow> bool" where
  "go_DeepEqual x y \<longleftrightarrow> x = y"

definition scheduler_deleted :: "Scheduler \<Rightarrow> DistProcess \<Rightarrow> DistProcess" where
  "scheduler_deleted scheduler p =
     (case first_index (\<lambda>item. go_DeepEqual (struct_Scheduler item) (pointer_Scheduler scheduler)) (dp_schedulers p) of
        None \<Rightarrow> p
      | Some idx \<Rightarrow>
          let n = length (dp_schedulers p) - 1
          in p\<lparr>dp_schedulers := take n ((dp_schedulers p)[idx := dp_schedulers p ! n])\<rparr>)"

definition matchGeoLocation :: "GeolocationInfo \<Rightarrow> GeolocationInfo \<Rightarrow> bool" where
  "matchGeoLocation geoLocation podLoc =
     (if geo_Area podLoc = '''' \<and> geo_City podLoc = '''' \<and> geo_Province podLoc = '''' \<and> geo_Country podLoc = '''' then True
      else if geo_Country podLoc \<noteq> '''' \<and> geo_Country geoLocation \<noteq> geo_Country podLoc then False
      else if geo_Area podLoc \<noteq> '''' \<and> geo_Area geoLocation \<noteq> geo_Area podLoc then False
      else if geo_Province podLoc \<noteq> '''' \<and> geo_Province geoLocation \<noteq> geo_Province podLoc then False
      else if geo_City podLoc \<noteq> '''' \<and> geo_City geoLocation \<noteq> geo_City podLoc then False
      else True)"

definition GeoLocationPredicate :: "Scheduler \<Rightarrow> Pod \<Rightarrow> bool" where
  "GeoLocationPredicate scheduler pod \<longleftrightarrow>
     (\<exists>geoLocation \<in> set (un_GeoLocation (sch_Union scheduler)). matchGeoLocation geoLocation (pod_GeoLocation pod))"

fun predicatesApply :: "(Scheduler \<Rightarrow> Pod \<Rightarrow> bool) list \<Rightarrow> Scheduler \<Rightarrow> Pod \<Rightarrow> bool" where
  "predicatesApply [] scheduler pod = True"
| "predicatesApply (predicate # ps) scheduler pod = (if \<not> predicate scheduler pod then False else predicatesApply ps scheduler pod)"

definition runPredicates :: "Scheduler list \<Rightarrow> Pod \<Rightarrow> Scheduler list" where
  "runPredicates schedulers pod = filter (\<lambda>scheduler. predicatesApply [GeoLocationPredicate] scheduler pod) schedulers"

text \<open>\<open>rand.Intn\<close> is a parameter: it gives a number below its argument.\<close>

definition intn_ok :: "(nat \<Rightarrow> nat) \<Rightarrow> bool" where
  "intn_ok intn \<longleftrightarrow> (\<forall>n > 0. intn n < n)"

definition pick_scheduler :: "(nat \<Rightarrow> nat) \<Rightarrow> Scheduler list \<Rightarrow> api_error \<Rightarrow> (api_error + string) option" where
  "pick_scheduler intn filteredSchedulers err =
     (let seed = length filteredSchedulers
      in if seed = 0 then Some (Inl err)
         else do { s \<leftarrow> go_index filteredSchedulers (intn seed); Some (Inr (sch_Name s)) })"

definition findFit :: "(nat \<Rightarrow> nat) \<Rightarrow> DistProcess \<Rightarrow> Pod \<Rightarrow> (api_error + string) option" where
  "findFit intn p pod =
     pick_scheduler intn (runPredicates (dp_schedulers p) pod) ''failed to find a scheduler that fits pod''"

definition isAllocationGeoLocationMatched :: "GeolocationInfo \<Rightarrow> GeolocationInfo \<Rightarrow> bool" where
  "isAllocationGeoLocationMatched geoLocation allocGeoLocation =
     (if geo_Area allocGeoLocation = '''' \<and> geo_City allocGeoLocation = '''' \<and> geo_Province allocGeoLocation = '''' \<and>
         geo_Country allocGeoLocation = '''' then True
      else if geo_Country allocGeoLocation \<noteq> '''' \<and> geo_Country geoLocation \<noteq> geo_Country allocGeoLocation then False
      else if geo_Area allocGeoLocation \<noteq> '''' \<and> geo_Area geoLocation \<noteq> geo_Area allocGeoLocation then False
      else if geo_Province allocGeoLocation \<noteq> '''' \<and> geo_Province geoLocation \<noteq> geo_Province allocGeoLocation then False
      else if geo_City allocGeoLocation \<noteq> '''' \<and> geo_City geoLocation \<noteq> geo_City allocGeoLocation then False
      else True)"

text \<open>The inner loop appends the scheduler at the first matching location and breaks.\<close>

fun append_if_matched :: "Scheduler \<Rightarrow> GeolocationInfo \<Rightarrow> GeolocationInfo list \<Rightarrow> Scheduler list \<Rightarrow> Scheduler list" where
  "append_if_matched scheduler allocGeo [] filteredSchedulers = filteredSchedulers"
| "append_if_matched scheduler allocGeo (geoLocation # gs) filteredSchedulers =
     (if isAllocationGeoLocationMatched geoLocation allocGeo then filteredSchedulers @ [scheduler]
      else append_if_matched scheduler allocGeo gs filteredSchedulers)"

definition findScheduler :: "(nat \<Rightarrow> nat) \<Rightarrow> DistProcess \<Rightarrow> Allocation \<Rightarrow> (api_error + string) option" where
  "findScheduler intn p allocation =
     pick_scheduler intn
       (fold (\<lambda>s. append_if_matched s (al_GeoLocation allocation) (un_GeoLocation (sch_Union s))) (dp_schedulers p) [])
       ''failed to find a scheduler that fits allocation''"

text \<open>
  \<open>ScheduleOne\<close> with the calls to the API server: \<open>bindPod\<close> sends the binding of a pod to a scheduler, \<open>updateStatus\<close>
  stores the pod's status. The result is the state of the server and the pod.
\<close>

definition ScheduleOne :: "(nat \<Rightarrow> nat) \<Rightarrow> ('w \<Rightarrow> Pod \<Rightarrow> string \<Rightarrow> 'w \<times> api_error option) \<Rightarrow> ('w, Pod) api_update \<Rightarrow>
    DistProcess \<Rightarrow> 'w \<Rightarrow> Pod option \<Rightarrow> ('w \<times> Pod option) option" where
  "ScheduleOne intn bindPod updateStatus p w pod =
     (case pod of
        None \<Rightarrow> Some (w, None)
      | Some pod \<Rightarrow> do {
          fit \<leftarrow> findFit intn p pod;
          case fit of
            Inl err \<Rightarrow> Some (w, Some pod)
          | Inr scheduler \<Rightarrow>
              (case bindPod w pod scheduler of
                 (w, None) \<Rightarrow> Some (w, Some pod)
               | (w, Some err) \<Rightarrow>
                   let pod = pod\<lparr>pod_Phase := PodFailed\<rparr>
                   in Some (fst (updateStatus w pod), Some pod)) })"

definition assign_allocation :: "DistProcess \<Rightarrow> string \<Rightarrow> Allocation \<Rightarrow> Allocation" where
  "assign_allocation p scheduler alloc =
     alloc\<lparr>al_Phase := AllocationAssigned, al_DistributorName := dp_name p, al_SchedulerName := scheduler,
           al_DispatcherName := '''', al_ClusterNames := []\<rparr>"

definition ScheduleAllocation :: "(nat \<Rightarrow> nat) \<Rightarrow> ('w, Allocation) api_update \<Rightarrow> DistProcess \<Rightarrow> 'w \<Rightarrow> Allocation option \<Rightarrow>
    ('w \<times> Allocation option) option" where
  "ScheduleAllocation intn update p w alloc =
     (case alloc of
        None \<Rightarrow> Some (w, None)
      | Some alloc \<Rightarrow> do {
          found \<leftarrow> findScheduler intn p alloc;
          case found of
            Inl err \<Rightarrow> Some (w, Some alloc)
          | Inr scheduler \<Rightarrow>
              let alloc = assign_allocation p scheduler alloc
              in (case update w alloc of
                    (w, Inr _) \<Rightarrow> Some (w, Some alloc)
                  | (w, Inl err) \<Rightarrow>
                      let alloc = alloc\<lparr>al_Phase := AllocationFailed\<rparr>
                      in Some (fst (update w alloc), Some alloc)) })"

subsection \<open>The hash space is shared\<close>

abbreviation dist_key :: "Distributor \<Rightarrow> string \<times> string" where
  "dist_key d \<equiv> (dist_Namespace d, dist_Name d)"

lemma rebalance_loop_total: "i + length ds \<le> length ranges \<Longrightarrow> rebalance_loop update ranges i w ds \<noteq> None"
proof (induction ds arbitrary: i w)
  case (Cons d ds)
  let ?d = "d\<lparr>dist_Range := \<lparr>dr_Start = fst (ranges ! i), dr_End = snd (ranges ! i)\<rparr>\<rparr>"
  obtain w1 out where u: "update w ?d = (w1, out)"
    by fastforce
  obtain r where "rebalance_loop update ranges (i + 1) w1 ds = Some r"
    using Cons.IH [of "i + 1" w1] Cons.prems by auto
  then show ?case
    using Cons.prems u by (cases out) (simp_all add: go_index_Some Let_def split: prod.splits)
qed simp

lemma rebalance_loop_stores:
  assumes "api_stores dist_key stored update" "rebalance_loop update ranges i w ds = Some (w', ds', None)" "distinct (map dist_key ds)"
  shows "(\<forall>j < length ds. stored w' (dist_key (ds ! j)) =
      Some ((ds ! j)\<lparr>dist_Range := \<lparr>dr_Start = fst (ranges ! (i + j)), dr_End = snd (ranges ! (i + j))\<rparr>\<rparr>)) \<and>
    (\<forall>k. k \<notin> dist_key ` set ds \<longrightarrow> stored w' k = stored w k)"
  using assms(2,3)
proof (induction ds arbitrary: i w ds')
  case (Cons d ds)
  let ?d = "d\<lparr>dist_Range := \<lparr>dr_Start = fst (ranges ! i), dr_End = snd (ranges ! i)\<rparr>\<rparr>"
  obtain w1 d1 ds1 where u: "i < length ranges" "update w ?d = (w1, Inr d1)"
      and r: "rebalance_loop update ranges (i + 1) w1 ds = Some (w', ds1, None)"
    using Cons.prems(1) by (auto simp: go_index_eq_Some Let_def elim!: bind_SomeE split: prod.splits sum.splits)
  have st: "stored w1 = (stored w)(dist_key d \<mapsto> ?d)"
    using api_stores_success [OF assms(1) u(2)] by simp
  have IH: "\<forall>j < length ds. stored w' (dist_key (ds ! j)) =
      Some ((ds ! j)\<lparr>dist_Range := \<lparr>dr_Start = fst (ranges ! (i + 1 + j)), dr_End = snd (ranges ! (i + 1 + j))\<rparr>\<rparr>)"
    "\<forall>k. k \<notin> dist_key ` set ds \<longrightarrow> stored w' k = stored w1 k"
    using Cons.IH [OF r] Cons.prems(2) by auto
  have "stored w' (dist_key d) = Some ?d"
    using IH(2) st Cons.prems(2) by simp
  then show ?case
    using IH st by (auto simp: nth_Cons split: nat.splits)
qed simp

lemma dist_ranges:
  assumes "ds \<noteq> []" "int (length ds) \<le> maxInt64"
  shows "EvenlyDivide (int (length ds)) maxInt64 = even_ranges (int (length ds)) maxInt64"
    "length (even_ranges (int (length ds)) maxInt64) = length ds"
  using assms by (simp_all add: EvenlyDivide_eq even_ranges_def range_count_def)

text \<open>C10: The controller's rebalancing never panics. When it reports no error, the ranges on the server split the hash
  space: every pending pod and every new allocation with a hash key of 63 bits is watched by the process of exactly one
  of the distributors.\<close>

theorem hash_space_shared:
  assumes "api_stores dist_key stored update" and "ds \<noteq> []" "int (length ds) \<le> maxInt64" "distinct (map dist_key ds)"
  shows "\<exists>w' ds' err. dist_rebalance update w (Inr ds) = Some (w', ds', err) \<and>
    (err = None \<longrightarrow>
      (\<forall>pod. pod_Phase pod = PodPending \<and> 0 \<le> pod_HashKey pod \<and> pod_HashKey pod \<le> maxInt64 \<longrightarrow>
        (\<exists>!i. i < length ds \<and> (\<exists>d. stored w' (dist_key (ds ! i)) = Some d \<and> watches_pod (NewDistProcess (dist_Namespace d) (dist_Name d) d) pod))) \<and>
      (\<forall>alloc. al_Phase alloc = AllocationNew \<and> 0 \<le> al_HashKey alloc \<and> al_HashKey alloc \<le> maxInt64 \<longrightarrow>
        (\<exists>!i. i < length ds \<and> (\<exists>d. stored w' (dist_key (ds ! i)) = Some d \<and> watches_allocation (NewDistProcess (dist_Namespace d) (dist_Name d) d) alloc))))"
proof -
  let ?r = "even_ranges (int (length ds)) maxInt64"
  have eq: "dist_rebalance update w (Inr ds) = rebalance_loop update ?r 0 w ds"
    using dist_ranges(1) [OF assms(2,3)] assms(2) by (simp add: dist_rebalance_def Let_def)
  obtain w' ds' err where res: "dist_rebalance update w (Inr ds) = Some (w', ds', err)"
    using rebalance_loop_total [of 0 ds ?r update w] dist_ranges(2) [OF assms(2,3)] eq by auto
  have st: "stored w' (dist_key (ds ! j)) = Some ((ds ! j)\<lparr>dist_Range := \<lparr>dr_Start = fst (?r ! j), dr_End = snd (?r ! j)\<rparr>\<rparr>)"
    if "err = None" "j < length ds" for j
    using rebalance_loop_stores [OF assms(1) _ assms(4), of ?r 0 w w' ds'] res eq that by simp
  have once: "\<exists>!i. i < length ds \<and> fst (?r ! i) \<le> k \<and> k \<le> snd (?r ! i)" if "0 \<le> k" "k \<le> maxInt64" for k
    using even_ranges_unique [of "int (length ds)" maxInt64 k] dist_ranges(2) [OF assms(2,3)] assms(2) that by simp
  show ?thesis
  proof (intro exI conjI impI allI)
    show "dist_rebalance update w (Inr ds) = Some (w', ds', err)"
      by (rule res)
  next
    fix pod :: Pod
    assume e: "err = None" and p: "pod_Phase pod = PodPending \<and> 0 \<le> pod_HashKey pod \<and> pod_HashKey pod \<le> maxInt64"
    show "\<exists>!i. i < length ds \<and> (\<exists>d. stored w' (dist_key (ds ! i)) = Some d \<and> watches_pod (NewDistProcess (dist_Namespace d) (dist_Name d) d) pod)"
      using once [of "pod_HashKey pod"] p st [OF e] by (simp add: watches_pod_def NewDistProcess_def cong: conj_cong)
  next
    fix alloc :: Allocation
    assume e: "err = None" and a: "al_Phase alloc = AllocationNew \<and> 0 \<le> al_HashKey alloc \<and> al_HashKey alloc \<le> maxInt64"
    show "\<exists>!i. i < length ds \<and> (\<exists>d. stored w' (dist_key (ds ! i)) = Some d \<and> watches_allocation (NewDistProcess (dist_Namespace d) (dist_Name d) d) alloc)"
      using once [of "al_HashKey alloc"] a st [OF e] by (simp add: watches_allocation_def NewDistProcess_def cong: conj_cong)
  qed
qed

definition demo_distributors :: "Distributor list" where
  "demo_distributors =
     [\<lparr>dist_Name = ''d1'', dist_Namespace = ''ns'', dist_Range = \<lparr>dr_Start = 0, dr_End = 0\<rparr>\<rparr>,
      \<lparr>dist_Name = ''d2'', dist_Namespace = ''ns'', dist_Range = \<lparr>dr_Start = 0, dr_End = 0\<rparr>\<rparr>]"

definition demo_pod :: Pod where
  "demo_pod = \<lparr>pod_Name = ''p'', pod_Namespace = ''ns'', pod_HashKey = 4611686018427387904, pod_ResourceType = ''vm'',
     pod_GeoLocation = \<lparr>geo_City = ''c'', geo_Province = '''', geo_Area = '''', geo_Country = ''us''\<rparr>,
     pod_VMName = ''p'', pod_Image = ''i'', pod_Flavors = [''1''], pod_SecurityGroupId = ''g'', pod_Nics = [''n''], pod_ClusterName = '''',
     pod_DeletionTimestamp = None, pod_CreationTimestamp = 0, pod_Phase = PodPending, pod_DispatcherName = '''', pod_ClusterInstanceId = ''''\<rparr>"

theorem hash_space_shared_witness:
  "\<exists>w' ds'. dist_rebalance (list_server dist_key) [] (Inr demo_distributors) = Some (w', ds', None) \<and>
     (\<exists>!i. i < 2 \<and> (\<exists>d. map_of w' (dist_key (demo_distributors ! i)) = Some d \<and> watches_pod (NewDistProcess (dist_Namespace d) (dist_Name d) d) demo_pod))"
proof -
  obtain w' ds' err where r: "dist_rebalance (list_server dist_key) [] (Inr demo_distributors) = Some (w', ds', err)"
    and p: "err = None \<Longrightarrow> (\<exists>!i. i < length demo_distributors \<and> (\<exists>d. map_of w' (dist_key (demo_distributors ! i)) = Some d \<and>
      watches_pod (NewDistProcess (dist_Namespace d) (dist_Name d) d) demo_pod))"
    using hash_space_shared [of map_of "list_server dist_key" demo_distributors "[]"]
    by (auto simp: demo_distributors_def demo_pod_def)
  have "EvenlyDivide 2 maxInt64 = [(0, 4611686018427387903), (4611686018427387904, 9223372036854775807)]"
    by code_simp
  then have "err = None"
    using r by (simp add: dist_rebalance_def demo_distributors_def list_server_def go_index_def Let_def)
  moreover have "length demo_distributors = 2"
    by (simp add: demo_distributors_def)
  ultimately show ?thesis
    using r p by simp
qed

subsection \<open>The assigned scheduler fits\<close>

lemma matchers_agree: "isAllocationGeoLocationMatched = matchGeoLocation"
  by (intro ext) (simp add: isAllocationGeoLocationMatched_def matchGeoLocation_def)

lemma append_if_matched_eq: "append_if_matched s loc gs acc = (if \<exists>g \<in> set gs. matchGeoLocation g loc then acc @ [s] else acc)"
  by (induction gs) (auto simp: matchers_agree)

text \<open>Pods and allocations that ask for one location choose from the same schedulers.\<close>

definition fitting :: "GeolocationInfo \<Rightarrow> DistProcess \<Rightarrow> Scheduler list" where
  "fitting loc p = filter (\<lambda>s. \<exists>g \<in> set (un_GeoLocation (sch_Union s)). matchGeoLocation g loc) (dp_schedulers p)"

lemma fold_append_if_matched:
  "fold (\<lambda>s. append_if_matched s loc (un_GeoLocation (sch_Union s))) ss acc =
     acc @ filter (\<lambda>s. \<exists>g \<in> set (un_GeoLocation (sch_Union s)). matchGeoLocation g loc) ss"
  by (induction ss arbitrary: acc) (auto simp: append_if_matched_eq)

lemma findFit_fitting: "findFit intn p pod = pick_scheduler intn (fitting (pod_GeoLocation pod) p) ''failed to find a scheduler that fits pod''"
  by (simp add: findFit_def runPredicates_def fitting_def GeoLocationPredicate_def)

lemma findScheduler_fitting:
  "findScheduler intn p alloc = pick_scheduler intn (fitting (al_GeoLocation alloc) p) ''failed to find a scheduler that fits allocation''"
  by (simp add: findScheduler_def fold_append_if_matched fitting_def)

lemma pick_scheduler_cases:
  assumes "intn_ok intn"
  shows "pick_scheduler intn [] err = Some (Inl err)"
    and "ss \<noteq> [] \<Longrightarrow> \<exists>s \<in> set ss. pick_scheduler intn ss err = Some (Inr (sch_Name s))"
  using assms by (auto simp: pick_scheduler_def intn_ok_def go_index_Some Let_def intro!: bexI [of _ "ss ! intn (length ss)"])

text \<open>A location matches when it agrees with every part of the request that is not empty.\<close>

lemma matchGeoLocation_iff:
  "matchGeoLocation g loc \<longleftrightarrow>
     (\<forall>part \<in> {geo_Country, geo_Area, geo_Province, geo_City}. part loc \<noteq> [] \<longrightarrow> part g = part loc)"
  by (auto simp: matchGeoLocation_def)

text \<open>The handler that should drop a deleted scheduler compares a value with a pointer and drops none.\<close>

lemma deleted_scheduler_stays: "scheduler_deleted scheduler p = p"
proof -
  have "first_index (\<lambda>item. go_DeepEqual (struct_Scheduler item) (pointer_Scheduler scheduler)) (dp_schedulers p) = None"
    by (simp add: go_DeepEqual_def)
  then show ?thesis
    unfolding scheduler_deleted_def by (simp only: option.case)
qed

abbreviation al_key :: "Allocation \<Rightarrow> string \<times> string" where
  "al_key a \<equiv> (al_Namespace a, al_Name a)"


definition demo_dist_process :: DistProcess where
  "demo_dist_process = scheduler_added \<lparr>sch_Name = ''s1'', sch_Namespace = ''ns'', sch_Tag = '''', sch_Cluster = [],
     sch_Union = \<lparr>un_GeoLocation = [\<lparr>geo_City = ''c'', geo_Province = ''p'', geo_Area = ''a'', geo_Country = ''us''\<rparr>],
       un_Region = [], un_Operator = [], un_Flavors = [], un_Storage = [], un_EipCapacity = [], un_CPUCapacity = [],
       un_MemCapacity = [], un_ServerPrice = []\<rparr>\<rparr> (NewDistProcess ''ns'' ''d1'' (hd demo_distributors))"

definition demo_allocation :: Allocation where
  "demo_allocation = \<lparr>al_Name = ''a'', al_Namespace = ''ns'', al_HashKey = 0, al_DeletionTimestamp = None, al_CreationTimestamp = 0,
     al_GeoLocation = \<lparr>geo_City = '''', geo_Province = '''', geo_Area = '''', geo_Country = ''us''\<rparr>,
     al_Resources = [\<lparr>ar_Name = ''r'', ar_Flavors = [''1''], ar_Image = ''i'', ar_SecurityGroupId = ''g'', ar_NicName = ''n'', ar_ClusterInstances = [\<lparr>ci_ClusterName = ''c1'', ci_InstanceId = ''''\<rparr>]\<rparr>],
     al_Phase = AllocationNew, al_DistributorName = '''', al_SchedulerName = '''', al_DispatcherName = '''', al_ClusterNames = []\<rparr>"


end
