(* ===== verification/DispatcherModel.thy ===== *)
theory DispatcherModel
  imports Balancing CrdTypes
begin

text \<open>
  The controller that shares the clusters among the dispatchers: \<open>controllers/dispatcher/dispatcher_controller.go\<close>.

  Its state is the sorted list of cluster names and the list of dispatchers. In every state that its handlers can reach,
  each cluster lies in the range of exactly one dispatcher.
\<close>

record DispatcherController =
  dc_clusters :: "string list"
  dc_dispatchers :: "Dispatcher list"

definition NewDispatcherController :: DispatcherController where
  "NewDispatcherController = \<lparr>dc_clusters = [], dc_dispatchers = []\<rparr>"

definition dispatcher_range :: "string list \<Rightarrow> index_range list \<Rightarrow> nat \<Rightarrow> DispatcherRange option" where
  "dispatcher_range clusters ranges idx =
     (if idx < length ranges then do {
        s \<leftarrow> go_index_int clusters (fst (ranges ! idx));
        e \<leftarrow> go_index_int clusters (snd (ranges ! idx));
        Some \<lparr>dpr_Start = s, dpr_End = e\<rparr> }
      else Some \<lparr>dpr_Start = '''', dpr_End = ''''\<rparr>)"

text \<open>The dispatchers are pointers: the new range is written before the update, and stays when the update fails.\<close>

fun balance_loop :: "('w, Dispatcher) api_update \<Rightarrow> string list \<Rightarrow> index_range list \<Rightarrow> nat \<Rightarrow> 'w \<Rightarrow> Dispatcher list \<Rightarrow>
    ('w \<times> Dispatcher list \<times> api_error option) option" where
  "balance_loop update clusters ranges idx w [] = Some (w, [], None)"
| "balance_loop update clusters ranges idx w (dispatcher # ds) = do {
     r \<leftarrow> dispatcher_range clusters ranges idx;
     let dispatcher = dispatcher\<lparr>disp_ClusterRange := r\<rparr>;
     case update w dispatcher of
       (w, Inl err) \<Rightarrow> Some (w, dispatcher # ds, Some (''Failed to update dispatcher with the error error '' @ err))
     | (w, Inr updatedDispatcher) \<Rightarrow> do {
         (w, ds, err) \<leftarrow> balance_loop update clusters ranges (idx + 1) w ds;
         Some (w, updatedDispatcher # ds, err) } }"

definition disp_balance :: "('w, Dispatcher) api_update \<Rightarrow> 'w \<Rightarrow> DispatcherController \<Rightarrow> ('w \<times> DispatcherController \<times> api_error option) option" where
  "disp_balance update w dc =
     (if length (dc_dispatchers dc) = 0 then Some (w, dc, None)
      else if length (dc_clusters dc) > 0 then do {
        let ranges = EvenlyDivide (int (length (dc_dispatchers dc))) (int (length (dc_clusters dc)) - 1);
        (w, ds, err) \<leftarrow> balance_loop update (dc_clusters dc) ranges 0 w (dc_dispatchers dc);
        Some (w, dc\<lparr>dc_dispatchers := ds\<rparr>, err) }
      else Some (w, dc, None))"

text \<open>Every handler ends the process (\<open>klog.Fatalf\<close>) when balancing fails; \<open>None\<close> is also that.\<close>

definition balance_or_exit :: "('w, Dispatcher) api_update \<Rightarrow> 'w \<Rightarrow> DispatcherController \<Rightarrow> ('w \<times> DispatcherController) option" where
  "balance_or_exit update w dc = do {
     (w, dc, err) \<leftarrow> disp_balance update w dc;
     if err \<noteq> None then None else Some (w, dc) }"

text \<open>The process that \<open>addDispatcher\<close> starts is not part of the state.\<close>

definition dc_addDispatcher :: "('w, Dispatcher) api_update \<Rightarrow> Dispatcher \<Rightarrow> 'w \<Rightarrow> DispatcherController \<Rightarrow> ('w \<times> DispatcherController) option" where
  "dc_addDispatcher update dispatcher w dc = balance_or_exit update w (dc\<lparr>dc_dispatchers := dc_dispatchers dc @ [dispatcher]\<rparr>)"

definition dc_deleteDispatcher :: "('w, Dispatcher) api_update \<Rightarrow> Dispatcher \<Rightarrow> 'w \<Rightarrow> DispatcherController \<Rightarrow> ('w \<times> DispatcherController) option" where
  "dc_deleteDispatcher update dispatcher w dc =
     (let ds = dc_dispatchers dc;
          dispLen = length ds;
          ds = (case first_index (\<lambda>disp. disp_Namespace disp = disp_Namespace dispatcher \<and> disp_Name disp = disp_Name dispatcher) ds of
                  None \<Rightarrow> ds
                | Some idx \<Rightarrow> take (dispLen - 1) (ds[idx := ds ! (dispLen - 1)]))
      in balance_or_exit update w (dc\<lparr>dc_dispatchers := ds\<rparr>))"

definition dc_addCluster :: "('w, Dispatcher) api_update \<Rightarrow> Cluster \<Rightarrow> 'w \<Rightarrow> DispatcherController \<Rightarrow> ('w \<times> DispatcherController) option" where
  "dc_addCluster update cluster w dc = do {
     cs \<leftarrow> InsertIntoSortedArray (dc_clusters dc) (cl_Name cluster);
     balance_or_exit update w (dc\<lparr>dc_clusters := cs\<rparr>) }"

definition dc_deleteCluster :: "('w, Dispatcher) api_update \<Rightarrow> Cluster \<Rightarrow> 'w \<Rightarrow> DispatcherController \<Rightarrow> ('w \<times> DispatcherController) option" where
  "dc_deleteCluster update cluster w dc = do {
     cs \<leftarrow> RemoveFromSortedArray (dc_clusters dc) (cl_Name cluster);
     balance_or_exit update w (dc\<lparr>dc_clusters := cs\<rparr>) }"

text \<open>The selector of the informers of a dispatcher process.\<close>

definition in_cluster_range :: "DispatcherRange \<Rightarrow> string \<Rightarrow> bool" where
  "in_cluster_range r clusterName \<longleftrightarrow> dpr_Start r \<le> clusterName \<and> clusterName \<le> dpr_End r"

subsection \<open>What balancing does\<close>

definition clusters_ok :: "string list \<Rightarrow> bool" where
  "clusters_ok cs \<longleftrightarrow> sorted cs \<and> distinct cs \<and> [] \<notin> set cs"

definition covered_once :: "DispatcherController \<Rightarrow> bool" where
  "covered_once dc \<longleftrightarrow> (\<forall>c \<in> set (dc_clusters dc). \<exists>!i. i < length (dc_dispatchers dc) \<and>
     in_cluster_range (disp_ClusterRange (dc_dispatchers dc ! i)) c)"

lemma balance_loop_result:
  assumes "api_stores key stored update" "balance_loop update cs ranges idx w ds = Some (w', ds', None)"
  shows "length ds' = length ds \<and> (\<forall>j < length ds. Some (disp_ClusterRange (ds' ! j)) = dispatcher_range cs ranges (idx + j))"
  using assms(2)
proof (induction ds arbitrary: idx w ds')
  case (Cons d ds)
  obtain r w1 d1 ds1 where u: "dispatcher_range cs ranges idx = Some r" "update w (d\<lparr>disp_ClusterRange := r\<rparr>) = (w1, Inr d1)"
      and l: "balance_loop update cs ranges (idx + 1) w1 ds = Some (w', ds1, None)" "ds' = d1 # ds1"
    using Cons.prems by (auto simp: Let_def elim!: bind_SomeE split: prod.splits sum.splits)
  have "d1 = d\<lparr>disp_ClusterRange := r\<rparr>"
    using api_stores_success [OF assms(1) u(2)] by simp
  then show ?case
    using Cons.IH [OF l(1)] l(2) u(1) by (auto simp: nth_Cons split: nat.splits)
qed simp

lemma balance_loop_total:
  assumes "\<And>j. dispatcher_range cs ranges j \<noteq> None"
  shows "balance_loop update cs ranges idx w ds \<noteq> None"
proof (induction ds arbitrary: idx w)
  case (Cons d ds)
  obtain r where r: "dispatcher_range cs ranges idx = Some r"
    using assms by blast
  obtain w1 out where u: "update w (d\<lparr>disp_ClusterRange := r\<rparr>) = (w1, out)"
    by fastforce
  obtain x where "balance_loop update cs ranges (idx + 1) w1 ds = Some x"
    using Cons.IH [of "idx + 1" w1] by auto
  then show ?case
    using r u by (cases out) (simp_all add: Let_def split: prod.splits)
qed simp

lemma sorted_distinct_nth_le:
  assumes "sorted cs" "distinct cs" "i < length cs" "j < length cs"
  shows "cs ! i \<le> cs ! j \<longleftrightarrow> i \<le> j"
proof
  assume le: "cs ! i \<le> cs ! j"
  show "i \<le> j"
  proof (rule ccontr)
    assume "\<not> i \<le> j"
    then have "cs ! j = cs ! i"
      using le sorted_nth_mono [OF assms(1), of j i] assms(3) by simp
    with \<open>\<not> i \<le> j\<close> show False
      using assms nth_eq_iff_index_eq by fastforce
  qed
qed (use assms sorted_nth_mono in blast)

text \<open>The ranges of dispatchers without clusters are empty; the others are given by index ranges.\<close>

lemma dispatcher_range_even:
  assumes "0 < n" "cs \<noteq> []"
  defines "rs \<equiv> even_ranges n (int (length cs) - 1)"
  shows "dispatcher_range cs rs i = Some (if i < length rs
    then \<lparr>dpr_Start = cs ! nat (fst (rs ! i)), dpr_End = cs ! nat (snd (rs ! i))\<rparr> else \<lparr>dpr_Start = [], dpr_End = []\<rparr>)"
    and "i < length rs \<Longrightarrow> 0 \<le> fst (rs ! i) \<and> fst (rs ! i) < int (length cs) \<and> 0 \<le> snd (rs ! i) \<and> snd (rs ! i) < int (length cs)"
proof -
  have up: "0 \<le> int (length cs) - 1"
    using assms(2) by (cases cs) auto
  have b: "0 \<le> fst (rs ! i) \<and> fst (rs ! i) \<le> snd (rs ! i) \<and> snd (rs ! i) < int (length cs)" if "i < length rs"
  proof -
    have i: "int i < range_count n (int (length cs) - 1)"
      using that by (simp add: rs_def even_ranges_def)
    show ?thesis
      using even_bound_mono [OF assms(1) up, of 0 "int i"] even_bound_strict [OF assms(1) up _ i]
        even_bound_mono [OF assms(1) up, of "int i + 1" "range_count n (int (length cs) - 1)"] i even_bound_last [OF assms(1) up]
        chunk_facts [OF assms(1) up] that
      by (auto simp: rs_def nth_even_ranges even_bound_def [of _ _ 0])
  qed
  then show "i < length rs \<Longrightarrow> 0 \<le> fst (rs ! i) \<and> fst (rs ! i) < int (length cs) \<and> 0 \<le> snd (rs ! i) \<and> snd (rs ! i) < int (length cs)"
    by force
  show "dispatcher_range cs rs i = Some (if i < length rs
    then \<lparr>dpr_Start = cs ! nat (fst (rs ! i)), dpr_End = cs ! nat (snd (rs ! i))\<rparr> else \<lparr>dpr_Start = [], dpr_End = []\<rparr>)"
    using b by (auto simp: dispatcher_range_def go_index_int_def go_index_def)
qed

lemma balance_loop_covers:
  assumes "api_stores key stored update" "clusters_ok cs" "cs \<noteq> []" "0 < n"
  assumes "balance_loop update cs (even_ranges n (int (length cs) - 1)) 0 w ds = Some (w', ds', None)" "length ds = nat n"
    and "c \<in> set cs"
  shows "\<exists>!i. i < length ds' \<and> in_cluster_range (disp_ClusterRange (ds' ! i)) c"
proof -
  let ?rs = "even_ranges n (int (length cs) - 1)"
  obtain k where k: "k < length cs" "cs ! k = c"
    using assms(7) by (auto simp: in_set_conv_nth)
  have up: "0 \<le> int (length cs) - 1"
    using assms(3) by (cases cs) auto
  have len: "length ?rs \<le> length ds"
    using assms(4,6) up by (simp add: even_ranges_def range_count_def)
  have res: "length ds' = length ds" "\<And>i. i < length ds \<Longrightarrow> Some (disp_ClusterRange (ds' ! i)) = dispatcher_range cs ?rs i"
    using balance_loop_result [OF assms(1,5)] by auto
  have out: "\<not> in_cluster_range \<lparr>dpr_Start = [], dpr_End = []\<rparr> c"
    using assms(2,7) by (auto simp: in_cluster_range_def clusters_ok_def)
  have here: "in_cluster_range (disp_ClusterRange (ds' ! i)) c \<longleftrightarrow> i < length ?rs \<and> fst (?rs ! i) \<le> int k \<and> int k \<le> snd (?rs ! i)"
    if "i < length ds" for i
  proof (cases "i < length ?rs")
    case True
    then have b: "0 \<le> fst (?rs ! i)" "fst (?rs ! i) < int (length cs)" "0 \<le> snd (?rs ! i)" "snd (?rs ! i) < int (length cs)"
      using dispatcher_range_even(2) [OF assms(4,3)] by auto
    have "disp_ClusterRange (ds' ! i) = \<lparr>dpr_Start = cs ! nat (fst (?rs ! i)), dpr_End = cs ! nat (snd (?rs ! i))\<rparr>"
      using res(2) [OF that] dispatcher_range_even(1) [OF assms(4,3)] True by simp
    then show ?thesis
      using b k True sorted_distinct_nth_le [of cs] assms(2) by (auto simp: in_cluster_range_def clusters_ok_def nat_le_iff le_nat_iff simp flip: k(2))
  next
    case False
    then show ?thesis
      using res(2) [OF that] dispatcher_range_even(1) [OF assms(4,3), of i] out by simp
  qed
  have "\<exists>!i. i < length ?rs \<and> fst (?rs ! i) \<le> int k \<and> int k \<le> snd (?rs ! i)"
    using even_ranges_unique [OF assms(4) up, of "int k"] k(1) by simp
  moreover have "i < length ds' \<and> in_cluster_range (disp_ClusterRange (ds' ! i)) c \<longleftrightarrow>
      i < length ?rs \<and> fst (?rs ! i) \<le> int k \<and> int k \<le> snd (?rs ! i)" for i
    using here [of i] len res(1) by auto
  ultimately show ?thesis
    by simp
qed

text \<open>The two lists of the controller fit into slices.\<close>

definition fits :: "DispatcherController \<Rightarrow> bool" where
  "fits dc \<longleftrightarrow> int (length (dc_dispatchers dc)) \<le> maxInt64 \<and> int (length (dc_clusters dc)) \<le> maxInt64"

lemma disp_balance_eq:
  assumes "fits dc" "dc_dispatchers dc \<noteq> []" "dc_clusters dc \<noteq> []"
  shows "disp_balance update w dc = Option.bind
    (balance_loop update (dc_clusters dc) (even_ranges (int (length (dc_dispatchers dc))) (int (length (dc_clusters dc)) - 1)) 0 w (dc_dispatchers dc))
    (\<lambda>(w, ds, err). Some (w, dc\<lparr>dc_dispatchers := ds\<rparr>, err))"
proof -
  have "1 \<le> length (dc_clusters dc)"
    using assms(3) by (cases "dc_clusters dc") auto
  then have "EvenlyDivide (int (length (dc_dispatchers dc))) (int (length (dc_clusters dc)) - 1) =
      even_ranges (int (length (dc_dispatchers dc))) (int (length (dc_clusters dc)) - 1)"
    using assms(1,2) by (intro EvenlyDivide_eq) (auto simp: fits_def)
  then show ?thesis
    using assms(2,3) by (simp add: disp_balance_def Let_def)
qed

lemma disp_balance_total:
  assumes "fits dc"
  shows "disp_balance update w dc \<noteq> None"
proof (cases "dc_dispatchers dc = [] \<or> dc_clusters dc = []")
  case False
  then have "dispatcher_range (dc_clusters dc) (even_ranges (int (length (dc_dispatchers dc))) (int (length (dc_clusters dc)) - 1)) j \<noteq> None" for j
    using dispatcher_range_even(1) [of "int (length (dc_dispatchers dc))" "dc_clusters dc" j] by simp
  then obtain x where "balance_loop update (dc_clusters dc)
      (even_ranges (int (length (dc_dispatchers dc))) (int (length (dc_clusters dc)) - 1)) 0 w (dc_dispatchers dc) = Some x"
    using balance_loop_total [of "dc_clusters dc"] not_None_eq by metis
  then show ?thesis
    using disp_balance_eq [OF assms, of update w] False by (cases x) simp
qed (auto simp: disp_balance_def)

lemma balance_or_exit_covers:
  assumes "api_stores key stored update" "fits dc" "clusters_ok (dc_clusters dc)" "balance_or_exit update w dc = Some (w', dc')"
  shows "dc_clusters dc' = dc_clusters dc" "length (dc_dispatchers dc') = length (dc_dispatchers dc)"
    "dc_dispatchers dc' \<noteq> [] \<longrightarrow> covered_once dc'"
proof -
  have b: "disp_balance update w dc = Some (w', dc', None)"
    using assms(4) by (auto simp: balance_or_exit_def elim!: bind_SomeE split: if_splits)
  have "dc_clusters dc' = dc_clusters dc \<and> length (dc_dispatchers dc') = length (dc_dispatchers dc) \<and> (dc_dispatchers dc' \<noteq> [] \<longrightarrow> covered_once dc')"
  proof (cases "dc_dispatchers dc = [] \<or> dc_clusters dc = []")
    case True
    then show ?thesis
      using b by (auto simp: disp_balance_def covered_once_def split: if_splits)
  next
    case False
    then obtain ds where l: "balance_loop update (dc_clusters dc)
          (even_ranges (int (length (dc_dispatchers dc))) (int (length (dc_clusters dc)) - 1)) 0 w (dc_dispatchers dc) = Some (w', ds, None)"
        "dc' = dc\<lparr>dc_dispatchers := ds\<rparr>"
      using b disp_balance_eq [OF assms(2), of update w] by (auto elim!: bind_SomeE)
    show ?thesis
      using balance_loop_covers [OF assms(1,3) _ _ l(1)] balance_loop_result [OF assms(1) l(1)] False l(2)
      by (simp add: covered_once_def)
  qed
  then show "dc_clusters dc' = dc_clusters dc" "length (dc_dispatchers dc') = length (dc_dispatchers dc)"
    "dc_dispatchers dc' \<noteq> [] \<longrightarrow> covered_once dc'"
    by simp_all
qed

subsection \<open>Reachable states\<close>

text \<open>The handlers, in any order; between them the server may change. Names of clusters are not empty and unique.\<close>

inductive disp_reach :: "('w, Dispatcher) api_update \<Rightarrow> 'w \<Rightarrow> DispatcherController \<Rightarrow> bool" for update where
  start: "disp_reach update w NewDispatcherController"
| server: "disp_reach update w dc \<Longrightarrow> disp_reach update w' dc"
| add_dispatcher: "disp_reach update w dc \<Longrightarrow> int (length (dc_dispatchers dc)) < maxInt64 \<Longrightarrow>
    dc_addDispatcher update dispatcher w dc = Some (w', dc') \<Longrightarrow> disp_reach update w' dc'"
| delete_dispatcher: "disp_reach update w dc \<Longrightarrow> dc_deleteDispatcher update dispatcher w dc = Some (w', dc') \<Longrightarrow> disp_reach update w' dc'"
| add_cluster: "disp_reach update w dc \<Longrightarrow> int (length (dc_clusters dc)) < maxInt64 \<Longrightarrow>
    cl_Name cluster \<noteq> [] \<Longrightarrow> cl_Name cluster \<notin> set (dc_clusters dc) \<Longrightarrow>
    dc_addCluster update cluster w dc = Some (w', dc') \<Longrightarrow> disp_reach update w' dc'"
| delete_cluster: "disp_reach update w dc \<Longrightarrow> dc_deleteCluster update cluster w dc = Some (w', dc') \<Longrightarrow> disp_reach update w' dc'"

definition disp_inv :: "DispatcherController \<Rightarrow> bool" where
  "disp_inv dc \<longleftrightarrow> fits dc \<and> clusters_ok (dc_clusters dc) \<and> (dc_dispatchers dc \<noteq> [] \<longrightarrow> covered_once dc)"

lemma balance_or_exit_inv:
  assumes "api_stores key stored update" "balance_or_exit update w dc = Some (w', dc')" "fits dc" "clusters_ok (dc_clusters dc)"
  shows "disp_inv dc'"
  using balance_or_exit_covers [OF assms(1,3,4,2)] assms(3,4) by (simp add: disp_inv_def fits_def)

lemma disp_reach_inv:
  assumes "api_stores key stored update" "disp_reach update w dc"
  shows "disp_inv dc"
  using assms(2)
proof induction
  case (start w)
  then show ?case
    by (simp add: disp_inv_def NewDispatcherController_def fits_def clusters_ok_def)
next
  case (add_dispatcher w dc dispatcher w' dc')
  then show ?case
    by (auto simp: dc_addDispatcher_def disp_inv_def [of dc] fits_def intro!: balance_or_exit_inv [OF assms(1)])
next
  case (delete_dispatcher w dc dispatcher w' dc')
  then show ?case
    by (auto simp: dc_deleteDispatcher_def Let_def disp_inv_def [of dc] fits_def split: option.splits
        intro!: balance_or_exit_inv [OF assms(1)])
next
  case (add_cluster w dc cluster w' dc')
  then have s: "sorted (dc_clusters dc)"
    by (simp add: disp_inv_def clusters_ok_def)
  show ?case
    using add_cluster InsertIntoSortedArray_eq [OF s, of "cl_Name cluster"]
    by (auto simp: dc_addCluster_def disp_inv_def [of dc] fits_def clusters_ok_def sorted_insort distinct_insort set_insort_key
        intro!: balance_or_exit_inv [OF assms(1)])
next
  case (delete_cluster w dc cluster w' dc')
  then have s: "sorted (dc_clusters dc)"
    by (simp add: disp_inv_def clusters_ok_def)
  show ?case
    using delete_cluster RemoveFromSortedArray_eq [OF s, of "cl_Name cluster"]
    by (auto simp: dc_deleteCluster_def disp_inv_def [of dc] fits_def clusters_ok_def sorted_remove1 length_remove1 dest: notin_set_remove1
        intro!: balance_or_exit_inv [OF assms(1)])
qed simp

text \<open>C11: In every state that the handlers of the dispatcher controller reach while the server accepts their updates,
  the list of clusters is sorted, balancing does not panic, and as soon as there is a dispatcher the name of each cluster
  lies in the range of exactly one dispatcher.\<close>

theorem clusters_dispatched_once:
  assumes "api_stores key stored update" and "disp_reach update w dc"
  shows "sorted (dc_clusters dc) \<and> disp_balance update w dc \<noteq> None \<and>
    (dc_dispatchers dc \<noteq> [] \<longrightarrow> (\<forall>c \<in> set (dc_clusters dc). \<exists>!i. i < length (dc_dispatchers dc) \<and>
       in_cluster_range (disp_ClusterRange (dc_dispatchers dc ! i)) c))"
  using disp_reach_inv [OF assms] disp_balance_total [of dc update w]
  by (simp add: disp_inv_def clusters_ok_def covered_once_def)

abbreviation disp_key :: "Dispatcher \<Rightarrow> string \<times> string" where
  "disp_key d \<equiv> (disp_Namespace d, disp_Name d)"

definition demo_dispatcher :: "string \<Rightarrow> Dispatcher" where
  "demo_dispatcher nm = \<lparr>disp_Name = nm, disp_Namespace = ''ns'', disp_ClusterRange = \<lparr>dpr_Start = '''', dpr_End = ''''\<rparr>\<rparr>"

definition demo_cluster :: "string \<Rightarrow> Cluster" where
  "demo_cluster nm = \<lparr>cl_Name = nm, cl_Namespace = ''ns'', cl_IpAddress = ''10.0.0.1'',
     cl_GeoLocation = \<lparr>geo_City = ''c'', geo_Province = ''p'', geo_Area = ''a'', geo_Country = ''us''\<rparr>,
     cl_Region = \<lparr>ri_Region = ''r'', ri_AvailabilityZone = ''z''\<rparr>, cl_Operator = \<lparr>op_Operator = ''o''\<rparr>, cl_Flavors = [], cl_Storage = [],
     cl_EipCapacity = 1, cl_CPUCapacity = 1, cl_MemCapacity = 1, cl_ServerPrice = 1\<rparr>"

definition demo_controller :: DispatcherController where
  "demo_controller = \<lparr>dc_clusters = [''a'', ''b''], dc_dispatchers =
     [(demo_dispatcher ''d1'')\<lparr>disp_ClusterRange := \<lparr>dpr_Start = ''a'', dpr_End = ''a''\<rparr>\<rparr>,
      (demo_dispatcher ''d2'')\<lparr>disp_ClusterRange := \<lparr>dpr_Start = ''b'', dpr_End = ''b''\<rparr>\<rparr>]\<rparr>"

lemma demo_controller_reach: "disp_reach (list_server disp_key) [] demo_controller"
proof -
  let ?u = "list_server disp_key"
  let ?d1 = "(demo_dispatcher ''d1'')\<lparr>disp_ClusterRange := \<lparr>dpr_Start = ''b'', dpr_End = ''b''\<rparr>\<rparr>" and ?d2 = "demo_dispatcher ''d2''"
  have "dc_addCluster ?u (demo_cluster ''b'') [] NewDispatcherController = Some ([], \<lparr>dc_clusters = [''b''], dc_dispatchers = []\<rparr>)"
    by code_simp
  from disp_reach.add_cluster [OF disp_reach.start _ _ _ this] have r1: "disp_reach ?u [] \<lparr>dc_clusters = [''b''], dc_dispatchers = []\<rparr>"
    by (simp add: NewDispatcherController_def demo_cluster_def)
  have "dc_addDispatcher ?u (demo_dispatcher ''d1'') [] \<lparr>dc_clusters = [''b''], dc_dispatchers = []\<rparr> =
      Some ([(disp_key ?d1, ?d1)], \<lparr>dc_clusters = [''b''], dc_dispatchers = [?d1]\<rparr>)"
    by code_simp
  from disp_reach.server [OF disp_reach.add_dispatcher [OF r1 _ this]]
  have r2: "disp_reach ?u [] \<lparr>dc_clusters = [''b''], dc_dispatchers = [?d1]\<rparr>"
    by simp
  have "dc_addDispatcher ?u ?d2 [] \<lparr>dc_clusters = [''b''], dc_dispatchers = [?d1]\<rparr> =
      Some ([(disp_key ?d2, ?d2), (disp_key ?d1, ?d1)], \<lparr>dc_clusters = [''b''], dc_dispatchers = [?d1, ?d2]\<rparr>)"
    by code_simp
  from disp_reach.server [OF disp_reach.add_dispatcher [OF r2 _ this]]
  have r3: "disp_reach ?u [] \<lparr>dc_clusters = [''b''], dc_dispatchers = [?d1, ?d2]\<rparr>"
    by simp
  have "map_option snd (dc_addCluster ?u (demo_cluster ''a'') [] \<lparr>dc_clusters = [''b''], dc_dispatchers = [?d1, ?d2]\<rparr>) =
      Some demo_controller"
    by code_simp
  then obtain w where "dc_addCluster ?u (demo_cluster ''a'') [] \<lparr>dc_clusters = [''b''], dc_dispatchers = [?d1, ?d2]\<rparr> = Some (w, demo_controller)"
    by auto
  from disp_reach.server [OF disp_reach.add_cluster [OF r3 _ _ _ this]] show ?thesis
    by (simp add: demo_cluster_def)
qed

theorem clusters_dispatched_once_witness:
  "dc_clusters demo_controller = [''a'', ''b''] \<and> (\<exists>!i. i < length (dc_dispatchers demo_controller) \<and>
     in_cluster_range (disp_ClusterRange (dc_dispatchers demo_controller ! i)) ''b'')"
proof -
  have "dc_clusters demo_controller = [''a'', ''b'']" "dc_dispatchers demo_controller \<noteq> []"
    by (simp_all add: demo_controller_def)
  then show ?thesis
    using clusters_dispatched_once [OF list_server_stores demo_controller_reach] by simp
qed

text \<open>The last cluster leaves the ranges of the dispatchers as they were, so they still name it.\<close>

lemma last_cluster_leaves_ranges:
  assumes "dc_clusters dc = [cl_Name cluster]"
  shows "dc_deleteCluster update cluster w dc = Some (w, dc\<lparr>dc_clusters := []\<rparr>)"
  using RemoveFromSortedArray_eq [of "[cl_Name cluster]" "cl_Name cluster"] assms
  by (simp add: dc_deleteCluster_def balance_or_exit_def disp_balance_def)

end
