(* ===== verification/OpenstackClient.thy ===== *)
theory OpenstackClient
  imports CrdTypes
begin

text \<open>
  The client of the compute and identity services of a cluster: \<open>controllers/util/openstack/openstack.go\<close>.

  The HTTP transport is a parameter: it takes its state and a request, and returns the new state with an error or a
  response. A response has a status, a body already decoded (\<open>None\<close> when it is not JSON) and the values of the token
  header. A failed type assertion is a panic, as is reading the body of a nil response.
\<close>

datatype json = JNull | JString string | JObject "(string \<times> json) list" | JOther

datatype http_method = HTTP_DELETE | HTTP_POST | HTTP_HEAD

record server =
  sv_Name :: string
  sv_ImageRef :: string
  sv_FlavorRef :: string
  sv_Networks :: "(string \<times> string) list list"
  sv_SecurityGroups :: "(string \<times> string) list list"
  sv_Metadata :: "(string \<times> string) list"

datatype http_payload = NoPayload | TokenRequest | ServerRequest server

record http_request =
  rq_method :: http_method
  rq_url :: string
  rq_authToken :: "string option"
  rq_subjectToken :: "string option"
  rq_payload :: http_payload

record http_response =
  rs_StatusCode :: int
  rs_Body :: "json option"
  rs_SubjectToken :: "string list"

type_synonym 'w transport = "'w \<Rightarrow> http_request \<Rightarrow> 'w \<times> (api_error + http_response)"

abbreviation StatusOK :: int where "StatusOK \<equiv> 200"
abbreviation StatusCreated :: int where "StatusCreated \<equiv> 201"
abbreviation StatusNoContent :: int where "StatusNoContent \<equiv> 204"
abbreviation StatusForbidden :: int where "StatusForbidden \<equiv> 403"

text \<open>A key missing from a decoded object, or present with null, reads as nil.\<close>

definition json_field :: "(string \<times> json) list \<Rightarrow> string \<Rightarrow> json" where
  "json_field obj k = (case map_of obj k of None \<Rightarrow> JNull | Some v \<Rightarrow> v)"

definition DeleteInstance :: "'w transport \<Rightarrow> string \<Rightarrow> string \<Rightarrow> string \<Rightarrow> 'w \<Rightarrow> 'w \<times> api_error option" where
  "DeleteInstance http host authToken instanceID w =
     (let instanceDetailsURL = ''http://'' @ host @ ''/compute/v2.1/servers/'' @ instanceID;
          req = \<lparr>rq_method = HTTP_DELETE, rq_url = instanceDetailsURL, rq_authToken = Some authToken, rq_subjectToken = None, rq_payload = NoPayload\<rparr>
      in case http w req of
           (w, Inl err) \<Rightarrow> (w, Some err)
         | (w, Inr resp) \<Rightarrow>
             if rs_StatusCode resp \<noteq> StatusNoContent then (w, Some ''bad request for HTTP DELETE instance request'')
             else (w, None))"

text \<open>
  What \<open>ServerCreate\<close> and \<open>ServerCreateResources\<close> do with the response: both have the same text. A body that decodes to
  something other than an object or null is an error of \<open>json.Unmarshal\<close>.
\<close>

definition server_response :: "http_response \<Rightarrow> (api_error + string) option" where
  "server_response resp =
     (case rs_Body resp of
        None \<Rightarrow> Some (Inl ''unmarshal'')
      | Some body \<Rightarrow>
          (case (case body of JObject obj \<Rightarrow> Some obj | JNull \<Rightarrow> Some [] | _ \<Rightarrow> None) of
             None \<Rightarrow> Some (Inl ''unmarshal'')
           | Some instanceResponse \<Rightarrow>
               if rs_StatusCode resp = StatusForbidden then Some (Inl ''instance capacity has reached its limit'')
               else (case json_field instanceResponse ''server'' of
                       JNull \<Rightarrow> Some (Inl ''bad request for server create'')
                     | JObject serverResponse \<Rightarrow>
                         (case json_field serverResponse ''id'' of JString instanceID \<Rightarrow> Some (Inr instanceID) | _ \<Rightarrow> None)
                     | _ \<Rightarrow> None)))"

definition post_server :: "'w transport \<Rightarrow> string \<Rightarrow> string \<Rightarrow> server \<Rightarrow> 'w \<Rightarrow> ('w \<times> (api_error + string)) option" where
  "post_server http host authToken serverStruct w =
     (let serverCreateRequestURL = ''http://'' @ host @ ''/compute/v2.1/servers'';
          req = \<lparr>rq_method = HTTP_POST, rq_url = serverCreateRequestURL, rq_authToken = Some authToken, rq_subjectToken = None,
                 rq_payload = ServerRequest serverStruct\<rparr>
      in case http w req of
           (w, Inl err) \<Rightarrow> Some (w, Inl err)
         | (w, Inr resp) \<Rightarrow> map_option (Pair w) (server_response resp))"

definition ServerCreate :: "'w transport \<Rightarrow> string \<Rightarrow> string \<Rightarrow> Pod \<Rightarrow> 'w \<Rightarrow> ('w \<times> (api_error + string)) option" where
  "ServerCreate http host authToken manifest w = do {
     flavor \<leftarrow> go_index (pod_Flavors manifest) 0;
     nic \<leftarrow> go_index (pod_Nics manifest) 0;
     let serverStruct = \<lparr>sv_Name = pod_VMName manifest, sv_ImageRef = pod_Image manifest, sv_FlavorRef = flavor,
       sv_Networks = [[(''uuid'', nic)]], sv_SecurityGroups = [[(''name'', pod_SecurityGroupId manifest)]],
       sv_Metadata = [(''ClusterName'', pod_ClusterName manifest)]\<rparr>;
     post_server http host authToken serverStruct w }"

definition ServerCreateResources :: "'w transport \<Rightarrow> string \<Rightarrow> string \<Rightarrow> string \<Rightarrow> AllocResource \<Rightarrow> 'w \<Rightarrow> ('w \<times> (api_error + string)) option" where
  "ServerCreateResources http host authToken clusterName manifest w = do {
     flavor \<leftarrow> go_index (ar_Flavors manifest) 0;
     let serverStruct = \<lparr>sv_Name = ar_Name manifest, sv_ImageRef = ar_Image manifest, sv_FlavorRef = flavor,
       sv_Networks = [[(''uuid'', ar_NicName manifest)]], sv_SecurityGroups = [[(''name'', ar_SecurityGroupId manifest)]],
       sv_Metadata = [(''ClusterName'', clusterName)]\<rparr>;
     post_server http host authToken serverStruct w }"

text \<open>After a failed request \<open>TokenExpired\<close> only logs, and then reads the body of the nil response.\<close>

definition TokenExpired :: "'w transport \<Rightarrow> string \<Rightarrow> string \<Rightarrow> 'w \<Rightarrow> ('w \<times> bool) option" where
  "TokenExpired http host authToken w =
     (let req = \<lparr>rq_method = HTTP_HEAD, rq_url = ''http://'' @ host @ ''/identity/v3/auth/tokens'', rq_authToken = Some authToken,
                 rq_subjectToken = Some authToken, rq_payload = NoPayload\<rparr>
      in case http w req of
           (w, Inl err) \<Rightarrow> None
         | (w, Inr resp) \<Rightarrow> Some (w, rs_StatusCode resp \<noteq> StatusOK))"

definition RequestToken :: "'w transport \<Rightarrow> string \<Rightarrow> 'w \<Rightarrow> ('w \<times> (api_error + string)) option" where
  "RequestToken http host w =
     (let req = \<lparr>rq_method = HTTP_POST, rq_url = ''http://'' @ host @ ''/identity/v3/auth/tokens'', rq_authToken = None,
                 rq_subjectToken = None, rq_payload = TokenRequest\<rparr>
      in case http w req of
           (w, Inl err) \<Rightarrow> Some (w, Inl err)
         | (w, Inr resp) \<Rightarrow>
             if rs_StatusCode resp \<noteq> StatusCreated then Some (w, Inl ''instance capacity has reached its limit'')
             else do { token \<leftarrow> go_index (rs_SubjectToken resp) 0; Some (w, Inr token) })"

subsection \<open>When the calls panic\<close>

lemma TokenExpired_panics: "TokenExpired http host token w = None \<longleftrightarrow>
    (\<exists>w' err. http w \<lparr>rq_method = HTTP_HEAD, rq_url = ''http://'' @ host @ ''/identity/v3/auth/tokens'', rq_authToken = Some token,
      rq_subjectToken = Some token, rq_payload = NoPayload\<rparr> = (w', Inl err))"
  by (auto simp: TokenExpired_def Let_def split: prod.splits sum.splits)

end
