(* ===== verification/DispatcherProcess.thy ===== *)
theory DispatcherProcess
  imports OpenstackClient
begin

text \<open>
  The dispatcher process, which creates and deletes the instances of pods and allocations in their clusters:
  \<open>controllers/dispatcher/dispatcher_process.go\<close>.

  The state of the transport and the API server is threaded through every call. The goroutines that a call starts are
  run at the point where they are started, which is one of their orders. \<open>getCluster\<close> is the \<open>Get\<close> of the cluster
  client. \<open>now\<close> is the time at which the call reads the clock, in nanoseconds.

  An allocation is created as a whole or not at all: when one of its instances cannot be created, the deletion of
  every instance that has been created is requested.
\<close>

record DispProcess =
  pr_name :: string
  pr_clusterIpMap :: "string \<rightharpoonup> string"
  pr_tokenMap :: "string \<rightharpoonup> string"
  pr_totalCreateLatency :: int
  pr_totalDeleteLatency :: int
  pr_totalPodCreateNum :: int
  pr_totalPodDeleteNum :: int
  pr_totalAllocationCreateNum :: int
  pr_totalAllocationDeleteNum :: int

definition NewDispProcess :: "string \<Rightarrow> DispProcess" where
  "NewDispProcess nm = \<lparr>pr_name = nm, pr_clusterIpMap = Map.empty, pr_tokenMap = Map.empty, pr_totalCreateLatency = 0,
     pr_totalDeleteLatency = 0, pr_totalPodCreateNum = 0, pr_totalPodDeleteNum = 0, pr_totalAllocationCreateNum = 0,
     pr_totalAllocationDeleteNum = 0\<rparr>"

type_synonym 'w get_cluster = "'w \<Rightarrow> string \<Rightarrow> 'w \<times> (api_error + Cluster)"

subsection \<open>Addresses and tokens\<close>

definition getToken :: "'w transport \<Rightarrow> string \<Rightarrow> DispProcess \<Rightarrow> 'w \<Rightarrow> (DispProcess \<times> 'w \<times> (api_error + string)) option" where
  "getToken http ip p w =
     (case pr_tokenMap p ip of
        Some token \<Rightarrow> Some (p, w, Inr token)
      | None \<Rightarrow> do {
          (w, res) \<leftarrow> RequestToken http ip w;
          case res of
            Inl err \<Rightarrow> Some (p, w, Inl err)
          | Inr token \<Rightarrow> Some (p\<lparr>pr_tokenMap := (pr_tokenMap p)(ip \<mapsto> token)\<rparr>, w, Inr token) })"

definition getHostIP :: "'w get_cluster \<Rightarrow> string \<Rightarrow> DispProcess \<Rightarrow> 'w \<Rightarrow> DispProcess \<times> 'w \<times> (api_error + string)" where
  "getHostIP getCluster clusterName p w =
     (case pr_clusterIpMap p clusterName of
        Some ipAddress \<Rightarrow> (p, w, Inr ipAddress)
      | None \<Rightarrow>
          (case getCluster w clusterName of
             (w, Inl err) \<Rightarrow> (p, w, Inl err)
           | (w, Inr cluster) \<Rightarrow>
               (p\<lparr>pr_clusterIpMap := (pr_clusterIpMap p)(clusterName \<mapsto> cl_IpAddress cluster)\<rparr>, w, Inr (cl_IpAddress cluster))))"

text \<open>The two lookups in a row, as each of the operations below starts.\<close>

definition host_and_token :: "'w transport \<Rightarrow> 'w get_cluster \<Rightarrow> string \<Rightarrow> DispProcess \<Rightarrow> 'w \<Rightarrow>
    (DispProcess \<times> 'w \<times> (api_error + string \<times> string)) option" where
  "host_and_token http getCluster clusterName p w =
     (case getHostIP getCluster clusterName p w of
        (p, w, Inl err) \<Rightarrow> Some (p, w, Inl err)
      | (p, w, Inr host) \<Rightarrow> do {
          (p, w, res) \<leftarrow> getToken http host p w;
          case res of
            Inl err \<Rightarrow> Some (p, w, Inl err)
          | Inr token \<Rightarrow> Some (p, w, Inr (host, token)) })"

text \<open>One tick of \<open>refreshToken\<close>, over the addresses in the order \<open>ips\<close>.\<close>

definition refresh_step :: "'w transport \<Rightarrow> string \<Rightarrow> DispProcess \<times> 'w \<Rightarrow> (DispProcess \<times> 'w) option" where
  "refresh_step http ip s =
     (case s of (p, w) \<Rightarrow>
        (case pr_tokenMap p ip of
           None \<Rightarrow> Some (p, w)
         | Some token \<Rightarrow> do {
             (w, expired) \<leftarrow> TokenExpired http ip token w;
             if expired then do {
               (w, res) \<leftarrow> RequestToken http ip w;
               case res of
                 Inl err \<Rightarrow> Some (p, w)
               | Inr newToken \<Rightarrow> Some (p\<lparr>pr_tokenMap := (pr_tokenMap p)(ip \<mapsto> newToken)\<rparr>, w) }
             else Some (p, w) }))"

definition refreshToken :: "'w transport \<Rightarrow> string list \<Rightarrow> DispProcess \<Rightarrow> 'w \<Rightarrow> (DispProcess \<times> 'w) option" where
  "refreshToken http ips p w = foldM (refresh_step http) ips (p, w)"

text \<open>\<open>init\<close>: the list of the clusters is empty when the server reports an error.\<close>

definition init_step :: "'w transport \<Rightarrow> Cluster \<Rightarrow> DispProcess \<times> 'w \<Rightarrow> (DispProcess \<times> 'w) option" where
  "init_step http cluster s =
     (case s of (p, w) \<Rightarrow> do {
        let p = p\<lparr>pr_clusterIpMap := (pr_clusterIpMap p)(cl_Name cluster \<mapsto> cl_IpAddress cluster)\<rparr>;
        (p, w, res) \<leftarrow> getToken http (cl_IpAddress cluster) p w;
        Some (p, w) })"

definition proc_init :: "'w transport \<Rightarrow> api_error + Cluster list \<Rightarrow> DispProcess \<Rightarrow> 'w \<Rightarrow> (DispProcess \<times> 'w) option" where
  "proc_init http listed p w = foldM (init_step http) (case listed of Inl err \<Rightarrow> [] | Inr clusters \<Rightarrow> clusters) (p, w)"

subsection \<open>Pods\<close>

text \<open>The latency in milliseconds.\<close>

definition latency :: "int \<Rightarrow> int \<Rightarrow> int" where
  "latency now since = go_quot (wrap64 (now - since)) 1000000"

definition SendPodToCluster :: "'w transport \<Rightarrow> 'w get_cluster \<Rightarrow> ('w, Pod) api_update \<Rightarrow> int \<Rightarrow> Pod option \<Rightarrow> DispProcess \<Rightarrow> 'w \<Rightarrow>
    (DispProcess \<times> 'w \<times> Pod option) option" where
  "SendPodToCluster http getCluster updateStatus now pod p w =
     (case pod of
        None \<Rightarrow> Some (p, w, None)
      | Some pod \<Rightarrow> do {
          (p, w, ht) \<leftarrow> host_and_token http getCluster (pod_ClusterName pod) p w;
          case ht of
            Inl err \<Rightarrow> Some (p, w, Some pod)
          | Inr (host, token) \<Rightarrow> do {
              let pod = pod\<lparr>pod_DispatcherName := pr_name p\<rparr>;
              case pod_DeletionTimestamp pod of
                Some podDeleteTime \<Rightarrow> do {
                  let p = p\<lparr>pr_totalPodDeleteNum := wrap64 (pr_totalPodDeleteNum p + 1)\<rparr>;
                  let p = p\<lparr>pr_totalDeleteLatency := wrap64 (pr_totalDeleteLatency p + latency now podDeleteTime)\<rparr>;
                  averageDeleteLatency \<leftarrow> go_div (pr_totalDeleteLatency p) (pr_totalPodDeleteNum p);
                  let (w, err) = DeleteInstance http host token (pod_ClusterInstanceId pod) w;
                  Some (p, w, Some pod) }
              | None \<Rightarrow> do {
                  let p = p\<lparr>pr_totalPodCreateNum := wrap64 (pr_totalPodCreateNum p + 1)\<rparr>;
                  let p = p\<lparr>pr_totalCreateLatency := wrap64 (pr_totalCreateLatency p + latency now (pod_CreationTimestamp pod))\<rparr>;
                  averageCreateLatency \<leftarrow> go_div (pr_totalCreateLatency p) (pr_totalPodCreateNum p);
                  (w, created) \<leftarrow> ServerCreate http host token pod w;
                  let pod = (case created of
                      Inr instanceId \<Rightarrow> pod\<lparr>pod_ClusterInstanceId := instanceId, pod_Phase := ClusterScheduled\<rparr>
                    | Inl err \<Rightarrow> pod\<lparr>pod_Phase := PodFailed\<rparr>);
                  Some (p, fst (updateStatus w pod), Some pod) } } })"

subsection \<open>Allocations\<close>

text \<open>
  The loops over the instances of a resource and over the resources. They give back the instances with the identifiers
  written so far, and whether all were created.
\<close>

fun create_instances :: "'w transport \<Rightarrow> 'w get_cluster \<Rightarrow> AllocResource \<Rightarrow> ClusterInstance list \<Rightarrow> DispProcess \<Rightarrow> 'w \<Rightarrow>
    (DispProcess \<times> 'w \<times> ClusterInstance list \<times> bool) option" where
  "create_instances http getCluster resource [] p w = Some (p, w, [], True)"
| "create_instances http getCluster resource (ci # cis) p w = do {
     (p, w, ht) \<leftarrow> host_and_token http getCluster (ci_ClusterName ci) p w;
     case ht of
       Inl err \<Rightarrow> Some (p, w, ci # cis, False)
     | Inr (host, token) \<Rightarrow> do {
         (w, created) \<leftarrow> ServerCreateResources http host token (ci_ClusterName ci) resource w;
         case created of
           Inl err \<Rightarrow> Some (p, w, ci # cis, False)
         | Inr instanceId \<Rightarrow> do {
             (p, w, cis, ok) \<leftarrow> create_instances http getCluster resource cis p w;
             Some (p, w, ci\<lparr>ci_InstanceId := instanceId\<rparr> # cis, ok) } } }"

fun create_resources :: "'w transport \<Rightarrow> 'w get_cluster \<Rightarrow> AllocResource list \<Rightarrow> DispProcess \<Rightarrow> 'w \<Rightarrow>
    (DispProcess \<times> 'w \<times> AllocResource list \<times> bool) option" where
  "create_resources http getCluster [] p w = Some (p, w, [], True)"
| "create_resources http getCluster (resource # rs) p w = do {
     (p, w, cis, ok) \<leftarrow> create_instances http getCluster resource (ar_ClusterInstances resource) p w;
     let resource = resource\<lparr>ar_ClusterInstances := cis\<rparr>;
     if \<not> ok then Some (p, w, resource # rs, False)
     else do {
       (p, w, rs, ok) \<leftarrow> create_resources http getCluster rs p w;
       Some (p, w, resource # rs, ok) } }"

definition isAllAllocationResourcesCreated :: "'w transport \<Rightarrow> 'w get_cluster \<Rightarrow> Allocation \<Rightarrow> DispProcess \<Rightarrow> 'w \<Rightarrow>
    (DispProcess \<times> 'w \<times> Allocation \<times> bool) option" where
  "isAllAllocationResourcesCreated http getCluster alloc p w = do {
     (p, w, rs, ok) \<leftarrow> create_resources http getCluster (al_Resources alloc) p w;
     Some (p, w, alloc\<lparr>al_Resources := rs\<rparr>, ok) }"

text \<open>The instances of an allocation in the order of the two nested loops.\<close>

definition alloc_instances :: "Allocation \<Rightarrow> ClusterInstance list" where
  "alloc_instances alloc = concat (map ar_ClusterInstances (al_Resources alloc))"

text \<open>
  A deletion that has been requested: host, token and identifier of the instance. A host or token that cannot be found
  ends the whole operation, without waiting for the deletions already started.
\<close>

type_synonym deletion = "string \<times> string \<times> string"

fun delete_instances :: "'w transport \<Rightarrow> 'w get_cluster \<Rightarrow> ClusterInstance list \<Rightarrow> DispProcess \<Rightarrow> 'w \<Rightarrow>
    (DispProcess \<times> 'w \<times> deletion list) option" where
  "delete_instances http getCluster [] p w = Some (p, w, [])"
| "delete_instances http getCluster (ci # cis) p w =
     (if ci_InstanceId ci \<noteq> '''' then do {
        (p, w, ht) \<leftarrow> host_and_token http getCluster (ci_ClusterName ci) p w;
        case ht of
          Inl err \<Rightarrow> Some (p, w, [])
        | Inr (host, token) \<Rightarrow> do {
            let (w, err) = DeleteInstance http host token (ci_InstanceId ci) w;
            (p, w, started) \<leftarrow> delete_instances http getCluster cis p w;
            Some (p, w, (host, token, ci_InstanceId ci) # started) } }
      else delete_instances http getCluster cis p w)"

definition deleteAllocationResources :: "'w transport \<Rightarrow> 'w get_cluster \<Rightarrow> Allocation \<Rightarrow> DispProcess \<Rightarrow> 'w \<Rightarrow>
    (DispProcess \<times> 'w \<times> deletion list) option" where
  "deleteAllocationResources http getCluster alloc p w = delete_instances http getCluster (alloc_instances alloc) p w"

definition SendAllocationToCluster :: "'w transport \<Rightarrow> 'w get_cluster \<Rightarrow> ('w, Allocation) api_update \<Rightarrow> int \<Rightarrow> Allocation option \<Rightarrow>
    DispProcess \<Rightarrow> 'w \<Rightarrow> (DispProcess \<times> 'w \<times> Allocation option \<times> deletion list) option" where
  "SendAllocationToCluster http getCluster update now alloc p w =
     (case alloc of
        None \<Rightarrow> Some (p, w, None, [])
      | Some alloc \<Rightarrow> do {
          let alloc = alloc\<lparr>al_DispatcherName := pr_name p\<rparr>;
          case al_DeletionTimestamp alloc of
            Some allocDeleteTime \<Rightarrow> do {
              let p = p\<lparr>pr_totalAllocationDeleteNum := wrap64 (pr_totalAllocationDeleteNum p + 1)\<rparr>;
              (p, w, started) \<leftarrow> deleteAllocationResources http getCluster alloc p w;
              let p = p\<lparr>pr_totalDeleteLatency := wrap64 (pr_totalDeleteLatency p + latency now allocDeleteTime)\<rparr>;
              averageDeleteLatency \<leftarrow> go_div (pr_totalDeleteLatency p) (pr_totalPodDeleteNum p);
              let p = p\<lparr>pr_totalAllocationCreateNum := wrap64 (pr_totalAllocationCreateNum p + 1)\<rparr>;
              Some (p, w, Some alloc, started) }
          | None \<Rightarrow> do {
              let p = p\<lparr>pr_totalAllocationCreateNum := wrap64 (pr_totalAllocationCreateNum p + 1)\<rparr>;
              let p = p\<lparr>pr_totalCreateLatency := wrap64 (pr_totalCreateLatency p + latency now (al_CreationTimestamp alloc))\<rparr>;
              averageCreateLatency \<leftarrow> go_div (pr_totalCreateLatency p) (pr_totalAllocationCreateNum p);
              (p, w, alloc, isAllResourcesCreated) \<leftarrow> isAllAllocationResourcesCreated http getCluster alloc p w;
              if isAllResourcesCreated then do {
                let alloc = alloc\<lparr>al_Phase := AllocationScheduled\<rparr>;
                Some (p, fst (update w alloc), Some alloc, []) }
              else do {
                let alloc = alloc\<lparr>al_Phase := AllocationFailed\<rparr>;
                (p, w, started) \<leftarrow> deleteAllocationResources http getCluster alloc p w;
                Some (p, fst (update w alloc), Some alloc, started) } } })"

subsection \<open>Addresses and tokens are remembered\<close>

definition known :: "DispProcess \<Rightarrow> string \<Rightarrow> string \<Rightarrow> string \<Rightarrow> bool" where
  "known p clusterName host token \<longleftrightarrow> pr_clusterIpMap p clusterName = Some host \<and> pr_tokenMap p host = Some token"

definition remembers :: "DispProcess \<Rightarrow> DispProcess \<Rightarrow> bool" where
  "remembers p p' \<longleftrightarrow> pr_clusterIpMap p \<subseteq>\<^sub>m pr_clusterIpMap p' \<and> pr_tokenMap p \<subseteq>\<^sub>m pr_tokenMap p'"

lemma remembers_refl [simp, intro]: "remembers p p"
  by (simp add: remembers_def)

lemma remembers_trans [trans]: "remembers p q \<Longrightarrow> remembers q r \<Longrightarrow> remembers p r"
  by (meson map_le_trans remembers_def)

lemma remembers_known: "remembers p p' \<Longrightarrow> known p c host token \<Longrightarrow> known p' c host token"
  by (metis domI known_def map_le_def remembers_def)

lemma map_le_insert: "m k = None \<Longrightarrow> m \<subseteq>\<^sub>m m(k \<mapsto> v)"
  by (auto simp: map_le_def)

lemma getHostIP_spec:
  assumes "getHostIP getCluster c p w = (p', w', res)"
  shows "remembers p p'" "res = Inr host \<Longrightarrow> pr_clusterIpMap p' c = Some host"
  using assms by (auto simp: getHostIP_def remembers_def map_le_insert split: option.splits prod.splits sum.splits)

lemma getToken_spec:
  assumes "getToken http ip p w = Some (p', w', res)"
  shows "remembers p p'" "pr_clusterIpMap p' = pr_clusterIpMap p" "res = Inr token \<Longrightarrow> pr_tokenMap p' ip = Some token"
  using assms by (auto simp: getToken_def remembers_def map_le_insert elim!: bind_SomeE split: option.splits sum.splits)

lemma host_and_token_spec:
  assumes "host_and_token http getCluster c p w = Some (p', w', res)"
  shows "remembers p p'" "res = Inr (host, token) \<Longrightarrow> known p' c host token"
proof -
  obtain p1 w1 r1 where h: "getHostIP getCluster c p w = (p1, w1, r1)"
    by (metis prod.exhaust)
  note h' = getHostIP_spec [OF h]
  show "remembers p p'"
    using assms h h'(1) by (auto simp: host_and_token_def elim!: bind_SomeE split: sum.splits dest!: getToken_spec(1) intro: remembers_trans)
  show "known p' c host token" if "res = Inr (host, token)"
    using assms h h'(2) that getToken_spec [of http host p1 w1 p' w']
    by (auto simp: host_and_token_def known_def elim!: bind_SomeE split: sum.splits)
qed

lemma host_and_token_known:
  "known p c host token \<Longrightarrow> host_and_token http getCluster c p w = Some (p, w, Inr (host, token))"
  by (simp add: host_and_token_def getHostIP_def getToken_def known_def)

subsection \<open>All or nothing\<close>

text \<open>An instance after the creation loops: it has no identifier, or it was created and its cluster is known.\<close>

definition settled :: "DispProcess \<Rightarrow> ClusterInstance \<Rightarrow> bool" where
  "settled p ci \<longleftrightarrow> ci_InstanceId ci = [] \<or> (\<exists>host token. known p (ci_ClusterName ci) host token)"

lemma settled_fresh: "ci_InstanceId ci = [] \<Longrightarrow> settled p ci"
  by (simp add: settled_def)

lemma settled_mono: "remembers p p' \<Longrightarrow> settled p ci \<Longrightarrow> settled p' ci"
  unfolding settled_def using remembers_known by blast

text \<open>The compute service gives every instance an identifier.\<close>

definition gives_ids :: "'w transport \<Rightarrow> bool" where
  "gives_ids http \<longleftrightarrow> (\<forall>w req w' resp. http w req = (w', Inr resp) \<longrightarrow> server_response resp \<noteq> Some (Inr []))"

lemma ServerCreateResources_id:
  "gives_ids http \<Longrightarrow> ServerCreateResources http host token c resource w = Some (w', Inr instanceId) \<Longrightarrow> instanceId \<noteq> []"
  by (auto simp: ServerCreateResources_def post_server_def gives_ids_def Let_def elim!: bind_SomeE split: prod.splits sum.splits)

lemma create_instances_spec:
  assumes "gives_ids http" "create_instances http getCluster resource cis p w = Some (p', w', cis', ok)" "\<forall>ci \<in> set cis. ci_InstanceId ci = []"
  shows "remembers p p' \<and> (\<forall>ci \<in> set cis'. settled p' ci \<and> (ok \<longrightarrow> ci_InstanceId ci \<noteq> []))"
  using assms(2,3)
proof (induction cis arbitrary: p w cis')
  case (Cons ci cis)
  obtain p1 w1 ht where h: "host_and_token http getCluster (ci_ClusterName ci) p w = Some (p1, w1, ht)"
    using Cons.prems(1) by (auto elim!: bind_SomeE)
  note h' = host_and_token_spec [OF h]
  show ?case
  proof (cases ht)
    case (Inl err)
    then show ?thesis
      using Cons.prems h h'(1) by (auto simp: settled_def)
  next
    case (Inr x)
    obtain host token where x: "ht = Inr (host, token)"
      using Inr by (cases x) auto
    obtain w2 created where c: "ServerCreateResources http host token (ci_ClusterName ci) resource w1 = Some (w2, created)"
      using Cons.prems(1) h x by (auto elim!: bind_SomeE)
    show ?thesis
    proof (cases created)
      case (Inl err)
      then show ?thesis
        using Cons.prems h h'(1) x c by (auto simp: settled_def)
    next
      case (Inr instanceId)
      then obtain rest where l: "create_instances http getCluster resource cis p1 w2 = Some (p', w', rest, ok)"
          "cis' = ci\<lparr>ci_InstanceId := instanceId\<rparr> # rest"
        using Cons.prems(1) h x c by (auto elim!: bind_SomeE)
      have IH: "remembers p1 p'" "\<forall>ci \<in> set rest. settled p' ci \<and> (ok \<longrightarrow> ci_InstanceId ci \<noteq> [])"
        using Cons.IH [OF l(1)] Cons.prems(2) by auto
      have "known p' (ci_ClusterName ci) host token"
        using remembers_known [OF IH(1)] h'(2) x by blast
      moreover have "instanceId \<noteq> []"
        using ServerCreateResources_id [OF assms(1)] c Inr by blast
      ultimately show ?thesis
        using IH h'(1) l(2) remembers_trans by (auto simp: settled_def)
    qed
  qed
qed auto

lemma create_resources_spec:
  assumes "gives_ids http" "create_resources http getCluster rs p w = Some (p', w', rs', ok)"
    "\<forall>ci \<in> set (concat (map ar_ClusterInstances rs)). ci_InstanceId ci = []"
  shows "remembers p p' \<and> (\<forall>ci \<in> set (concat (map ar_ClusterInstances rs')). settled p' ci \<and> (ok \<longrightarrow> ci_InstanceId ci \<noteq> []))"
  using assms(2,3)
proof (induction rs arbitrary: p w rs')
  case (Cons r rs)
  obtain p1 w1 cis ok1 where c: "create_instances http getCluster r (ar_ClusterInstances r) p w = Some (p1, w1, cis, ok1)"
    using Cons.prems(1) by (auto elim!: bind_SomeE)
  have c': "remembers p p1" "\<forall>ci \<in> set cis. settled p1 ci \<and> (ok1 \<longrightarrow> ci_InstanceId ci \<noteq> [])"
    using create_instances_spec [OF assms(1) c] Cons.prems(2) by auto
  show ?case
  proof (cases ok1)
    case False
    then show ?thesis
      using Cons.prems c c' by (fastforce intro: settled_fresh)
  next
    case True
    then obtain rest where l: "create_resources http getCluster rs p1 w1 = Some (p', w', rest, ok)"
        "rs' = r\<lparr>ar_ClusterInstances := cis\<rparr> # rest"
      using Cons.prems(1) c by (auto elim!: bind_SomeE)
    have IH: "remembers p1 p'" "\<forall>ci \<in> set (concat (map ar_ClusterInstances rest)). settled p' ci \<and> (ok \<longrightarrow> ci_InstanceId ci \<noteq> [])"
      using Cons.IH [OF l(1)] Cons.prems(2) by auto
    show ?thesis
      using IH c' l(2) True remembers_trans settled_mono [OF IH(1)] by auto
  qed
qed auto

text \<open>A requested deletion is for an instance: at the address of its cluster, with the token for it.\<close>

fun deletes :: "DispProcess \<Rightarrow> deletion \<Rightarrow> ClusterInstance \<Rightarrow> bool" where
  "deletes p (host, token, i) ci \<longleftrightarrow> known p (ci_ClusterName ci) host token \<and> i = ci_InstanceId ci"

lemma delete_instances_spec:
  assumes "\<forall>ci \<in> set cis. settled p ci"
  shows "\<exists>w' started. delete_instances http getCluster cis p w = Some (p, w', started) \<and>
    list_all2 (deletes p) started (filter (\<lambda>ci. ci_InstanceId ci \<noteq> []) cis)"
  using assms
proof (induction cis arbitrary: w)
  case (Cons ci cis)
  show ?case
  proof (cases "ci_InstanceId ci = []")
    case True
    then show ?thesis
      using Cons by simp
  next
    case False
    then obtain host token where k: "known p (ci_ClusterName ci) host token"
      using Cons.prems by (auto simp: settled_def)
    obtain w1 err where d: "DeleteInstance http host token (ci_InstanceId ci) w = (w1, err)"
      by fastforce
    obtain w' started where "delete_instances http getCluster cis p w1 = Some (p, w', started)"
        "list_all2 (deletes p) started (filter (\<lambda>ci. ci_InstanceId ci \<noteq> []) cis)"
      using Cons.IH [of w1] Cons.prems by auto
    then show ?thesis
      using False k d host_and_token_known [OF k, of http getCluster w] by simp
  qed
qed simp


definition demo_transport :: "nat transport" where
  "demo_transport w req =
     (case rq_payload req of
        TokenRequest \<Rightarrow> (w, Inr \<lparr>rs_StatusCode = StatusCreated, rs_Body = None, rs_SubjectToken = [''t'']\<rparr>)
      | ServerRequest s \<Rightarrow>
          if w = 0 then (1, Inr \<lparr>rs_StatusCode = 202, rs_Body = Some (JObject [(''server'', JObject [(''id'', JString ''i1'')])]), rs_SubjectToken = []\<rparr>)
          else (w, Inr \<lparr>rs_StatusCode = StatusForbidden, rs_Body = Some JNull, rs_SubjectToken = []\<rparr>)
      | NoPayload \<Rightarrow> (w, Inr \<lparr>rs_StatusCode = StatusNoContent, rs_Body = None, rs_SubjectToken = []\<rparr>))"

definition demo_get_cluster :: "nat get_cluster" where
  "demo_get_cluster w nm = (w, Inr \<lparr>cl_Name = nm, cl_Namespace = ''ns'', cl_IpAddress = ''10.0.0.1'',
     cl_GeoLocation = \<lparr>geo_City = ''c'', geo_Province = ''p'', geo_Area = ''a'', geo_Country = ''us''\<rparr>,
     cl_Region = \<lparr>ri_Region = ''r'', ri_AvailabilityZone = ''z''\<rparr>, cl_Operator = \<lparr>op_Operator = ''o''\<rparr>, cl_Flavors = [], cl_Storage = [],
     cl_EipCapacity = 1, cl_CPUCapacity = 1, cl_MemCapacity = 1, cl_ServerPrice = 1\<rparr>)"

definition demo_two_instances :: Allocation where
  "demo_two_instances = \<lparr>al_Name = ''a'', al_Namespace = ''ns'', al_HashKey = 0, al_DeletionTimestamp = None, al_CreationTimestamp = 0,
     al_GeoLocation = \<lparr>geo_City = '''', geo_Province = '''', geo_Area = '''', geo_Country = ''us''\<rparr>,
     al_Resources = [\<lparr>ar_Name = ''r'', ar_Flavors = [''1''], ar_Image = ''i'', ar_SecurityGroupId = ''g'', ar_NicName = ''n'',
       ar_ClusterInstances = [\<lparr>ci_ClusterName = ''c1'', ci_InstanceId = ''''\<rparr>, \<lparr>ci_ClusterName = ''c2'', ci_InstanceId = ''''\<rparr>]\<rparr>],
     al_Phase = AllocationBound, al_DistributorName = ''d'', al_SchedulerName = ''s'', al_DispatcherName = '''', al_ClusterNames = []\<rparr>"

lemma demo_transport_ids: "gives_ids demo_transport"
  by (auto simp: gives_ids_def demo_transport_def server_response_def json_field_def split: http_payload.splits if_splits)


subsection \<open>Deleting an allocation divides by the number of deleted pods\<close>

lemma host_and_token_counts:
  "host_and_token http getCluster c p w = Some (p', w', res) \<Longrightarrow> pr_totalPodDeleteNum p' = pr_totalPodDeleteNum p"
  by (auto simp: host_and_token_def getHostIP_def getToken_def elim!: bind_SomeE split: option.splits prod.splits sum.splits)

lemma delete_instances_counts:
  "delete_instances http getCluster cis p w = Some (p', w', started) \<Longrightarrow> pr_totalPodDeleteNum p' = pr_totalPodDeleteNum p"
proof (induction cis arbitrary: p w started)
  case (Cons ci cis)
  then show ?case
    by (fastforce elim!: bind_SomeE split: if_splits sum.splits prod.splits dest!: host_and_token_counts)
qed simp

lemma allocation_deletion_panics:
  assumes "al_DeletionTimestamp alloc = Some t" "pr_totalPodDeleteNum p = 0"
  shows "SendAllocationToCluster http getCluster update now (Some alloc) p w = None"
proof (rule ccontr)
  assume "\<not> ?thesis"
  then obtain p1 w1 started where "delete_instances http getCluster (alloc_instances (alloc\<lparr>al_DispatcherName := pr_name p\<rparr>))
      (p\<lparr>pr_totalAllocationDeleteNum := wrap64 (pr_totalAllocationDeleteNum p + 1)\<rparr>) w = Some (p1, w1, started)" "pr_totalPodDeleteNum p1 \<noteq> 0"
    using assms(1) by (auto simp: SendAllocationToCluster_def deleteAllocationResources_def go_div_def Let_def elim!: bind_SomeE split: if_splits)
  with delete_instances_counts [OF this(1)] assms(2) show False
    by simp
qed

end
