(* ===== verification/ClusterTree.thy ===== *)
theory ClusterTree
  imports CrdTypes "HOL-Library.AList"
begin

text \<open>
  The tree of clusters by location that the scheduler controller keeps:
  \<open>controllers/scheduler/scheduler_cluster_union.go\<close>.

  A Go map is an association list here. Its order is one of the orders in which \<open>range\<close> may visit the map; the lemmas
  speak of the map only. The counters count objects in memory and are not wrapped.

  The tree is shown to represent the list of clusters that were added and not deleted again (\<open>represents\<close>), as long as
  names and the parts of the locations are not empty and names are unique.
\<close>

type_synonym 'k counts = "('k \<times> int) list"

record CLusterUnionMap =
  GeoLocationMap :: "GeolocationInfo counts"
  RegionMap :: "RegionInfo counts"
  OperatorMap :: "OperatorInfo counts"
  FlavorMap :: "FlavorInfo counts"
  StorageMap :: "StorageSpec counts"
  EipCapacityMap :: "int counts"
  CPUCapacityMap :: "int counts"
  MemCapacityMap :: "int counts"
  ServerPriceMap :: "int counts"

datatype ClusterInfoNode =
  ClusterInfoNode (infoMap: "(string \<times> ClusterInfoNode) list") (clusterUnionMap: CLusterUnionMap) (clusterMap: "string counts")

definition NewClusterInfoNode :: ClusterInfoNode where
  "NewClusterInfoNode = ClusterInfoNode []
     \<lparr>GeoLocationMap = [], RegionMap = [], OperatorMap = [], FlavorMap = [], StorageMap = [], EipCapacityMap = [],
      CPUCapacityMap = [], MemCapacityMap = [], ServerPriceMap = []\<rparr> []"

definition getGeoLocationKey :: "Cluster \<Rightarrow> nat \<Rightarrow> string" where
  "getGeoLocationKey cluster geoLevel =
     (if geoLevel = 0 then geo_Country (cl_GeoLocation cluster)
      else if geoLevel = 1 then geo_Area (cl_GeoLocation cluster)
      else if geoLevel = 2 then geo_Province (cl_GeoLocation cluster)
      else if geoLevel = 3 then geo_City (cl_GeoLocation cluster)
      else if geoLevel = 4 then cl_Name cluster
      else '''')"

definition addMap :: "'k \<Rightarrow> 'k counts \<Rightarrow> 'k counts" where
  "addMap key m = (case map_of m key of Some existedVal \<Rightarrow> AList.update key (existedVal + 1) m | None \<Rightarrow> AList.update key 1 m)"

definition delMap :: "'k \<Rightarrow> 'k counts \<Rightarrow> 'k counts" where
  "delMap key m =
     (case map_of m key of
        Some existedVal \<Rightarrow>
          if existedVal \<le> 1 then AList.delete key m
          else if existedVal > 1 then AList.update key (existedVal - 1) m
          else m
      | None \<Rightarrow> m)"

text \<open>The updates of the nine union maps, which \<open>AddCluster\<close> and \<open>DelCluster\<close> perform in the same order.\<close>

definition add_union :: "Cluster \<Rightarrow> CLusterUnionMap \<Rightarrow> CLusterUnionMap" where
  "add_union cluster u =
     \<lparr>GeoLocationMap = addMap (cl_GeoLocation cluster) (GeoLocationMap u),
      RegionMap = addMap (cl_Region cluster) (RegionMap u),
      OperatorMap = addMap (cl_Operator cluster) (OperatorMap u),
      FlavorMap = fold addMap (cl_Flavors cluster) (FlavorMap u),
      StorageMap = fold addMap (cl_Storage cluster) (StorageMap u),
      EipCapacityMap = addMap (cl_EipCapacity cluster) (EipCapacityMap u),
      CPUCapacityMap = addMap (cl_CPUCapacity cluster) (CPUCapacityMap u),
      MemCapacityMap = addMap (cl_MemCapacity cluster) (MemCapacityMap u),
      ServerPriceMap = addMap (cl_ServerPrice cluster) (ServerPriceMap u)\<rparr>"

definition del_union :: "Cluster \<Rightarrow> CLusterUnionMap \<Rightarrow> CLusterUnionMap" where
  "del_union cluster u =
     \<lparr>GeoLocationMap = delMap (cl_GeoLocation cluster) (GeoLocationMap u),
      RegionMap = delMap (cl_Region cluster) (RegionMap u),
      OperatorMap = delMap (cl_Operator cluster) (OperatorMap u),
      FlavorMap = fold delMap (cl_Flavors cluster) (FlavorMap u),
      StorageMap = fold delMap (cl_Storage cluster) (StorageMap u),
      EipCapacityMap = delMap (cl_EipCapacity cluster) (EipCapacityMap u),
      CPUCapacityMap = delMap (cl_CPUCapacity cluster) (CPUCapacityMap u),
      MemCapacityMap = delMap (cl_MemCapacity cluster) (MemCapacityMap u),
      ServerPriceMap = delMap (cl_ServerPrice cluster) (ServerPriceMap u)\<rparr>"

function tree_AddCluster :: "Cluster \<Rightarrow> nat \<Rightarrow> ClusterInfoNode \<Rightarrow> ClusterInfoNode" where
  "tree_AddCluster cluster geoLevel cin =
     (let key = getGeoLocationKey cluster geoLevel;
          u = add_union cluster (clusterUnionMap cin);
          cm = addMap (cl_Name cluster) (clusterMap cin);
          im = (if length key \<noteq> 0 then
                  let im = (case map_of (infoMap cin) key of Some _ \<Rightarrow> infoMap cin | None \<Rightarrow> AList.update key NewClusterInfoNode (infoMap cin))
                  in AList.update key (tree_AddCluster cluster (geoLevel + 1) (the (map_of im key))) im
                else infoMap cin)
      in ClusterInfoNode im u cm)"
  by pat_completeness auto
termination
  by (relation "measure (\<lambda>(_, geoLevel, _). 5 - geoLevel)") (auto simp: getGeoLocationKey_def split: if_splits)

declare tree_AddCluster.simps [simp del]

function tree_DelCluster :: "Cluster \<Rightarrow> nat \<Rightarrow> ClusterInfoNode \<Rightarrow> ClusterInfoNode" where
  "tree_DelCluster cluster geoLevel cin =
     (let key = getGeoLocationKey cluster geoLevel
      in if key = '''' then cin
         else (case map_of (infoMap cin) key of
                 None \<Rightarrow> cin
               | Some child \<Rightarrow>
                   let u = del_union cluster (clusterUnionMap cin);
                       cm = delMap (cl_Name cluster) (clusterMap cin);
                       child = tree_DelCluster cluster (geoLevel + 1) child;
                       im = AList.update key child (infoMap cin);
                       im = (if length (infoMap child) = 0 then AList.delete key im else im)
                   in ClusterInfoNode im u cm))"
  by pat_completeness auto
termination
  by (relation "measure (\<lambda>(_, geoLevel, _). 5 - geoLevel)") (auto simp: getGeoLocationKey_def split: if_splits)

declare tree_DelCluster.simps [simp del]

subsection \<open>Counters\<close>

text \<open>A list of counters counts a multiset.\<close>

definition counting :: "'k multiset \<Rightarrow> 'k counts \<Rightarrow> bool" where
  "counting M m \<longleftrightarrow> distinct (map fst m) \<and> (\<forall>k. map_of m k = (if k \<in># M then Some (int (count M k)) else None))"

lemma counting_keys: "counting M m \<Longrightarrow> set (map fst m) = set_mset M"
proof -
  assume "counting M m"
  then have "dom (map_of m) = set_mset M"
    by (simp add: counting_def dom_def)
  then show ?thesis
    by (simp add: dom_map_of_conv_image_fst)
qed

lemma counting_empty [simp]: "counting {#} []"
  by (simp add: counting_def)

lemma counting_add: "counting M m \<Longrightarrow> counting (add_mset k M) (addMap k m)"
  by (auto simp: counting_def addMap_def update_conv' AList.distinct_update not_in_iff split: option.splits)

lemma counting_del:
  assumes "counting M m" "k \<in># M"
  shows "counting (M - {#k#}) (delMap k m)"
proof -
  have m: "map_of m k = Some (int (count M k))" "0 < count M k"
    using assms by (auto simp: counting_def)
  have "j \<in># M - {#k#} \<longleftrightarrow> j \<in># M \<and> (j = k \<longrightarrow> count M k > 1)" for j
    using assms(2) by (auto simp: in_diff_count)
  then show ?thesis
    using assms(1) m by (auto simp: counting_def delMap_def update_conv' delete_conv' AList.distinct_update AList.distinct_delete of_nat_diff
        split: if_splits)
qed

lemma counting_fold_add: "counting M m \<Longrightarrow> counting (mset ks + M) (fold addMap ks m)"
proof (induction ks arbitrary: M m)
  case (Cons k ks)
  from Cons.IH [OF counting_add [OF Cons.prems]] show ?case
    by simp
qed simp

lemma counting_fold_del: "counting (mset ks + M) m \<Longrightarrow> counting M (fold delMap ks m)"
proof (induction ks arbitrary: m)
  case (Cons k ks)
  from counting_del [OF Cons.prems, of k] Cons.IH show ?case
    by simp
qed simp

lemma counting_del_add: "counting (add_mset k M) m \<Longrightarrow> counting M (delMap k m)"
  using counting_del [of "add_mset k M" m k] by simp

subsection \<open>The tree represents the clusters\<close>

definition represents_union :: "Cluster multiset \<Rightarrow> CLusterUnionMap \<Rightarrow> bool" where
  "represents_union M u \<longleftrightarrow>
     counting (image_mset cl_GeoLocation M) (GeoLocationMap u) \<and> counting (image_mset cl_Region M) (RegionMap u) \<and>
     counting (image_mset cl_Operator M) (OperatorMap u) \<and>
     counting (\<Sum>\<^sub># (image_mset (\<lambda>c. mset (cl_Flavors c)) M)) (FlavorMap u) \<and>
     counting (\<Sum>\<^sub># (image_mset (\<lambda>c. mset (cl_Storage c)) M)) (StorageMap u) \<and>
     counting (image_mset cl_EipCapacity M) (EipCapacityMap u) \<and> counting (image_mset cl_CPUCapacity M) (CPUCapacityMap u) \<and>
     counting (image_mset cl_MemCapacity M) (MemCapacityMap u) \<and> counting (image_mset cl_ServerPrice M) (ServerPriceMap u)"

lemma represents_union_add: "represents_union M u \<Longrightarrow> represents_union (add_mset c M) (add_union c u)"
  by (simp add: represents_union_def add_union_def counting_add counting_fold_add)

lemma represents_union_del: "represents_union (add_mset c M) u \<Longrightarrow> represents_union M (del_union c u)"
  by (simp add: represents_union_def del_union_def counting_del_add counting_fold_del)

text \<open>
  A node represents a multiset of clusters, with \<open>d\<close> levels below it: its counters count them, and for each key
  that one of them has at this level it has a child that represents those with that key.
\<close>

fun represents :: "nat \<Rightarrow> Cluster multiset \<Rightarrow> ClusterInfoNode \<Rightarrow> bool" where
  "represents 0 M n \<longleftrightarrow> represents_union M (clusterUnionMap n) \<and> counting (image_mset cl_Name M) (clusterMap n) \<and> infoMap n = []"
| "represents (Suc d) M n \<longleftrightarrow> represents_union M (clusterUnionMap n) \<and> counting (image_mset cl_Name M) (clusterMap n) \<and>
     distinct (map fst (infoMap n)) \<and>
     dom (map_of (infoMap n)) = (\<lambda>c. getGeoLocationKey c (4 - d)) ` set_mset M \<and>
     (\<forall>k child. map_of (infoMap n) k = Some child \<longrightarrow> represents d {#c \<in># M. getGeoLocationKey c (4 - d) = k#} child)"

definition located :: "Cluster \<Rightarrow> bool" where
  "located c \<longleftrightarrow> (\<forall>l < 5. getGeoLocationKey c l \<noteq> [])"

lemma key_none [simp]: "getGeoLocationKey c 5 = []"
  by (simp add: getGeoLocationKey_def)

lemma represents_New [simp]: "represents d {#} NewClusterInfoNode"
  by (cases d) (auto simp: NewClusterInfoNode_def represents_union_def)

lemma represents_counts: "represents d M n \<Longrightarrow> represents_union M (clusterUnionMap n) \<and> counting (image_mset cl_Name M) (clusterMap n)"
  by (cases d) auto

lemma AddCluster_counts [simp]:
  "clusterUnionMap (tree_AddCluster c l n) = add_union c (clusterUnionMap n)"
  "clusterMap (tree_AddCluster c l n) = addMap (cl_Name c) (clusterMap n)"
  by (subst tree_AddCluster.simps, simp add: Let_def)+

lemma AddCluster_children:
  assumes "getGeoLocationKey c l \<noteq> []" "distinct (map fst (infoMap n))"
  defines "k \<equiv> getGeoLocationKey c l"
  shows "map_of (infoMap (tree_AddCluster c l n)) = (map_of (infoMap n))(k \<mapsto> tree_AddCluster c (l + 1)
      (case map_of (infoMap n) k of Some child \<Rightarrow> child | None \<Rightarrow> NewClusterInfoNode))"
    and "distinct (map fst (infoMap (tree_AddCluster c l n)))"
  using assms(1,2) unfolding k_def
  by (subst tree_AddCluster.simps, auto simp: Let_def update_conv' AList.distinct_update split: option.splits)+

lemma represents_add: "represents d M n \<Longrightarrow> located c \<Longrightarrow> d \<le> 5 \<Longrightarrow> represents d (add_mset c M) (tree_AddCluster c (5 - d) n)"
proof (induction d arbitrary: M n)
  case 0
  then show ?case
    by (simp add: represents_union_add counting_add) (simp add: tree_AddCluster.simps Let_def)
next
  case (Suc d)
  let ?k = "getGeoLocationKey c (4 - d)" and ?f = "\<lambda>k M. {#c \<in># M. getGeoLocationKey c (4 - d) = k#}"
  have l: "5 - Suc d = 4 - d" "4 - d + 1 = 5 - d" "4 - d < 5"
    using Suc.prems(3) by auto
  have k: "?k \<noteq> []"
    using Suc.prems(2) l(3) by (simp add: located_def)
  note ch = AddCluster_children [OF k, of n]
  let ?old = "case map_of (infoMap n) ?k of Some child \<Rightarrow> child | None \<Rightarrow> NewClusterInfoNode"
  have "represents d (?f ?k M) ?old"
  proof (cases "map_of (infoMap n) ?k")
    case None
    then have "?k \<notin> (\<lambda>c. getGeoLocationKey c (4 - d)) ` set_mset M"
      using Suc.prems(1) by (metis domIff represents.simps(2))
    then have "\<forall>x \<in># M. getGeoLocationKey x (4 - d) \<noteq> ?k"
      by (metis image_eqI)
    then have "?f ?k M = {#}"
      by (auto simp flip: set_mset_eq_empty_iff)
    with None show ?thesis
      by (simp only: option.case represents_New)
  qed (use Suc.prems(1) in simp)
  then have new: "represents d (?f ?k (add_mset c M)) (tree_AddCluster c (4 - d + 1) ?old)"
    using Suc.IH [of "?f ?k M" ?old] Suc.prems(2,3) l(2) by simp
  have other: "represents d (?f k (add_mset c M)) child" if "map_of (infoMap n) k = Some child" "k \<noteq> ?k" for k child
    using Suc.prems(1) that by simp
  have "dom (map_of (infoMap (tree_AddCluster c (4 - d) n))) = (\<lambda>c. getGeoLocationKey c (4 - d)) ` set_mset (add_mset c M)"
    using Suc.prems(1) ch(1) by simp
  moreover have "represents d (?f k (add_mset c M)) child" if "map_of (infoMap (tree_AddCluster c (4 - d) n)) k = Some child" for k child
  proof (cases "k = ?k")
    case True
    then have "child = tree_AddCluster c (4 - d + 1) ?old"
      using that ch(1) Suc.prems(1) by simp
    with new True show ?thesis
      by (simp only:)
  next
    case False
    then show ?thesis
      using that ch(1) Suc.prems(1) by (intro other) simp_all
  qed
  ultimately show ?case
    using Suc.prems(1) ch(2) by (simp only: l(1) represents.simps AddCluster_counts represents_union_add counting_add image_mset_add_mset) simp
qed

lemma DelCluster_children:
  assumes "getGeoLocationKey c l \<noteq> []" "distinct (map fst (infoMap n))" "map_of (infoMap n) (getGeoLocationKey c l) = Some child"
  defines "k \<equiv> getGeoLocationKey c l" and "child' \<equiv> tree_DelCluster c (l + 1) child"
  shows "clusterUnionMap (tree_DelCluster c l n) = del_union c (clusterUnionMap n)"
    and "clusterMap (tree_DelCluster c l n) = delMap (cl_Name c) (clusterMap n)"
    and "map_of (infoMap (tree_DelCluster c l n)) = (map_of (infoMap n))(k := if infoMap child' = [] then None else Some child')"
    and "distinct (map fst (infoMap (tree_DelCluster c l n)))"
  using assms(1-3) unfolding k_def child'_def
  by (subst tree_DelCluster.simps, auto simp: Let_def update_conv' delete_conv' AList.distinct_update AList.distinct_delete)+

lemma represents_leaves: "represents (Suc d) M n \<Longrightarrow> infoMap n = [] \<longleftrightarrow> M = {#}"
  by (cases "infoMap n") auto

lemma represents_empty: "represents d {#} n \<Longrightarrow> infoMap n = []"
  by (cases d) auto

text \<open>What is left of the child for a key after a deletion, when anything is left.\<close>

lemma represents_del_child:
  assumes "represents d (add_mset c M) child" "d \<le> 4"
    and "d = 0 \<Longrightarrow> M = {#}" "\<And>d'. d = Suc d' \<Longrightarrow> represents d M (tree_DelCluster c (4 - d') child)"
  shows "if infoMap (tree_DelCluster c (5 - d) child) = [] then M = {#} else represents d M (tree_DelCluster c (5 - d) child)"
proof (cases d)
  case 0
  then have "tree_DelCluster c (5 - d) child = child"
    by (subst tree_DelCluster.simps) simp
  then show ?thesis
    using assms(1,3) 0 by simp
next
  case (Suc d')
  then show ?thesis
    using assms(4) [OF Suc] represents_leaves [of d' M] by auto
qed

lemma represents_del:
  assumes "represents (Suc d) (add_mset c M) n" "located c" "d \<le> 4" "cl_Name c \<notin> cl_Name ` set_mset M"
  shows "represents (Suc d) M (tree_DelCluster c (4 - d) n)"
  using assms
proof (induction d arbitrary: M n rule: nat_less_induct)
  case (1 d M n)
  let ?k = "getGeoLocationKey c (4 - d)" and ?f = "\<lambda>k M. {#c \<in># M. getGeoLocationKey c (4 - d) = k#}"
  have k: "?k \<noteq> []"
    using 1(3) by (simp add: located_def)
  have d: "distinct (map fst (infoMap n))"
    "dom (map_of (infoMap n)) = insert ?k ((\<lambda>c. getGeoLocationKey c (4 - d)) ` set_mset M)"
    "\<And>j ch. map_of (infoMap n) j = Some ch \<Longrightarrow> represents d (?f j (add_mset c M)) ch"
    using 1(2) by simp_all
  then obtain child where c: "map_of (infoMap n) ?k = Some child"
    by (metis domD insertI1)
  let ?child = "tree_DelCluster c (5 - d) child"
  have l: "4 - d + 1 = 5 - d"
    using 1(4) by simp
  note ch = DelCluster_children [OF k d(1) c, unfolded l]
  have left: "if infoMap ?child = [] then ?f ?k M = {#} else represents d (?f ?k M) ?child"
  proof (rule represents_del_child)
    show "represents d (add_mset c (?f ?k M)) child"
      using d(3) [OF c] by simp
    show "d \<le> 4"
      by (rule 1(4))
    show "?f ?k M = {#}" if "d = 0"
    proof -
      have "\<forall>x \<in># M. cl_Name x \<noteq> cl_Name c"
        using 1(5) by (metis image_eqI)
      then show ?thesis
        using that by (simp add: getGeoLocationKey_def)
    qed
    show "represents d (?f ?k M) (tree_DelCluster c (4 - d') child)" if "d = Suc d'" for d'
      using 1(1) [rule_format, of d' "?f ?k M" child] 1(3,4,5) d(3) [OF c] that by auto
  qed
  have dom: "dom (map_of (infoMap (tree_DelCluster c (4 - d) n))) = (\<lambda>c. getGeoLocationKey c (4 - d)) ` set_mset M"
  proof (cases "infoMap ?child = []")
    case True
    then have "?k \<notin> (\<lambda>c. getGeoLocationKey c (4 - d)) ` set_mset M"
      using left by auto
    then show ?thesis
      using True ch(3) d(2) by simp
  next
    case False
    then have "represents d (?f ?k M) ?child"
      using left by simp
    then have "?f ?k M \<noteq> {#}"
      using False represents_empty [of d ?child] by metis
    then obtain x where "x \<in># ?f ?k M"
      by (rule multiset_nonemptyE)
    then have "?k \<in> (\<lambda>c. getGeoLocationKey c (4 - d)) ` set_mset M"
      by (intro image_eqI [of _ _ x]) simp_all
    then show ?thesis
      using False ch(3) d(2) by (simp add: insert_absorb)
  qed
  have "represents d (?f j M) ch'" if "map_of (infoMap (tree_DelCluster c (4 - d) n)) j = Some ch'" for j ch'
  proof (cases "j = ?k")
    case True
    then show ?thesis
      using that ch(3) left by (simp split: if_splits)
  next
    case False
    then show ?thesis
      using that ch(3) d(3) [of j ch'] by simp
  qed
  with dom show ?case
    using 1(2) ch(1,2,4) by (simp only: represents.simps represents_union_del counting_del_add image_mset_add_mset) blast
qed

lemma cluster_without_country_stays: "geo_Country (cl_GeoLocation c) = [] \<Longrightarrow> tree_DelCluster c 0 n = n"
  by (simp add: tree_DelCluster.simps getGeoLocationKey_def)

text \<open>The clusters added and not deleted again, with the tree that results.\<close>

inductive clusters_reach :: "Cluster multiset \<Rightarrow> ClusterInfoNode \<Rightarrow> bool" where
  start: "clusters_reach {#} NewClusterInfoNode"
| add: "clusters_reach M n \<Longrightarrow> located c \<Longrightarrow> cl_Name c \<notin> cl_Name ` set_mset M \<Longrightarrow> clusters_reach (add_mset c M) (tree_AddCluster c 0 n)"
| del: "clusters_reach (add_mset c M) n \<Longrightarrow> clusters_reach M (tree_DelCluster c 0 n)"

definition unique_names :: "Cluster multiset \<Rightarrow> bool" where
  "unique_names M \<longleftrightarrow> (\<forall>c \<in># M. cl_Name c \<notin> cl_Name ` set_mset (M - {#c#}))"

lemma unique_names_add: "unique_names (add_mset c M) \<longleftrightarrow> cl_Name c \<notin> cl_Name ` set_mset M \<and> unique_names M"
proof (cases "cl_Name c \<in> cl_Name ` set_mset M")
  case True
  then show ?thesis
    by (auto simp: unique_names_def)
next
  case False
  then have ne: "cl_Name x \<noteq> cl_Name c" if "x \<in># M" for x
    using that by (metis image_eqI)
  have "add_mset c M - {#x#} = add_mset c (M - {#x#})" if "x \<in># M" for x
    using ne that by auto
  with ne False show ?thesis
    by (auto simp: unique_names_def)
qed

lemma clusters_reach_represents: "clusters_reach M n \<Longrightarrow> represents 5 M n \<and> unique_names M \<and> (\<forall>c \<in># M. located c)"
proof (induction rule: clusters_reach.induct)
  case start
  then show ?case
    by (simp add: unique_names_def)
next
  case (add M n c)
  then show ?case
    using represents_add [of 5 M n c] by (simp add: unique_names_add)
next
  case (del c M n)
  have "represents (Suc 4) (add_mset c M) n" "cl_Name c \<notin> cl_Name ` set_mset M" "unique_names M" "\<forall>c \<in># M. located c" "located c"
    using del.IH by (auto simp: unique_names_add eval_nat_numeral simp del: represents.simps)
  then show ?case
    using represents_del [of 4 c M n] by (simp add: eval_nat_numeral del: represents.simps)
qed

end
