(* ===== verification/SchedulerModel.thy ===== *)
theory SchedulerModel
  imports Balancing ClusterTree
begin

text \<open>
  The controller that shares the clusters among the schedulers: \<open>controllers/scheduler/scheduler_controller.go\<close>.

  It descends the tree of clusters until a level has enough nodes for its schedulers, divides the nodes of that level,
  and writes to each scheduler the clusters of its nodes with the union of their properties. \<open>get\<close> and \<open>update\<close> are
  the calls to the API server.
\<close>

datatype SchedulerEvent = EventTypeCreateScheduler | EventTypeDeleteScheduler

record SchedulerController =
  sc_countryNode :: ClusterInfoNode
  sc_schedulers :: "Scheduler list"
  sc_workqueue :: "(SchedulerEvent \<times> string \<times> string) list"

definition NewSchedulerController :: SchedulerController where
  "NewSchedulerController = \<lparr>sc_countryNode = NewClusterInfoNode, sc_schedulers = [], sc_workqueue = []\<rparr>"

type_synonym 'w get_scheduler = "'w \<Rightarrow> string \<Rightarrow> string \<Rightarrow> api_error + Scheduler"

subsection \<open>The union of a group of nodes\<close>

text \<open>A \<open>map[K]bool\<close> used as a set is the list of its keys; the slices made from it have some order of the keys.\<close>

definition set_add :: "'k \<Rightarrow> 'k list \<Rightarrow> 'k list" where
  "set_add k ks = (if k \<in> set ks then ks else ks @ [k])"

definition add_keys :: "'k counts \<Rightarrow> 'k list \<Rightarrow> 'k list" where
  "add_keys m ks = fold set_add (map fst m) ks"

definition empty_union :: ClusterUnion where
  "empty_union = \<lparr>un_GeoLocation = [], un_Region = [], un_Operator = [], un_Flavors = [], un_Storage = [], un_EipCapacity = [],
     un_CPUCapacity = [], un_MemCapacity = [], un_ServerPrice = []\<rparr>"

definition collect_node :: "ClusterInfoNode \<Rightarrow> string list \<times> ClusterUnion \<Rightarrow> string list \<times> ClusterUnion" where
  "collect_node node acc =
     (case acc of (clusters, u) \<Rightarrow>
        let m = clusterUnionMap node
        in (add_keys (clusterMap node) clusters,
            \<lparr>un_GeoLocation = add_keys (GeoLocationMap m) (un_GeoLocation u),
             un_Region = add_keys (RegionMap m) (un_Region u),
             un_Operator = add_keys (OperatorMap m) (un_Operator u),
             un_Flavors = add_keys (FlavorMap m) (un_Flavors u),
             un_Storage = add_keys (StorageMap m) (un_Storage u),
             un_EipCapacity = add_keys (EipCapacityMap m) (un_EipCapacity u),
             un_CPUCapacity = add_keys (CPUCapacityMap m) (un_CPUCapacity u),
             un_MemCapacity = add_keys (MemCapacityMap m) (un_MemCapacity u),
             un_ServerPrice = add_keys (ServerPriceMap m) (un_ServerPrice u)\<rparr>))"

definition collect_range :: "ClusterInfoNode list \<Rightarrow> index_range \<Rightarrow> (string list \<times> ClusterUnion) option" where
  "collect_range nodes bound =
     foldM (\<lambda>idx acc. do { node \<leftarrow> go_index_int nodes idx; Some (collect_node node acc) }) [fst bound..snd bound] ([], empty_union)"

subsection \<open>Balancing\<close>

fun assign_loop :: "'w get_scheduler \<Rightarrow> ('w, Scheduler) api_update \<Rightarrow> string \<Rightarrow> ClusterInfoNode list \<Rightarrow> nat \<Rightarrow> index_range list \<Rightarrow>
    'w \<Rightarrow> Scheduler list \<Rightarrow> ('w \<times> Scheduler list \<times> api_error option) option" where
  "assign_loop get update namespace nodes schedulerIdx [] w schedulers = Some (w, schedulers, None)"
| "assign_loop get update namespace nodes schedulerIdx (nodeIdxBound # bounds) w schedulers = do {
     (clusters, u) \<leftarrow> collect_range nodes nodeIdxBound;
     scheduler \<leftarrow> go_index schedulers schedulerIdx;
     case get w namespace (sch_Name scheduler) of
       Inl err \<Rightarrow> Some (w, schedulers, Some (''Failed to get scheduler '' @ sch_Name scheduler))
     | Inr latestScheduler \<Rightarrow>
         let latestScheduler = latestScheduler\<lparr>sch_Union := u, sch_Cluster := clusters\<rparr>
         in (case update w latestScheduler of
               (w, Inl err) \<Rightarrow> Some (w, schedulers, Some err)
             | (w, Inr updatedScheduler) \<Rightarrow>
                 assign_loop get update namespace nodes (schedulerIdx + 1) bounds w (schedulers[schedulerIdx := updatedScheduler])) }"

definition next_level :: "ClusterInfoNode list \<Rightarrow> ClusterInfoNode list" where
  "next_level nodes = concat (map (\<lambda>node. map snd (infoMap node)) nodes)"

lemma infoMap_size: "(\<Sum>x \<leftarrow> infoMap n. size (snd x)) < size n"
proof (cases n)
  case (ClusterInfoNode im u cm)
  have "(\<Sum>x \<leftarrow> im. size (snd x)) \<le> size_list (size_prod (\<lambda>_. 0) size) im"
    by (induction im) auto
  with ClusterInfoNode show ?thesis
    by simp
qed

lemma next_level_size: "next_level nodes \<noteq> [] \<Longrightarrow> (\<Sum>n \<leftarrow> next_level nodes. size n) < (\<Sum>n \<leftarrow> nodes. size n)"
proof -
  have *: "(\<Sum>n \<leftarrow> next_level nodes. size n) + length nodes \<le> (\<Sum>n \<leftarrow> nodes. size n)"
  proof (induction nodes)
    case (Cons n nodes)
    then show ?case
      using infoMap_size [of n] by (simp add: next_level_def comp_def)
  qed (simp add: next_level_def)
  assume "next_level nodes \<noteq> []"
  then have "0 < length nodes"
    by (auto simp: next_level_def)
  with * show ?thesis
    by linarith
qed

function sched_balance :: "'w get_scheduler \<Rightarrow> ('w, Scheduler) api_update \<Rightarrow> string \<Rightarrow> ClusterInfoNode list \<Rightarrow> 'w \<Rightarrow> Scheduler list \<Rightarrow>
    ('w \<times> Scheduler list \<times> api_error option) option" where
  "sched_balance get update namespace nodes w schedulers =
     (let schedulersLen = length schedulers; nodesLen = length nodes
      in if nodesLen = 0 \<or> schedulersLen = 0 then Some (w, schedulers, None)
         else if schedulersLen > nodesLen \<and> length (next_level nodes) > 0
         then sched_balance get update namespace (next_level nodes) w schedulers
         else assign_loop get update namespace nodes 0 (EvenlyDivide (int schedulersLen) (int nodesLen - 1)) w schedulers)"
  by pat_completeness auto
termination
  by (relation "measure (\<lambda>(_, _, _, nodes, _, _). \<Sum>n \<leftarrow> nodes. size n)") (auto intro: next_level_size)

declare sched_balance.simps [simp del]

subsection \<open>The handlers\<close>

text \<open>A failed balancing is only logged; the schedulers updated before the failure stay in the list.\<close>

definition balance_country :: "'w get_scheduler \<Rightarrow> ('w, Scheduler) api_update \<Rightarrow> string \<Rightarrow> 'w \<Rightarrow> SchedulerController \<Rightarrow>
    ('w \<times> SchedulerController \<times> api_error option) option" where
  "balance_country get update namespace w sc = do {
     (w, schedulers, err) \<leftarrow> sched_balance get update namespace [sc_countryNode sc] w (sc_schedulers sc);
     Some (w, sc\<lparr>sc_schedulers := schedulers\<rparr>, err) }"

definition sc_addCluster :: "'w get_scheduler \<Rightarrow> ('w, Scheduler) api_update \<Rightarrow> Cluster \<Rightarrow> 'w \<Rightarrow> SchedulerController \<Rightarrow>
    ('w \<times> SchedulerController) option" where
  "sc_addCluster get update cluster w sc = do {
     let sc = sc\<lparr>sc_countryNode := tree_AddCluster cluster 0 (sc_countryNode sc)\<rparr>;
     (w, sc, err) \<leftarrow> balance_country get update (cl_Namespace cluster) w sc;
     Some (w, sc) }"

definition sc_deleteCluster :: "'w get_scheduler \<Rightarrow> ('w, Scheduler) api_update \<Rightarrow> Cluster \<Rightarrow> 'w \<Rightarrow> SchedulerController \<Rightarrow>
    ('w \<times> SchedulerController) option" where
  "sc_deleteCluster get update cluster w sc = do {
     let sc = sc\<lparr>sc_countryNode := tree_DelCluster cluster 0 (sc_countryNode sc)\<rparr>;
     (w, sc, err) \<leftarrow> balance_country get update (cl_Namespace cluster) w sc;
     Some (w, sc) }"

definition sc_enqueue :: "Scheduler \<Rightarrow> SchedulerEvent \<Rightarrow> SchedulerController \<Rightarrow> SchedulerController" where
  "sc_enqueue scheduler eventType sc =
     sc\<lparr>sc_workqueue := sc_workqueue sc @ [(eventType, sch_Namespace scheduler, sch_Name scheduler)]\<rparr>"

definition sc_addScheduler :: "'w get_scheduler \<Rightarrow> ('w, Scheduler) api_update \<Rightarrow> Scheduler \<Rightarrow> 'w \<Rightarrow> SchedulerController \<Rightarrow>
    ('w \<times> SchedulerController) option" where
  "sc_addScheduler get update scheduler w sc = do {
     let sc = sc\<lparr>sc_schedulers := sc_schedulers sc @ [scheduler]\<rparr>;
     (w, sc, err) \<leftarrow> balance_country get update (sch_Namespace scheduler) w sc;
     if err \<noteq> None then Some (w, sc) else Some (w, sc_enqueue scheduler EventTypeCreateScheduler sc) }"

definition sc_deleteScheduler :: "'w get_scheduler \<Rightarrow> ('w, Scheduler) api_update \<Rightarrow> Scheduler \<Rightarrow> 'w \<Rightarrow> SchedulerController \<Rightarrow>
    ('w \<times> SchedulerController) option" where
  "sc_deleteScheduler get update scheduler w sc = do {
     let schedulers = sc_schedulers sc;
     let schedulerLen = length schedulers;
     let schedulers = (case first_index (\<lambda>sched. sch_Name scheduler = sch_Name sched \<and> sch_Namespace scheduler = sch_Namespace sched) schedulers of
         None \<Rightarrow> schedulers
       | Some idx \<Rightarrow> take (schedulerLen - 1) (schedulers[idx := schedulers ! (schedulerLen - 1)]));
     (w, sc, err) \<leftarrow> balance_country get update (sch_Namespace scheduler) w (sc\<lparr>sc_schedulers := schedulers\<rparr>);
     Some (w, sc) }"

subsection \<open>What is collected\<close>

lemma set_add_keys [simp]: "set (add_keys m ks) = set ks \<union> fst ` set m"
proof -
  have "set (fold set_add xs ks) = set ks \<union> set xs" for xs
    by (induction xs arbitrary: ks) (auto simp: set_add_def)
  then show ?thesis
    by (simp add: add_keys_def)
qed

lemma collect_node_sets:
  "set (fst (fold collect_node ns acc)) = set (fst acc) \<union> (\<Union>n \<in> set ns. fst ` set (clusterMap n))"
  "set (un_GeoLocation (snd (fold collect_node ns acc))) =
     set (un_GeoLocation (snd acc)) \<union> (\<Union>n \<in> set ns. fst ` set (GeoLocationMap (clusterUnionMap n)))"
  by (induction ns arbitrary: acc) (auto simp: collect_node_def Let_def split: prod.splits)

lemma collect_range_eq:
  assumes "0 \<le> a" "b < int (length nodes)"
  shows "collect_range nodes (a, b) = Some (fold collect_node (map (\<lambda>i. nodes ! nat i) [a..b]) ([], empty_union))"
proof -
  have "foldM (\<lambda>idx acc. do { node \<leftarrow> go_index_int nodes idx; Some (collect_node node acc) }) is acc =
      Some (fold collect_node (map (\<lambda>i. nodes ! nat i) is) acc)" if "\<forall>i \<in> set is. 0 \<le> i \<and> i < int (length nodes)" for "is" acc
    using that by (induction "is" arbitrary: acc) (auto simp: go_index_int_def go_index_def)
  then show ?thesis
    using assms by (simp add: collect_range_def)
qed

text \<open>The clusters and the locations that the nodes \<open>a\<close> to \<open>b\<close> stand for.\<close>

definition node_group :: "Cluster multiset list \<Rightarrow> index_range \<Rightarrow> Cluster set" where
  "node_group parts r = {c. \<exists>j < length parts. fst r \<le> int j \<and> int j \<le> snd r \<and> c \<in># parts ! j}"

lemma represents_keys:
  assumes "represents d M n"
  shows "fst ` set (clusterMap n) = cl_Name ` set_mset M" "fst ` set (GeoLocationMap (clusterUnionMap n)) = cl_GeoLocation ` set_mset M"
proof -
  have "counting (image_mset cl_Name M) (clusterMap n)" "counting (image_mset cl_GeoLocation M) (GeoLocationMap (clusterUnionMap n))"
    using represents_counts [OF assms] by (simp_all add: represents_union_def)
  from counting_keys [OF this(1)] counting_keys [OF this(2)]
  show "fst ` set (clusterMap n) = cl_Name ` set_mset M" "fst ` set (GeoLocationMap (clusterUnionMap n)) = cl_GeoLocation ` set_mset M"
    by simp_all
qed

lemma index_union:
  assumes "0 \<le> a" "b < int (length nodes)"
  shows "(\<Union>n \<in> set (map (\<lambda>i. nodes ! nat i) [a..b]). F n) = (\<Union>j \<in> {j. j < length nodes \<and> a \<le> int j \<and> int j \<le> b}. F (nodes ! j))"
proof -
  have "(\<lambda>i. nodes ! nat i) ` {a..b} = (\<lambda>j. nodes ! j) ` {j. j < length nodes \<and> a \<le> int j \<and> int j \<le> b}"
  proof (intro set_eqI iffI)
    fix n
    assume "n \<in> (\<lambda>i. nodes ! nat i) ` {a..b}"
    then obtain i where "n = nodes ! nat i" "a \<le> i" "i \<le> b"
      by auto
    then show "n \<in> (\<lambda>j. nodes ! j) ` {j. j < length nodes \<and> a \<le> int j \<and> int j \<le> b}"
      using assms by (intro image_eqI [of _ _ "nat i"]) auto
  next
    fix n
    assume "n \<in> (\<lambda>j. nodes ! j) ` {j. j < length nodes \<and> a \<le> int j \<and> int j \<le> b}"
    then obtain j where "n = nodes ! j" "a \<le> int j" "int j \<le> b"
      by auto
    then show "n \<in> (\<lambda>i. nodes ! nat i) ` {a..b}"
      by (intro image_eqI [of _ _ "int j"]) auto
  qed
  then show ?thesis
    by (simp add: image_image)
qed

lemma collect_range_group:
  assumes "list_all2 (represents d) parts nodes" "0 \<le> fst r" "snd r < int (length nodes)"
  shows "\<exists>clusters u. collect_range nodes r = Some (clusters, u) \<and> set clusters = cl_Name ` node_group parts r \<and>
    set (un_GeoLocation u) = cl_GeoLocation ` node_group parts r"
proof -
  have len: "length parts = length nodes" and rep: "\<And>j. j < length nodes \<Longrightarrow> represents d (parts ! j) (nodes ! j)"
    using assms(1) by (auto simp: list_all2_conv_all_nth)
  let ?acc = "fold collect_node (map (\<lambda>i. nodes ! nat i) [fst r..snd r]) ([], empty_union)"
  have "set (fst ?acc) = (\<Union>j \<in> {j. j < length nodes \<and> fst r \<le> int j \<and> int j \<le> snd r}. cl_Name ` set_mset (parts ! j))"
    unfolding collect_node_sets index_union [OF assms(2,3)] using represents_keys(1) [OF rep] by simp
  moreover have "set (un_GeoLocation (snd ?acc)) = (\<Union>j \<in> {j. j < length nodes \<and> fst r \<le> int j \<and> int j \<le> snd r}. cl_GeoLocation ` set_mset (parts ! j))"
    unfolding collect_node_sets index_union [OF assms(2,3)] using represents_keys(2) [OF rep] by (simp add: empty_union_def)
  moreover have "collect_range nodes r = Some ?acc"
    using collect_range_eq [OF assms(2,3)] by simp
  ultimately show ?thesis
    using len by (intro exI [of _ "fst ?acc"] exI [of _ "snd ?acc"]) (auto simp: node_group_def)
qed

subsection \<open>What is assigned\<close>

lemma assign_loop_result:
  assumes "api_stores key stored update"
    "assign_loop get update ns nodes i bounds w ss = Some (w', ss', None)" "i + length bounds \<le> length ss"
  shows "length ss' = length ss \<and> (\<forall>j. j < i \<or> i + length bounds \<le> j \<longrightarrow> ss' ! j = ss ! j) \<and>
    (\<forall>j < length bounds. collect_range nodes (bounds ! j) = Some (sch_Cluster (ss' ! (i + j)), sch_Union (ss' ! (i + j))))"
  using assms(2,3)
proof (induction bounds arbitrary: i w ss)
  case (Cons b bounds)
  obtain cl u s w1 s1 where c: "collect_range nodes b = Some (cl, u)" "update w (s\<lparr>sch_Union := u, sch_Cluster := cl\<rparr>) = (w1, Inr s1)"
      and l: "assign_loop get update ns nodes (i + 1) bounds w1 (ss[i := s1]) = Some (w', ss', None)"
    using Cons.prems(1) by (auto simp: Let_def elim!: bind_SomeE split: sum.splits prod.splits)
  have s1: "s1 = s\<lparr>sch_Union := u, sch_Cluster := cl\<rparr>"
    using api_stores_success [OF assms(1) c(2)] by simp
  have IH: "length ss' = length ss" "\<And>j. j < i + 1 \<or> i + 1 + length bounds \<le> j \<Longrightarrow> ss' ! j = ss[i := s1] ! j"
    "\<And>j. j < length bounds \<Longrightarrow> collect_range nodes (bounds ! j) = Some (sch_Cluster (ss' ! (i + 1 + j)), sch_Union (ss' ! (i + 1 + j)))"
    using Cons.IH [OF l] Cons.prems(2) by auto
  have "ss' ! i = s1"
    using IH(2) [of i] Cons.prems(2) by simp
  moreover have "ss' ! j = ss ! j" if "j < i \<or> i + length (b # bounds) \<le> j" for j
    using IH(2) [of j] that by auto
  ultimately show ?case
    using IH(1,3) c(1) s1 by (auto simp: nth_Cons split: nat.splits)
qed simp

lemma assign_loop_total:
  "\<forall>b \<in> set bounds. collect_range nodes b \<noteq> None \<Longrightarrow> i + length bounds \<le> length ss \<Longrightarrow>
    assign_loop get update ns nodes i bounds w ss \<noteq> None"
proof (induction bounds arbitrary: i w ss)
  case (Cons b bounds)
  obtain cl u where c: "collect_range nodes b = Some (cl, u)"
    using Cons.prems(1) by auto
  have i: "i < length ss"
    using Cons.prems(2) by simp
  show ?case
  proof (cases "get w ns (sch_Name (ss ! i))")
    case (Inl err)
    then show ?thesis
      using c i by (simp add: go_index_Some)
  next
    case (Inr s)
    obtain w1 out where u: "update w (s\<lparr>sch_Union := u, sch_Cluster := cl\<rparr>) = (w1, out)"
      by fastforce
    show ?thesis
      using c i Inr u Cons.IH [of "i + 1" "ss[i := _]" w1] Cons.prems by (cases out) (simp_all add: go_index_Some Let_def)
  qed
qed simp

subsection \<open>The levels of the tree\<close>

lemma sum_list_filter_keys:
  "distinct ks \<Longrightarrow> sum_list (map (\<lambda>k. {#c \<in># M. f c = k#}) ks) = {#c \<in># M. f c \<in> set ks#}"
proof (induction ks)
  case (Cons k ks)
  have "{#c \<in># M. f c = k#} + {#c \<in># M. f c \<in> set ks#} = {#c \<in># M. f c \<in> set (k # ks)#}"
    using Cons.prems by (intro multiset_eqI) auto
  with Cons show ?case
    by simp
qed simp

text \<open>Below the last level all clusters of a node have one name.\<close>

definition same_names :: "Cluster multiset \<Rightarrow> bool" where
  "same_names M \<longleftrightarrow> (\<forall>x \<in># M. \<forall>y \<in># M. cl_Name x = cl_Name y)"

lemma children_split:
  assumes "represents (Suc d) M n"
  defines "parts \<equiv> map (\<lambda>k. {#c \<in># M. getGeoLocationKey c (4 - d) = k#}) (map fst (infoMap n))"
  shows "list_all2 (represents d) parts (map snd (infoMap n))" "sum_list parts = M" "{#} \<notin> set parts"
    "d = 0 \<Longrightarrow> \<forall>p \<in> set parts. same_names p"
proof -
  have d: "distinct (map fst (infoMap n))" "set (map fst (infoMap n)) = (\<lambda>c. getGeoLocationKey c (4 - d)) ` set_mset M"
    using assms(1) by (auto simp: dom_map_of_conv_image_fst)
  show "list_all2 (represents d) parts (map snd (infoMap n))"
    using assms(1) d(1) by (auto simp: parts_def list_all2_conv_all_nth map_of_eq_Some_iff)
  show "sum_list parts = M"
    unfolding parts_def sum_list_filter_keys [OF d(1)] d(2) by (simp add: filter_mset_eq_conv)
  have "{#c \<in># M. getGeoLocationKey c (4 - d) = k#} \<noteq> {#}" if "k \<in> set (map fst (infoMap n))" for k
    using that d(2) by auto
  then show "{#} \<notin> set parts"
    unfolding parts_def by (metis (no_types, lifting) imageE list.set_map)
  show "\<forall>p \<in> set parts. same_names p" if "d = 0"
    using that by (auto simp: parts_def same_names_def getGeoLocationKey_def)
qed

lemma next_level_split:
  "list_all2 (represents (Suc d)) parts nodes \<Longrightarrow>
    \<exists>parts'. list_all2 (represents d) parts' (next_level nodes) \<and> sum_list parts' = sum_list parts \<and> {#} \<notin> set parts' \<and>
      (d = 0 \<longrightarrow> (\<forall>p \<in> set parts'. same_names p))"
proof (induction parts nodes rule: list_all2_induct)
  case Nil
  then show ?case
    by (auto simp: next_level_def)
next
  case (Cons M parts n nodes)
  obtain parts' where p: "list_all2 (represents d) parts' (next_level nodes)" "sum_list parts' = sum_list parts" "{#} \<notin> set parts'"
      "d = 0 \<longrightarrow> (\<forall>p \<in> set parts'. same_names p)"
    using Cons.IH by blast
  note ch = children_split [OF Cons.hyps(1)]
  have "next_level (n # nodes) = map snd (infoMap n) @ next_level nodes"
    by (simp add: next_level_def)
  then show ?case
    using p ch list_all2_appendI [OF ch(1) p(1)] by (intro exI) (auto simp del: represents.simps)
qed

lemma unique_names_plus:
  "unique_names (A + B) \<longleftrightarrow> unique_names A \<and> unique_names B \<and> (\<forall>x \<in># A. \<forall>y \<in># B. cl_Name x \<noteq> cl_Name y)"
proof (induction A)
  case empty
  then show ?case
    by (simp add: unique_names_def)
next
  case (add c A)
  then show ?case
    by (auto simp: unique_names_add)
qed

lemma unique_parts:
  assumes "unique_names (sum_list parts)"
  shows "p \<in> set parts \<Longrightarrow> unique_names p"
    and "i < length parts \<Longrightarrow> j < length parts \<Longrightarrow> i \<noteq> j \<Longrightarrow> x \<in># parts ! i \<Longrightarrow> y \<in># parts ! j \<Longrightarrow> cl_Name x \<noteq> cl_Name y"
proof -
  show "p \<in> set parts \<Longrightarrow> unique_names p"
    using assms by (induction parts) (auto simp: unique_names_plus)
  show "i < length parts \<Longrightarrow> j < length parts \<Longrightarrow> i \<noteq> j \<Longrightarrow> x \<in># parts ! i \<Longrightarrow> y \<in># parts ! j \<Longrightarrow> cl_Name x \<noteq> cl_Name y"
    using assms
  proof (induction parts arbitrary: i j)
    case (Cons p parts)
    have m: "z \<in># parts ! k \<Longrightarrow> k < length parts \<Longrightarrow> z \<in># sum_list parts" for z k
      by (auto simp: set_mset_sum_list intro!: bexI [of _ "parts ! k"])
    show ?case
      using Cons.prems Cons.IH m by (cases i; cases j) (fastforce simp: unique_names_plus)+
  qed simp
qed

lemma same_unique_single: "unique_names p \<Longrightarrow> same_names p \<Longrightarrow> p \<noteq> {#} \<Longrightarrow> size p = 1"
proof (cases p)
  case (add c q)
  assume u: "unique_names p" and s: "same_names p"
  have "cl_Name c \<notin> cl_Name ` set_mset q"
    using u unfolding add unique_names_add by blast
  moreover have "cl_Name x = cl_Name c" if "x \<in># q" for x
    using s that unfolding add same_names_def by (metis insertI1 insertI2 set_mset_add_mset_insert)
  ultimately have "q = {#}"
    by (metis imageI multiset_nonemptyE)
  with add show ?thesis
    by simp
qed simp

lemma size_sum_list: "size (sum_list (parts :: 'a multiset list)) = (\<Sum>p \<leftarrow> parts. size p)"
  by (induction parts) auto

lemma parts_count:
  assumes "{#} \<notin> set parts"
  shows "length parts \<le> size (sum_list parts)"
    and "unique_names (sum_list parts) \<Longrightarrow> \<forall>p \<in> set parts. same_names p \<Longrightarrow> length parts = size (sum_list parts)"
proof -
  have "1 \<le> size p" if "p \<in> set parts" for p
    using assms that by (metis less_one linorder_not_le size_eq_0_iff_empty)
  then show "length parts \<le> size (sum_list parts)"
    using sum_list_mono [of parts "\<lambda>_. 1" size] by (simp add: size_sum_list sum_list_triv)
  assume "unique_names (sum_list parts)" "\<forall>p \<in> set parts. same_names p"
  then have "size p = 1" if "p \<in> set parts" for p
    using that assms unique_parts(1) same_unique_single by metis
  then show "length parts = size (sum_list parts)"
    by (simp add: size_sum_list sum_list_triv cong: map_cong)
qed

text \<open>The level on which \<open>balance\<close> ends, with the clusters of its nodes.\<close>

definition final_level :: "nat \<Rightarrow> Cluster multiset \<Rightarrow> nat \<Rightarrow> Cluster multiset list \<Rightarrow> ClusterInfoNode list \<Rightarrow> bool" where
  "final_level d M k parts nodes \<longleftrightarrow> list_all2 (represents d) parts nodes \<and> sum_list parts = M \<and> nodes \<noteq> [] \<and>
     length nodes \<le> max 1 (size M) \<and> (k \<le> length nodes \<or> length nodes = max 1 (size M))"

lemma sched_balance_level:
  assumes "list_all2 (represents d) parts nodes" "nodes \<noteq> []" "ss \<noteq> []" "unique_names (sum_list parts)"
    "{#} \<notin> set parts \<or> length parts = 1" "d = 0 \<longrightarrow> {#} \<notin> set parts \<and> (\<forall>p \<in> set parts. same_names p)"
  shows "\<exists>d' parts' nodes'. final_level d' (sum_list parts) (length ss) parts' nodes' \<and>
    sched_balance get update ns nodes w ss = assign_loop get update ns nodes' 0 (EvenlyDivide (int (length ss)) (int (length nodes') - 1)) w ss"
  using assms
proof (induction d arbitrary: parts nodes)
  case (0 parts nodes)
  have "infoMap n = []" if "n \<in> set nodes" for n
    using 0(1) that by (auto simp: list_all2_conv_all_nth in_set_conv_nth)
  then have "next_level nodes = []"
    by (simp add: next_level_def)
  then have eq: "sched_balance get update ns nodes w ss = assign_loop get update ns nodes 0 (EvenlyDivide (int (length ss)) (int (length nodes) - 1)) w ss"
    using 0(2,3) by (subst sched_balance.simps) auto
  have "length nodes = size (sum_list parts)" "length nodes \<noteq> 0"
    using parts_count(2) [of parts] 0 list_all2_lengthD [OF 0(1)] by auto
  then have "length nodes = max 1 (size (sum_list parts))"
    by linarith
  then have "final_level 0 (sum_list parts) (length ss) parts nodes"
    unfolding final_level_def using 0(1,2) by (simp only: simp_thms order_refl)
  with eq show ?case
    by blast
next
  case (Suc d parts nodes)
  have len: "length parts = length nodes"
    using Suc.prems(1) by (rule list_all2_lengthD)
  show ?case
  proof (cases "length ss > length nodes \<and> next_level nodes \<noteq> []")
    case True
    obtain parts' where p: "list_all2 (represents d) parts' (next_level nodes)" "sum_list parts' = sum_list parts" "{#} \<notin> set parts'"
        "d = 0 \<longrightarrow> (\<forall>p \<in> set parts'. same_names p)"
      using next_level_split [OF Suc.prems(1)] by blast
    have "sched_balance get update ns nodes w ss = sched_balance get update ns (next_level nodes) w ss"
      using True Suc.prems(2,3) by (subst sched_balance.simps) simp
    then show ?thesis
      using Suc.IH [OF p(1)] True p Suc.prems(3,4) by simp
  next
    case False
    then have eq: "sched_balance get update ns nodes w ss = assign_loop get update ns nodes 0 (EvenlyDivide (int (length ss)) (int (length nodes) - 1)) w ss"
      using Suc.prems(2,3) by (subst sched_balance.simps) auto
    have "length nodes \<le> max 1 (size (sum_list parts))"
      using parts_count(1) [of parts] Suc.prems(5) len by auto
    moreover have "length nodes = max 1 (size (sum_list parts))" if "next_level nodes = []"
    proof -
      have "infoMap (hd nodes) = []"
        using that Suc.prems(2) by (cases nodes) (auto simp: next_level_def)
      moreover have "represents (Suc d) (hd parts) (hd nodes)"
        using Suc.prems(1,2) by (cases nodes; cases parts) auto
      ultimately have "hd parts = {#}"
        using represents_leaves by blast
      then have "parts = [{#}]"
        using Suc.prems(2,5) len by (cases parts) auto
      then show ?thesis
        using len by simp
    qed
    ultimately have "final_level (Suc d) (sum_list parts) (length ss) parts nodes"
      using False Suc.prems(1,2) unfolding final_level_def by (simp only: simp_thms not_less de_Morgan_conj) blast
    with eq show ?thesis
      by blast
  qed
qed

lemma bounds_facts:
  assumes "0 < k" "0 < n" "int k \<le> maxInt64" "int n \<le> maxInt64"
  defines "bounds \<equiv> EvenlyDivide (int k) (int n - 1)"
  shows "length bounds = min k n" "j < length bounds \<Longrightarrow> 0 \<le> fst (bounds ! j) \<and> snd (bounds ! j) < int n"
    "i < n \<Longrightarrow> \<exists>!j. j < length bounds \<and> fst (bounds ! j) \<le> int i \<and> int i \<le> snd (bounds ! j)"
proof -
  have up: "0 < int k" "0 \<le> int n - 1"
    using assms(1,2) by auto
  have b: "bounds = even_ranges (int k) (int n - 1)"
    unfolding bounds_def using assms(1-4) by (intro EvenlyDivide_eq) auto
  show len: "length bounds = min k n"
    unfolding b even_ranges_def using assms(1,2) by (simp add: range_count_def)
  show "\<exists>!j. j < length bounds \<and> fst (bounds ! j) \<le> int i \<and> int i \<le> snd (bounds ! j)" if "i < n"
    unfolding b using even_ranges_unique [OF up, of "int i"] that by simp
  show "0 \<le> fst (bounds ! j) \<and> snd (bounds ! j) < int n" if "j < length bounds"
  proof -
    have j: "int j + 1 \<le> range_count (int k) (int n - 1)" "j < length (even_ranges (int k) (int n - 1))"
      using that len b by (auto simp: range_count_def)
    show ?thesis
      unfolding b using nth_even_ranges [OF j(2)] even_bound_mono [OF up, of 0 "int j"] even_bound_mono [OF up j(1)] even_bound_last [OF up] chunk_facts [OF up]
      by (auto simp: even_bound_def [of _ _ 0])
  qed
qed

lemma name_in_group:
  assumes "unique_names (sum_list parts)" "j < length parts" "c \<in># parts ! j"
  shows "cl_Name c \<in> cl_Name ` node_group parts r \<longleftrightarrow> fst r \<le> int j \<and> int j \<le> snd r"
proof
  assume "cl_Name c \<in> cl_Name ` node_group parts r"
  then obtain x i where "cl_Name c = cl_Name x" "i < length parts" "fst r \<le> int i" "int i \<le> snd r" "x \<in># parts ! i"
    by (auto simp: node_group_def)
  then show "fst r \<le> int j \<and> int j \<le> snd r"
    using unique_parts(2) [OF assms(1), of i j x c] assms(2,3) by (cases "i = j") auto
qed (use assms in \<open>auto simp: node_group_def\<close>)

lemma group_subset: "node_group parts r \<subseteq> set_mset (sum_list parts)"
  by (auto simp: node_group_def set_mset_sum_list dest: nth_mem)

lemma assign_final_level:
  assumes "api_stores key stored update" "final_level d M (length ss) parts nodes" "unique_names M" "ss \<noteq> []"
    "int (length ss) \<le> maxInt64" "int (size M) \<le> maxInt64"
  defines "n \<equiv> min (length ss) (max 1 (size M))" and "bounds \<equiv> EvenlyDivide (int (length ss)) (int (length nodes) - 1)"
  shows "assign_loop get update ns nodes 0 bounds w ss \<noteq> None"
    and "assign_loop get update ns nodes 0 bounds w ss = Some (w', ss', None) \<Longrightarrow>
      length ss' = length ss \<and> (\<forall>i. n \<le> i \<longrightarrow> ss' ! i = ss ! i) \<and>
      (\<forall>i < n. set (sch_Cluster (ss' ! i)) = cl_Name ` node_group parts (bounds ! i) \<and>
        set (un_GeoLocation (sch_Union (ss' ! i))) = cl_GeoLocation ` node_group parts (bounds ! i)) \<and>
      (\<forall>c \<in># M. \<exists>!i. i < n \<and> cl_Name c \<in> set (sch_Cluster (ss' ! i)))"
proof -
  have lv: "list_all2 (represents d) parts nodes" "sum_list parts = M" "nodes \<noteq> []" "length nodes \<le> max 1 (size M)"
      "min (length ss) (length nodes) = n"
    using assms(2) unfolding final_level_def n_def by auto
  have b: "length bounds = n" "\<And>j. j < n \<Longrightarrow> 0 \<le> fst (bounds ! j) \<and> snd (bounds ! j) < int (length nodes)"
    "\<And>i. i < length nodes \<Longrightarrow> \<exists>!j. j < n \<and> fst (bounds ! j) \<le> int i \<and> int i \<le> snd (bounds ! j)"
    using bounds_facts [of "length ss" "length nodes"] assms(4,5,6) lv(3,4,5) unfolding bounds_def by auto
  have n: "n \<le> length ss"
    by (simp add: n_def)
  have col: "\<exists>clusters u. collect_range nodes (bounds ! i) = Some (clusters, u) \<and> set clusters = cl_Name ` node_group parts (bounds ! i) \<and>
      set (un_GeoLocation u) = cl_GeoLocation ` node_group parts (bounds ! i)" if "i < n" for i
    using collect_range_group [OF lv(1)] b(2) [OF that] by blast
  then have "\<forall>x \<in> set bounds. collect_range nodes x \<noteq> None"
    using b(1) by (metis in_set_conv_nth option.distinct(1))
  then show "assign_loop get update ns nodes 0 bounds w ss \<noteq> None"
    using b(1) n by (intro assign_loop_total) auto
  assume "assign_loop get update ns nodes 0 bounds w ss = Some (w', ss', None)"
  from assign_loop_result [OF assms(1) this] have res: "length ss' = length ss" "\<And>j. n \<le> j \<Longrightarrow> ss' ! j = ss ! j"
    "\<And>j. j < n \<Longrightarrow> collect_range nodes (bounds ! j) = Some (sch_Cluster (ss' ! j), sch_Union (ss' ! j))"
    using b(1) n by auto
  have sets: "set (sch_Cluster (ss' ! i)) = cl_Name ` node_group parts (bounds ! i)"
    "set (un_GeoLocation (sch_Union (ss' ! i))) = cl_GeoLocation ` node_group parts (bounds ! i)" if "i < n" for i
    using col [OF that] res(3) [OF that] by auto
  have once: "\<exists>!i. i < n \<and> cl_Name c \<in> set (sch_Cluster (ss' ! i))" if "c \<in># M" for c
  proof -
    obtain j where j: "j < length parts" "c \<in># parts ! j"
      using \<open>c \<in># M\<close> lv(2) by (auto simp: set_mset_sum_list in_set_conv_nth)
    then have "j < length nodes"
      using list_all2_lengthD [OF lv(1)] by simp
    moreover have "i < n \<and> cl_Name c \<in> set (sch_Cluster (ss' ! i)) \<longleftrightarrow> i < n \<and> fst (bounds ! i) \<le> int j \<and> int j \<le> snd (bounds ! i)" for i
      using sets(1) [of i] name_in_group [OF _ j, of "bounds ! i"] assms(3) lv(2) by auto
    ultimately show ?thesis
      using b(3) by simp
  qed
  show "length ss' = length ss \<and> (\<forall>i. n \<le> i \<longrightarrow> ss' ! i = ss ! i) \<and>
      (\<forall>i < n. set (sch_Cluster (ss' ! i)) = cl_Name ` node_group parts (bounds ! i) \<and>
        set (un_GeoLocation (sch_Union (ss' ! i))) = cl_GeoLocation ` node_group parts (bounds ! i)) \<and>
      (\<forall>c \<in># M. \<exists>!i. i < n \<and> cl_Name c \<in> set (sch_Cluster (ss' ! i)))"
    using res(1,2) sets by (intro conjI allI ballI impI once) simp_all
qed


abbreviation sch_key :: "Scheduler \<Rightarrow> string \<times> string" where
  "sch_key s \<equiv> (sch_Namespace s, sch_Name s)"

definition list_get :: "((string \<times> string) \<times> Scheduler) list get_scheduler" where
  "list_get w ns nm = (case map_of w (ns, nm) of None \<Rightarrow> Inl ''not found'' | Some s \<Rightarrow> Inr s)"

definition demo_located :: "string \<Rightarrow> string \<Rightarrow> Cluster" where
  "demo_located nm city = \<lparr>cl_Name = nm, cl_Namespace = ''ns'', cl_IpAddress = ''10.0.0.1'',
     cl_GeoLocation = \<lparr>geo_City = city, geo_Province = ''p'', geo_Area = ''a'', geo_Country = ''us''\<rparr>,
     cl_Region = \<lparr>ri_Region = ''r'', ri_AvailabilityZone = ''z''\<rparr>, cl_Operator = \<lparr>op_Operator = ''o''\<rparr>,
     cl_Flavors = [\<lparr>fi_FlavorID = ''f'', fi_TotalCapacity = 4\<rparr>], cl_Storage = [],
     cl_EipCapacity = 1, cl_CPUCapacity = 1, cl_MemCapacity = 1, cl_ServerPrice = 1\<rparr>"

definition demo_scheduler :: "string \<Rightarrow> Scheduler" where
  "demo_scheduler nm = \<lparr>sch_Name = nm, sch_Namespace = ''ns'', sch_Tag = '''', sch_Cluster = [], sch_Union = empty_union\<rparr>"

definition demo_country :: ClusterInfoNode where
  "demo_country = tree_AddCluster (demo_located ''c2'' ''y'') 0 (tree_AddCluster (demo_located ''c1'' ''x'') 0 NewClusterInfoNode)"

lemma demo_located_full: "nm \<noteq> [] \<Longrightarrow> city \<noteq> [] \<Longrightarrow> located (demo_located nm city)"
  by (auto simp: located_def getGeoLocationKey_def demo_located_def)

lemma demo_country_reach: "clusters_reach {#demo_located ''c2'' ''y'', demo_located ''c1'' ''x''#} demo_country"
  unfolding demo_country_def
  by (intro clusters_reach.intros demo_located_full) (simp_all add: demo_located_def)


end
