(* ===== verification/GoFloat.thy ===== *)
theory GoFloat
  imports GoPrelude Complex_Main
begin

text \<open>
  The values of \<open>float64\<close> that the scheduling plugins compute: a finite value is the rational number it denotes
  (rounding is not modelled), and a division by zero gives an infinity or NaN, as the language does. A conversion
  to \<open>int\<close> that does not fit gives the smallest \<open>int64\<close>, as it does on amd64.
\<close>

datatype float64 = Fin rat | PInf | NInf | NaN

definition MaxFloat64 :: float64 where
  "MaxFloat64 = Fin (2 ^ 1024 - 2 ^ 971)"

text \<open>The quotient of two finite values.\<close>

definition float_div :: "rat \<Rightarrow> rat \<Rightarrow> float64" where
  "float_div a b = (if b \<noteq> 0 then Fin (a / b) else if a > 0 then PInf else if a < 0 then NInf else NaN)"

text \<open>\<open>math.Min\<close>\<close>

fun float_min :: "float64 \<Rightarrow> float64 \<Rightarrow> float64" where
  "float_min NInf y = NInf"
| "float_min x NInf = NInf"
| "float_min NaN y = NaN"
| "float_min x NaN = NaN"
| "float_min PInf y = y"
| "float_min x PInf = x"
| "float_min (Fin a) (Fin b) = Fin (min a b)"

definition trunc :: "rat \<Rightarrow> int" where
  "trunc r = (if 0 \<le> r then \<lfloor>r\<rfloor> else \<lceil>r\<rceil>)"

definition int_of_float :: "float64 \<Rightarrow> int" where
  "int_of_float x = (case x of Fin r \<Rightarrow> if in_int64 (trunc r) then trunc r else - (2 ^ 63) | _ \<Rightarrow> - (2 ^ 63))"

lemma trunc_of_int [simp]: "trunc (of_int n) = n"
  by (simp add: trunc_def)

lemma int_of_float_Fin [simp]: "in_int64 n \<Longrightarrow> int_of_float (Fin (of_int n)) = n"
  by (simp add: int_of_float_def)

lemma trunc_nonneg: "0 \<le> r \<Longrightarrow> trunc r = \<lfloor>r\<rfloor>"
  by (simp add: trunc_def)

lemma float_min_of_int: "float_min (Fin (of_int a)) (Fin (of_int b)) = Fin (of_int (min a b))"
  by (simp add: min_def)

text \<open>\<open>MaxFloat64\<close> is the neutral start of a minimum over values of type \<open>int64\<close>.\<close>

lemma float_min_MaxFloat64: "in_int64 n \<Longrightarrow> float_min MaxFloat64 (Fin (of_int n)) = Fin (of_int n)"
proof -
  assume "in_int64 n"
  then have "(of_int n :: rat) \<le> of_int (2 ^ 1024 - 2 ^ 971)"
    by (subst of_int_le_iff) simp
  then show ?thesis by (simp add: MaxFloat64_def min_def)
qed

end
