(* ===== verification/Framework.thy ===== *)
theory Framework
  imports SiteCacheInfo Labels GoFloat
begin

text \<open>
  The scheduling framework, \<open>pkg/scheduler/framework/interfaces\<close>: the status that plugins return
  (\<open>interface.go\<close>), the state of a scheduling cycle (\<open>cycle_state.go\<close>) and the functions that run the plugins of
  each extension point (\<open>framework.go\<close>).

  \<^item> A \<open>*Status\<close> is an option; \<open>None\<close> is nil, which counts as success.
  \<^item> A plugin is its name with the function of the extension point. The functions get the cycle state and give it
    back; a filter also gives back the site info, which it may change.
  \<^item> A message keeps its constant text and the names in it; numbers and dumps of a state are left out.
  \<^item> The sites that are scored in parallel are processed in the order of a list of indices.
\<close>

section \<open>Status\<close>

datatype Code = Code_Success | Code_Error | Code_Unschedulable | Code_UnschedulableAndUnresolvable | Code_Wait | Code_Skip

record FwStatus =
  st_code :: Code
  st_reasons :: "string list"

type_synonym status = "FwStatus option"

definition NewStatus :: "Code \<Rightarrow> string list \<Rightarrow> status" where
  "NewStatus code reasons = Some \<lparr>st_code = code, st_reasons = reasons\<rparr>"

definition status_Code :: "status \<Rightarrow> Code" where
  "status_Code s = (case s of None \<Rightarrow> Code_Success | Some s \<Rightarrow> st_code s)"

definition status_Message :: "status \<Rightarrow> string" where
  "status_Message s = (case s of None \<Rightarrow> '''' | Some s \<Rightarrow> go_join (st_reasons s) '', '')"

definition Reasons :: "status \<Rightarrow> string list option" where
  "Reasons s = map_option st_reasons s"

definition AppendReason :: "FwStatus \<Rightarrow> string \<Rightarrow> FwStatus" where
  "AppendReason s reason = s\<lparr>st_reasons := st_reasons s @ [reason]\<rparr>"

definition IsSuccess :: "status \<Rightarrow> bool" where
  "IsSuccess s \<longleftrightarrow> status_Code s = Code_Success"

definition IsUnschedulable :: "status \<Rightarrow> bool" where
  "IsUnschedulable s \<longleftrightarrow> status_Code s = Code_Unschedulable \<or> status_Code s = Code_UnschedulableAndUnresolvable"

definition AsError :: "status \<Rightarrow> string option" where
  "AsError s = (if IsSuccess s then None else Some (status_Message s))"

text \<open>A map from plugin names to statuses, in the order of an iteration.\<close>

type_synonym PluginToStatus = "(string \<times> status) list"

text \<open>
  The loop keeps the status built so far and the flags \<open>hasError\<close>, \<open>hasUnschedulableAndUnresolvable\<close> and
  \<open>hasUnschedulable\<close>. Reading \<open>s.reasons\<close> of a nil status is a nil dereference.
\<close>

record merge_state =
  finalStatus :: FwStatus
  hasError :: bool
  hasUnschedulableAndUnresolvable :: bool
  hasUnschedulable :: bool

definition merge_step :: "string \<times> status \<Rightarrow> merge_state \<Rightarrow> merge_state option" where
  "merge_step p m =
     (let c = status_Code (snd p);
          m = (if c = Code_Error then m\<lparr>hasError := True\<rparr>
               else if c = Code_UnschedulableAndUnresolvable then m\<lparr>hasUnschedulableAndUnresolvable := True\<rparr>
               else if c = Code_Unschedulable then m\<lparr>hasUnschedulable := True\<rparr>
               else m)
      in do {
        reasons \<leftarrow> Reasons (snd p);
        Some (m\<lparr>finalStatus := fold (\<lambda>r f. AppendReason f r) reasons ((finalStatus m)\<lparr>st_code := c\<rparr>)\<rparr>) })"

definition PluginToStatus_Merge :: "PluginToStatus \<Rightarrow> status option" where
  "PluginToStatus_Merge p =
     (if p = [] then Some None
      else do {
        m \<leftarrow> foldM merge_step p \<lparr>finalStatus = \<lparr>st_code = Code_Success, st_reasons = []\<rparr>, hasError = False,
               hasUnschedulableAndUnresolvable = False, hasUnschedulable = False\<rparr>;
        let code = (if hasError m then Code_Error
                    else if hasUnschedulableAndUnresolvable m then Code_UnschedulableAndUnresolvable
                    else if hasUnschedulable m then Code_Unschedulable
                    else st_code (finalStatus m));
        Some (Some ((finalStatus m)\<lparr>st_code := code\<rparr>)) })"

section \<open>The state of a cycle\<close>

text \<open>\<open>FlavorInfo\<close>: a flavor with the number of machines.\<close>

record SelFlavor =
  sf_Flavor :: Flavor
  sf_Count :: int

record SiteSelectorInfo =
  ssi_Flavors :: "SelFlavor list"
  ssi_VolumeType :: "string list"
  StackMaxCount :: int

definition zero_SiteSelectorInfo :: SiteSelectorInfo where
  "zero_SiteSelectorInfo = \<lparr>ssi_Flavors = [], ssi_VolumeType = [], StackMaxCount = 0\<rparr>"

record FlavorAggregate =
  agg_Flavors :: "SelFlavor list"
  agg_Weight :: int

record FitFlavorInfos =
  ffi_Flavors :: "Flavor list"
  ffi_Res :: CPUAndMemory
  ffi_Count :: int

text \<open>What the plugins store: the selector infos, the flavor aggregates and the request of the fit plugin.\<close>

datatype StateData = SiteSelectorInfos "string \<rightharpoonup> SiteSelectorInfo" | FlavorAggregates "FlavorAggregate list" | SiteResFilterState "FitFlavorInfos list"

type_synonym CycleState = "string \<rightharpoonup> StateData"

definition NewCycleState :: CycleState where
  "NewCycleState = Map.empty"

definition CycleState_Read :: "CycleState \<Rightarrow> string \<Rightarrow> string + StateData" where
  "CycleState_Read c key = (case c key of Some v \<Rightarrow> Inr v | None \<Rightarrow> Inl ''not found'')"

definition CycleState_Write :: "CycleState \<Rightarrow> string \<Rightarrow> StateData \<Rightarrow> CycleState" where
  "CycleState_Write c key val = c(key \<mapsto> val)"

text \<open>\<open>types.SiteTempSelectorKey\<close>\<close>

abbreviation SiteTempSelectorKey :: string where
  "SiteTempSelectorKey \<equiv> ''SiteTempSelected''"

text \<open>The values of an update, with their dynamic types.\<close>

datatype update_value = UFlavors "SelFlavor list" | UInt int | UFloat float64

definition update_field :: "string \<times> update_value \<Rightarrow> SiteSelectorInfo \<Rightarrow> string + SiteSelectorInfo" where
  "update_field kv selectInfo =
     (case kv of (key, value) \<Rightarrow>
        if key = ''Flavors'' then
          (case value of UFlavors flvs \<Rightarrow> Inr (selectInfo\<lparr>ssi_Flavors := flvs\<rparr>) | _ \<Rightarrow> Inl ''convert to []string error'')
        else if key = ''StackMaxCount'' then
          (case value of
             UInt cnt \<Rightarrow>
               if StackMaxCount selectInfo = 0 \<or> StackMaxCount selectInfo > cnt then Inr (selectInfo\<lparr>StackMaxCount := cnt\<rparr>)
               else Inr selectInfo
           | _ \<Rightarrow> Inl ''convert to int error'')
        else Inr selectInfo)"

fun update_fields :: "(string \<times> update_value) list \<Rightarrow> SiteSelectorInfo \<Rightarrow> string + SiteSelectorInfo" where
  "update_fields [] selectInfo = Inr selectInfo"
| "update_fields (kv # kvs) selectInfo =
     (case update_field kv selectInfo of Inl err \<Rightarrow> Inl err | Inr selectInfo \<Rightarrow> update_fields kvs selectInfo)"

text \<open>
  When the key is missing \<open>c\<close> is nil: an empty entry for the site is written, and then the conversion of \<open>c\<close> fails.
  \<open>updateInfo\<close> is a map, given as the list of its entries in the order in which they are visited.
\<close>

definition UpdateSiteSelectorState :: "CycleState \<Rightarrow> string \<Rightarrow> (string \<times> update_value) list \<Rightarrow> CycleState \<times> string option" where
  "UpdateSiteSelectorState cycleState siteID updateInfo =
     (case CycleState_Read cycleState SiteTempSelectorKey of
        Inl err \<Rightarrow>
          (CycleState_Write cycleState SiteTempSelectorKey (SiteSelectorInfos [siteID \<mapsto> zero_SiteSelectorInfo]),
           Some ''convert to SiteSelectorInfos error'')
      | Inr (SiteSelectorInfos s) \<Rightarrow>
          let selectInfo = (case s siteID of None \<Rightarrow> zero_SiteSelectorInfo | Some i \<Rightarrow> i)
          in (case update_fields updateInfo selectInfo of
                Inl err \<Rightarrow> (cycleState, Some err)
              | Inr selectInfo \<Rightarrow> (CycleState_Write cycleState SiteTempSelectorKey (SiteSelectorInfos (s(siteID \<mapsto> selectInfo))), None))
      | Inr _ \<Rightarrow> (cycleState, Some ''convert to SiteSelectorInfos error''))"

definition GetSiteSelectorState :: "CycleState \<Rightarrow> string \<Rightarrow> string + SiteSelectorInfo" where
  "GetSiteSelectorState cycleState siteID =
     (case CycleState_Read cycleState SiteTempSelectorKey of
        Inl err \<Rightarrow> Inl err
      | Inr (SiteSelectorInfos s) \<Rightarrow> (case s siteID of None \<Rightarrow> Inl (''siteID('' @ siteID @ '') not found'') | Some v \<Rightarrow> Inr v)
      | Inr _ \<Rightarrow> Inl ''convert to SiteSelectorInfos error'')"

section \<open>Running plugins\<close>

text \<open>The verb \<open>%q\<close> of a message.\<close>

definition fmt_q :: "string \<Rightarrow> string" where
  "fmt_q s = [CHR 0x22] @ s @ [CHR 0x22]"

record SiteScore =
  ss_SiteID :: string
  ss_Region :: string
  ss_AZ :: string
  ss_Score :: int
  ss_StackCount :: int

definition zero_SiteScore :: SiteScore where
  "zero_SiteScore = \<lparr>ss_SiteID = '''', ss_Region = '''', ss_AZ = '''', ss_Score = 0, ss_StackCount = 0\<rparr>"

abbreviation (input) MaxSiteScore :: int where "MaxSiteScore \<equiv> 100"
abbreviation (input) MinSiteScore :: int where "MinSiteScore \<equiv> 0"

record FwAllocation =
  fa_ID :: string
  fa_Stack :: Stack
  fa_Selector :: Selector
  fa_Replicas :: int

type_synonym prefilter_plugin = "string \<times> (CycleState \<Rightarrow> Stack \<Rightarrow> (CycleState \<times> status) option)"
type_synonym filter_plugin = "string \<times> (CycleState \<Rightarrow> Stack \<Rightarrow> SiteCacheInfo \<Rightarrow> (CycleState \<times> SiteCacheInfo \<times> status) option)"
type_synonym score_plugin = "string \<times> (CycleState \<Rightarrow> Stack \<Rightarrow> SiteCacheInfo \<Rightarrow> (CycleState \<times> int \<times> status) option)"
type_synonym strategy_plugin = "string \<times> (CycleState \<Rightarrow> FwAllocation \<Rightarrow> SiteScore list \<Rightarrow> (SiteScore list \<times> status) option)"

fun RunPreFilterPlugins :: "prefilter_plugin list \<Rightarrow> CycleState \<Rightarrow> Stack \<Rightarrow> (CycleState \<times> status) option" where
  "RunPreFilterPlugins [] state stack = Some (state, None)"
| "RunPreFilterPlugins (pl # pls) state stack = do {
     (state, status) \<leftarrow> snd pl state stack;
     if \<not> IsSuccess status then
       if IsUnschedulable status
       then Some (state, NewStatus (status_Code status) [''rejected by '' @ fmt_q (fst pl) @ '' at prefilter: '' @ status_Message status])
       else Some (state, NewStatus Code_Error [''error while running '' @ fmt_q (fst pl) @ '' prefilter plugin for pod '' @ fmt_q (PodName stack) @ '': '' @ status_Message status])
     else RunPreFilterPlugins pls state stack }"

text \<open>\<open>statuses\<close> is a map, so a plugin that occurs twice keeps its last status.\<close>

definition put_status :: "string \<Rightarrow> status \<Rightarrow> PluginToStatus \<Rightarrow> PluginToStatus" where
  "put_status nm s statuses = filter (\<lambda>p. fst p \<noteq> nm) statuses @ [(nm, s)]"

fun run_filters :: "bool \<Rightarrow> filter_plugin list \<Rightarrow> CycleState \<Rightarrow> Stack \<Rightarrow> SiteCacheInfo \<Rightarrow> PluginToStatus \<Rightarrow>
    (CycleState \<times> SiteCacheInfo \<times> PluginToStatus) option" where
  "run_filters runAllFilters [] state stack info statuses = Some (state, info, statuses)"
| "run_filters runAllFilters (pl # pls) state stack info statuses = do {
     (state, info, pluginStatus) \<leftarrow> snd pl state stack info;
     if \<not> IsSuccess pluginStatus then
       if \<not> IsUnschedulable pluginStatus
       then Some (state, info, [(fst pl, NewStatus Code_Error [''running '' @ fmt_q (fst pl) @ '' filter plugin for pod '' @ fmt_q (PodName stack) @ '': '' @ status_Message pluginStatus])])
       else (let statuses = put_status (fst pl) pluginStatus statuses
             in if \<not> runAllFilters then Some (state, info, statuses)
                else run_filters runAllFilters pls state stack info statuses)
     else run_filters runAllFilters pls state stack info statuses }"

definition RunFilterPlugins :: "bool \<Rightarrow> filter_plugin list \<Rightarrow> CycleState \<Rightarrow> Stack \<Rightarrow> SiteCacheInfo \<Rightarrow>
    (CycleState \<times> SiteCacheInfo \<times> PluginToStatus) option" where
  "RunFilterPlugins runAllFilters pls state stack info = run_filters runAllFilters pls state stack info []"

text \<open>The score plugins on one site: the scores by plugin, or the message of the first failure.\<close>

fun score_site :: "score_plugin list \<Rightarrow> CycleState \<Rightarrow> Stack \<Rightarrow> SiteCacheInfo \<Rightarrow> (CycleState \<times> (string + (string \<times> int) list)) option" where
  "score_site [] state stack info = Some (state, Inr [])"
| "score_site (pl # pls) state stack info = do {
     (state, s, status) \<leftarrow> snd pl state stack info;
     if \<not> IsSuccess status then Some (state, Inl (status_Message status))
     else do {
       (state, rest) \<leftarrow> score_site pls state stack info;
       Some (state, case rest of Inl err \<Rightarrow> Inl err | Inr scores \<Rightarrow> Inr ((fst pl, s) # scores)) } }"

text \<open>The sites in the order of \<open>order\<close>; after a failure the others are cancelled.\<close>

fun score_sites :: "score_plugin list \<Rightarrow> Stack \<Rightarrow> (nat \<Rightarrow> SiteCacheInfo option) \<Rightarrow> nat list \<Rightarrow> CycleState \<Rightarrow>
    (CycleState \<times> (string + (nat \<times> (string \<times> int) list) list)) option" where
  "score_sites pls stack info_at [] state = Some (state, Inr [])"
| "score_sites pls stack info_at (i # is) state = do {
     info \<leftarrow> info_at i;
     (state, res) \<leftarrow> score_site pls state stack info;
     case res of
       Inl err \<Rightarrow> Some (state, Inl err)
     | Inr scores \<Rightarrow> do {
         (state, rest) \<leftarrow> score_sites pls stack info_at is state;
         Some (state, case rest of Inl err \<Rightarrow> Inl err | Inr all \<Rightarrow> Inr ((i, scores) # all)) } }"

type_synonym PluginToSiteScores = "(string \<times> SiteScore list) list"

definition score_entry :: "(nat \<times> (string \<times> int) list) list \<Rightarrow> Site list \<Rightarrow> string \<Rightarrow> nat \<Rightarrow> SiteScore" where
  "score_entry scored sites nm i =
     (case map_of scored i of
        Some scores \<Rightarrow>
          (case map_of (rev scores) nm of
             Some s \<Rightarrow> zero_SiteScore\<lparr>ss_SiteID := SiteID (sites ! i), ss_Score := s\<rparr>
           | None \<Rightarrow> zero_SiteScore)
      | None \<Rightarrow> zero_SiteScore)"

text \<open>Weighing one list: an invalid score is an error.\<close>

definition weigh_scores :: "string \<Rightarrow> int \<Rightarrow> SiteScore list \<Rightarrow> string + SiteScore list" where
  "weigh_scores nm weight scores =
     (if \<exists>s \<in> set scores. ss_Score s > MaxSiteScore \<or> ss_Score s < MinSiteScore
      then Inl (''score plugin '' @ fmt_q nm @ '' returns an invalid score'')
      else Inr (map (\<lambda>s. s\<lparr>ss_Score := wrap64 (ss_Score s * weight)\<rparr>) scores))"

fun weigh_all :: "(string \<Rightarrow> int) \<Rightarrow> PluginToSiteScores \<Rightarrow> string + PluginToSiteScores" where
  "weigh_all weights [] = Inr []"
| "weigh_all weights ((nm, scores) # ps) =
     (case weigh_scores nm (weights nm) scores of
        Inl err \<Rightarrow> Inl err
      | Inr scores \<Rightarrow> (case weigh_all weights ps of Inl err \<Rightarrow> Inl err | Inr ps \<Rightarrow> Inr ((nm, scores) # ps)))"

text \<open>
  \<open>infos\<close> is the map of site infos by site ID; a missing entry is a nil pointer, on which every score plugin
  panics. Plugins have different names.
\<close>

definition RunScorePlugins :: "score_plugin list \<Rightarrow> (string \<Rightarrow> int) \<Rightarrow> nat list \<Rightarrow> CycleState \<Rightarrow> Stack \<Rightarrow> Site list \<Rightarrow>
    (string \<rightharpoonup> SiteCacheInfo) \<Rightarrow> (CycleState \<times> PluginToSiteScores \<times> status) option" where
  "RunScorePlugins pls weights order state stack sites infos = do {
     (state, res) \<leftarrow> score_sites pls stack (\<lambda>i. if i < length sites then infos (SiteID (sites ! i)) else None) order state;
     case res of
       Inl err \<Rightarrow> Some (state, [], NewStatus Code_Error [''error while running score plugin for pod '' @ fmt_q (PodName stack) @ '': '' @ err])
     | Inr scored \<Rightarrow>
         let table = map (\<lambda>pl. (fst pl, map (score_entry scored sites (fst pl)) [0..<length sites])) pls
         in (case weigh_all weights table of
               Inl err \<Rightarrow> Some (state, [], NewStatus Code_Error [''error while applying score defaultWeights for pod '' @ fmt_q (PodName stack) @ '': '' @ err])
             | Inr table \<Rightarrow> Some (state, table, None)) }"

fun RunStrategyPlugins :: "strategy_plugin list \<Rightarrow> CycleState \<Rightarrow> FwAllocation \<Rightarrow> SiteScore list \<Rightarrow> (SiteScore list \<times> status) option" where
  "RunStrategyPlugins [] state allocations countList = Some (countList, None)"
| "RunStrategyPlugins (pl # pls) state allocations countList = do {
     (countList, status) \<leftarrow> snd pl state allocations countList;
     if \<not> IsSuccess status
     then Some ([], NewStatus Code_Error [''plugin '' @ fmt_q (fst pl) @ '' failed to Strategy '' @ fmt_q (PodName (fa_Stack allocations)) @ '': '' @ status_Message status])
     else RunStrategyPlugins pls state allocations countList }"

end
