(* ===== verification/PlacementPlugins.thy ===== *)
theory PlacementPlugins
  imports Framework "HOL-Library.Sublist"
begin

text \<open>
  The plugins that look at where a site is and not at what it has left
  (\<open>pkg/scheduler/framework/plugins\<close>): \<open>siteavailability\<close>, \<open>regionandaz\<close>, \<open>locationandoperator\<close>,
  \<open>exclusivesite\<close>, \<open>network\<close> and \<open>stackaffinity\<close>. A filter that neither writes the cycle state nor changes the
  site info is a function to a status; \<open>pure_filter\<close> makes it a plugin. \<open>GetSite()\<close> may be nil, and
  then reading a field of it panics. A \<open>float64\<close> is the rational number it denotes.
\<close>

definition pure_filter :: "string \<Rightarrow> (Stack \<Rightarrow> SiteCacheInfo \<Rightarrow> status option) \<Rightarrow> filter_plugin" where
  "pure_filter nm f = (nm, \<lambda>state stack info. map_option (\<lambda>s. (state, info, s)) (f stack info))"

section \<open>siteavailability\<close>

abbreviation SiteStatusOffline :: string where "SiteStatusOffline \<equiv> ''Offline''"
abbreviation SiteStatusSellout :: string where "SiteStatusSellout \<equiv> ''Sellout''"
abbreviation SiteDelimiter :: string where "SiteDelimiter \<equiv> ''--''"

definition SiteAvailability_Filter :: "Stack \<Rightarrow> SiteCacheInfo \<Rightarrow> status option" where
  "SiteAvailability_Filter stack info = do {
     site \<leftarrow> sci_Site info;
     let want = sel_SiteID (stk_Selector stack);
     if Status site = SiteStatusOffline \<or> Status site = SiteStatusSellout
     then Some (NewStatus Code_Unschedulable [''Site('' @ SiteID site @ '') status is '' @ Status site @ '', not available!''])
     else if want \<noteq> [] \<and> want \<noteq> SiteID site \<and> \<not> (prefix want (SiteID site) \<and> suffix SiteDelimiter want)
     then Some (NewStatus Code_Unschedulable [''Site('' @ SiteID site @ '') not suitable!''])
     else Some None }"

section \<open>regionandaz\<close>

definition regionEqual :: "CloudRegion \<Rightarrow> SiteCacheInfo \<Rightarrow> bool option" where
  "regionEqual region info =
     (if cr_Region region \<noteq> [] \<and> sci_Site info = None then None
      else if cr_Region region \<noteq> [] \<and> cr_Region region \<noteq> Region (site_RegionAzMap (the (sci_Site info))) then Some False
      else if cr_AvailabilityZone region \<noteq> [] then do {
        site \<leftarrow> sci_Site info;
        Some (AvailabilityZone (site_RegionAzMap site) \<in> set (cr_AvailabilityZone region)) }
      else Some True)"

fun any_region :: "CloudRegion list \<Rightarrow> SiteCacheInfo \<Rightarrow> bool option" where
  "any_region [] info = Some False"
| "any_region (region # regions) info = do {
     eq \<leftarrow> regionEqual region info;
     if eq then Some True else any_region regions info }"

definition RegionAndAz_Filter :: "Stack \<Rightarrow> SiteCacheInfo \<Rightarrow> status option" where
  "RegionAndAz_Filter stack info =
     (if length (Regions (stk_Selector stack)) \<le> 0 then Some None
      else do {
        match \<leftarrow> any_region (Regions (stk_Selector stack)) info;
        if \<not> match then Some (NewStatus Code_Unschedulable [''stack region not equal site region.'']) else Some None })"

text \<open>The regions met so far, in the order of an iteration over \<open>regionMap\<close>.\<close>

record RegionMap =
  rm_count :: int
  rm_siteScoreList :: "SiteScore list"

fun region_add :: "string \<Rightarrow> int \<Rightarrow> SiteScore \<Rightarrow> (string \<times> RegionMap) list \<Rightarrow> (string \<times> RegionMap) list" where
  "region_add region n siteScore [] = [(region, \<lparr>rm_count = n, rm_siteScoreList = [siteScore]\<rparr>)]"
| "region_add region n siteScore ((r, m) # rest) =
     (if r = region then (r, \<lparr>rm_count = rm_count m + n, rm_siteScoreList = rm_siteScoreList m @ [siteScore]\<rparr>) # rest
      else (r, m) # region_add region n siteScore rest)"

text \<open>The first loop of \<open>Strategy\<close>. \<open>lister\<close> is \<open>SiteCacheInfos().Get\<close> of the snapshot.\<close>

fun region_counts :: "CycleState \<Rightarrow> (string \<rightharpoonup> SiteCacheInfo) \<Rightarrow> SiteScore list \<Rightarrow> (string \<times> RegionMap) list \<Rightarrow>
    (string \<times> RegionMap) list option" where
  "region_counts state lister [] regionMap = Some regionMap"
| "region_counts state lister (siteScore # rest) regionMap =
     (case GetSiteSelectorState state (ss_SiteID siteScore) of
        Inl err \<Rightarrow> region_counts state lister rest regionMap
      | Inr selectorInfo \<Rightarrow>
          (case lister (ss_SiteID siteScore) of
             None \<Rightarrow> region_counts state lister rest regionMap
           | Some info \<Rightarrow> do {
               site \<leftarrow> sci_Site info;
               region_counts state lister rest
                 (region_add (Region (site_RegionAzMap site)) (StackMaxCount selectorInfo) siteScore regionMap) }))"

text \<open>The second loop over the region map: the region and the count chosen so far.\<close>

definition pick_region :: "int \<Rightarrow> string \<times> RegionMap \<Rightarrow> string \<times> int \<Rightarrow> string \<times> int" where
  "pick_region replicas e best =
     (if rm_count (snd e) < replicas then best
      else if rm_count (snd e) > snd best then (fst e, rm_count (snd e)) else best)"

text \<open>\<open>visit\<close> is the order in which the map is visited: it permutes the entries.\<close>

definition RegionAndAz_Strategy :: "((string \<times> RegionMap) list \<Rightarrow> (string \<times> RegionMap) list) \<Rightarrow> (string \<rightharpoonup> SiteCacheInfo) \<Rightarrow>
    CycleState \<Rightarrow> FwAllocation \<Rightarrow> SiteScore list \<Rightarrow> (SiteScore list \<times> status) option" where
  "RegionAndAz_Strategy visit lister state allocations siteScoreList =
     (if RegionStrategy (sel_Strategy (fa_Selector allocations)) \<noteq> ''alone'' then Some (siteScoreList, None)
      else do {
        regionMap \<leftarrow> region_counts state lister siteScoreList [];
        let finalRegion = fst (fold (pick_region (fa_Replicas allocations)) (visit regionMap) ([], 0));
        if finalRegion = [] then Some ([], NewStatus Code_Unschedulable [''region Capability cannot meet the needs''])
        else Some (case map_of regionMap finalRegion of None \<Rightarrow> [] | Some m \<Rightarrow> rm_siteScoreList m, None) })"

section \<open>locationandoperator\<close>

definition locationEqual :: "Stack \<Rightarrow> SiteCacheInfo \<Rightarrow> (bool \<times> status) option" where
  "locationEqual stack info =
     (let want = sel_GeoLocation (stk_Selector stack);
          differs = (\<lambda>f site. f want \<noteq> [] \<and> f want \<noteq> f (site_GeoLocation site));
          reject = (\<lambda>msg. Some (False, NewStatus Code_Unschedulable [msg]))
      in if Country want = [] \<and> Area want = [] \<and> Province want = [] \<and> City want = [] then Some (True, None)
         else do {
           site \<leftarrow> sci_Site info;
           if differs Country site then reject ''stack country not equal site county.''
           else if differs Area site then reject ''stack area not equal site area.''
           else if differs Province site then reject ''stack province not equal site province.''
           else if differs City site then reject ''stack city not equal site city.''
           else Some (True, None) })"

definition LocationAndOperator_Filter :: "Stack \<Rightarrow> SiteCacheInfo \<Rightarrow> status option" where
  "LocationAndOperator_Filter stack info = do {
     (ok, status) \<leftarrow> locationEqual stack info;
     if \<not> ok then Some status
     else if sel_Operator (stk_Selector stack) \<noteq> [] then do {
       site \<leftarrow> sci_Site info;
       if sel_Operator (stk_Selector stack) \<noteq> Operator site
       then Some (NewStatus Code_Unschedulable [''stack operator not equal site operator.''])
       else Some None }
     else Some None }"

fun max_counts :: "CycleState \<Rightarrow> SiteScore list \<Rightarrow> int" where
  "max_counts state [] = 0"
| "max_counts state (siteScore # rest) =
     (case GetSiteSelectorState state (ss_SiteID siteScore) of
        Inl err \<Rightarrow> max_counts state rest
      | Inr selectorInfo \<Rightarrow> StackMaxCount selectorInfo + max_counts state rest)"

text \<open>The loop of the centralized strategy: fill the sites in their order.\<close>

fun centralize :: "CycleState \<Rightarrow> int \<Rightarrow> SiteScore list \<Rightarrow> SiteScore list" where
  "centralize state cnt [] = []"
| "centralize state cnt (siteScore # rest) =
     (case GetSiteSelectorState state (ss_SiteID siteScore) of
        Inl err \<Rightarrow> centralize state cnt rest
      | Inr selectorInfo \<Rightarrow>
          let stackCount = min cnt (StackMaxCount selectorInfo);
              siteScore = siteScore\<lparr>ss_StackCount := stackCount\<rparr>;
              cnt = cnt - stackCount
          in if cnt \<le> 0 then [siteScore] else siteScore # centralize state cnt rest)"

text \<open>
  The share of a site in the other strategy: its part of the count, rounded half up, at least 1 and at most its own
  maximum. With at least one replica \<open>totalCount\<close> is positive here; with none and a total of 0 the code computes 0/0,
  which is not modelled.
\<close>

definition share :: "int \<Rightarrow> int \<Rightarrow> int \<Rightarrow> int" where
  "share cnt totalCount maxCount = min (max \<lfloor>of_int cnt * of_int maxCount / (of_int totalCount :: rat) + 1/2\<rfloor> 1) maxCount"

fun discrete :: "CycleState \<Rightarrow> int \<Rightarrow> int \<Rightarrow> int \<Rightarrow> SiteScore list \<Rightarrow> SiteScore list" where
  "discrete state cnt totalCount currentCount [] = []"
| "discrete state cnt totalCount currentCount (siteScore # rest) =
     (case GetSiteSelectorState state (ss_SiteID siteScore) of
        Inl err \<Rightarrow> discrete state cnt totalCount currentCount rest
      | Inr selectorInfo \<Rightarrow>
          let stackCount = share cnt totalCount (StackMaxCount selectorInfo);
              siteScore = siteScore\<lparr>ss_StackCount := stackCount\<rparr>;
              currentCount = currentCount - stackCount
          in if currentCount \<le> 0 then [siteScore] else siteScore # discrete state cnt totalCount currentCount rest)"

definition LocationAndOperator_Strategy :: "CycleState \<Rightarrow> FwAllocation \<Rightarrow> SiteScore list \<Rightarrow> (SiteScore list \<times> status) option" where
  "LocationAndOperator_Strategy state allocations siteScoreList =
     (let cnt = fa_Replicas allocations; totalCount = max_counts state siteScoreList
      in if cnt > totalCount then Some ([], NewStatus Code_Unschedulable [''not find host''])
         else if LocationStrategy (sel_Strategy (fa_Selector allocations)) = ''centralize''
         then Some (centralize state cnt siteScoreList, None)
         else Some (discrete state cnt totalCount cnt siteScoreList, None))"

section \<open>exclusivesite\<close>

text \<open>\<open>domainID\<close> is the value of the context. The attributes after the first with the key are not looked at.\<close>

fun exclusive_loop :: "string \<Rightarrow> SiteAttribute list \<Rightarrow> status" where
  "exclusive_loop domainID [] = None"
| "exclusive_loop domainID (siteAttr # rest) =
     (if sa_Key siteAttr = ''exclusive_domains''
      then (if domainID \<in> set (strings_Split (sa_Value siteAttr) '','')
            then NewStatus Code_Unschedulable [''site is exclusive site.''] else None)
      else exclusive_loop domainID rest)"

definition ExclusiveSite_Filter :: "string \<Rightarrow> Stack \<Rightarrow> SiteCacheInfo \<Rightarrow> status option" where
  "ExclusiveSite_Filter domainID stack info = do {
     site \<leftarrow> sci_Site info;
     Some (exclusive_loop domainID (site_SiteAttribute site)) }"

section \<open>network\<close>

definition EipAvailability_Filter :: "Stack \<Rightarrow> SiteCacheInfo \<Rightarrow> status option" where
  "EipAvailability_Filter stack info =
     (let eipCount = sum_list (map Count (filter NeedEip (Resources stack)))
      in if eipCount \<le> 0 then Some None else Some None)"

section \<open>stackaffinity\<close>

text \<open>\<open>srt\<close> is the sort of \<open>Selector.Add\<close>. A failing requirement is an error.\<close>

fun affinity_selector :: "(Requirement list \<Rightarrow> Requirement list) \<Rightarrow> LabelRequirement list \<Rightarrow> LabelSelector \<Rightarrow>
    (FwStatus + LabelSelector) option" where
  "affinity_selector srt [] sel = Some (Inr sel)"
| "affinity_selector srt (aff # affs) sel =
     (case NewRequirement (lr_Key aff) (lr_Operator aff) (StrValues aff) of
        Inl err \<Rightarrow> Some (Inl \<lparr>st_code = Code_Error, st_reasons = [''requirement failed.'']\<rparr>)
      | Inr r \<Rightarrow> do {
          sel \<leftarrow> Selector_Add srt sel [r];
          affinity_selector srt affs sel })"

definition getAffinityScore :: "(Requirement list \<Rightarrow> Requirement list) \<Rightarrow> Stack \<Rightarrow> SiteCacheInfo \<Rightarrow> (int \<times> status) option" where
  "getAffinityScore srt stack info = do {
     res \<leftarrow> affinity_selector srt (StackAffinity (stk_Selector stack)) NewSelector;
     case res of
       Inl e \<Rightarrow> Some (0, Some e)
     | Inr sel \<Rightarrow>
         if length (sci_stacks info) = 0 \<or> Selector_Empty sel then Some (0, None)
         else Some (if list_ex (\<lambda>s. Selector_Matches sel (Labels s)) (sci_stacks info) then MaxSiteScore else 0, None) }"

definition getAntiAffinityScore :: "(Requirement list \<Rightarrow> Requirement list) \<Rightarrow> Stack \<Rightarrow> SiteCacheInfo \<Rightarrow> (int \<times> status) option" where
  "getAntiAffinityScore srt stack info = do {
     res \<leftarrow> affinity_selector srt (StackAntiAffinity (stk_Selector stack)) NewSelector;
     case res of
       Inl e \<Rightarrow> Some (0, Some e)
     | Inr sel \<Rightarrow>
         if length (sci_stacks info) = 0 \<or> Selector_Empty sel then Some (MaxSiteScore, None)
         else Some (if list_ex (\<lambda>s. Selector_Matches sel (Labels s)) (sci_stacks info) then 0 else MaxSiteScore, None) }"

definition StackAffinity_Score :: "(Requirement list \<Rightarrow> Requirement list) \<Rightarrow> Stack \<Rightarrow> SiteCacheInfo \<Rightarrow> (int \<times> status) option" where
  "StackAffinity_Score srt stack info =
     (if sci_Site info = None then Some (0, NewStatus Code_Error [''site not found''])
      else do {
        (affinityScore, status) \<leftarrow> getAffinityScore srt stack info;
        if status \<noteq> None then Some (0, status)
        else do {
          (antiaffinityScore, status) \<leftarrow> getAntiAffinityScore srt stack info;
          if status \<noteq> None then Some (0, status)
          else Some (go_quot (affinityScore + antiaffinityScore) 2, None) } })"
section \<open>Lemmas on the strategies\<close>

text \<open>The maximum of a site, when the cycle has one; the region of a site, when the snapshot has the site.\<close>

definition max_count :: "CycleState \<Rightarrow> SiteScore \<Rightarrow> int option" where
  "max_count state s = (case GetSiteSelectorState state (ss_SiteID s) of Inl _ \<Rightarrow> None | Inr i \<Rightarrow> Some (StackMaxCount i))"

definition region_of :: "(string \<rightharpoonup> SiteCacheInfo) \<Rightarrow> SiteScore \<Rightarrow> string option" where
  "region_of lister s = do {
     info \<leftarrow> lister (ss_SiteID s);
     site \<leftarrow> sci_Site info;
     Some (Region (site_RegionAzMap site)) }"

definition counts_nonneg :: "CycleState \<Rightarrow> SiteScore list \<Rightarrow> bool" where
  "counts_nonneg state l \<longleftrightarrow> list_all (\<lambda>s. case max_count state s of None \<Rightarrow> True | Some n \<Rightarrow> 0 \<le> n) l"

lemma max_count_StackCount [simp]: "max_count state (s\<lparr>ss_StackCount := k\<rparr>) = max_count state s"
  by (simp add: max_count_def)

lemma region_of_StackCount [simp]: "region_of lister (s\<lparr>ss_StackCount := k\<rparr>) = region_of lister s"
  by (simp add: region_of_def)

lemma counts_nonneg_simps [simp]:
  "counts_nonneg state []"
  "counts_nonneg state (s # l) \<longleftrightarrow> (\<forall>n. max_count state s = Some n \<longrightarrow> 0 \<le> n) \<and> counts_nonneg state l"
  by (auto simp: counts_nonneg_def split: option.splits)

lemma counts_nonneg_filter: "counts_nonneg state l \<Longrightarrow> counts_nonneg state (filter P l)"
  by (induction l) auto

lemma max_counts_Cons: "max_counts state (s # l) = (case max_count state s of None \<Rightarrow> 0 | Some n \<Rightarrow> n) + max_counts state l"
  by (simp add: max_count_def split: sum.splits)

lemma max_counts_append [simp]: "max_counts state (l @ l') = max_counts state l + max_counts state l'"
  by (induction l) (auto split: sum.splits)

lemma centralize_Cons:
  "centralize state cnt (s # l) =
     (case max_count state s of
        None \<Rightarrow> centralize state cnt l
      | Some n \<Rightarrow> if cnt - min cnt n \<le> 0 then [s\<lparr>ss_StackCount := min cnt n\<rparr>]
                  else s\<lparr>ss_StackCount := min cnt n\<rparr> # centralize state (cnt - min cnt n) l)"
  by (simp add: max_count_def Let_def split: sum.splits)

lemmas strategy_rec [simp del] = max_counts.simps(2) centralize.simps(2)

lemma centralize_sum:
  "\<lbrakk>counts_nonneg state l; 0 \<le> cnt; cnt \<le> max_counts state l\<rbrakk> \<Longrightarrow> sum_list (map ss_StackCount (centralize state cnt l)) = cnt"
proof (induction l arbitrary: cnt)
  case (Cons s l)
  show ?case
  proof (cases "max_count state s")
    case None
    then show ?thesis using Cons by (simp add: centralize_Cons max_counts_Cons)
  next
    case (Some n)
    have "cnt - n \<le> max_counts state l"
      using Cons.prems(3) Some by (simp add: max_counts_Cons)
    then show ?thesis
      using Cons.IH [of "cnt - n"] Cons.prems Some
      by (auto simp: centralize_Cons min_def)
  qed
qed simp

lemma centralize_sites:
  "\<lbrakk>counts_nonneg state l; 0 \<le> cnt; x \<in> set (centralize state cnt l)\<rbrakk> \<Longrightarrow>
     \<exists>s \<in> set l. \<exists>n. max_count state s = Some n \<and> x = s\<lparr>ss_StackCount := ss_StackCount x\<rparr> \<and> 0 \<le> ss_StackCount x \<and> ss_StackCount x \<le> n"
proof (induction l arbitrary: cnt)
  case (Cons s l)
  show ?case
  proof (cases "x \<in> set (centralize state cnt l) \<and> max_count state s = None
      \<or> (\<exists>n. max_count state s = Some n \<and> min cnt n < cnt \<and> x \<in> set (centralize state (cnt - min cnt n) l))")
    case True
    then show ?thesis
    proof
      assume "x \<in> set (centralize state cnt l) \<and> max_count state s = None"
      then have "x \<in> set (centralize state cnt l)" ..
      then show ?thesis using Cons.IH [of cnt] Cons.prems by (metis counts_nonneg_simps(2) list.set_intros(2))
    next
      assume "\<exists>n. max_count state s = Some n \<and> min cnt n < cnt \<and> x \<in> set (centralize state (cnt - min cnt n) l)"
      then obtain n where "min cnt n < cnt" "x \<in> set (centralize state (cnt - min cnt n) l)" by blast
      then show ?thesis
        using Cons.IH [of "cnt - min cnt n"] Cons.prems by (metis counts_nonneg_simps(2) diff_ge_0_iff_ge less_imp_le list.set_intros(2))
    qed
  next
    case False
    then obtain n where n: "max_count state s = Some n" "x = s\<lparr>ss_StackCount := min cnt n\<rparr>"
      using Cons.prems(3) by (auto simp: centralize_Cons split: option.splits if_splits)
    then have "x = s\<lparr>ss_StackCount := ss_StackCount x\<rparr> \<and> 0 \<le> ss_StackCount x \<and> ss_StackCount x \<le> n"
      using Cons.prems(1,2) by auto
    with n(1) show ?thesis by (meson list.set_intros(1))
  qed
qed simp

text \<open>The entry of a region in the region map, empty when the region is not in it.\<close>

definition region_entry :: "(string \<times> RegionMap) list \<Rightarrow> string \<Rightarrow> int \<times> SiteScore list" where
  "region_entry m r = (case map_of m r of None \<Rightarrow> (0, []) | Some e \<Rightarrow> (rm_count e, rm_siteScoreList e))"

definition region_sites :: "CycleState \<Rightarrow> (string \<rightharpoonup> SiteCacheInfo) \<Rightarrow> string \<Rightarrow> SiteScore list \<Rightarrow> SiteScore list" where
  "region_sites state lister r l = filter (\<lambda>s. max_count state s \<noteq> None \<and> region_of lister s = Some r) l"

lemma region_entry_add:
  "region_entry (region_add r n s m) r' =
     (if r' = r then (fst (region_entry m r) + n, snd (region_entry m r) @ [s]) else region_entry m r')"
  by (induction r n s m rule: region_add.induct) (auto simp: region_entry_def)

lemma region_add_keys: "fst ` set (region_add r n s m) = insert r (fst ` set m)"
  by (induction r n s m rule: region_add.induct) auto

lemma region_add_distinct: "distinct (map fst m) \<Longrightarrow> distinct (map fst (region_add r n s m))"
proof (induction r n s m rule: region_add.induct)
  case (2 region n s r m rest)
  then show ?case
    using region_add_keys [of region n s rest] by (auto simp flip: set_map)
qed simp

lemma region_sites_simps [simp]:
  "region_sites state lister r [] = []"
  "region_sites state lister r (s # l) =
     (if max_count state s \<noteq> None \<and> region_of lister s = Some r then s # region_sites state lister r l
      else region_sites state lister r l)"
  by (simp_all add: region_sites_def)

text \<open>A step of the first loop either skips a site or adds it to its region.\<close>

lemma region_counts_ConsE:
  assumes "region_counts state lister (s # l) m = Some rm"
  obtains (skip) "max_count state s = None \<or> region_of lister s = None" "region_counts state lister l m = Some rm"
    | (add) n r where "max_count state s = Some n" "region_of lister s = Some r" "region_counts state lister l (region_add r n s m) = Some rm"
  using assms by (auto simp: max_count_def region_of_def split: sum.splits option.splits elim!: bind_SomeE)

lemma region_counts_entry:
  "region_counts state lister l m = Some rm \<Longrightarrow>
     region_entry rm r = (fst (region_entry m r) + max_counts state (region_sites state lister r l),
                          snd (region_entry m r) @ region_sites state lister r l)"
proof (induction l arbitrary: m)
  case (Cons s l)
  from Cons.prems show ?case
    by (cases rule: region_counts_ConsE) (auto simp: Cons.IH region_entry_add max_counts_Cons)
qed simp

lemma region_counts_distinct:
  "region_counts state lister l m = Some rm \<Longrightarrow> distinct (map fst m) \<Longrightarrow> distinct (map fst rm)"
proof (induction l arbitrary: m)
  case (Cons s l)
  from Cons.prems(1) show ?case
    by (cases rule: region_counts_ConsE) (auto intro: Cons.IH Cons.prems(2) region_add_distinct)
qed simp

lemma region_counts_keys:
  "region_counts state lister l m = Some rm \<Longrightarrow> fst ` set rm = fst ` set m \<union> {r. region_sites state lister r l \<noteq> []}"
proof (induction l arbitrary: m)
  case (Cons s l)
  from Cons.prems show ?case
  proof (cases rule: region_counts_ConsE)
    case skip
    then show ?thesis using Cons.IH by auto
  next
    case (add n r)
    then show ?thesis using Cons.IH [OF add(3)] by (auto simp: region_add_keys)
  qed
qed simp

text \<open>The second loop chooses a region that can take the replicas, if there is one.\<close>

lemma pick_region_fold:
  assumes "0 < n" "snd b = 0 \<and> fst b = [] \<or> n \<le> snd b"
  shows "(fold (pick_region n) es b = b \<and> (\<forall>e \<in> set es. rm_count (snd e) < n \<or> rm_count (snd e) \<le> snd b))
     \<or> (\<exists>e \<in> set es. fold (pick_region n) es b = (fst e, rm_count (snd e)) \<and> n \<le> rm_count (snd e))"
  using assms(2)
proof (induction es arbitrary: b)
  case (Cons e es)
  show ?case
  proof (cases "rm_count (snd e) < n \<or> rm_count (snd e) \<le> snd b")
    case True
    then have "pick_region n e b = b" by (auto simp: pick_region_def)
    then show ?thesis using Cons.IH [OF Cons.prems] True by simp metis
  next
    case False
    then have "pick_region n e b = (fst e, rm_count (snd e))" by (simp add: pick_region_def)
    then show ?thesis using Cons.IH [of "(fst e, rm_count (snd e))"] False by simp linarith
  qed
qed simp
section \<open>The strategies together\<close>

definition strategies :: "((string \<times> RegionMap) list \<Rightarrow> (string \<times> RegionMap) list) \<Rightarrow> (string \<rightharpoonup> SiteCacheInfo) \<Rightarrow> strategy_plugin list" where
  "strategies visit lister =
     [(''regionandaz'', RegionAndAz_Strategy visit lister), (''LocationAndOperator'', LocationAndOperator_Strategy)]"

text \<open>The snapshot has the site of each info, and the site names its region.\<close>

definition regions_known :: "(string \<rightharpoonup> SiteCacheInfo) \<Rightarrow> SiteScore list \<Rightarrow> bool" where
  "regions_known lister l \<longleftrightarrow>
     list_all (\<lambda>s. lister (ss_SiteID s) \<noteq> None \<longrightarrow> (case region_of lister s of None \<Rightarrow> False | Some r \<Rightarrow> r \<noteq> [])) l"

lemma region_counts_total: "regions_known lister l \<Longrightarrow> \<exists>rm. region_counts state lister l m = Some rm"
  by (induction l arbitrary: m) (auto simp: regions_known_def region_of_def split: sum.splits option.splits bind_splits)

lemma region_sites_known: "regions_known lister l \<Longrightarrow> region_sites state lister r l \<noteq> [] \<Longrightarrow> r \<noteq> []"
  by (induction l) (auto simp: regions_known_def region_of_def split: if_splits option.splits elim!: bind_SomeE)

lemma map_of_fst_snd: "distinct (map fst m) \<Longrightarrow> e \<in> set m \<Longrightarrow> map_of m (fst e) = Some (snd e)"
  by simp

text \<open>What the region strategy returns: all sites of a region that can take the replicas, or nothing.\<close>

lemma RegionAndAz_Strategy_result:
  assumes visit: "\<And>m. mset (visit m) = mset m"
    and known: "regions_known lister l" and n: "0 < fa_Replicas alloc"
    and alone: "RegionStrategy (sel_Strategy (fa_Selector alloc)) = ''alone''"
  shows "(\<exists>r. RegionAndAz_Strategy visit lister state alloc l = Some (region_sites state lister r l, None)
              \<and> fa_Replicas alloc \<le> max_counts state (region_sites state lister r l))
       \<or> (\<exists>e. RegionAndAz_Strategy visit lister state alloc l = Some ([], NewStatus Code_Unschedulable e)
              \<and> (\<forall>r. max_counts state (region_sites state lister r l) < fa_Replicas alloc))"
proof -
  obtain rm where rm: "region_counts state lister l [] = Some rm"
    using region_counts_total [OF known] by blast
  have d: "distinct (map fst rm)" using region_counts_distinct [OF rm] by simp
  have entry: "region_entry rm r = (max_counts state (region_sites state lister r l), region_sites state lister r l)" for r
    using region_counts_entry [OF rm, of r] by (simp add: region_entry_def)
  have ev: "set (visit rm) = set rm" by (rule mset_eq_setD [OF visit])
  have at: "rm_count (snd e) = max_counts state (region_sites state lister (fst e) l)"
    "rm_siteScoreList (snd e) = region_sites state lister (fst e) l" if "e \<in> set rm" for e
    using entry [of "fst e"] map_of_fst_snd [OF d that] by (simp_all add: region_entry_def)
  let ?f = "fold (pick_region (fa_Replicas alloc)) (visit rm) ([], 0)"
  consider (some) e where "e \<in> set rm" "?f = (fst e, rm_count (snd e))" "fa_Replicas alloc \<le> rm_count (snd e)"
    | (none) "?f = ([], 0)" "\<forall>e \<in> set rm. rm_count (snd e) < fa_Replicas alloc"
    using pick_region_fold [OF n, of "([], 0)" "visit rm"] ev n by force
  then show ?thesis
  proof cases
    case some
    have "region_sites state lister (fst e) l \<noteq> []"
      using some(3) n at(1) [OF some(1)] by auto
    then have "fst e \<noteq> []" by (rule region_sites_known [OF known])
    then have "RegionAndAz_Strategy visit lister state alloc l = Some (region_sites state lister (fst e) l, None)"
      using some alone rm at(2) map_of_fst_snd [OF d some(1)] by (simp add: RegionAndAz_Strategy_def)
    then show ?thesis using some at(1) by auto
  next
    case none
    have "max_counts state (region_sites state lister r l) < fa_Replicas alloc" for r
    proof (cases "region_sites state lister r l = []")
      case True then show ?thesis using n by simp
    next
      case False
      then have "r \<in> fst ` set rm" using region_counts_keys [OF rm] by blast
      then show ?thesis using none(2) at(1) by force
    qed
    then show ?thesis using none(1) alone rm by (auto simp: RegionAndAz_Strategy_def)
  qed
qed

text \<open>Two sites of one region and one of another, with room for 2, 3 and 1 stacks.\<close>

definition demo_site_in :: "string \<Rightarrow> SiteCacheInfo" where
  "demo_site_in r = zero_SiteCacheInfo\<lparr>sci_Site := Some (zero_Site\<lparr>site_RegionAzMap := \<lparr>Region = r, AvailabilityZone = []\<rparr>\<rparr>)\<rparr>"

definition demo_lister :: "string \<rightharpoonup> SiteCacheInfo" where
  "demo_lister = map_of [(''a'', demo_site_in ''north''), (''b'', demo_site_in ''south''), (''c'', demo_site_in ''north'')]"

definition demo_room :: "(string \<times> int) list \<Rightarrow> CycleState" where
  "demo_room rooms = [SiteTempSelectorKey \<mapsto> SiteSelectorInfos (map_of (map (\<lambda>(i, n). (i, zero_SiteSelectorInfo\<lparr>StackMaxCount := n\<rparr>)) rooms))]"

definition demo_scores :: "string list \<Rightarrow> SiteScore list" where
  "demo_scores ids = map (\<lambda>i. zero_SiteScore\<lparr>ss_SiteID := i\<rparr>) ids"

definition demo_alloc :: "string \<Rightarrow> string \<Rightarrow> int \<Rightarrow> FwAllocation" where
  "demo_alloc loc reg n = \<lparr>fa_ID = ''id'', fa_Stack = zero_Stack,
     fa_Selector = zero_Selector\<lparr>sel_Strategy := \<lparr>LocationStrategy = loc, RegionStrategy = reg\<rparr>\<rparr>, fa_Replicas = n\<rparr>"

lemmas demo_placement_defs = demo_site_in_def demo_lister_def demo_room_def demo_scores_def demo_alloc_def zero_SiteScore_def
  zero_SiteSelectorInfo_def GetSiteSelectorState_def CycleState_Read_def


text \<open>
  The other location strategy rounds each share on its own: it may give out fewer stacks than there are replicas
  although there is room for all of them, and more than there are replicas.
\<close>

lemma demo_shares: "share 7 10 2 = 1" "share 5 6 3 = 3"
proof -
  have "\<lfloor>19 / 10 :: rat\<rfloor> = 1" "\<lfloor>3 :: rat\<rfloor> = 3" by (simp_all add: floor_eq_iff)
  then show "share 7 10 2 = 1" "share 5 6 3 = 3" by (simp_all add: share_def)
qed

lemma discrete_shares_too_few:
  "map_option (\<lambda>r. sum_list (map ss_StackCount (fst r)))
     (LocationAndOperator_Strategy (demo_room [(''a'', 2), (''b'', 2), (''c'', 2), (''d'', 2), (''e'', 2)])
        (demo_alloc ''discrete'' '''' 7) (demo_scores [''a'', ''b'', ''c'', ''d'', ''e''])) = Some 5"
  by (simp add: LocationAndOperator_Strategy_def max_counts.simps demo_shares demo_placement_defs)

lemma discrete_shares_too_many:
  "map_option (\<lambda>r. sum_list (map ss_StackCount (fst r)))
     (LocationAndOperator_Strategy (demo_room [(''a'', 3), (''b'', 3)])
        (demo_alloc ''discrete'' '''' 5) (demo_scores [''a'', ''b''])) = Some 6"
  by (simp add: LocationAndOperator_Strategy_def max_counts.simps demo_shares demo_placement_defs)

section \<open>The other placement plugins\<close>

text \<open>A site whose attribute lists the domain is the one that the domain may not use.\<close>

lemma exclusive_domain_rejected:
  assumes "sci_Site info = Some site"
    and "site_SiteAttribute site = [\<lparr>sa_ID = i, sa_Key = ''exclusive_domains'', sa_Value = v\<rparr>]"
  shows "ExclusiveSite_Filter d stack info =
    Some (if d \<in> set (strings_Split v '','') then NewStatus Code_Unschedulable [''site is exclusive site.''] else None)"
  using assms by (simp add: ExclusiveSite_Filter_def)

text \<open>A site that passes the region filter is in one of the regions that the stack names, and in one of its zones.\<close>

lemma RegionAndAz_Filter_sound:
  assumes "sci_Site info = Some site"
  shows "RegionAndAz_Filter stack info = Some None \<longleftrightarrow>
    Regions (stk_Selector stack) = [] \<or>
    (\<exists>r \<in> set (Regions (stk_Selector stack)).
       (cr_Region r = [] \<or> cr_Region r = Region (site_RegionAzMap site)) \<and>
       (cr_AvailabilityZone r = [] \<or> AvailabilityZone (site_RegionAzMap site) \<in> set (cr_AvailabilityZone r)))"
proof -
  have eq: "regionEqual r info = Some ((cr_Region r = [] \<or> cr_Region r = Region (site_RegionAzMap site)) \<and>
      (cr_AvailabilityZone r = [] \<or> AvailabilityZone (site_RegionAzMap site) \<in> set (cr_AvailabilityZone r)))" for r
    using assms by (auto simp: regionEqual_def)
  have "any_region rs info = Some (\<exists>r \<in> set rs. (cr_Region r = [] \<or> cr_Region r = Region (site_RegionAzMap site)) \<and>
      (cr_AvailabilityZone r = [] \<or> AvailabilityZone (site_RegionAzMap site) \<in> set (cr_AvailabilityZone r)))" for rs
    by (induction rs) (auto simp: eq)
  then show ?thesis by (simp add: RegionAndAz_Filter_def NewStatus_def)
qed

lemma StackAffinity_Score_range:
  "StackAffinity_Score srt stack info = Some (s, status) \<Longrightarrow> 0 \<le> s \<and> s \<le> 100"
  by (auto simp: StackAffinity_Score_def getAffinityScore_def getAntiAffinityScore_def
      split: if_splits sum.splits elim!: bind_SomeE)

end
