(* ===== verification/FlavorPlugin.thy ===== *)
theory FlavorPlugin
  imports Framework
begin

text \<open>
  The flavor plugin, \<open>pkg/scheduler/framework/plugins/flavor/flavor.go\<close>. Each resource of a stack names the flavors
  it can use, in the order of preference; the pre-filter enumerates all choices of one flavor per resource, and the
  filter and the score look for the first choice that the site can serve. A map is ranged over in the order of a
  list of its keys.
\<close>

section \<open>The enumeration of choices\<close>

text \<open>The loop of \<open>nextIndex\<close> over the positions \<open>j - 1, ..., 0\<close>.\<close>

fun nextIndex_loop :: "(nat \<Rightarrow> nat) \<Rightarrow> nat \<Rightarrow> nat list \<Rightarrow> nat list" where
  "nextIndex_loop lens 0 ix = ix"
| "nextIndex_loop lens (Suc j) ix =
     (let k = Suc (ix ! j)
      in if j = 0 \<or> k < lens j then ix[j := k] else nextIndex_loop lens j (ix[j := 0]))"

definition nextIndex :: "nat list \<Rightarrow> (nat \<Rightarrow> nat) \<Rightarrow> nat list" where
  "nextIndex ix lens = nextIndex_loop lens (length ix) ix"

abbreviation (input) BaseWeight :: int where "BaseWeight \<equiv> 10"

text \<open>The body of the loop of \<open>calculateFlavorAggregate\<close>: the aggregate of one choice; \<open>j\<close> is the position.\<close>

fun flavor_aggregate :: "Resource list \<Rightarrow> nat \<Rightarrow> nat list \<Rightarrow> FlavorAggregate option" where
  "flavor_aggregate rs j [] = Some \<lparr>agg_Flavors = [], agg_Weight = 0\<rparr>"
| "flavor_aggregate rs j (k # ks) = do {
     r \<leftarrow> go_index rs j;
     flv \<leftarrow> go_index (Flavors r) k;
     rest \<leftarrow> flavor_aggregate rs (Suc j) ks;
     Some \<lparr>agg_Flavors = \<lparr>sf_Flavor = flv, sf_Count = Count r\<rparr> # agg_Flavors rest,
           agg_Weight = BaseWeight div (int k + 1) + agg_Weight rest\<rparr> }"

definition flavor_lens :: "Resource list \<Rightarrow> nat \<Rightarrow> nat" where
  "flavor_lens rs i = (if i < length rs then length (Flavors (rs ! i)) else 0)"

subsection \<open>Mixed radix numbers\<close>

text \<open>The digits of a number, most significant first, where the digit at a position counts up to its length.\<close>

fun digits :: "nat list \<Rightarrow> nat \<Rightarrow> nat list" where
  "digits [] v = []"
| "digits (l # ls) v = v div prod_list ls # digits ls (v mod prod_list ls)"

fun digits_val :: "nat list \<Rightarrow> nat list \<Rightarrow> nat" where
  "digits_val (l # ls) (i # is) = i * prod_list ls + digits_val ls is"
| "digits_val _ _ = 0"

lemma length_digits [simp]: "length (digits ls v) = length ls"
  by (induction ls arbitrary: v) auto

lemma digits_0: "digits ls 0 = replicate (length ls) 0"
  by (induction ls) auto

lemma digits_val_less: "list_all2 (<) is ls \<Longrightarrow> digits_val ls is < prod_list ls"
proof (induction "is" ls rule: list_all2_induct)
  case (Cons i "is" l ls)
  have "i * prod_list ls + digits_val ls is < Suc i * prod_list ls" using Cons by simp
  also have "\<dots> \<le> l * prod_list ls" using Cons(1) by (intro mult_le_mono1) simp
  finally show ?case by simp
qed simp

lemma digits_digits_val: "list_all2 (<) is ls \<Longrightarrow> digits ls (digits_val ls is) = is"
proof (induction "is" ls rule: list_all2_induct)
  case (Cons i "is" l ls)
  then show ?case using digits_val_less [OF Cons(2)] by simp
qed simp

lemma digits_snoc: "ls \<noteq> [] \<Longrightarrow> digits (ls @ [l]) v = digits ls (v div l) @ [v mod l]"
proof (induction ls arbitrary: v)
  case (Cons a ls)
  show ?case
  proof (cases "ls = []")
    case False
    have "v mod (prod_list ls * l) div l = v div l mod prod_list ls"
      by (cases "l = 0") (simp_all add: mult.commute [of _ l] mod_mult2_eq)
    moreover have "v mod (prod_list ls * l) mod l = v mod l"
      by (simp add: mod_mod_cancel)
    ultimately show ?thesis
      using Cons.IH [OF False] by (simp add: div_mult2_eq mult.commute [of _ l])
  qed simp
qed simp

lemma nextIndex_loop_append: "j \<le> length xs \<Longrightarrow> nextIndex_loop lens j (xs @ ys) = nextIndex_loop lens j xs @ ys"
  by (induction lens j xs rule: nextIndex_loop.induct) (auto simp: nth_append list_update_append Let_def)

text \<open>\<open>nextIndex\<close> adds one to the number; the first digit is not bounded.\<close>

lemma nextIndex_loop_digits:
  assumes "ls \<noteq> []" "list_all ((<) 0) ls" "\<And>j. j < length ls \<Longrightarrow> lens j = ls ! j"
  shows "nextIndex_loop lens (length ls) (digits ls v) = digits ls (Suc v)"
  using assms
proof (induction ls arbitrary: v rule: rev_induct)
  case (snoc l ls)
  show ?case
  proof (cases "ls = []")
    case False
    have l: "0 < l" "lens (length ls) = l" using snoc.prems by (auto simp: nth_append)
    have IH: "nextIndex_loop lens (length ls) (digits ls w) = digits ls (Suc w)" for w
      using snoc.IH [OF False] snoc.prems by (fastforce simp: nth_append)
    have "nextIndex_loop lens (length ls) (digits ls (v div l) @ [0]) = digits ls (Suc (v div l)) @ [0]"
      by (simp add: nextIndex_loop_append IH)
    moreover have "Suc (v mod l) \<le> l" using l(1) by (simp add: Suc_leI)
    ultimately show ?thesis
      using l False by (auto simp: digits_snoc nth_append list_update_append mod_Suc div_Suc Let_def)
  qed simp
qed simp

text \<open>The enumeration in lexicographic order.\<close>

lemma upt_mult: "[0..<l * m] = concat (map (\<lambda>x. map (\<lambda>y. x * m + y) [0..<m]) [0..<l])" for l m :: nat
proof (induction l)
  case (Suc l)
  have "[0..<Suc l * m] = [0..<l * m] @ [l * m..<l * m + m]"
    by (metis add.commute le_add1 mult_Suc upt_add_eq_append zero_le)
  also have "[l * m..<l * m + m] = map (\<lambda>y. l * m + y) [0..<m]"
    by (simp add: map_add_upt [symmetric] add.commute)
  finally show ?case using Suc by simp
qed simp

lemma digits_enumerate:
  "list_all ((<) 0) ls \<Longrightarrow> map (digits ls) [0..<prod_list ls] = product_lists (map (\<lambda>l. [0..<l]) ls)"
proof (induction ls)
  case (Cons l ls)
  have row: "map (digits (l # ls)) (map (\<lambda>y. x * prod_list ls + y) [0..<prod_list ls]) =
      map ((#) x) (map (digits ls) [0..<prod_list ls])" for x
    by simp
  have "map (digits (l # ls)) [0..<prod_list (l # ls)] =
      concat (map (\<lambda>x. map (digits (l # ls)) (map (\<lambda>y. x * prod_list ls + y) [0..<prod_list ls])) [0..<l])"
    by (simp add: upt_mult map_concat comp_def del: digits.simps)
  also have "\<dots> = concat (map (\<lambda>x. map ((#) x) (map (digits ls) [0..<prod_list ls])) [0..<l])"
    by (simp only: row)
  also have "\<dots> = product_lists (map (\<lambda>l. [0..<l]) (l # ls))"
    using Cons by (simp del: map_map)
  finally show ?case .
qed simp

section \<open>The pre-filter\<close>

lemma flavor_aggregate_SomeD:
  "flavor_aggregate rs j ix = Some a \<Longrightarrow> j + length ix \<le> length rs \<or> ix = []"
  "flavor_aggregate rs j ix = Some a \<Longrightarrow> k < length ix \<Longrightarrow> ix ! k < length (Flavors (rs ! (j + k)))"
  by (induction rs j ix arbitrary: a k rule: flavor_aggregate.induct)
    (fastforce simp: panic_simps nth_Cons' less_Suc_eq_0_disj elim!: bind_SomeE)+

text \<open>The lengths of the choices that an index list ranges over.\<close>

definition choice_lens :: "Resource list \<Rightarrow> nat list" where
  "choice_lens rs = map (\<lambda>r. length (Flavors r)) rs"

lemma next_choice:
  assumes "flavor_aggregate rs 0 ix = Some a" "ix \<noteq> []"
  defines "ls \<equiv> choice_lens (take (length ix) rs)"
  shows "ix = digits ls (digits_val ls ix)" "digits_val ls ix < prod_list ls"
    and "nextIndex ix (flavor_lens rs) = digits ls (Suc (digits_val ls ix))"
proof -
  have len: "length ix \<le> length rs" using flavor_aggregate_SomeD(1) [OF assms(1)] assms(2) by simp
  have rel: "list_all2 (<) ix ls"
    using flavor_aggregate_SomeD(2) [OF assms(1)] len
    by (auto simp: list_all2_conv_all_nth ls_def choice_lens_def)
  show ix: "ix = digits ls (digits_val ls ix)" by (simp add: digits_digits_val [OF rel])
  show "digits_val ls ix < prod_list ls" by (rule digits_val_less [OF rel])
  have pos: "list_all ((<) 0) ls" using rel by (auto simp: list_all2_conv_all_nth list_all_length)
  have lens: "flavor_lens rs j = ls ! j" if "j < length ls" for j
    using that len by (simp add: flavor_lens_def ls_def choice_lens_def)
  have "length ix = length ls" "ls \<noteq> []" using len assms(2) by (auto simp: ls_def choice_lens_def)
  then show "nextIndex ix (flavor_lens rs) = digits ls (Suc (digits_val ls ix))"
    using nextIndex_loop_digits [OF _ pos lens] ix by (metis nextIndex_def)
qed

lemma digits_val_digits: "v < prod_list ls \<Longrightarrow> digits_val ls (digits ls v) = v"
proof (induction ls arbitrary: v)
  case (Cons l ls)
  have "prod_list ls > 0" using Cons.prems by (cases "prod_list ls") auto
  then show ?case using Cons.IH [of "v mod prod_list ls"] by simp
qed simp

lemma digits_val_digits_Suc:
  assumes "v < prod_list ls" "ls \<noteq> []"
  shows "digits_val ls (digits ls (Suc v)) = Suc v"
proof -
  obtain l ls' where ls: "ls = l # ls'" using assms(2) by (cases ls) auto
  have "0 < prod_list ls'" using assms(1) ls by (cases "prod_list ls'") auto
  then have "digits_val ls' (digits ls' (Suc v mod prod_list ls')) = Suc v mod prod_list ls'"
    by (simp add: digits_val_digits)
  then show ?thesis by (simp add: ls del: mod_Suc div_Suc)
qed

function aggregate_loop :: "Resource list \<Rightarrow> nat list \<Rightarrow> FlavorAggregate list option" where
  "aggregate_loop rs ix = do {
     i \<leftarrow> go_index ix 0;
     r \<leftarrow> go_index rs 0;
     if i < length (Flavors r) then
       (case flavor_aggregate rs 0 ix of
          None \<Rightarrow> None
        | Some temp \<Rightarrow> map_option ((#) temp) (aggregate_loop rs (nextIndex ix (flavor_lens rs))))
     else Some [] }"
  by pat_completeness auto
termination
proof (relation "measure (\<lambda>(rs, ix). let ls = choice_lens (take (length ix) rs) in prod_list ls - digits_val ls ix)")
  fix rs ix i r temp
  assume ix0: "go_index ix 0 = Some i" and a: "flavor_aggregate rs 0 ix = Some temp"
  let ?ls = "choice_lens (take (length ix) rs)"
  have ix: "ix \<noteq> []" using ix0 by (auto simp: panic_simps)
  note n = next_choice [OF a ix]
  have len: "length (nextIndex ix (flavor_lens rs)) = length ix"
    using n(1,3) by (metis length_digits)
  have "?ls \<noteq> []" using n(1) ix by (metis length_digits length_0_conv)
  then have "digits_val ?ls (nextIndex ix (flavor_lens rs)) = Suc (digits_val ?ls ix)"
    using n digits_val_digits_Suc by metis
  then show "((rs, nextIndex ix (flavor_lens rs)), rs, ix)
      \<in> measure (\<lambda>(rs, ix). let ls = choice_lens (take (length ix) rs) in prod_list ls - digits_val ls ix)"
    using n(2) len by (simp add: Let_def)
qed simp

declare aggregate_loop.simps [simp del]

definition calculateFlavorAggregate :: "Stack \<Rightarrow> FlavorAggregate list option" where
  "calculateFlavorAggregate stack = aggregate_loop (Resources stack) (replicate (length (Resources stack)) 0)"

text \<open>The reference: the aggregate of a choice, and all choices in lexicographic order.\<close>

definition choice :: "Resource list \<Rightarrow> nat list \<Rightarrow> FlavorAggregate" where
  "choice rs ix =
     \<lparr>agg_Flavors = map (\<lambda>(r, k). \<lparr>sf_Flavor = Flavors r ! k, sf_Count = Count r\<rparr>) (zip rs ix),
      agg_Weight = (\<Sum>k \<leftarrow> ix. BaseWeight div (int k + 1))\<rparr>"

definition all_choices :: "Resource list \<Rightarrow> FlavorAggregate list" where
  "all_choices rs = map (choice rs) (product_lists (map (\<lambda>r. [0..<length (Flavors r)]) rs))"

lemma flavor_aggregate_choice:
  assumes "list_all2 (<) ix (choice_lens rs)"
  shows "flavor_aggregate (ps @ rs) (length ps) ix = Some (choice rs ix)"
  using assms
proof (induction rs arbitrary: ps ix)
  case Nil
  then show ?case by (simp add: choice_lens_def choice_def)
next
  case (Cons r rs)
  then obtain k ks where ix: "ix = k # ks" "k < length (Flavors r)" "list_all2 (<) ks (choice_lens rs)"
    by (auto simp: choice_lens_def list_all2_Cons2)
  then show ?case
    using Cons.IH [of ks "ps @ [r]"] by (simp add: panic_simps choice_def)
qed
lemma choice_lens_Cons: "choice_lens (r # rs) = length (Flavors r) # choice_lens rs"
  by (simp add: choice_lens_def)

lemma digits_bounded: "v < prod_list ls \<Longrightarrow> list_all2 (<) (digits ls v) ls"
proof (induction ls arbitrary: v)
  case (Cons l ls)
  then show ?case
    by (cases "prod_list ls = 0") (auto simp: less_mult_imp_div_less)
qed simp

lemma aggregate_loop_from:
  assumes "rs \<noteq> []" and pos: "list_all ((<) 0) (choice_lens rs)" and "v \<le> prod_list (choice_lens rs)"
  shows "aggregate_loop rs (digits (choice_lens rs) v) =
    Some (map (\<lambda>w. choice rs (digits (choice_lens rs) w)) [v..<prod_list (choice_lens rs)])"
  using assms(3)
proof (induction v rule: inc_induct)
  let ?ls = "choice_lens rs"
  obtain r rs' where rs: "rs = r # rs'" using assms(1) by (cases rs) auto
  then have ls: "?ls = length (Flavors r) # choice_lens rs'" by (simp add: choice_lens_def)
  have P: "0 < prod_list (choice_lens rs')"
    using pos unfolding ls by (induction "choice_lens rs'" rule: list.induct) (auto simp: list_all_iff prod_list_zero_iff intro!: Nat.gr0I)
  { case base
    show ?case by (subst aggregate_loop.simps) (use P in \<open>simp add: rs choice_lens_Cons panic_simps\<close>) }
  { case (step v)
    have agg: "flavor_aggregate rs 0 (digits ?ls v) = Some (choice rs (digits ?ls v))"
      using flavor_aggregate_choice [OF digits_bounded [OF step(2)], of "[]"] by simp
    have ne: "digits ?ls v \<noteq> []" "?ls \<noteq> []" using ls by auto
    have nxt: "nextIndex (digits ?ls v) (flavor_lens rs) = digits ?ls (Suc v)"
      using nextIndex_loop_digits [OF ne(2) pos, of "flavor_lens rs" v]
      by (simp add: nextIndex_def flavor_lens_def choice_lens_def)
    have "digits ?ls v ! 0 < length (Flavors r)"
      using digits_bounded [OF step(2)] by (simp add: ls)
    then show ?case
      using step agg ne nxt rs by (subst aggregate_loop.simps) (simp add: panic_simps upt_rec [of v]) }
qed

lemma choice_lens_digits_0: "digits (choice_lens rs) 0 = replicate (length rs) 0"
  by (simp add: digits_0 choice_lens_def)

text \<open>
  The enumeration: all choices in lexicographic order when every resource names a flavor; none when the first
  resource names no flavor; and a panic when there is no resource, or a later one names no flavor.
\<close>

lemma calculateFlavorAggregate_choices:
  assumes "Resources stack \<noteq> []" "\<forall>r \<in> set (Resources stack). Flavors r \<noteq> []"
  shows "calculateFlavorAggregate stack = Some (all_choices (Resources stack))"
proof -
  let ?rs = "Resources stack" and ?ls = "choice_lens (Resources stack)"
  have pos: "list_all ((<) 0) ?ls" using assms(2) by (simp add: choice_lens_def list_all_iff)
  have "calculateFlavorAggregate stack = Some (map (choice ?rs) (map (digits ?ls) [0..<prod_list ?ls]))"
    using aggregate_loop_from [OF assms(1) pos, of 0]
    by (simp add: calculateFlavorAggregate_def choice_lens_digits_0)
  then show ?thesis
    unfolding digits_enumerate [OF pos] by (simp add: all_choices_def choice_lens_def comp_def)
qed

lemma calculateFlavorAggregate_no_resource:
  "Resources stack = [] \<Longrightarrow> calculateFlavorAggregate stack = None"
  by (simp add: calculateFlavorAggregate_def aggregate_loop.simps panic_simps)

lemma flavor_aggregate_missing:
  assumes "k < length ix" "j + k < length rs" "Flavors (rs ! (j + k)) = []"
  shows "flavor_aggregate rs j ix = None"
proof (rule ccontr)
  assume "flavor_aggregate rs j ix \<noteq> None"
  then obtain a where "flavor_aggregate rs j ix = Some a" by blast
  from flavor_aggregate_SomeD(2) [OF this assms(1)] assms(3) show False by simp
qed

lemma calculateFlavorAggregate_no_flavor:
  assumes "Resources stack = r # rs"
  shows "Flavors r = [] \<Longrightarrow> calculateFlavorAggregate stack = Some []"
    and "Flavors r \<noteq> [] \<Longrightarrow> \<exists>r' \<in> set rs. Flavors r' = [] \<Longrightarrow> calculateFlavorAggregate stack = None"
proof -
  show "Flavors r = [] \<Longrightarrow> calculateFlavorAggregate stack = Some []"
    using assms by (simp add: calculateFlavorAggregate_def aggregate_loop.simps panic_simps)
  assume r: "Flavors r \<noteq> []" "\<exists>r' \<in> set rs. Flavors r' = []"
  then obtain k where "k < length rs" "Flavors (rs ! k) = []" by (auto simp: in_set_conv_nth)
  then have "flavor_aggregate (r # rs) 0 (0 # replicate (length rs) 0) = None"
    by (intro flavor_aggregate_missing [of "Suc k"]) auto
  then show "calculateFlavorAggregate stack = None"
    using assms r(1) by (simp add: calculateFlavorAggregate_def aggregate_loop.simps panic_simps)
qed
abbreviation flavorStateKey :: string where
  "flavorStateKey \<equiv> ''PreFilterFlavor''"

definition Flavor_PreFilter :: "CycleState \<Rightarrow> Stack \<Rightarrow> (CycleState \<times> status) option" where
  "Flavor_PreFilter cycleState stack = do {
     aggs \<leftarrow> calculateFlavorAggregate stack;
     Some (CycleState_Write cycleState flavorStateKey (FlavorAggregates aggs), None) }"

definition Flavor_GetPreFilterState :: "CycleState \<Rightarrow> string + FlavorAggregate list" where
  "Flavor_GetPreFilterState cycleState =
     (case CycleState_Read cycleState flavorStateKey of
        Inl err \<Rightarrow> Inl (''error reading '' @ fmt_q flavorStateKey @ '' from cycleState: '' @ err)
      | Inr (FlavorAggregates s) \<Rightarrow> Inr s
      | Inr _ \<Rightarrow> Inl ''convert to FlavorAggregates.preFilterState error'')"

section \<open>The flavors of a choice\<close>

text \<open>\<open>fmt.Sprintf("%d", n)\<close>\<close>

fun nat_digits :: "nat \<Rightarrow> string" where
  "nat_digits n = (if n < 10 then [char_of (48 + n)] else nat_digits (n div 10) @ [char_of (48 + n mod 10)])"

declare nat_digits.simps [simp del]

definition fmt_d :: "int \<Rightarrow> string" where
  "fmt_d n = (if n < 0 then CHR ''-'' # nat_digits (nat (- n)) else nat_digits (nat n))"

record spotHours =
  IsSpotBlock :: bool
  sh_InterruptionPolicy :: string
  sh_Infinite :: int
  PreemptibleResourceFinite :: "string \<rightharpoonup> int"

definition zero_spotHours :: spotHours where
  "zero_spotHours = \<lparr>IsSpotBlock = False, sh_InterruptionPolicy = [], sh_Infinite = 0, PreemptibleResourceFinite = Map.empty\<rparr>"

definition count_spot :: "Spot \<Rightarrow> int \<Rightarrow> spotHours \<Rightarrow> spotHours" where
  "count_spot spot cnt h =
     (if SpotDurationHours spot > 0
      then let key = fmt_d (SpotDurationHours spot * SpotDurationCount spot) @ ''h'';
               prFinite = PreemptibleResourceFinite h
           in h\<lparr>IsSpotBlock := True, sh_InterruptionPolicy := InterruptionPolicy spot,
                PreemptibleResourceFinite := prFinite(key \<mapsto> map_get 0 prFinite key + cnt)\<rparr>
      else h\<lparr>IsSpotBlock := False, sh_InterruptionPolicy := InterruptionPolicy spot, sh_Infinite := sh_Infinite h + cnt\<rparr>)"

text \<open>A flavor that is counted again is reset to 0 before its count is added.\<close>

definition count_flavor :: "SelFlavor \<Rightarrow> (string \<rightharpoonup> int) \<times> (string \<rightharpoonup> spotHours) \<Rightarrow> (string \<rightharpoonup> int) \<times> (string \<rightharpoonup> spotHours)" where
  "count_flavor flv maps =
     (case maps of (flavorMap, spotFlavorMap) \<Rightarrow>
        let fid = FlavorID (sf_Flavor flv) in
        case flavor_Spot (sf_Flavor flv) of
          Some spot \<Rightarrow>
            (flavorMap, spotFlavorMap(fid \<mapsto> count_spot spot (sf_Count flv) (map_get zero_spotHours spotFlavorMap fid)))
        | None \<Rightarrow>
            let flavorMap = (if flavorMap fid \<noteq> None then flavorMap(fid \<mapsto> 0) else flavorMap)
            in (flavorMap(fid \<mapsto> map_get 0 flavorMap fid + sf_Count flv), spotFlavorMap))"

definition getFlavorToCount :: "FlavorAggregate \<Rightarrow> (string \<rightharpoonup> int) \<times> (string \<rightharpoonup> spotHours)" where
  "getFlavorToCount flvAg = fold count_flavor (agg_Flavors flvAg) (Map.empty, Map.empty)"

text \<open>
  The loops of \<open>isComFlavorMatch\<close> and \<open>isSpotFlavorMatch\<close> return the maximum so far, or \<open>None\<close> for the early return
  of \<open>false, 0\<close>. The log line of an early return reads the site.
\<close>

definition no_match :: "SiteCacheInfo \<Rightarrow> float64 option option" where
  "no_match info = do { site \<leftarrow> sci_Site info; Some None }"

fun com_loop :: "SiteCacheInfo \<Rightarrow> (string \<rightharpoonup> int) \<Rightarrow> string list \<Rightarrow> float64 \<Rightarrow> float64 option option" where
  "com_loop info flavorMap [] maxCount = Some (Some maxCount)"
| "com_loop info flavorMap (flavorID # ks) maxCount =
     (let cnt = map_get 0 flavorMap flavorID in
      case AllocatableFlavor info flavorID of
        None \<Rightarrow> no_match info
      | Some totalCount \<Rightarrow>
          if totalCount < cnt then no_match info
          else do {
            q \<leftarrow> go_div totalCount cnt;
            com_loop info flavorMap ks (float_min maxCount (Fin (of_int q))) })"

definition match_result :: "float64 option \<Rightarrow> bool \<times> int" where
  "match_result r = (case r of None \<Rightarrow> (False, 0) | Some maxCount \<Rightarrow> (True, int_of_float maxCount))"

definition isComFlavorMatch :: "string list \<Rightarrow> (string \<rightharpoonup> int) \<Rightarrow> SiteCacheInfo \<Rightarrow> (bool \<times> int) option" where
  "isComFlavorMatch ks flavorMap info = map_option match_result (com_loop info flavorMap ks MaxFloat64)"

text \<open>The CPU and memory resources of a spot flavor; both branches of the code read the block resources.\<close>

definition spot_resources :: "spotHours \<Rightarrow> SpotResource \<Rightarrow> PreemptibleResource \<times> PreemptibleResource" where
  "spot_resources requestSpot spotFlv =
     (if sh_InterruptionPolicy requestSpot = ''delay''
      then (CpuBlockDelayResource spotFlv, MemoryBlockDelayResource spotFlv)
      else (CpuBlockImmediateResource spotFlv, MemoryBlockImmediateResource spotFlv))"

text \<open>One of the two finite checks for a key.\<close>

definition finite_check :: "SiteCacheInfo \<Rightarrow> PreemptibleResource \<Rightarrow> string \<Rightarrow> int \<Rightarrow> float64 \<Rightarrow> float64 option option" where
  "finite_check info res key value maxCount =
     (case Finite res key of
        None \<Rightarrow> no_match info
      | Some hourValue \<Rightarrow>
          if hourValue < of_int value then no_match info
          else Some (Some (float_min maxCount (float_div hourValue (of_int value)))))"

fun finite_loop :: "SiteCacheInfo \<Rightarrow> PreemptibleResource \<times> PreemptibleResource \<Rightarrow> (string \<rightharpoonup> int) \<Rightarrow> string list \<Rightarrow> float64 \<Rightarrow> float64 option option" where
  "finite_loop info res fin [] maxCount = Some (Some maxCount)"
| "finite_loop info res fin (key # ks) maxCount = do {
     c \<leftarrow> finite_check info (fst res) key (map_get 0 fin key) maxCount;
     case c of None \<Rightarrow> Some None
     | Some maxCount \<Rightarrow> do {
         c \<leftarrow> finite_check info (snd res) key (map_get 0 fin key) maxCount;
         case c of None \<Rightarrow> Some None | Some maxCount \<Rightarrow> finite_loop info res fin ks maxCount } }"

text \<open>Both minima of the unbounded case divide by the CPU resource.\<close>

definition infinite_check :: "SiteCacheInfo \<Rightarrow> PreemptibleResource \<times> PreemptibleResource \<Rightarrow> int \<Rightarrow> float64 \<Rightarrow> float64 option option" where
  "infinite_check info res want maxCount =
     (if of_int want < Infinite (fst res) then no_match info
      else let maxCount = float_min maxCount (float_div (of_int want) (Infinite (fst res)))
           in if of_int want < Infinite (snd res) then no_match info
              else Some (Some (float_min maxCount (float_div (of_int want) (Infinite (fst res))))))"

text \<open>\<open>kf\<close> gives the order of the finite resources of each flavor.\<close>

fun spot_loop :: "SiteCacheInfo \<Rightarrow> (string \<Rightarrow> string list) \<Rightarrow> (string \<rightharpoonup> spotHours) \<Rightarrow> string list \<Rightarrow> float64 \<Rightarrow> float64 option option" where
  "spot_loop info kf spotFlavorMap [] maxCount = Some (Some maxCount)"
| "spot_loop info kf spotFlavorMap (flavorID # ks) maxCount =
     (let requestSpot = map_get zero_spotHours spotFlavorMap flavorID in
      case AllocatableSpotFlavor info flavorID of
        None \<Rightarrow> no_match info
      | Some spotFlv \<Rightarrow> do {
          c \<leftarrow> (if IsSpotBlock requestSpot
               then finite_loop info (spot_resources requestSpot spotFlv) (PreemptibleResourceFinite requestSpot) (kf flavorID) maxCount
               else infinite_check info (spot_resources requestSpot spotFlv) (sh_Infinite requestSpot) maxCount);
          case c of None \<Rightarrow> Some None | Some maxCount \<Rightarrow> spot_loop info kf spotFlavorMap ks maxCount })"

text \<open>\<open>spot_fake\<close> is the configuration value of that name.\<close>

definition isSpotFlavorMatch :: "bool \<Rightarrow> string list \<Rightarrow> (string \<Rightarrow> string list) \<Rightarrow> (string \<rightharpoonup> spotHours) \<Rightarrow> SiteCacheInfo \<Rightarrow> (bool \<times> int) option" where
  "isSpotFlavorMatch spot_fake ks kf spotFlavorMap info =
     (if spot_fake then Some (True, 1000)
      else map_option match_result (spot_loop info kf spotFlavorMap ks MaxFloat64))"

section \<open>Filter and score\<close>

text \<open>
  The iteration orders: a function from the maps of a choice to the key lists, and the configuration value.
\<close>

record flavor_env =
  fe_spot_fake :: bool
  fe_com :: "(string \<rightharpoonup> int) \<Rightarrow> string list"
  fe_spot :: "(string \<rightharpoonup> spotHours) \<Rightarrow> string list"
  fe_finite :: "(string \<rightharpoonup> int) \<Rightarrow> string list"

definition match_choice :: "flavor_env \<Rightarrow> FlavorAggregate \<Rightarrow> SiteCacheInfo \<Rightarrow> ((bool \<times> int) \<times> (bool \<times> int)) option" where
  "match_choice env agg info =
     (case getFlavorToCount agg of (flavorMap, spotFlavorMap) \<Rightarrow> do {
        com \<leftarrow> isComFlavorMatch (fe_com env flavorMap) flavorMap info;
        spot \<leftarrow> isSpotFlavorMatch (fe_spot_fake env) (fe_spot env spotFlavorMap)
          (\<lambda>f. fe_finite env (PreemptibleResourceFinite (map_get zero_spotHours spotFlavorMap f))) spotFlavorMap info;
        Some (com, spot) })"

fun filter_choices :: "flavor_env \<Rightarrow> FlavorAggregate list \<Rightarrow> SiteCacheInfo \<Rightarrow> bool option" where
  "filter_choices env [] info = Some False"
| "filter_choices env (agg # aggs) info = do {
     (com, spot) \<leftarrow> match_choice env agg info;
     if fst com \<and> fst spot then Some True else filter_choices env aggs info }"

definition Flavor_Filter :: "flavor_env \<Rightarrow> CycleState \<Rightarrow> Stack \<Rightarrow> SiteCacheInfo \<Rightarrow> (CycleState \<times> SiteCacheInfo \<times> status) option" where
  "Flavor_Filter env cycleState stack info =
     (case Flavor_GetPreFilterState cycleState of
        Inl err \<Rightarrow> Some (cycleState, info, NewStatus Code_Error [err])
      | Inr aggs \<Rightarrow> do {
          ok \<leftarrow> filter_choices env aggs info;
          if ok then Some (cycleState, info, None)
          else do {
            site \<leftarrow> sci_Site info;
            Some (cycleState, info, NewStatus Code_Unschedulable
              [''Site ('' @ SiteID site @ ''-'' @ Region (site_RegionAzMap site) @ '') do not support required flavor'']) } })"

text \<open>The lengths of the maps are those of their key lists.\<close>

definition choice_count :: "flavor_env \<Rightarrow> FlavorAggregate \<Rightarrow> int \<Rightarrow> int \<Rightarrow> int" where
  "choice_count env agg maxComCount maxSpotCount =
     (case getFlavorToCount agg of (flavorMap, spotFlavorMap) \<Rightarrow>
        let len = length (fe_com env flavorMap); spotLen = length (fe_spot env spotFlavorMap)
        in if len > 0 \<and> spotLen > 0 then min maxComCount maxSpotCount
           else if len > 0 then maxComCount
           else if spotLen > 0 then maxSpotCount
           else 0)"

text \<open>The update of the selector state may fail; the score ignores it. Its two entries do not influence each other.\<close>

fun score_choices :: "flavor_env \<Rightarrow> FlavorAggregate list \<Rightarrow> CycleState \<Rightarrow> SiteCacheInfo \<Rightarrow> (CycleState \<times> int) option" where
  "score_choices env [] state info = Some (state, 0)"
| "score_choices env (agg # aggs) state info = do {
     (com, spot) \<leftarrow> match_choice env agg info;
     if fst com \<and> fst spot then do {
       site \<leftarrow> sci_Site info;
       let maxCount = choice_count env agg (snd com) (snd spot);
       let state = fst (UpdateSiteSelectorState state (SiteID site)
                          [(''Flavors'', UFlavors (agg_Flavors agg)), (''StackMaxCount'', UInt maxCount)]);
       Some (state, if agg_Flavors agg \<noteq> [] then go_quot (agg_Weight agg) (int (length (agg_Flavors agg))) else 0) }
     else score_choices env aggs state info }"

definition Flavor_Score :: "flavor_env \<Rightarrow> CycleState \<Rightarrow> Stack \<Rightarrow> SiteCacheInfo \<Rightarrow> (CycleState \<times> int \<times> status) option" where
  "Flavor_Score env state stack info =
     (case Flavor_GetPreFilterState state of
        Inl err \<Rightarrow> Some (state, 0, NewStatus Code_Error [err])
      | Inr aggs \<Rightarrow> map_option (\<lambda>(state, s). (state, s, None)) (score_choices env aggs state info))"
section \<open>Lemmas\<close>

text \<open>A choice fits a site a number of times: every flavor of the choice has that many machines left.\<close>

definition fits_times :: "SiteCacheInfo \<Rightarrow> (string \<rightharpoonup> int) \<Rightarrow> int \<Rightarrow> bool" where
  "fits_times info flavorMap n \<longleftrightarrow>
     (\<forall>k cnt. flavorMap k = Some cnt \<longrightarrow> (\<exists>t. AllocatableFlavor info k = Some t \<and> n * cnt \<le> t))"

lemma le_div_iff_mult: "0 < c \<Longrightarrow> n \<le> t div c \<longleftrightarrow> n * c \<le> t" for n t c :: int
proof -
  assume c: "0 < c"
  { assume "n \<le> t div c"
    then have "n * c \<le> t div c * c" using c by simp
    also have "\<dots> \<le> t" using c by (metis div_mult_mod_eq le_add_same_cancel1 pos_mod_sign)
    finally have "n * c \<le> t" . }
  moreover
  { assume "n * c \<le> t"
    then have "n * c div c \<le> t div c" using c by (intro zdiv_mono1)
    then have "n \<le> t div c" using c by simp }
  ultimately show ?thesis by blast
qed

lemma com_loop_fits:
  assumes "\<And>k. k \<in> set ks \<Longrightarrow> \<exists>cnt t. flavorMap k = Some cnt \<and> 0 < cnt \<and> AllocatableFlavor info k = Some t \<and> cnt \<le> t \<and> in_int64 t"
  shows "\<exists>m. com_loop info flavorMap ks (Fin (of_int a)) = Some (Some (Fin (of_int m))) \<and> m \<le> a \<and> (1 \<le> a \<longrightarrow> 1 \<le> m)
    \<and> (\<forall>n \<le> a. n \<le> m \<longleftrightarrow> (\<forall>k \<in> set ks. n * map_get 0 flavorMap k \<le> map_get 0 (AllocatableFlavor info) k))"
  using assms
proof (induction ks arbitrary: a)
  case (Cons k ks)
  obtain cnt t where k: "flavorMap k = Some cnt" "0 < cnt" "AllocatableFlavor info k = Some t" "cnt \<le> t" "in_int64 t"
    using Cons.prems [of k] by auto
  have q: "1 \<le> t div cnt" using k by (simp add: le_div_iff_mult)
  have "t div cnt \<le> t" using zdiv_mono2 [of t 1 cnt] k by simp
  then have q64: "wrap64 (t div cnt) = t div cnt" using q k(5) by (intro wrap64_id) simp
  obtain m where m: "com_loop info flavorMap ks (Fin (of_int (min a (t div cnt)))) = Some (Some (Fin (of_int m)))"
      "m \<le> min a (t div cnt)" "1 \<le> min a (t div cnt) \<longrightarrow> 1 \<le> m"
      "\<forall>n \<le> min a (t div cnt). n \<le> m \<longleftrightarrow> (\<forall>k \<in> set ks. n * map_get 0 flavorMap k \<le> map_get 0 (AllocatableFlavor info) k)"
    using Cons.IH [OF Cons.prems [OF list.set_intros(2)]] by blast
  have "com_loop info flavorMap (k # ks) (Fin (of_int a)) = Some (Some (Fin (of_int m)))"
    using k m(1) q64 by (simp add: go_div_def float_min_of_int del: float_min.simps)
  moreover have "n \<le> m \<longleftrightarrow> (\<forall>k \<in> set (k # ks). n * map_get 0 flavorMap k \<le> map_get 0 (AllocatableFlavor info) k)" if "n \<le> a" for n
    using m(2,4) k that le_div_iff_mult [OF k(2), of n t] by auto
  ultimately show ?case using m(2,3) q by auto
qed simp

text \<open>The counts of a choice whose flavors are not spot flavors and name different flavors: each flavor with its count.\<close>

lemma getFlavorToCount_plain:
  assumes "list_all (\<lambda>f. flavor_Spot (sf_Flavor f) = None) (agg_Flavors agg)"
    and "distinct (map (\<lambda>f. FlavorID (sf_Flavor f)) (agg_Flavors agg))"
  shows "getFlavorToCount agg = (map_of (map (\<lambda>f. (FlavorID (sf_Flavor f), sf_Count f)) (agg_Flavors agg)), Map.empty)"
proof -
  have "fold count_flavor fs (m, Map.empty) = (m ++ map_of (map (\<lambda>f. (FlavorID (sf_Flavor f), sf_Count f)) fs), Map.empty)"
    if "list_all (\<lambda>f. flavor_Spot (sf_Flavor f) = None) fs" "distinct (map (\<lambda>f. FlavorID (sf_Flavor f)) fs)"
      "\<forall>f \<in> set fs. m (FlavorID (sf_Flavor f)) = None" for fs and m :: "string \<rightharpoonup> int"
    using that
  proof (induction fs arbitrary: m)
    case (Cons f fs)
    let ?m = "m(FlavorID (sf_Flavor f) \<mapsto> sf_Count f)"
    let ?M = "map_of (map (\<lambda>f. (FlavorID (sf_Flavor f), sf_Count f)) fs)"
    have new: "\<forall>g \<in> set fs. ?m (FlavorID (sf_Flavor g)) = None"
      using Cons.prems by (auto simp: image_iff)
    have "FlavorID (sf_Flavor f) \<notin> dom ?M"
      using Cons.prems(2) by (simp add: dom_map_of_conv_image_fst image_image)
    then have add: "?m ++ ?M = m ++ ?M(FlavorID (sf_Flavor f) \<mapsto> sf_Count f)"
      unfolding map_add_upd by (rule map_add_upd_left)
    have "fold count_flavor (f # fs) (m, Map.empty) = fold count_flavor fs (?m, Map.empty)"
      using Cons.prems by (simp add: count_flavor_def Let_def)
    also have "\<dots> = (?m ++ ?M, Map.empty)"
      using Cons.prems by (intro Cons.IH [OF _ _ new]) simp_all
    finally show ?case by (simp only: add list.map map_of.simps prod.sel)
  qed simp
  then show ?thesis using assms by (simp add: getFlavorToCount_def)
qed

text \<open>When two resources choose the same flavor, only the count of the last one is kept.\<close>

lemma repeated_flavor_counts_once:
  assumes "flavor_Spot f = None"
  shows "fst (getFlavorToCount \<lparr>agg_Flavors = [\<lparr>sf_Flavor = f, sf_Count = m\<rparr>, \<lparr>sf_Flavor = f, sf_Count = n\<rparr>], agg_Weight = w\<rparr>) = [FlavorID f \<mapsto> n]"
  using assms by (simp add: getFlavorToCount_def count_flavor_def)
lemma com_loop_no_match:
  assumes "\<And>k. k \<in> set ks \<Longrightarrow> \<exists>cnt. flavorMap k = Some cnt \<and> 0 < cnt" and "sci_Site info \<noteq> None"
    and "\<exists>k \<in> set ks. \<forall>t. AllocatableFlavor info k = Some t \<longrightarrow> t < map_get 0 flavorMap k"
  shows "com_loop info flavorMap ks maxCount = Some None"
  using assms(1,3)
proof (induction ks arbitrary: maxCount)
  case (Cons k ks)
  obtain cnt where cnt: "flavorMap k = Some cnt" "0 < cnt" using Cons.prems(1) [of k] by auto
  show ?case
  proof (cases "\<exists>t. AllocatableFlavor info k = Some t \<and> cnt \<le> t")
    case True
    then have "\<exists>k \<in> set ks. \<forall>t. AllocatableFlavor info k = Some t \<longrightarrow> t < map_get 0 flavorMap k"
      using Cons.prems(2) cnt by auto
    with Cons.IH Cons.prems(1) have "com_loop info flavorMap ks mc = Some None" for mc by simp
    then show ?thesis using True cnt by (auto simp: go_div_def)
  next
    case False
    then show ?thesis using cnt assms(2) by (auto simp: no_match_def split: option.splits)
  qed
qed simp

lemma com_loop_MaxFloat64:
  assumes "\<And>k. k \<in> set ks \<Longrightarrow> \<exists>cnt t. flavorMap k = Some cnt \<and> 0 < cnt \<and> AllocatableFlavor info k = Some t \<and> cnt \<le> t \<and> in_int64 t"
    and "ks \<noteq> []"
  shows "\<exists>m. com_loop info flavorMap ks MaxFloat64 = Some (Some (Fin (of_int m))) \<and> 1 \<le> m \<and> in_int64 m
    \<and> (\<forall>n. n \<le> m \<longleftrightarrow> (\<forall>k \<in> set ks. n * map_get 0 flavorMap k \<le> map_get 0 (AllocatableFlavor info) k))"
proof -
  obtain k ks' where ks: "ks = k # ks'" using assms(2) by (cases ks) auto
  obtain cnt t where k: "flavorMap k = Some cnt" "0 < cnt" "AllocatableFlavor info k = Some t" "cnt \<le> t" "in_int64 t"
    using assms(1) [of k] ks by auto
  have q: "1 \<le> t div cnt" using k by (simp add: le_div_iff_mult)
  have q': "t div cnt \<le> t" using zdiv_mono2 [of t 1 cnt] k by simp
  then have q64: "in_int64 (t div cnt)" using q k(5) by simp
  obtain m where m: "com_loop info flavorMap ks' (Fin (of_int (t div cnt))) = Some (Some (Fin (of_int m)))"
      "m \<le> t div cnt" "1 \<le> t div cnt \<longrightarrow> 1 \<le> m"
      "\<forall>n \<le> t div cnt. n \<le> m \<longleftrightarrow> (\<forall>k \<in> set ks'. n * map_get 0 flavorMap k \<le> map_get 0 (AllocatableFlavor info) k)"
    using com_loop_fits [OF assms(1) [unfolded ks, OF list.set_intros(2)]] by blast
  have "com_loop info flavorMap ks MaxFloat64 = Some (Some (Fin (of_int m)))"
    using k m(1) q64 by (simp add: ks go_div_def float_min_MaxFloat64 wrap64_id del: float_min.simps)
  moreover have "n \<le> m \<longleftrightarrow> (\<forall>k \<in> set ks. n * map_get 0 flavorMap k \<le> map_get 0 (AllocatableFlavor info) k)" for n
    using m(2,4) k le_div_iff_mult [OF k(2), of n t] by (auto simp: ks)
  moreover have "1 \<le> m" "in_int64 m" using m(2,3) q q64 by auto
  ultimately show ?thesis by blast
qed

text \<open>
  C13: the choices that the pre-filter computes are exactly all ways to take one flavor for each resource, in
  lexicographic order of preference; there are none when the first resource names no flavor, and the pre-filter
  panics when the stack has no resource or when a later resource names no flavor.
\<close>

theorem flavor_choices_enumerated:
  "calculateFlavorAggregate stack =
     (case Resources stack of
        [] \<Rightarrow> None
      | r # rs \<Rightarrow>
          if Flavors r = [] then Some []
          else if list_ex (\<lambda>r. Flavors r = []) rs then None
          else Some (all_choices (r # rs)))"
  using calculateFlavorAggregate_no_resource [of stack] calculateFlavorAggregate_no_flavor [of stack]
    calculateFlavorAggregate_choices [of stack]
  by (auto simp: list_ex_iff split: list.split)


definition demo_flavor_site :: SiteCacheInfo where
  "demo_flavor_site = zero_SiteCacheInfo\<lparr>sci_Site := Some zero_Site, AllocatableFlavor := [''small'' \<mapsto> 7, ''big'' \<mapsto> 3]\<rparr>"


text \<open>The score of a choice is at most the base weight.\<close>

lemma choice_weight: "0 \<le> agg_Weight (choice rs ix) \<and> agg_Weight (choice rs ix) \<le> 10 * int (length ix)"
proof -
  have "10 div (int k + 1) \<le> 10" for k :: nat
    using zdiv_mono2 [of 10 1 "int k + 1"] by simp
  moreover have "0 \<le> 10 div (int k + 1)" for k :: nat by (simp add: pos_imp_zdiv_nonneg_iff)
  ultimately have "0 \<le> (\<Sum>k \<leftarrow> ix. 10 div (int k + 1)) \<and> (\<Sum>k \<leftarrow> ix. 10 div (int k + 1)) \<le> 10 * int (length ix)"
    by (induction ix) (auto simp: add_mono)
  then show ?thesis by (simp add: choice_def)
qed

end
