(* ===== verification/ResourcePlugins.thy ===== *)
theory ResourcePlugins
  imports Framework SchedCache
begin

text \<open>
  The plugins that look at what a site has left (\<open>pkg/scheduler/framework/plugins\<close>): \<open>volume/volume.go\<close> and
  \<open>siteresources\<close> with \<open>fit.go\<close>, \<open>least_allocated.go\<close> and \<open>resource_allocation.go\<close>. The fit filter records what it
  grants in \<open>RequestedFlavor\<close> of the site info that it is given; that map is taken to be allocated, as \<open>SetSite\<close> and
  \<open>Clone\<close> do. A map is ranged over in the order of a list of its keys.
\<close>

section \<open>volume\<close>

text \<open>
  \<open>ks r\<close> is the order of the storage of a resource. A type that is met again is reset to 0 before its size is added.
\<close>

definition add_volume :: "(string \<rightharpoonup> int) \<Rightarrow> int \<Rightarrow> string \<Rightarrow> (string \<rightharpoonup> rat) \<Rightarrow> (string \<rightharpoonup> rat)" where
  "add_volume storage cnt volType ret =
     (let ret = (if ret volType \<noteq> None then ret(volType \<mapsto> 0) else ret)
      in ret(volType \<mapsto> map_get 0 ret volType + of_int cnt * of_int (map_get 0 storage volType)))"

definition volume_request :: "(Resource \<Rightarrow> string list) \<Rightarrow> Stack \<Rightarrow> (string \<rightharpoonup> rat)" where
  "volume_request ks stack = fold (\<lambda>server ret. fold (add_volume (Storage server) (Count server)) (ks server) ret) (Resources stack) Map.empty"

text \<open>The loop of the filter: the maximum so far, or the reason of an early return.\<close>

fun volume_loop :: "SiteCacheInfo \<Rightarrow> (string \<rightharpoonup> rat) \<Rightarrow> string list \<Rightarrow> float64 \<Rightarrow> (string + float64) option" where
  "volume_loop info request [] maxCount = Some (Inr maxCount)"
| "volume_loop info request (volType # ks) maxCount =
     (let wanted = map_get 0 request volType; requestedSize = map_get 0 (RequestedStorage info) volType in
      case TotalStorage info volType of
        None \<Rightarrow> do {
          site \<leftarrow> sci_Site info;
          Some (Inl (''Site ('' @ SiteID site @ '') do not support required volume('' @ volType @ '')'')) }
      | Some allocatableSize \<Rightarrow>
          if allocatableSize < requestedSize + wanted then do {
            site \<leftarrow> sci_Site info;
            Some (Inl (''Site ('' @ SiteID site @ '') do not support required volume('' @ volType @ '')'')) }
          else
            let maxCount = (if wanted > 0 then float_min maxCount (float_div (allocatableSize - requestedSize) wanted) else maxCount)
            in volume_loop info request ks (float_min maxCount (float_div (allocatableSize - requestedSize) wanted)))"

text \<open>\<open>kr\<close> is the order of the request. The update of the selector state is given a float and its error is ignored.\<close>

definition Volume_Filter :: "(Resource \<Rightarrow> string list) \<Rightarrow> ((string \<rightharpoonup> rat) \<Rightarrow> string list) \<Rightarrow> CycleState \<Rightarrow> Stack \<Rightarrow> SiteCacheInfo \<Rightarrow>
    (CycleState \<times> SiteCacheInfo \<times> status) option" where
  "Volume_Filter ks kr cycleState stack info = do {
     let request = volume_request ks stack;
     r \<leftarrow> volume_loop info request (kr request) MaxFloat64;
     case r of
       Inl msg \<Rightarrow> Some (cycleState, info, NewStatus Code_Unschedulable [msg])
     | Inr maxCount \<Rightarrow> do {
         site \<leftarrow> sci_Site info;
         Some (fst (UpdateSiteSelectorState cycleState (SiteID site) [(''StackMaxCount'', UFloat maxCount)]), info, None) } }"

definition Volume_Score :: "string list \<Rightarrow> string list \<Rightarrow> Stack \<Rightarrow> SiteCacheInfo \<Rightarrow> int \<times> status" where
  "Volume_Score kq kt stack info =
     (let requestedTotalSize = (\<Sum>k \<leftarrow> kq. map_get 0 (RequestedStorage info) k);
          allocatableTotalSize = (\<Sum>k \<leftarrow> kt. map_get 0 (TotalStorage info) k)
      in if allocatableTotalSize \<le> 0 then (0, None)
         else (int_of_float (Fin ((allocatableTotalSize - requestedTotalSize) * of_int MaxSiteScore / allocatableTotalSize)), None))"

section \<open>fit\<close>

abbreviation fitStateKey :: string where
  "fitStateKey \<equiv> ''PreFilterSiteResourcesFit''"

definition addFlavorInfo :: "FitFlavorInfos \<Rightarrow> string \<Rightarrow> Spot option \<Rightarrow> FitFlavorInfos" where
  "addFlavorInfo flvInfos flavorID spot =
     flvInfos\<lparr>ffi_Flavors := ffi_Flavors flvInfos @ [\<lparr>FlavorID = flavorID, flavor_Spot = spot\<rparr>]\<rparr>"

text \<open>One flavor of a resource; \<open>strconv.Atoi\<close> reads a decimal number of 64 bits.\<close>

definition fit_flavor :: "flavorCache \<Rightarrow> Resource \<Rightarrow> Flavor \<Rightarrow> FitFlavorInfos \<Rightarrow> FitFlavorInfos" where
  "fit_flavor fc server flv flvInfos =
     (if (case flavor_Spot flv of None \<Rightarrow> False | Some spot \<Rightarrow> SpotDurationHours spot \<noteq> 0) then flvInfos
      else case GetFlavor fc (FlavorID flv) [] of
             None \<Rightarrow> flvInfos
           | Some flvObj \<Rightarrow>
               (case ParseInt (Vcpus flvObj) of
                  None \<Rightarrow> flvInfos
                | Some vCPUInt \<Rightarrow>
                    let res = ffi_Res flvInfos
                    in addFlavorInfo (flvInfos\<lparr>ffi_Res := \<lparr>VCPU = wrap64 (VCPU res + vCPUInt), Memory = wrap64 (Memory res + Ram flvObj)\<rparr>,
                                               ffi_Count := Count server\<rparr>)
                         (tf_ID flvObj) (flavor_Spot flv)))"

definition calculateStackResourceRequest :: "flavorCache \<Rightarrow> Stack \<Rightarrow> FitFlavorInfos list" where
  "calculateStackResourceRequest fc stack =
     map (\<lambda>server. fold (fit_flavor fc server) (Flavors server) \<lparr>ffi_Flavors = [], ffi_Res = zero_CPUAndMemory, ffi_Count = 0\<rparr>)
       (Resources stack)"

definition Fit_PreFilter :: "flavorCache \<Rightarrow> CycleState \<Rightarrow> Stack \<Rightarrow> (CycleState \<times> status) option" where
  "Fit_PreFilter fc cycleState stack =
     Some (CycleState_Write cycleState fitStateKey (SiteResFilterState (calculateStackResourceRequest fc stack)), None)"

definition Fit_GetPreFilterState :: "CycleState \<Rightarrow> string + FitFlavorInfos list" where
  "Fit_GetPreFilterState cycleState =
     (case CycleState_Read cycleState fitStateKey of
        Inl err \<Rightarrow> Inl (''error reading '' @ fmt_q fitStateKey @ '' from cycleState: '' @ err)
      | Inr (SiteResFilterState s) \<Rightarrow> Inr s
      | Inr _ \<Rightarrow> Inl ''convert to SiteResourcesFit.preFilterState error'')"

text \<open>The first flavor of a resource that has enough machines left takes them.\<close>

fun fit_resource :: "int \<Rightarrow> Flavor list \<Rightarrow> SiteCacheInfo \<Rightarrow> SiteCacheInfo \<times> bool" where
  "fit_resource cnt [] info = (info, False)"
| "fit_resource cnt (flv # flvs) info =
     (if (case flavor_Spot flv of None \<Rightarrow> False | Some spot \<Rightarrow> MaxPrice spot \<noteq> []) then fit_resource cnt flvs info
      else case AllocatableFlavor info (FlavorID flv) of
             None \<Rightarrow> fit_resource cnt flvs info
           | Some totalCount \<Rightarrow>
               let requestedCount = map_get 0 (RequestedFlavor info) (FlavorID flv)
               in if cnt < wrap64 (totalCount - requestedCount)
                  then (info\<lparr>RequestedFlavor := (RequestedFlavor info)(FlavorID flv \<mapsto> wrap64 (requestedCount + cnt))\<rparr>, True)
                  else fit_resource cnt flvs info)"

fun fit_loop :: "FitFlavorInfos list \<Rightarrow> SiteCacheInfo \<Rightarrow> (SiteCacheInfo \<times> status) option" where
  "fit_loop [] info = Some (info, None)"
| "fit_loop (flvs # rest) info =
     (case fit_resource (ffi_Count flvs) (ffi_Flavors flvs) info of (info, isMatch) \<Rightarrow>
        if isMatch then fit_loop rest info
        else do {
          site \<leftarrow> sci_Site info;
          Some (info, NewStatus Code_Unschedulable
            [''Site ('' @ SiteID site @ ''-'' @ Region (site_RegionAzMap site) @ '') do not support required flavor'']) })"

definition Fit_Filter :: "CycleState \<Rightarrow> Stack \<Rightarrow> SiteCacheInfo \<Rightarrow> (CycleState \<times> SiteCacheInfo \<times> status) option" where
  "Fit_Filter cycleState stack info =
     (case Fit_GetPreFilterState cycleState of
        Inl err \<Rightarrow> Some (cycleState, info, NewStatus Code_Error [err])
      | Inr s \<Rightarrow> map_option (\<lambda>(info, status). (cycleState, info, status)) (fit_loop s info))"

section \<open>least allocated\<close>

definition leastRequestedScore :: "int \<Rightarrow> int \<Rightarrow> int" where
  "leastRequestedScore requested capacity =
     (if capacity = 0 then 0
      else if requested > capacity then 0
      else wrap64 (go_quot (wrap64 ((capacity - requested) * MaxSiteScore)) capacity))"

text \<open>The weights of \<open>defaultRequestedRatioResources\<close>; they are positive, and their sum does not depend on the order.\<close>

definition defaultRequestedRatioResources :: "(string \<times> int) list" where
  "defaultRequestedRatioResources = [(''memory'', 10), (''cpu'', 10), (''storage'', 5), (''eip'', 1)]"

definition leastResourceScorer :: "(string \<Rightarrow> int) \<Rightarrow> (string \<Rightarrow> int) \<Rightarrow> int" where
  "leastResourceScorer requested allocable =
     (let score = (\<Sum>(resource, weight) \<leftarrow> defaultRequestedRatioResources. leastRequestedScore (requested resource) (allocable resource) * weight);
          weightSum = (\<Sum>(resource, weight) \<leftarrow> defaultRequestedRatioResources. weight)
      in go_quot score weightSum)"

definition add_size :: "(string \<rightharpoonup> int) \<Rightarrow> string \<Rightarrow> (string \<rightharpoonup> int) \<Rightarrow> (string \<rightharpoonup> int)" where
  "add_size storage volType ret =
     (let ret = (if ret volType \<noteq> None then ret(volType \<mapsto> 0) else ret)
      in ret(volType \<mapsto> map_get 0 ret volType + map_get 0 storage volType))"

definition calculateStackStorageRequest :: "(Resource \<Rightarrow> string list) \<Rightarrow> Stack \<Rightarrow> (string \<rightharpoonup> int)" where
  "calculateStackStorageRequest ks stack = fold (\<lambda>server ret. fold (add_size (Storage server)) (ks server) ret) (Resources stack) Map.empty"

text \<open>When the flavor is not found its pointer is nil, and the first host makes the loop read it.\<close>

definition getResourceType :: "flavorCache \<Rightarrow> string \<Rightarrow> SiteCacheInfo \<Rightarrow> string option" where
  "getResourceType fc flavorID info = do {
     site \<leftarrow> sci_Site info;
     if GetFlavor fc flavorID (Region (site_RegionAzMap site)) = None \<and> Hosts site \<noteq> [] then None else Some '''' }"

text \<open>
  The sums of \<open>calculateCpuAllocatableRequest\<close> and \<open>calculateMemoryAllocatableRequest\<close>, which differ in the field
  \<open>f\<close> that they read; \<open>kt\<close> and \<open>kr\<close> are the orders of the two resource maps.
\<close>

definition type_sums :: "(CPUAndMemory \<Rightarrow> int) \<Rightarrow> string list \<Rightarrow> string list \<Rightarrow> SiteCacheInfo \<Rightarrow> string \<Rightarrow> int \<times> int \<Rightarrow> int \<times> int" where
  "type_sums f kt kr info resourceType acc =
     (fst acc + (\<Sum>k \<leftarrow> kt. if has_type k resourceType then (case TotalResources info k of None \<Rightarrow> 0 | Some v \<Rightarrow> f v) else 0),
      snd acc + (\<Sum>k \<leftarrow> kr. if has_type k resourceType then (case RequestedResources info k of None \<Rightarrow> 0 | Some p \<Rightarrow> f (reqCells info p)) else 0))"

definition calculateCpuMemAllocatableRequest :: "(CPUAndMemory \<Rightarrow> int) \<Rightarrow> flavorCache \<Rightarrow> string list \<Rightarrow> string list \<Rightarrow> SiteCacheInfo \<Rightarrow> Stack \<Rightarrow> (int \<times> int) option" where
  "calculateCpuMemAllocatableRequest f fc kt kr info stack =
     foldM (\<lambda>flv acc. do {
         resourceType \<leftarrow> getResourceType fc (FlavorID flv) info;
         Some (type_sums f kt kr info resourceType acc) })
       (concat (map ffi_Flavors (calculateStackResourceRequest fc stack))) (0, 0)"

definition calculateStorageAllocatableRequest :: "(Resource \<Rightarrow> string list) \<Rightarrow> ((string \<rightharpoonup> int) \<Rightarrow> string list) \<Rightarrow> SiteCacheInfo \<Rightarrow> Stack \<Rightarrow> int \<times> int" where
  "calculateStorageAllocatableRequest ks kq info stack =
     (let request = calculateStackStorageRequest ks stack
      in (\<Sum>v \<leftarrow> kq request. case TotalStorage info v of None \<Rightarrow> 0 | Some x \<Rightarrow> int_of_float (Fin x),
          \<Sum>v \<leftarrow> kq request. (case RequestedStorage info v of None \<Rightarrow> 0 | Some x \<Rightarrow> int_of_float (Fin x)) + map_get 0 request v))"

record alloc_env =
  ae_fc :: flavorCache
  ae_storage :: "Resource \<Rightarrow> string list"
  ae_request :: "(string \<rightharpoonup> int) \<Rightarrow> string list"
  ae_total :: "string list"
  ae_requested :: "string list"

definition calculateResourceAllocatableRequest :: "alloc_env \<Rightarrow> SiteCacheInfo \<Rightarrow> Stack \<Rightarrow> string \<Rightarrow> (int \<times> int) option" where
  "calculateResourceAllocatableRequest e info stack resource =
     (if resource = ''cpu'' then calculateCpuMemAllocatableRequest VCPU (ae_fc e) (ae_total e) (ae_requested e) info stack
      else if resource = ''memory'' then calculateCpuMemAllocatableRequest Memory (ae_fc e) (ae_total e) (ae_requested e) info stack
      else if resource = ''storage'' then Some (calculateStorageAllocatableRequest (ae_storage e) (ae_request e) info stack)
      else Some (0, 0))"

definition LeastAllocated_Score :: "alloc_env \<Rightarrow> Stack \<Rightarrow> SiteCacheInfo \<Rightarrow> (int \<times> status) option" where
  "LeastAllocated_Score e stack info =
     (if sci_Site info = None then Some (0, NewStatus Code_Error [''site not found''])
      else do {
        vals \<leftarrow> foldM (\<lambda>resource m. do {
                   v \<leftarrow> calculateResourceAllocatableRequest e info stack resource;
                   Some (m(resource \<mapsto> v)) }) (map fst defaultRequestedRatioResources) Map.empty;
        Some (leastResourceScorer (\<lambda>r. snd (map_get (0, 0) vals r)) (\<lambda>r. fst (map_get (0, 0) vals r)), None) })"
section \<open>Lemmas on the fit filter\<close>

text \<open>No flavor of a site has more machines requested than it has.\<close>

definition within_capacity :: "SiteCacheInfo \<Rightarrow> bool" where
  "within_capacity info \<longleftrightarrow>
     (\<forall>f t. AllocatableFlavor info f = Some t \<longrightarrow> in_int64 t \<and> 0 \<le> map_get 0 (RequestedFlavor info) f \<and> map_get 0 (RequestedFlavor info) f \<le> t)"

lemma within_capacityD:
  "within_capacity info \<Longrightarrow> AllocatableFlavor info f = Some t \<Longrightarrow>
     in_int64 t \<and> 0 \<le> map_get 0 (RequestedFlavor info) f \<and> map_get 0 (RequestedFlavor info) f \<le> t"
  by (simp add: within_capacity_def)

lemma fit_resource_unchanged:
  "fit_resource cnt flvs info = (info', ok) \<Longrightarrow> \<exists>m. info' = info\<lparr>RequestedFlavor := m\<rparr>"
proof (induction flvs)
  case Nil
  then show ?case by (intro exI [of _ "RequestedFlavor info"]) simp
next
  case (Cons flv flvs)
  then show ?case by (auto simp: Let_def split: if_splits option.splits)
qed

lemma fit_resource_within:
  assumes "within_capacity info" "0 \<le> cnt" "fit_resource cnt flvs info = (info', ok)"
  shows "within_capacity info'"
  using assms(3)
proof (induction flvs)
  case (Cons flv flvs)
  show ?case
  proof (cases "fit_resource cnt (flv # flvs) info = fit_resource cnt flvs info")
    case True
    then show ?thesis using Cons by simp
  next
    case False
    then obtain t where t: "AllocatableFlavor info (FlavorID flv) = Some t"
        and lt: "cnt < wrap64 (t - map_get 0 (RequestedFlavor info) (FlavorID flv))"
        and info': "info' = info\<lparr>RequestedFlavor := (RequestedFlavor info)
           (FlavorID flv \<mapsto> wrap64 (map_get 0 (RequestedFlavor info) (FlavorID flv) + cnt))\<rparr>"
      using Cons.prems by (auto simp: Let_def split: if_splits option.splits)
    note w = within_capacityD [OF assms(1) t]
    have "wrap64 (t - map_get 0 (RequestedFlavor info) (FlavorID flv)) = t - map_get 0 (RequestedFlavor info) (FlavorID flv)"
      using w by (intro wrap64_id) simp
    moreover from this have "wrap64 (map_get 0 (RequestedFlavor info) (FlavorID flv) + cnt) = map_get 0 (RequestedFlavor info) (FlavorID flv) + cnt"
      using w lt assms(2) by (intro wrap64_id) simp
    ultimately show ?thesis
      using assms(1,2) lt w t unfolding info' within_capacity_def by auto
  qed
qed (use assms(1) in simp)

lemma fit_loop_within:
  "\<lbrakk>within_capacity info; list_all (\<lambda>f. 0 \<le> ffi_Count f) s; fit_loop s info = Some (info', status)\<rbrakk> \<Longrightarrow> within_capacity info'"
proof (induction s arbitrary: info)
  case (Cons f s)
  obtain info1 ok where f: "fit_resource (ffi_Count f) (ffi_Flavors f) info = (info1, ok)" by fastforce
  then have "within_capacity info1" using Cons.prems fit_resource_within by auto
  then show ?case using Cons f by (auto split: if_splits elim!: bind_SomeE)
qed simp

text \<open>
  The filter takes the machines that it finds, for every site that passes and even for one that fails at a later
  resource: running it again takes them again.
\<close>

lemma fit_filter_takes_machines:
  assumes "AllocatableFlavor info f = Some t" "RequestedFlavor info f = Some q" "in_int64 t" "0 \<le> q" "0 \<le> n" "n < t - q"
  shows "fit_loop [\<lparr>ffi_Flavors = [\<lparr>FlavorID = f, flavor_Spot = None\<rparr>], ffi_Res = r, ffi_Count = n\<rparr>] info =
    Some (info\<lparr>RequestedFlavor := (RequestedFlavor info)(f \<mapsto> q + n)\<rparr>, None)"
proof -
  have "wrap64 (t - q) = t - q" "wrap64 (q + n) = q + n" using assms by (intro wrap64_id; simp)+
  then show ?thesis using assms by simp
qed

text \<open>A request for all the machines that are left is refused.\<close>

lemma fit_filter_refuses_last:
  assumes "AllocatableFlavor info f = Some t" "RequestedFlavor info f = None" "in_int64 t" "sci_Site info = Some site"
  shows "\<exists>msg. fit_loop [\<lparr>ffi_Flavors = [\<lparr>FlavorID = f, flavor_Spot = None\<rparr>], ffi_Res = r, ffi_Count = t\<rparr>] info =
    Some (info, NewStatus Code_Unschedulable msg)"
  using assms by auto

section \<open>Lemmas on the scores\<close>

lemma leastRequestedScore_range:
  assumes "0 \<le> requested" "0 \<le> capacity" "capacity \<le> maxInt64 div 100"
  shows "0 \<le> leastRequestedScore requested capacity \<and> leastRequestedScore requested capacity \<le> 100"
proof (cases "capacity = 0 \<or> requested > capacity")
  case False
  then have c: "0 < capacity" "requested \<le> capacity" using assms by auto
  let ?d = "(capacity - requested) * 100"
  have "wrap64 ?d = ?d" using assms c by (intro wrap64_id) auto
  moreover have "0 \<le> ?d div capacity" using c by (simp add: pos_imp_zdiv_nonneg_iff)
  moreover have "?d div capacity \<le> capacity * 100 div capacity" using c assms by (intro zdiv_mono1) auto
  ultimately show ?thesis
    using c by (auto simp: leastRequestedScore_def)
qed (auto simp: leastRequestedScore_def)

lemma leastResourceScorer_range:
  assumes "\<And>r. 0 \<le> requested r" "\<And>r. 0 \<le> allocable r \<and> allocable r \<le> maxInt64 div 100"
  shows "0 \<le> leastResourceScorer requested allocable \<and> leastResourceScorer requested allocable \<le> 100"
proof -
  have r: "0 \<le> leastRequestedScore (requested r) (allocable r)" "leastRequestedScore (requested r) (allocable r) \<le> 100" for r
    using leastRequestedScore_range [of "requested r" "allocable r"] assms by auto
  let ?s = "leastRequestedScore (requested ''memory'') (allocable ''memory'') * 10 + (leastRequestedScore (requested ''cpu'') (allocable ''cpu'') * 10
    + (leastRequestedScore (requested ''storage'') (allocable ''storage'') * 5 + leastRequestedScore (requested ''eip'') (allocable ''eip'')))"
  have "0 \<le> ?s" "?s \<le> 2600" using r [of "''memory''"] r [of "''cpu''"] r [of "''storage''"] r [of "''eip''"] by linarith+
  moreover have "leastResourceScorer requested allocable = ?s div 26"
    using \<open>0 \<le> ?s\<close> by (simp add: leastResourceScorer_def defaultRequestedRatioResources_def)
  ultimately show ?thesis using zdiv_mono1 [of ?s 2600 26] by (simp add: pos_imp_zdiv_nonneg_iff)
qed

text \<open>
  Resource types are looked up only for flavors that are missing, so that the sums for CPU and memory range over keys with
  an empty type: on a site without such keys they are 0, and CPU and memory do not influence the score.
\<close>

lemma cpu_memory_not_scored:
  assumes "list_all (\<lambda>k. \<not> has_type k '''') kt" "list_all (\<lambda>k. \<not> has_type k '''') kr"
    and "calculateCpuMemAllocatableRequest f fc kt kr info stack = Some v"
  shows "v = (0, 0)"
proof -
  have zero: "list_all (\<lambda>k. \<not> has_type k '''') ks \<Longrightarrow> (\<Sum>k \<leftarrow> ks. if has_type k '''' then g k else 0) = 0" for ks and g :: "string \<Rightarrow> int"
    by (induction ks) auto
  have step: "type_sums f kt kr info '''' (0, 0) = (0, 0)"
    unfolding type_sums_def zero [OF assms(1)] zero [OF assms(2)] by simp
  have "foldM (\<lambda>flv acc. do { t \<leftarrow> getResourceType fc (FlavorID flv) info; Some (type_sums f kt kr info t acc) }) fs (0, 0) = Some v \<Longrightarrow> v = (0, 0)" for fs
    by (induction fs) (auto simp: step getResourceType_def split: if_splits elim!: bind_SomeE)
  then show ?thesis using assms(3) by (simp add: calculateCpuMemAllocatableRequest_def)
qed

text \<open>A site with more storage requested than it has gets a negative score, which makes the whole scoring fail.\<close>

lemma volume_score_negative:
  "Volume_Score [''ssd''] [''ssd''] stack (zero_SiteCacheInfo\<lparr>RequestedStorage := [''ssd'' \<mapsto> 3], TotalStorage := [''ssd'' \<mapsto> 2]\<rparr>) = (- 50, None)"
  by (simp add: Volume_Score_def int_of_float_def trunc_def)

lemma Volume_Score_range:
  assumes "0 \<le> (\<Sum>k \<leftarrow> kq. map_get 0 (RequestedStorage info) k)"
    and "(\<Sum>k \<leftarrow> kq. map_get 0 (RequestedStorage info) k) \<le> (\<Sum>k \<leftarrow> kt. map_get 0 (TotalStorage info) k)"
  shows "0 \<le> fst (Volume_Score kq kt stack info) \<and> fst (Volume_Score kq kt stack info) \<le> 100"
proof (cases "(\<Sum>k \<leftarrow> kt. map_get 0 (TotalStorage info) k) \<le> 0")
  case False
  let ?q = "\<Sum>k \<leftarrow> kq. map_get 0 (RequestedStorage info) k" and ?t = "\<Sum>k \<leftarrow> kt. map_get 0 (TotalStorage info) k"
  let ?s = "(?t - ?q) * 100 / ?t"
  have s: "0 \<le> ?s" "?s \<le> 100" using False assms by (auto simp: field_simps)
  then have f: "0 \<le> \<lfloor>?s\<rfloor>" "\<lfloor>?s\<rfloor> \<le> 100" by (simp_all add: floor_le_iff)
  have "fst (Volume_Score kq kt stack info) = int_of_float (Fin ?s)"
    using False by (simp add: Volume_Score_def Let_def)
  also have "\<dots> = \<lfloor>?s\<rfloor>" unfolding int_of_float_def trunc_nonneg [OF s(1)] float64.case using f by simp
  finally show ?thesis using f by simp
qed (simp add: Volume_Score_def)

lemma repeated_volume_counts_once:
  "volume_request (\<lambda>_. [''ssd'']) (zero_Stack\<lparr>Resources := [r\<lparr>Storage := [''ssd'' \<mapsto> 5], Count := 1\<rparr>, r\<lparr>Storage := [''ssd'' \<mapsto> 2], Count := 1\<rparr>]\<rparr>) = [''ssd'' \<mapsto> 2]"
  by (simp add: volume_request_def add_volume_def)

lemma missing_flavor_panics:
  assumes "sci_Site info = Some site" "Hosts site \<noteq> []" "GetFlavor fc f (Region (site_RegionAzMap site)) = None"
  shows "getResourceType fc f info = None"
  using assms by (simp add: getResourceType_def)

end
