(* ===== verification/SchedulerFramework.thy ===== *)
theory SchedulerFramework
  imports PlacementPlugins FlavorPlugin ResourcePlugins
begin

text \<open>
  How the scheduler's framework is put together: the bind plugin (\<open>plugins/defaultbinder/default_binder.go\<close>), the
  registry of plugins (\<open>plugins/registry.go\<close>), the plugins that a policy enables
  (\<open>algorithmprovider/registry.go\<close>) and \<open>NewFramework\<close> (\<open>interfaces/framework.go\<close>).

  \<^item> \<open>SchedState\<close> is what the plugins reach through their handle and the package variables: the snapshot, the cache,
    the flavor cache and the generation counter. The maps of flavors hold no nil pointers; the keys of
    \<open>RegionFlavorMap\<close> that do are in \<open>nilFlavors\<close>.
  \<^item> A framework keeps its plugins as functions of the parts of that state that they read.
\<close>

record SchedState =
  siteCacheInfoSnapshot :: Snapshot
  sched_cache :: schedulerCache
  FlavorCache :: flavorCache
  nilFlavors :: "string set"
  sched_generation :: int

definition snapshot_info :: "Snapshot \<Rightarrow> (string \<rightharpoonup> SiteCacheInfo)" where
  "snapshot_info s siteID = map_option (snap_cells s) (SiteCacheInfoMap s siteID)"

section \<open>defaultbinder\<close>

text \<open>The iteration orders that the operations on site infos take as arguments.\<close>

record bind_env =
  be_site :: SiteEnv
  be_types :: "SiteCacheInfo \<Rightarrow> AllResInfo \<Rightarrow> (string \<times> string list) list"
  be_storage :: "AllResInfo \<Rightarrow> string list"
  be_total :: "SiteCacheInfo \<Rightarrow> string list"
  be_requested :: "SiteCacheInfo \<Rightarrow> string list"
  be_flavors :: "SiteCacheInfo \<Rightarrow> string list"
  be_deduct :: "SiteCacheInfo \<Rightarrow> string list"

definition add_res_info :: "RegionFlavor \<Rightarrow> int \<Rightarrow> int \<Rightarrow> AllResInfo \<Rightarrow> AllResInfo" where
  "add_res_info flv vCPUInt cnt resInfo =
     (let rt = ex_ResourceType (tf_OsExtraSpecs flv); reqRes = map_get zero_CPUAndMemory (CpuAndMem resInfo) rt
      in resInfo\<lparr>CpuAndMem := (CpuAndMem resInfo)(rt \<mapsto>
           \<lparr>VCPU = wrap64 (VCPU reqRes + vCPUInt * cnt), Memory = wrap64 (Memory reqRes + Ram flv * cnt)\<rparr>)\<rparr>)"

text \<open>The loop over the resources; the slices have equal length. A nil flavor panics when its CPUs are read.\<close>

fun bind_resources :: "SchedState \<Rightarrow> string \<Rightarrow> SelFlavor list \<Rightarrow> Resource list \<Rightarrow> AllResInfo \<Rightarrow> (Resource list \<times> AllResInfo) option" where
  "bind_resources sched region (f # fs) (r # rs) resInfo =
     (let flavorID = FlavorID (sf_Flavor f);
          r = r\<lparr>FlavorIDSelected := flavorID\<rparr>
      in if region \<noteq> [] \<and> region @ ''||'' @ flavorID \<in> nilFlavors sched then None
         else let resInfo =
                (case GetFlavor (FlavorCache sched) flavorID region of
                   None \<Rightarrow> resInfo
                 | Some flv \<Rightarrow>
                     (case ParseInt (Vcpus flv) of
                        None \<Rightarrow> resInfo
                      | Some vCPUInt \<Rightarrow> if vCPUInt \<le> 0 then resInfo else add_res_info flv vCPUInt (Count r) resInfo))
              in map_option (\<lambda>(rs, ri). (r # rs, ri)) (bind_resources sched region fs rs resInfo))"
| "bind_resources sched region _ _ resInfo = Some ([], resInfo)"

definition select_site :: "Site \<Rightarrow> Stack \<Rightarrow> Stack" where
  "select_site site stack =
     stack\<lparr>stk_Selected := (stk_Selected stack)\<lparr>sd_SiteID := SiteID site, sd_Region := Region (site_RegionAzMap site),
        sd_AvailabilityZone := AvailabilityZone (site_RegionAzMap site), sd_ClusterName := ClusterName site,
        sd_ClusterNamespace := ClusterNamespace site\<rparr>\<rparr>"

text \<open>\<open>addr\<close> is the pointer to the site info in the snapshot, \<open>None\<close> for nil.\<close>

definition DefaultBinder_Bind :: "bind_env \<Rightarrow> SchedState \<Rightarrow> CycleState \<Rightarrow> Stack \<Rightarrow> nat option \<Rightarrow> (SchedState \<times> Stack \<times> status) option" where
  "DefaultBinder_Bind be sched state stack addr = do {
     a \<leftarrow> addr;
     let snap = siteCacheInfoSnapshot sched;
     let info = snap_cells snap a;
     site \<leftarrow> sci_Site info;
     let stack = select_site site stack;
     case GetSiteSelectorState state (SiteID site) of
       Inl err \<Rightarrow> Some (sched, stack, NewStatus Code_Error [''getting site '' @ fmt_q (SiteID site) @ '' info failed: '' @ err])
     | Inr siteSelectedInfo \<Rightarrow>
         if length (Resources stack) \<noteq> length (ssi_Flavors siteSelectedInfo)
         then Some (sched, stack, NewStatus Code_Error [''siteID('' @ SiteID site @ '') flavor count not equal to server count!''])
         else do {
           (rs, resInfo) \<leftarrow> bind_resources sched (Region (site_RegionAzMap site)) (ssi_Flavors siteSelectedInfo) (Resources stack)
             \<lparr>CpuAndMem = Map.empty, ri_Storage = Map.empty\<rparr>;
           (cache, g) \<leftarrow> cache_UpdateSiteWithResInfo (be_site be) (be_types be info resInfo) (be_storage be resInfo)
             (be_total be info) (be_requested be info) (sched_generation sched) (sched_cache sched) (SiteID site) resInfo;
           (info, g) \<leftarrow> DeductSiteResInfo (be_types be info resInfo) (be_storage be resInfo) (be_flavors be info) (be_deduct be info)
             g info resInfo (snap_RegionFlavorMap snap);
           Some (sched\<lparr>siteCacheInfoSnapshot := snap\<lparr>snap_cells := (snap_cells snap)(a := info)\<rparr>, sched_cache := cache,
                       sched_generation := g\<rparr>,
                 stack\<lparr>Resources := rs\<rparr>, None) } }"

type_synonym bind_plugin = "string \<times> (SchedState \<Rightarrow> CycleState \<Rightarrow> Stack \<Rightarrow> nat option \<Rightarrow> (SchedState \<times> Stack \<times> status) option)"

fun bind_loop :: "bind_plugin list \<Rightarrow> SchedState \<Rightarrow> CycleState \<Rightarrow> Stack \<Rightarrow> nat option \<Rightarrow> status \<Rightarrow> (SchedState \<times> Stack \<times> status) option" where
  "bind_loop [] sched state stack addr last_status = Some (sched, stack, last_status)"
| "bind_loop (bp # bps) sched state stack addr last_status = do {
     (sched, stack, status) \<leftarrow> snd bp sched state stack addr;
     if status \<noteq> None \<and> status_Code status = Code_Skip then bind_loop bps sched state stack addr status
     else if \<not> IsSuccess status
     then Some (sched, stack, NewStatus Code_Error [''plugin '' @ fmt_q (fst bp) @ '' failed to bind pod '' @ fmt_q (PodName stack) @ '': '' @ status_Message status])
     else Some (sched, stack, status) }"

definition RunBindPlugins :: "bind_plugin list \<Rightarrow> SchedState \<Rightarrow> CycleState \<Rightarrow> Stack \<Rightarrow> nat option \<Rightarrow> (SchedState \<times> Stack \<times> status) option" where
  "RunBindPlugins bps sched state stack addr =
     (if length bps = 0 then Some (sched, stack, NewStatus Code_Skip ['''']) else bind_loop bps sched state stack addr None)"

section \<open>The registry\<close>

text \<open>What the plugins are given besides the scheduler state: iteration orders, the domain of the request, configuration.\<close>

record plugin_env =
  pe_flavor :: flavor_env
  pe_alloc :: alloc_env
  pe_domainID :: string
  pe_sort :: "Requirement list \<Rightarrow> Requirement list"
  pe_visit :: "(string \<times> RegionMap) list \<Rightarrow> (string \<times> RegionMap) list"
  pe_storage :: "Resource \<Rightarrow> string list"
  pe_request :: "(string \<rightharpoonup> rat) \<Rightarrow> string list"
  pe_used :: "SiteCacheInfo \<Rightarrow> string list"
  pe_volumes :: "SiteCacheInfo \<Rightarrow> string list"
  pe_bind :: bind_env

definition pure_score :: "string \<Rightarrow> (Stack \<Rightarrow> SiteCacheInfo \<Rightarrow> (int \<times> status) option) \<Rightarrow> score_plugin" where
  "pure_score nm f = (nm, \<lambda>state stack info. map_option (\<lambda>(s, st). (state, s, st)) (f stack info))"

definition by_name :: "(string \<times> 'p) list \<Rightarrow> (string \<rightharpoonup> string \<times> 'p)" where
  "by_name ps nm = map_option (\<lambda>p. (nm, p)) (map_of ps nm)"

definition prefilter_plugins :: "plugin_env \<Rightarrow> flavorCache \<Rightarrow> prefilter_plugin list" where
  "prefilter_plugins pe fc = [(''Flavor'', Flavor_PreFilter), (''SiteResourcesFit'', Fit_PreFilter fc)]"

definition filter_plugins :: "plugin_env \<Rightarrow> filter_plugin list" where
  "filter_plugins pe =
     [pure_filter ''SiteAvailability'' SiteAvailability_Filter, pure_filter ''regionandaz'' RegionAndAz_Filter,
      pure_filter ''LocationAndOperator'' LocationAndOperator_Filter, pure_filter ''ExclusiveSite'' (ExclusiveSite_Filter (pe_domainID pe)),
      pure_filter ''EipAvailability'' EipAvailability_Filter, (''Flavor'', Flavor_Filter (pe_flavor pe)),
      (''Volume'', Volume_Filter (pe_storage pe) (pe_request pe)), (''SiteResourcesFit'', Fit_Filter)]"

definition score_plugins :: "plugin_env \<Rightarrow> flavorCache \<Rightarrow> score_plugin list" where
  "score_plugins pe fc =
     [(''Flavor'', Flavor_Score (pe_flavor pe)),
      pure_score ''Volume'' (\<lambda>stack info. Some (Volume_Score (pe_used pe info) (pe_volumes pe info) stack info)),
      pure_score ''StackAffinity'' (StackAffinity_Score (pe_sort pe)),
      pure_score ''SiteResourcesLeastAllocated'' (LeastAllocated_Score ((pe_alloc pe)\<lparr>ae_fc := fc\<rparr>))]"

definition bind_plugins :: "plugin_env \<Rightarrow> bind_plugin list" where
  "bind_plugins pe = [(''DefaultBinder'', DefaultBinder_Bind (pe_bind pe))]"

text \<open>The names of \<open>NewRegistry\<close>.\<close>

definition registry_names :: "string list" where
  "registry_names =
     [''DefaultBinder'', ''Flavor'', ''LocationAndOperator'', ''EipAvailability'', ''SiteAvailability'', ''SiteResourcesFit'',
      ''PrioritySort'', ''regionandaz'', ''Volume'', ''SiteResourcesLeastAllocated'', ''StackAffinity'', ''ExclusiveSite'']"

section \<open>The plugins of a policy\<close>

record PriorityPolicy =
  pp_Name :: string
  pp_Weight :: int

record Policy =
  Predicates :: "string list"
  Priorities :: "PriorityPolicy list"

text \<open>\<open>Plugins\<close> with the extension points in use; the value is the name and the weight.\<close>

record Plugins =
  pl_QueueSort :: "(string \<times> int) list"
  pl_PreFilter :: "(string \<times> int) list"
  pl_Filter :: "(string \<times> int) list"
  pl_Score :: "(string \<times> int) list"
  pl_Bind :: "(string \<times> int) list"
  pl_Strategy :: "(string \<times> int) list"

definition getDefaultConfig :: Plugins where
  "getDefaultConfig = \<lparr>pl_QueueSort = [(''PrioritySort'', 0)], pl_PreFilter = [(''Flavor'', 0)], pl_Filter = [], pl_Score = [],
     pl_Bind = [(''DefaultBinder'', 0)], pl_Strategy = [(''regionandaz'', 0), (''LocationAndOperator'', 0)]\<rparr>"

text \<open>\<open>int32(x)\<close>\<close>

definition wrap32 :: "int \<Rightarrow> int" where
  "wrap32 x = (x + 2 ^ 31) mod 2 ^ 32 - 2 ^ 31"

definition GetPlugins :: "Policy \<Rightarrow> Plugins" where
  "GetPlugins policy =
     getDefaultConfig\<lparr>pl_Filter := pl_Filter getDefaultConfig @ map (\<lambda>nm. (nm, 0)) (Predicates policy),
       pl_Score := pl_Score getDefaultConfig @ map (\<lambda>p. (pp_Name p, wrap32 (pp_Weight p))) (Priorities policy)\<rparr>"

text \<open>The extension points in the order of \<open>getExtensionPoints\<close>; those that no plugin uses are left out.\<close>

definition getExtensionPoints :: "Plugins \<Rightarrow> (string \<times> int) list list" where
  "getExtensionPoints p = [pl_PreFilter p, pl_Filter p, pl_Score p, pl_Bind p, pl_QueueSort p, pl_Strategy p]"

definition pluginsNeeded :: "Plugins \<Rightarrow> (string \<rightharpoonup> int)" where
  "pluginsNeeded p = fold (\<lambda>(nm, w) m. m(nm \<mapsto> w)) (concat (getExtensionPoints p)) Map.empty"

text \<open>\<open>updatePluginList\<close>; \<open>impl\<close> gives the plugins that implement the extension point.\<close>

fun updatePluginList :: "(string \<rightharpoonup> 'p) \<Rightarrow> string list \<Rightarrow> string list \<Rightarrow> 'p list \<Rightarrow> string + 'p list" where
  "updatePluginList impl [] seen plugins = Inr plugins"
| "updatePluginList impl (nm # nms) seen plugins =
     (if nm \<notin> set registry_names then Inl (''plugin '' @ fmt_q nm @ '' does not exist'')
      else case impl nm of
             None \<Rightarrow> Inl (''plugin '' @ fmt_q nm @ '' does not extend the plugin'')
           | Some pg \<Rightarrow>
               if nm \<in> set seen then Inl (''plugin '' @ fmt_q nm @ '' already registered'')
               else updatePluginList impl nms (nm # seen) (plugins @ [pg]))"

text \<open>
  The weights of the plugins that are needed, where a weight of 0 becomes 1; \<open>order\<close> is the order of the registry. The
  total is checked against the largest \<open>int64\<close>.
\<close>

fun init_weights :: "(string \<rightharpoonup> int) \<Rightarrow> string list \<Rightarrow> int \<Rightarrow> (string \<rightharpoonup> int) \<Rightarrow> string + (string \<rightharpoonup> int)" where
  "init_weights pg [] totalPriority weights = Inr weights"
| "init_weights pg (nm # nms) totalPriority weights =
     (case pg nm of
        None \<Rightarrow> init_weights pg nms totalPriority weights
      | Some w \<Rightarrow>
          let w = (if w = 0 then 1 else w)
          in if wrap64 (w * MaxSiteScore) > wrap64 (maxInt64 - totalPriority) then Inl ''total score of Score plugins could overflow''
             else init_weights pg nms (wrap64 (totalPriority + w * MaxSiteScore)) (weights(nm \<mapsto> w)))"

record framework =
  fw_preFilter :: "flavorCache \<Rightarrow> prefilter_plugin list"
  fw_filter :: "filter_plugin list"
  fw_score :: "flavorCache \<Rightarrow> score_plugin list"
  fw_weights :: "string \<Rightarrow> int"
  fw_bind :: "bind_plugin list"
  fw_strategy :: "(string \<rightharpoonup> SiteCacheInfo) \<Rightarrow> strategy_plugin list"
  fw_runAllFilters :: bool

text \<open>The plugins of a list of names.\<close>

definition enabled :: "(string \<times> 'p) list \<Rightarrow> string list \<Rightarrow> (string \<times> 'p) list" where
  "enabled ps nms = concat (map (\<lambda>nm. case by_name ps nm of None \<Rightarrow> [] | Some p \<Rightarrow> [p]) nms)"

definition implements :: "string list \<Rightarrow> (string \<rightharpoonup> string)" where
  "implements nms nm = (if nm \<in> set nms then Some nm else None)"

definition sum_bind :: "'e + 'a \<Rightarrow> ('a \<Rightarrow> 'e + 'b) \<Rightarrow> 'e + 'b" where
  "sum_bind r f = (case r of Inl e \<Rightarrow> Inl e | Inr x \<Rightarrow> f x)"

text \<open>The extension points are filled in their order; \<open>order\<close> is the order in which the registry is visited.\<close>

definition NewFramework :: "plugin_env \<Rightarrow> string list \<Rightarrow> Plugins \<Rightarrow> string + framework" where
  "NewFramework pe order plugins =
     sum_bind (init_weights (pluginsNeeded plugins) order 0 Map.empty) (\<lambda>weights.
     sum_bind (updatePluginList (implements [''Flavor'', ''SiteResourcesFit'']) (map fst (pl_PreFilter plugins)) [] []) (\<lambda>pre.
     sum_bind (updatePluginList (implements (map fst (filter_plugins pe))) (map fst (pl_Filter plugins)) [] []) (\<lambda>fil.
     sum_bind (updatePluginList (implements [''Flavor'', ''Volume'', ''StackAffinity'', ''SiteResourcesLeastAllocated'']) (map fst (pl_Score plugins)) [] []) (\<lambda>sco.
     sum_bind (updatePluginList (implements [''DefaultBinder'']) (map fst (pl_Bind plugins)) [] []) (\<lambda>bnd.
     sum_bind (updatePluginList (implements [''PrioritySort'']) (map fst (pl_QueueSort plugins)) [] []) (\<lambda>qs.
     sum_bind (updatePluginList (implements [''regionandaz'', ''LocationAndOperator'']) (map fst (pl_Strategy plugins)) [] []) (\<lambda>str.
       if list_ex (\<lambda>nm. map_get 0 weights nm = 0) sco then Inl ''score plugin is not configured with weight''
       else if length qs = 0 then Inl ''no queue sort plugin is enabled''
       else if length qs > 1 then Inl ''only one queue sort plugin can be enabled''
       else if length bnd = 0 then Inl ''at least one bind plugin is needed''
       else Inr \<lparr>fw_preFilter = (\<lambda>fc. enabled (prefilter_plugins pe fc) pre),
                 fw_filter = enabled (filter_plugins pe) fil,
                 fw_score = (\<lambda>fc. enabled (score_plugins pe fc) sco),
                 fw_weights = map_get 0 weights,
                 fw_bind = enabled (bind_plugins pe) bnd,
                 fw_strategy = (\<lambda>lister. enabled (strategies (pe_visit pe) lister) str),
                 fw_runAllFilters = False\<rparr>)))))))"

definition buildFramework :: "plugin_env \<Rightarrow> string list \<Rightarrow> Policy \<Rightarrow> string + framework" where
  "buildFramework pe order policy = NewFramework pe order (GetPlugins policy)"

end
