(* ===== verification/GenericScheduler.thy ===== *)
theory GenericScheduler
  imports SchedulerFramework
begin

text \<open>
  The scheduling of one allocation, \<open>pkg/scheduler/scheduler.go\<close>: filtering and scoring the sites of the snapshot,
  running the strategies and binding the replicas. The goroutines that filter the sites run one after the other, in
  any order; log output and time measurements are dropped. The pre-score extension point has no plugin.
\<close>

section \<open>Filtering\<close>

text \<open>The result says whether the stack fits, with the merged status and the error.\<close>

definition stackPassesFiltersOnSite :: "framework \<Rightarrow> CycleState \<Rightarrow> Stack \<Rightarrow> SiteCacheInfo \<Rightarrow>
    (CycleState \<times> SiteCacheInfo \<times> bool \<times> status \<times> string option) option" where
  "stackPassesFiltersOnSite fw state stack info = do {
     (state, info, statusMap) \<leftarrow> RunFilterPlugins (fw_runAllFilters fw) (fw_filter fw) state stack info;
     status \<leftarrow> PluginToStatus_Merge statusMap;
     if \<not> IsSuccess status \<and> \<not> IsUnschedulable status then Some (state, info, False, status, AsError status)
     else Some (state, info, IsSuccess status, status, None) }"

text \<open>
  \<open>checkSite\<close> for the infos at the given addresses, one after the other. The first error cancels the rest. A site that
  is nil makes the code panic here or when its ID is read next.
\<close>

fun check_sites :: "framework \<Rightarrow> Stack \<Rightarrow> nat list \<Rightarrow> CycleState \<Rightarrow> Snapshot \<Rightarrow> Site list \<Rightarrow> PluginToStatus \<Rightarrow>
    (CycleState \<times> Snapshot \<times> (string + Site list \<times> PluginToStatus)) option" where
  "check_sites fw stack [] state snap filtered statuses = Some (state, snap, Inr (filtered, statuses))"
| "check_sites fw stack (a # as) state snap filtered statuses = do {
     (state, info, fits, status, err) \<leftarrow> stackPassesFiltersOnSite fw state stack (snap_cells snap a);
     let snap = snap\<lparr>snap_cells := (snap_cells snap)(a := info)\<rparr>;
     case err of
       Some e \<Rightarrow> Some (state, snap, Inl e)
     | None \<Rightarrow> do {
         site \<leftarrow> sci_Site info;
         if fits then check_sites fw stack as state snap (filtered @ [site]) statuses
         else check_sites fw stack as state snap filtered (put_status (SiteID site) status statuses) } }"

text \<open>\<open>ks\<close> is the order of the snapshot map, and with it the order in which the sites are checked.\<close>

definition findSitesThatPassFilters :: "framework \<Rightarrow> string list \<Rightarrow> CycleState \<Rightarrow> Stack \<Rightarrow> Snapshot \<Rightarrow>
    (CycleState \<times> Snapshot \<times> (string + Site list \<times> PluginToStatus)) option" where
  "findSitesThatPassFilters fw ks state stack snap =
     (let siteID = sel_SiteID (stk_Selector stack);
          addrs = (case SiteCacheInfoMap snap siteID of
                     Some a \<Rightarrow> if siteID \<noteq> [] then [a] else List.map_filter (SiteCacheInfoMap snap) ks
                   | None \<Rightarrow> List.map_filter (SiteCacheInfoMap snap) ks)
      in if addrs = [] then Some (state, snap, Inl (''SiteCacheInfoMap of '' @ siteID @ '' is null''))
         else if fw_filter fw = [] then do {
           sites \<leftarrow> those (map (\<lambda>a. sci_Site (snap_cells snap a)) addrs);
           Some (state, snap, Inr (sites, [])) }
         else check_sites fw stack addrs state snap [] [])"

section \<open>Scoring\<close>

text \<open>\<open>srt\<close> is \<open>sort.Sort(sort.Reverse(...))\<close>: a permutation with falling scores.\<close>

definition sorts_by_score :: "(SiteScore list \<Rightarrow> SiteScore list) \<Rightarrow> bool" where
  "sorts_by_score srt \<longleftrightarrow> (\<forall>l. mset (srt l) = mset l \<and> sorted (rev (map ss_Score (srt l))))"

definition total_score :: "PluginToSiteScores \<Rightarrow> nat \<Rightarrow> int" where
  "total_score scoresMap i = fold (\<lambda>(nm, scores) acc. wrap64 (acc + ss_Score (scores ! i))) scoresMap 0"

definition prioritizeSites :: "framework \<Rightarrow> (SiteScore list \<Rightarrow> SiteScore list) \<Rightarrow> nat list \<Rightarrow> flavorCache \<Rightarrow> CycleState \<Rightarrow> Stack \<Rightarrow>
    Site list \<Rightarrow> Snapshot \<Rightarrow> (CycleState \<times> (string + SiteScore list)) option" where
  "prioritizeSites fw srt order fc state stack sites snap =
     (if fw_score fw fc = []
      then Some (state, Inr (map (\<lambda>site. zero_SiteScore\<lparr>ss_SiteID := SiteID site, ss_Score := 1\<rparr>) sites))
      else do {
        (state, scoresMap, scoreStatus) \<leftarrow> RunScorePlugins (fw_score fw fc) (fw_weights fw) order state stack sites (snapshot_info snap);
        if \<not> IsSuccess scoreStatus then Some (state, Inl (status_Message scoreStatus))
        else Some (state, Inr (srt (map (\<lambda>i. zero_SiteScore\<lparr>ss_SiteID := SiteID (sites ! i),
                   ss_AZ := AvailabilityZone (site_RegionAzMap (sites ! i)), ss_Score := total_score scoresMap i,
                   ss_Region := Region (site_RegionAzMap (sites ! i))\<rparr>) [0..<length sites]))) })"

section \<open>Binding\<close>

definition sched_bind :: "framework \<Rightarrow> SchedState \<Rightarrow> Stack \<Rightarrow> string \<Rightarrow> CycleState \<Rightarrow> (SchedState \<times> Stack \<times> string option) option" where
  "sched_bind fw sched stack targetSiteID state = do {
     (sched, stack, bindStatus) \<leftarrow> RunBindPlugins (fw_bind fw) sched state stack (SiteCacheInfoMap (siteCacheInfoSnapshot sched) targetSiteID);
     if IsSuccess bindStatus then Some (sched, stack, None)
     else if status_Code bindStatus = Code_Error then Some (sched, stack, AsError bindStatus)
     else Some (sched, stack, Some (''bind status: '' @ status_Message bindStatus)) }"

text \<open>
  What the last step of \<open>Schedule\<close> builds up. The copies of \<open>allocation.Stack\<close> share the resources they point to, so
  that a bind changes the resources of all of them.
\<close>

record bind_acc =
  ba_sched :: SchedState
  ba_stack :: Stack
  ba_stacks :: "Stack list"
  ba_count :: int

definition share_resources :: "Resource list \<Rightarrow> Stack \<Rightarrow> Stack" where
  "share_resources rs stack = stack\<lparr>Resources := rs\<rparr>"

text \<open>The loop over the copies for one site, with the number of copies left.\<close>

fun bind_copies :: "framework \<Rightarrow> CycleState \<Rightarrow> string \<Rightarrow> int \<Rightarrow> nat \<Rightarrow> bind_acc \<Rightarrow> (bind_acc \<times> string option) option" where
  "bind_copies fw state siteID replicas 0 acc = Some (acc, None)"
| "bind_copies fw state siteID replicas (Suc n) acc = do {
     (sched, newStack, err) \<leftarrow> sched_bind fw (ba_sched acc) (ba_stack acc) siteID state;
     let rs = Resources newStack;
     let acc = acc\<lparr>ba_sched := sched, ba_stack := share_resources rs (ba_stack acc),
                   ba_stacks := map (share_resources rs) (ba_stacks acc)\<rparr>;
     if err \<noteq> None then Some (acc, err)
     else let acc = acc\<lparr>ba_stacks := ba_stacks acc @ [newStack], ba_count := ba_count acc + 1\<rparr>
          in if ba_count acc \<ge> replicas then Some (acc, None)
             else bind_copies fw state siteID replicas n acc }"

fun bind_sites :: "framework \<Rightarrow> CycleState \<Rightarrow> int \<Rightarrow> SiteScore list \<Rightarrow> bind_acc \<Rightarrow> (bind_acc \<times> string option) option" where
  "bind_sites fw state replicas [] acc = Some (acc, None)"
| "bind_sites fw state replicas (value # rest) acc = do {
     (acc, err) \<leftarrow> bind_copies fw state (ss_SiteID value) replicas (nat (ss_StackCount value)) acc;
     if err \<noteq> None then Some (acc, err)
     else if ba_count acc \<ge> replicas then Some (acc, None)
     else bind_sites fw state replicas rest acc }"

section \<open>Scheduling\<close>

text \<open>\<open>UpdateFlavor\<close> copies the configured flavors (\<open>config.FlavorMap\<close>) into the snapshot.\<close>

definition UpdateFlavor :: "(string \<rightharpoonup> RegionFlavor) \<Rightarrow> SchedState \<Rightarrow> SchedState" where
  "UpdateFlavor config_FlavorMap sched =
     sched\<lparr>siteCacheInfoSnapshot := (siteCacheInfoSnapshot sched)\<lparr>snap_FlavorMap := config_FlavorMap\<rparr>\<rparr>"

text \<open>The iteration orders, the sort and the configuration.\<close>

record sched_env =
  se_FlavorMap :: "string \<rightharpoonup> RegionFlavor"
  se_sites :: "string list"
  se_order :: "nat \<Rightarrow> nat list"
  se_sort :: "SiteScore list \<Rightarrow> SiteScore list"

type_synonym ScheduleResult = "SchedState \<times> Stack list \<times> string option"

text \<open>Step 7: bind the replicas.\<close>

definition reserve_resource :: "framework \<Rightarrow> CycleState \<Rightarrow> SchedState \<Rightarrow> FwAllocation \<Rightarrow> SiteScore list \<Rightarrow> ScheduleResult option" where
  "reserve_resource fw state sched allocation siteCount = do {
     (acc, err) \<leftarrow> bind_sites fw state (fa_Replicas allocation) siteCount
       \<lparr>ba_sched = sched, ba_stack = fa_Stack allocation, ba_stacks = [], ba_count = 0\<rparr>;
     if err \<noteq> None then Some (ba_sched acc, ba_stacks acc, err)
     else if ba_count acc < fa_Replicas allocation then Some (ba_sched acc, ba_stacks acc, Some ''not find suit host'')
     else Some (ba_sched acc, ba_stacks acc, None) }"

text \<open>
  Steps 5 and 6: score the sites and run the strategies. When the strategies fail, the error that is returned is the
  one of the step before, which is nil.
\<close>

definition prioritize_and_bind :: "framework \<Rightarrow> sched_env \<Rightarrow> CycleState \<Rightarrow> SchedState \<Rightarrow> FwAllocation \<Rightarrow> Site list \<Rightarrow> ScheduleResult option" where
  "prioritize_and_bind fw se state sched allocation filteredSites = do {
     let snap = siteCacheInfoSnapshot sched;
     (state, priorities) \<leftarrow> prioritizeSites fw (se_sort se) (se_order se (length filteredSites)) (FlavorCache sched) state
       (fa_Stack allocation) filteredSites snap;
     case priorities of
       Inl err \<Rightarrow> Some (sched, [], Some err)
     | Inr priorityList \<Rightarrow> do {
         (siteCount, strategyStatus) \<leftarrow> RunStrategyPlugins (fw_strategy fw (snapshot_info snap)) state allocation priorityList;
         if \<not> IsSuccess strategyStatus then Some (sched, [], None)
         else reserve_resource fw state sched allocation siteCount } }"

text \<open>The result is the stacks and the error.\<close>

definition Schedule :: "framework \<Rightarrow> sched_env \<Rightarrow> SchedState \<Rightarrow> FwAllocation \<Rightarrow> ScheduleResult option" where
  "Schedule fw se sched allocation = do {
     let sched = UpdateFlavor (se_FlavorMap se) sched;
     let snap = siteCacheInfoSnapshot sched;
     let sched = sched\<lparr>FlavorCache := UpdateFlavorMap (FlavorCache sched) (snap_RegionFlavorMap snap) (snap_FlavorMap snap)\<rparr>;
     (state, preFilterStatus) \<leftarrow> RunPreFilterPlugins (fw_preFilter fw (FlavorCache sched)) NewCycleState (fa_Stack allocation);
     if \<not> IsSuccess preFilterStatus then Some (sched, [], AsError preFilterStatus)
     else do {
       let allocation = allocation\<lparr>fa_Stack := (fa_Stack allocation)\<lparr>stk_Selector := fa_Selector allocation\<rparr>\<rparr>;
       (state, snap, res) \<leftarrow> findSitesThatPassFilters fw (se_sites se) state (fa_Stack allocation) snap;
       let sched = sched\<lparr>siteCacheInfoSnapshot := snap\<rparr>;
       case res of
         Inl err \<Rightarrow> Some (sched, [], Some err)
       | Inr (filteredSites, statuses) \<Rightarrow>
           if length filteredSites \<le> 0 then Some (sched, [], Some ''filter none site.'')
           else prioritize_and_bind fw se state sched allocation filteredSites } }"

definition generateAllocationFromStack :: "string \<Rightarrow> Stack \<Rightarrow> FwAllocation" where
  "generateAllocationFromStack uuid stack = \<lparr>fa_ID = uuid, fa_Stack = stack, fa_Selector = stk_Selector stack, fa_Replicas = 1\<rparr>"

end
