(* ===== verification/ScheduleProperties.thy ===== *)
theory ScheduleProperties
  imports GenericScheduler
begin

text \<open>
  Lemmas on the scheduling of an allocation, from the plugins up to \<open>Schedule\<close>: no filter and no bind changes the
  sites of the snapshot; a site that is kept has been accepted by every filter; scoring, strategies and binding only
  use sites that were kept; and a successful run binds as many stacks as there are replicas.
\<close>

section \<open>The site of an info does not change\<close>

lemma fold_keeps_site: "(\<And>x n. sci_Site (f x n) = sci_Site n) \<Longrightarrow> sci_Site (fold f xs n) = sci_Site n"
  by (induction xs arbitrary: n) auto

lemma deductFlavor_site: "sci_Site (deductFlavor ka n) = sci_Site n"
  unfolding deductFlavor_def by (rule fold_keeps_site) (auto split: option.split)

lemma site_flavor_types_site:
  "site_flavor_types ka fid vcpu ram rts n = Some r \<Longrightarrow> (case r of Inl n' \<Rightarrow> sci_Site n' = sci_Site n | Inr n' \<Rightarrow> sci_Site n' = sci_Site n)"
  by (induction rts arbitrary: n) (fastforce simp: deductFlavor_site split: option.splits sum.splits elim!: bind_SomeE)+

lemma site_flavors_site: "site_flavors ka rn types rf fids n = Some n' \<Longrightarrow> sci_Site n' = sci_Site n"
proof (induction fids arbitrary: n)
  case (Cons fid fids)
  then show ?case
    by (auto simp: deductFlavor_site split: option.splits sum.splits elim!: bind_SomeE dest!: site_flavor_types_site)
qed simp

lemma deduct_step_site: "sci_Site (fst (deduct_step resInfo v st)) = sci_Site (fst st)"
proof -
  have "sci_Site (deduct_requested res rt k m) = sci_Site m" for res rt k m
    by (simp add: deduct_requested_def add_requested_def split: option.split)
  then show ?thesis
    by (cases st) (auto simp: deduct_step_def Let_def fold_keeps_site split: option.split)
qed

lemma DeductSiteResInfo_site:
  assumes "DeductSiteResInfo vis ks ka kd g n resInfo rf = Some (n', g')"
  shows "sci_Site n' = sci_Site n"
proof -
  have "sci_Site (fst (fold (deduct_step resInfo) vis st)) = sci_Site (fst st)" for st
    by (induction vis arbitrary: st) (auto simp: deduct_step_site)
  from this [of "(n, [])"] show ?thesis
    using assms site_flavors_site
    by (fastforce simp: DeductSiteResInfo_def updateSiteFlavor_def bump_def add_storage_def split: prod.splits elim!: bind_SomeE)
qed

text \<open>A list of filters that leave the site of an info alone.\<close>

definition keeps_site :: "filter_plugin list \<Rightarrow> bool" where
  "keeps_site pls \<longleftrightarrow> (\<forall>pl \<in> set pls. \<forall>state stack info state' info' s.
     snd pl state stack info = Some (state', info', s) \<longrightarrow> sci_Site info' = sci_Site info)"

lemma keeps_siteD:
  "keeps_site pls \<Longrightarrow> pl \<in> set pls \<Longrightarrow> snd pl state stack info = Some (state', info', s) \<Longrightarrow> sci_Site info' = sci_Site info"
  unfolding keeps_site_def by blast

lemma keeps_site_Cons: "keeps_site (pl # pls) \<longleftrightarrow> keeps_site [pl] \<and> keeps_site pls"
  by (simp add: keeps_site_def)

lemma keeps_site_tl: "keeps_site (pl # pls) \<Longrightarrow> keeps_site pls"
  by (simp only: keeps_site_Cons [of pl pls])

lemma fit_loop_site: "fit_loop s info = Some (info', status) \<Longrightarrow> sci_Site info' = sci_Site info"
proof (induction s arbitrary: info)
  case (Cons f s)
  obtain info1 ok where f: "fit_resource (ffi_Count f) (ffi_Flavors f) info = (info1, ok)" by fastforce
  from fit_resource_unchanged [OF f] have "sci_Site info1 = sci_Site info" by auto
  then show ?case using Cons f by (auto split: if_splits elim!: bind_SomeE)
qed simp

lemma filter_plugins_keep_site: "keeps_site (filter_plugins pe)"
proof -
  have "keeps_site [pure_filter nm f]" for nm f by (auto simp: keeps_site_def pure_filter_def)
  moreover have "keeps_site [(''Flavor'', Flavor_Filter env)]" for env
    by (auto simp: keeps_site_def Flavor_Filter_def split: sum.splits if_splits elim!: bind_SomeE)
  moreover have "keeps_site [(''Volume'', Volume_Filter ks kr)]" for ks kr
    by (auto simp: keeps_site_def Volume_Filter_def Let_def split: sum.splits elim!: bind_SomeE)
  moreover have "keeps_site [(''SiteResourcesFit'', Fit_Filter)]"
    by (auto simp: keeps_site_def Fit_Filter_def split: sum.splits dest: fit_loop_site)
  ultimately show ?thesis
    unfolding filter_plugins_def keeps_site_Cons [of _ "_ # _"] by blast
qed

lemma enabled_set: "set (enabled ps nms) \<subseteq> {(nm, f). nm \<in> set nms \<and> map_of ps nm = Some f}"
  by (auto simp: enabled_def by_name_def split: option.splits)

lemma enabled_subset: "set (enabled ps nms) \<subseteq> set ps"
  using enabled_set [of ps nms] by (auto dest: map_of_SomeD)

lemma keeps_site_subset: "keeps_site pls \<Longrightarrow> set pls' \<subseteq> set pls \<Longrightarrow> keeps_site pls'"
  unfolding keeps_site_def by blast

section \<open>Statuses of the filters\<close>

text \<open>A status that the filters report: an error or unschedulable.\<close>

definition rejecting :: "status \<Rightarrow> bool" where
  "rejecting s \<longleftrightarrow> s \<noteq> None \<and> (status_Code s = Code_Error \<or> IsUnschedulable s)"

lemma rejecting_not_success: "rejecting s \<Longrightarrow> \<not> IsSuccess s"
  by (auto simp: rejecting_def IsSuccess_def IsUnschedulable_def)

lemma rejecting_NewStatus: "rejecting (NewStatus Code_Error r)"
  by (simp add: rejecting_def NewStatus_def status_Code_def)

text \<open>The flags of \<open>Merge\<close> only grow, and a rejecting status sets one of them.\<close>

definition any_flag :: "merge_state \<Rightarrow> bool" where
  "any_flag m \<longleftrightarrow> hasError m \<or> hasUnschedulableAndUnresolvable m \<or> hasUnschedulable m"

lemma merge_step_flag:
  "merge_step p m = Some m' \<Longrightarrow> any_flag m \<or> rejecting (snd p) \<Longrightarrow> any_flag m'"
  by (auto simp: merge_step_def Let_def any_flag_def rejecting_def IsUnschedulable_def split: if_splits elim!: bind_SomeE)

lemma merge_loop_flag:
  "foldM merge_step ps m = Some m' \<Longrightarrow> any_flag m \<or> (\<exists>p \<in> set ps. rejecting (snd p)) \<Longrightarrow> any_flag m'"
proof (induction ps arbitrary: m)
  case (Cons p ps)
  then obtain m1 where m1: "merge_step p m = Some m1" "foldM merge_step ps m1 = Some m'" by (auto elim!: bind_SomeE)
  then show ?case using Cons.IH [OF m1(2)] Cons.prems(2) merge_step_flag [OF m1(1)] by auto
qed simp

lemma Merge_success:
  assumes "PluginToStatus_Merge ps = Some s" "\<forall>p \<in> set ps. rejecting (snd p)"
  shows "IsSuccess s \<longleftrightarrow> ps = []"
proof (cases ps)
  case Nil
  then show ?thesis using assms(1) by (simp add: PluginToStatus_Merge_def IsSuccess_def status_Code_def)
next
  case (Cons p ps')
  then have ne: "ps \<noteq> []" and rej: "\<exists>p \<in> set ps. rejecting (snd p)" using assms(2) by auto
  from assms(1) ne obtain m0 m where m: "foldM merge_step ps m0 = Some m"
    and s: "s = Some ((finalStatus m)\<lparr>st_code := (if hasError m then Code_Error
      else if hasUnschedulableAndUnresolvable m then Code_UnschedulableAndUnresolvable
      else if hasUnschedulable m then Code_Unschedulable else st_code (finalStatus m))\<rparr>)"
    by (auto simp: PluginToStatus_Merge_def Let_def elim!: bind_SomeE)
  have "any_flag m" using merge_loop_flag [OF m] rej by blast
  then show ?thesis using s ne by (auto simp: IsSuccess_def status_Code_def any_flag_def)
qed

text \<open>All filters accept a stack on a site, in some state of the cycle and of the info.\<close>

definition site_accepted :: "filter_plugin list \<Rightarrow> Stack \<Rightarrow> Site \<Rightarrow> bool" where
  "site_accepted pls stack site \<longleftrightarrow> (\<forall>pl \<in> set pls. \<exists>state info state' info' s.
     sci_Site info = Some site \<and> snd pl state stack info = Some (state', info', s) \<and> IsSuccess s)"

lemma site_accepted_Cons:
  "site_accepted (pl # pls) stack site \<longleftrightarrow>
     (\<exists>state info state' info' s. sci_Site info = Some site \<and> snd pl state stack info = Some (state', info', s) \<and> IsSuccess s)
     \<and> site_accepted pls stack site"
  by (simp add: site_accepted_def)

lemma put_status_rejecting:
  "\<forall>p \<in> set sts. rejecting (snd p) \<Longrightarrow> rejecting s \<Longrightarrow> \<forall>p \<in> set (put_status nm s sts). rejecting (snd p)"
  by (auto simp: put_status_def)

text \<open>One filter: it accepts, or its rejection ends the run or is put into the statuses.\<close>

lemma run_filters_ConsE:
  assumes "run_filters ra (pl # pls) state stack info sts = Some r"
  obtains (accept) state1 info1 st where "snd pl state stack info = Some (state1, info1, st)" "IsSuccess st"
      "run_filters ra pls state1 stack info1 sts = Some r"
    | (stop) sts1 where "snd (snd r) = sts1" "sts1 \<noteq> []" "(\<forall>p \<in> set sts. rejecting (snd p)) \<longrightarrow> (\<forall>p \<in> set sts1. rejecting (snd p))"
    | (reject) state1 info1 sts1 where "sts1 \<noteq> []" "(\<forall>p \<in> set sts. rejecting (snd p)) \<longrightarrow> (\<forall>p \<in> set sts1. rejecting (snd p))"
      "run_filters ra pls state1 stack info1 sts1 = Some r"
proof -
  obtain state1 info1 st where pl: "snd pl state stack info = Some (state1, info1, st)"
    using assms by (auto elim!: bind_SomeE)
  let ?sts1 = "put_status (fst pl) st sts"
  have rej: "rejecting st" if "IsUnschedulable st"
    using that by (auto simp: rejecting_def IsUnschedulable_def status_Code_def split: option.splits)
  have ne: "?sts1 \<noteq> []" by (simp add: put_status_def)
  show ?thesis
  proof (cases "IsSuccess st")
    case True
    then show ?thesis using accept [OF pl] assms pl by simp
  next
    case False
    show ?thesis
    proof (cases "IsUnschedulable st")
      case True
      note all = put_status_rejecting [OF _ rej [OF True]]
      show ?thesis
        using stop [of ?sts1] reject [of ?sts1 state1 info1] assms pl False True ne all
        by (cases ra) (auto simp: Let_def)
    next
      case nonun: False
      then show ?thesis
        using stop [of "snd (snd r)"] assms pl False rejecting_NewStatus by auto
    qed
  qed
qed

lemma run_filters_rejecting:
  "run_filters ra pls state stack info sts = Some r \<Longrightarrow> \<forall>p \<in> set sts. rejecting (snd p) \<Longrightarrow>
     (\<forall>p \<in> set (snd (snd r)). rejecting (snd p)) \<and> (sts \<noteq> [] \<longrightarrow> snd (snd r) \<noteq> [])"
proof (induction pls arbitrary: state info sts)
  case (Cons pl pls)
  from Cons.prems(1) show ?case
  proof (cases rule: run_filters_ConsE)
    case (accept state1 info1 st)
    then show ?thesis using Cons.IH Cons.prems(2) by blast
  next
    case (stop sts1)
    then show ?thesis using Cons.prems(2) by blast
  next
    case (reject state1 info1 sts1)
    then show ?thesis using Cons.IH [OF reject(3)] Cons.prems(2) by blast
  qed
qed auto

lemma run_filters_accepts:
  assumes "run_filters ra pls state stack info sts = Some r" "snd (snd r) = []" "keeps_site pls" "\<forall>p \<in> set sts. rejecting (snd p)"
    "sci_Site info = Some site"
  shows "site_accepted pls stack site \<and> sci_Site (fst (snd r)) = Some site"
  using assms
proof (induction pls arbitrary: state info sts)
  case (Cons pl pls)
  from Cons.prems(1) show ?case
  proof (cases rule: run_filters_ConsE)
    case (accept state1 info1 st)
    have "sci_Site info1 = Some site" using keeps_siteD [OF Cons.prems(3) _ accept(1)] Cons.prems(5) by simp
    then have "site_accepted pls stack site \<and> sci_Site (fst (snd r)) = Some site"
      using Cons.IH [OF accept(3) Cons.prems(2) keeps_site_tl [OF Cons.prems(3)] Cons.prems(4)] by simp
    then show ?thesis using accept(1,2) Cons.prems(5) unfolding site_accepted_Cons by blast
  next
    case (stop sts1)
    then show ?thesis using Cons.prems(2) by simp
  next
    case (reject state1 info1 sts1)
    then show ?thesis using run_filters_rejecting [OF reject(3)] Cons.prems(2,4) by simp
  qed
qed (auto simp: site_accepted_def)

section \<open>Sites that pass the filters\<close>

lemma stackPassesFilters_keeps_site:
  assumes "stackPassesFiltersOnSite fw state stack info = Some (state', info', fits, status, err)" "keeps_site (fw_filter fw)"
  shows "sci_Site info' = sci_Site info"
proof -
  have "run_filters ra pls state stack info sts = Some (state', info', sts') \<Longrightarrow> keeps_site pls \<Longrightarrow> sci_Site info' = sci_Site info"
    for ra pls state info sts state' info' sts'
  proof (induction ra pls state stack info sts rule: run_filters.induct)
    case (2 ra pl pls state stack info sts)
    obtain state1 info1 st where pl: "snd pl state stack info = Some (state1, info1, st)"
      using "2.prems"(1) by (auto elim!: bind_SomeE)
    have "sci_Site info1 = sci_Site info" using keeps_siteD [OF "2.prems"(2) _ pl] by simp
    moreover have "keeps_site pls" by (rule keeps_site_tl [OF "2.prems"(2)])
    ultimately show ?case
      using "2.IH" [OF pl] "2.prems"(1) pl by (auto simp: Let_def split: if_splits)
  qed simp
  then show ?thesis
    using assms by (auto simp: stackPassesFiltersOnSite_def RunFilterPlugins_def split: if_splits elim!: bind_SomeE)
qed

lemma stackPassesFilters_sound:
  assumes "stackPassesFiltersOnSite fw state stack info = Some (state', info', True, status, err)" "keeps_site (fw_filter fw)"
    "sci_Site info' = Some site"
  shows "site_accepted (fw_filter fw) stack site"
proof -
  obtain sts where run: "run_filters (fw_runAllFilters fw) (fw_filter fw) state stack info [] = Some (state', info', sts)"
      "PluginToStatus_Merge sts = Some status" "IsSuccess status"
    using assms(1) by (auto simp: stackPassesFiltersOnSite_def RunFilterPlugins_def split: if_splits elim!: bind_SomeE)
  have "\<forall>p \<in> set sts. rejecting (snd p)" using run_filters_rejecting [OF run(1)] by simp
  then have "sts = []" using Merge_success [OF run(2)] run(3) by blast
  moreover have "sci_Site info = Some site" using stackPassesFilters_keeps_site [OF assms(1,2)] assms(3) by simp
  ultimately show ?thesis using run_filters_accepts [OF run(1)] assms(2) by simp
qed

text \<open>The sites of a snapshot, by the address of their info.\<close>

definition same_sites :: "Snapshot \<Rightarrow> Snapshot \<Rightarrow> bool" where
  "same_sites s s' \<longleftrightarrow> SiteCacheInfoMap s' = SiteCacheInfoMap s \<and> snap_next s' = snap_next s \<and> (\<forall>a. sci_Site (snap_cells s' a) = sci_Site (snap_cells s a))"

lemma same_sites_refl [simp]: "same_sites s s"
  by (simp add: same_sites_def)

lemma same_sites_trans: "same_sites s s' \<Longrightarrow> same_sites s' s'' \<Longrightarrow> same_sites s s''"
  by (simp add: same_sites_def)

lemma same_sites_upd: "sci_Site info = sci_Site (snap_cells s a) \<Longrightarrow> same_sites s (s\<lparr>snap_cells := (snap_cells s)(a := info)\<rparr>)"
  by (simp add: same_sites_def)

text \<open>A site of the snapshot that every filter has accepted.\<close>

definition feasible :: "framework \<Rightarrow> Stack \<Rightarrow> Snapshot \<Rightarrow> nat set \<Rightarrow> Site \<Rightarrow> bool" where
  "feasible fw stack snap as site \<longleftrightarrow> (\<exists>a \<in> as. sci_Site (snap_cells snap a) = Some site) \<and> site_accepted (fw_filter fw) stack site"

lemma check_sites_feasible:
  assumes "check_sites fw stack as state snap filtered statuses = Some (state', snap', res)" "keeps_site (fw_filter fw)"
    "set as \<subseteq> A" "\<forall>site \<in> set filtered. feasible fw stack snap0 A site" "same_sites snap0 snap"
  shows "same_sites snap0 snap' \<and> (\<forall>sites sts. res = Inr (sites, sts) \<longrightarrow> (\<forall>site \<in> set sites. feasible fw stack snap0 A site))"
  using assms
proof (induction as arbitrary: state snap filtered statuses)
  case (Cons a as)
  obtain state1 info fits status err where pass:
    "stackPassesFiltersOnSite fw state stack (snap_cells snap a) = Some (state1, info, fits, status, err)"
    using Cons.prems(1) by (auto elim!: bind_SomeE)
  let ?snap = "snap\<lparr>snap_cells := (snap_cells snap)(a := info)\<rparr>"
  have site: "sci_Site info = sci_Site (snap_cells snap a)" by (rule stackPassesFilters_keeps_site [OF pass Cons.prems(2)])
  have same: "same_sites snap0 ?snap" by (rule same_sites_trans [OF Cons.prems(5) same_sites_upd [OF site]])
  show ?case
  proof (cases err)
    case (Some e)
    then show ?thesis using Cons.prems(1) pass same by (auto simp: Let_def)
  next
    case None
    then obtain s where s: "sci_Site info = Some s" using Cons.prems(1) pass by (auto simp: Let_def elim!: bind_SomeE)
    have "feasible fw stack snap0 A s" if fits
      using stackPassesFilters_sound [OF _ Cons.prems(2) s] pass that s site Cons.prems(3,5)
      by (auto simp: feasible_def same_sites_def)
    then have kept: "\<forall>site \<in> set (if fits then filtered @ [s] else filtered). feasible fw stack snap0 A site"
      using Cons.prems(4) by auto
    have rest: "check_sites fw stack as state1 ?snap (if fits then filtered @ [s] else filtered)
        (if fits then statuses else put_status (SiteID s) status statuses) = Some (state', snap', res)"
      using Cons.prems(1) pass None s by (auto simp: Let_def)
    show ?thesis
      using Cons.prems(3) by (intro Cons.IH [OF rest Cons.prems(2) _ kept same]) simp
  qed
qed auto

lemma those_set: "those (map f xs) = Some ys \<Longrightarrow> \<forall>y \<in> set ys. \<exists>x \<in> set xs. f x = Some y"
  by (induction xs arbitrary: ys) (fastforce split: option.splits)+

lemma map_filter_ran: "set (List.map_filter m ks) \<subseteq> ran m"
  by (auto simp: List.map_filter_def ran_def)

lemma findSites_feasible:
  assumes "findSitesThatPassFilters fw ks state stack snap = Some (state', snap', res)" "keeps_site (fw_filter fw)"
  shows "same_sites snap snap' \<and>
    (\<forall>sites sts. res = Inr (sites, sts) \<longrightarrow> (\<forall>site \<in> set sites. feasible fw stack snap (ran (SiteCacheInfoMap snap)) site))"
proof -
  define addrs where "addrs = (case SiteCacheInfoMap snap (sel_SiteID (stk_Selector stack)) of
       Some a \<Rightarrow> if sel_SiteID (stk_Selector stack) \<noteq> [] then [a] else List.map_filter (SiteCacheInfoMap snap) ks
     | None \<Rightarrow> List.map_filter (SiteCacheInfoMap snap) ks)"
  have addrs: "set addrs \<subseteq> ran (SiteCacheInfoMap snap)"
    using map_filter_ran [of "SiteCacheInfoMap snap" ks] by (auto simp: addrs_def ranI split: option.splits)
  have eq: "findSitesThatPassFilters fw ks state stack snap =
      (if addrs = [] then Some (state, snap, Inl (''SiteCacheInfoMap of '' @ sel_SiteID (stk_Selector stack) @ '' is null''))
       else if fw_filter fw = [] then do {
         sites \<leftarrow> those (map (\<lambda>a. sci_Site (snap_cells snap a)) addrs);
         Some (state, snap, Inr (sites, [])) }
       else check_sites fw stack addrs state snap [] [])"
    by (simp add: findSitesThatPassFilters_def Let_def addrs_def)
  show ?thesis
  proof (cases "addrs = [] \<or> fw_filter fw = []")
    case True
    then show ?thesis
      using assms(1) addrs unfolding eq
      by (fastforce simp: feasible_def site_accepted_def split: if_splits elim!: bind_SomeE dest!: those_set)
  next
    case False
    then have "check_sites fw stack addrs state snap [] [] = Some (state', snap', res)"
      using assms(1) unfolding eq by simp
    from check_sites_feasible [OF this assms(2) addrs] show ?thesis by simp
  qed
qed

section \<open>Scores and strategies use only these sites\<close>

definition score_ids :: "SiteScore list \<Rightarrow> string set" where
  "score_ids l = ss_SiteID ` set l"

lemma prioritizeSites_ids:
  assumes "prioritizeSites fw srt order fc state stack sites snap = Some (state', Inr l)" "sorts_by_score srt"
  shows "score_ids l \<subseteq> SiteID ` set sites"
proof -
  have srt: "set (srt x) = set x" for x
    using assms(2) by (auto simp: sorts_by_score_def dest: mset_eq_setD)
  show ?thesis
    using assms(1) by (auto simp: prioritizeSites_def score_ids_def srt split: if_splits elim!: bind_SomeE)
qed

lemma score_ids_simps [simp]:
  "score_ids [] = {}" "score_ids (s # l) = insert (ss_SiteID s) (score_ids l)"
  by (simp_all add: score_ids_def)

lemma centralize_ids: "score_ids (centralize state cnt l) \<subseteq> score_ids l"
proof (induction l arbitrary: cnt)
  case (Cons s l)
  show ?case
  proof (cases "max_count state s")
    case None
    then show ?thesis using Cons [of cnt] by (simp add: centralize_Cons subset_insertI2)
  next
    case (Some n)
    then show ?thesis using Cons [of "cnt - n"] by (simp add: centralize_Cons subset_insertI2)
  qed
qed simp

lemma discrete_ids: "score_ids (discrete state cnt t cur l) \<subseteq> score_ids l"
proof (induction l arbitrary: cur)
  case (Cons s l)
  show ?case
  proof (cases "GetSiteSelectorState state (ss_SiteID s)")
    case (Inl e)
    then show ?thesis using Cons [of cur] by (simp add: subset_insertI2)
  next
    case (Inr i)
    then show ?thesis using Cons [of "cur - share cnt t (StackMaxCount i)"] by (simp add: Let_def subset_insertI2)
  qed
qed simp

lemma RegionAndAz_Strategy_ids:
  assumes "RegionAndAz_Strategy visit lister state alloc l = Some (out, status)"
  shows "score_ids out \<subseteq> score_ids l"
proof (cases "RegionStrategy (sel_Strategy (fa_Selector alloc)) = ''alone''")
  case True
  then obtain rm where rm: "region_counts state lister l [] = Some rm"
    using assms by (auto simp: RegionAndAz_Strategy_def elim!: bind_SomeE)
  define r where "r = fst (fold (pick_region (fa_Replicas alloc)) (visit rm) ([], 0))"
  have out: "out = [] \<or> out = (case map_of rm r of None \<Rightarrow> [] | Some m \<Rightarrow> rm_siteScoreList m)"
    using assms True rm by (auto simp: RegionAndAz_Strategy_def r_def Let_def split: if_splits)
  have "(case map_of rm r of None \<Rightarrow> [] | Some m \<Rightarrow> rm_siteScoreList m) = region_sites state lister r l"
    using region_counts_entry [OF rm, of r] by (auto simp: region_entry_def split: option.splits)
  then show ?thesis using out by (auto simp: score_ids_def region_sites_def)
next
  case False
  then show ?thesis using assms by (simp add: RegionAndAz_Strategy_def)
qed

lemma strategies_ids:
  assumes "RunStrategyPlugins (strategies visit lister) state alloc l = Some (out, status)"
  shows "score_ids out \<subseteq> score_ids l"
proof -
  have loc: "score_ids out' \<subseteq> score_ids l'" if "LocationAndOperator_Strategy state alloc l' = Some (out', st)" for l' out' st
    using that centralize_ids discrete_ids by (simp add: LocationAndOperator_Strategy_def Let_def split: if_splits) blast+
  obtain l1 st1 where l1: "RegionAndAz_Strategy visit lister state alloc l = Some (l1, st1)"
    using assms by (auto simp: strategies_def elim!: bind_SomeE)
  have "out = [] \<or> (\<exists>st. LocationAndOperator_Strategy state alloc l1 = Some (out, st))"
    using assms l1 by (auto simp: strategies_def split: if_splits elim!: bind_SomeE)
  then show ?thesis using loc RegionAndAz_Strategy_ids [OF l1] by fastforce
qed

section \<open>Binding\<close>

text \<open>The key of a site in the snapshot is its ID.\<close>

definition snapshot_named :: "Snapshot \<Rightarrow> bool" where
  "snapshot_named snap \<longleftrightarrow> (\<forall>k a site. SiteCacheInfoMap snap k = Some a \<longrightarrow> sci_Site (snap_cells snap a) = Some site \<longrightarrow> SiteID site = k)"

lemma same_sites_named: "same_sites s s' \<Longrightarrow> snapshot_named s \<Longrightarrow> snapshot_named s'"
  by (simp add: same_sites_def snapshot_named_def)

text \<open>The sites of a snapshot, and a stack whose selection is that of a site.\<close>

definition site_in :: "Snapshot \<Rightarrow> Site \<Rightarrow> bool" where
  "site_in snap site \<longleftrightarrow> (\<exists>k a. SiteCacheInfoMap snap k = Some a \<and> sci_Site (snap_cells snap a) = Some site)"

definition placed_on :: "Stack \<Rightarrow> Site \<Rightarrow> bool" where
  "placed_on st site \<longleftrightarrow> stk_Selected st =
     \<lparr>sd_SiteID = SiteID site, sd_Region = Region (site_RegionAzMap site), sd_AvailabilityZone = AvailabilityZone (site_RegionAzMap site),
      sd_ClusterName = ClusterName site, sd_ClusterNamespace = ClusterNamespace site\<rparr>"

lemma same_sites_in: "same_sites s s' \<Longrightarrow> site_in s' site = site_in s site"
  by (simp add: same_sites_def site_in_def)

lemma site_in_unique: "snapshot_named snap \<Longrightarrow> site_in snap site \<Longrightarrow> site_in snap site' \<Longrightarrow> SiteID site = SiteID site' \<Longrightarrow> site = site'"
  unfolding snapshot_named_def site_in_def by (metis option.inject)

lemma placed_on_select: "stk_Selected (select_site site st) = stk_Selected st' \<Longrightarrow> placed_on st' site"
  by (cases "stk_Selected st") (auto simp: placed_on_def select_site_def)

text \<open>The default binder writes the site into the stack and leaves the sites and the order of the resources alone.\<close>

lemma DefaultBinder_Bind_selects:
  assumes "DefaultBinder_Bind be sched state stack (SiteCacheInfoMap (siteCacheInfoSnapshot sched) k) = Some (sched', stack', status)"
    "snapshot_named (siteCacheInfoSnapshot sched)"
  shows "(\<exists>site. site_in (siteCacheInfoSnapshot sched) site \<and> SiteID site = k \<and> placed_on stack' site) \<and>
    same_sites (siteCacheInfoSnapshot sched) (siteCacheInfoSnapshot sched')"
proof -
  obtain a site where a: "SiteCacheInfoMap (siteCacheInfoSnapshot sched) k = Some a"
      "sci_Site (snap_cells (siteCacheInfoSnapshot sched) a) = Some site"
    using assms(1) by (auto simp: DefaultBinder_Bind_def Let_def elim!: bind_SomeE)
  then have k: "SiteID site = k" "site_in (siteCacheInfoSnapshot sched) site"
    using assms(2) by (auto simp: snapshot_named_def site_in_def)
  have "stk_Selected (select_site site stack) = stk_Selected stack' \<and> same_sites (siteCacheInfoSnapshot sched) (siteCacheInfoSnapshot sched')"
    using assms(1) a
    by (auto simp: DefaultBinder_Bind_def Let_def split: sum.splits if_splits elim!: bind_SomeE
        dest!: DeductSiteResInfo_site intro!: same_sites_upd)
  then show ?thesis using k placed_on_select by blast
qed

text \<open>A framework with the default binder as its only bind plugin.\<close>

lemma sched_bind_selects:
  assumes "sched_bind fw sched stack k state = Some (sched', stack', err)" "fw_bind fw = bind_plugins pe"
    "snapshot_named (siteCacheInfoSnapshot sched)"
  shows "(\<exists>site. site_in (siteCacheInfoSnapshot sched) site \<and> SiteID site = k \<and> placed_on stack' site) \<and>
    same_sites (siteCacheInfoSnapshot sched) (siteCacheInfoSnapshot sched')"
proof -
  obtain status where "DefaultBinder_Bind (pe_bind pe) sched state stack (SiteCacheInfoMap (siteCacheInfoSnapshot sched) k) = Some (sched', stack', status)"
    using assms(1,2) by (auto simp: sched_bind_def RunBindPlugins_def bind_plugins_def split: if_splits elim!: bind_SomeE)
  from DefaultBinder_Bind_selects [OF this assms(3)] show ?thesis .
qed

text \<open>What holds of the stacks bound so far: the sites are those of the start, the count is right, and the sites are from \<open>ids\<close>.\<close>

definition bound_ok :: "Snapshot \<Rightarrow> string set \<Rightarrow> int \<Rightarrow> bind_acc \<Rightarrow> bool" where
  "bound_ok snap ids replicas acc \<longleftrightarrow>
     same_sites snap (siteCacheInfoSnapshot (ba_sched acc)) \<and> ba_count acc = int (length (ba_stacks acc)) \<and> ba_count acc \<le> replicas
     \<and> (\<forall>st \<in> set (ba_stacks acc). \<exists>site. site_in snap site \<and> SiteID site \<in> ids \<and> placed_on st site)"

lemma bind_copies_ok:
  assumes "bind_copies fw state k replicas n acc = Some (acc', err)" "fw_bind fw = bind_plugins pe" "snapshot_named snap"
    "bound_ok snap ids replicas acc" "k \<in> ids" "ba_count acc < replicas"
  shows "bound_ok snap ids replicas acc'"
  using assms
proof (induction n arbitrary: acc)
  case (Suc n)
  obtain sched st e where b: "sched_bind fw (ba_sched acc) (ba_stack acc) k state = Some (sched, st, e)"
    using Suc.prems(1) by (auto elim!: bind_SomeE)
  let ?acc = "acc\<lparr>ba_sched := sched, ba_stack := share_resources (Resources st) (ba_stack acc),
    ba_stacks := map (share_resources (Resources st)) (ba_stacks acc)\<rparr>"
  let ?acc1 = "?acc\<lparr>ba_stacks := ba_stacks ?acc @ [st], ba_count := ba_count ?acc + 1\<rparr>"
  have same: "same_sites snap (siteCacheInfoSnapshot (ba_sched acc))" using Suc.prems(4) by (simp add: bound_ok_def)
  from sched_bind_selects [OF b Suc.prems(2) same_sites_named [OF same Suc.prems(3)]]
  obtain site where sel: "site_in snap site" "SiteID site = k" "placed_on st site"
    and same': "same_sites snap (siteCacheInfoSnapshot sched)"
    using same_sites_in [OF same] same_sites_trans [OF same] by blast
  have "placed_on (share_resources rs x) y = placed_on x y" for rs x y by (simp add: placed_on_def share_resources_def)
  then have ok: "bound_ok snap ids replicas ?acc" "bound_ok snap ids replicas ?acc1"
    using Suc.prems(4,5,6) sel same' by (auto simp: bound_ok_def)
  consider "acc' = ?acc" | "acc' = ?acc1" | "ba_count ?acc1 < replicas" "bind_copies fw state k replicas n ?acc1 = Some (acc', err)"
    using Suc.prems(1) b by (auto simp: Let_def split: if_splits)
  then show ?case
    using ok Suc.IH [OF _ Suc.prems(2,3) ok(2) Suc.prems(5)] by cases auto
qed simp

lemma bind_sites_ok:
  assumes "bind_sites fw state replicas l acc = Some (acc', err)" "fw_bind fw = bind_plugins pe" "snapshot_named snap"
    "bound_ok snap ids replicas acc" "score_ids l \<subseteq> ids" "ba_count acc < replicas"
  shows "bound_ok snap ids replicas acc'"
  using assms
proof (induction l arbitrary: acc)
  case (Cons v l)
  obtain acc1 e where b: "bind_copies fw state (ss_SiteID v) replicas (nat (ss_StackCount v)) acc = Some (acc1, e)"
    using Cons.prems(1) by (auto elim!: bind_SomeE)
  have ok: "bound_ok snap ids replicas acc1"
    using Cons.prems by (intro bind_copies_ok [OF b]) auto
  consider "acc' = acc1" | "ba_count acc1 < replicas" "bind_sites fw state replicas l acc1 = Some (acc', err)"
    using Cons.prems(1) b by (auto split: if_splits)
  then show ?case
    using ok Cons.IH [OF _ Cons.prems(2,3) ok] Cons.prems(5) by cases auto
qed simp

text \<open>Whatever the result, binding leaves the sites of the snapshot alone.\<close>

lemma bind_copies_same_sites:
  assumes "bind_copies fw state k replicas n acc = Some (acc', err)" "fw_bind fw = bind_plugins pe"
    "snapshot_named (siteCacheInfoSnapshot (ba_sched acc))"
  shows "same_sites (siteCacheInfoSnapshot (ba_sched acc)) (siteCacheInfoSnapshot (ba_sched acc'))"
  using assms
proof (induction n arbitrary: acc)
  case (Suc n)
  obtain sched st e where b: "sched_bind fw (ba_sched acc) (ba_stack acc) k state = Some (sched, st, e)"
    using Suc.prems(1) by (auto elim!: bind_SomeE)
  have same: "same_sites (siteCacheInfoSnapshot (ba_sched acc)) (siteCacheInfoSnapshot sched)"
    using sched_bind_selects [OF b Suc.prems(2,3)] by blast
  let ?acc = "acc\<lparr>ba_sched := sched, ba_stack := share_resources (Resources st) (ba_stack acc),
    ba_stacks := map (share_resources (Resources st)) (ba_stacks acc) @ [st], ba_count := ba_count acc + 1\<rparr>"
  consider "ba_sched acc' = sched" | "bind_copies fw state k replicas n ?acc = Some (acc', err)"
    using Suc.prems(1) b by (auto simp: Let_def split: if_splits)
  then show ?case
    using same Suc.IH [of ?acc, OF _ Suc.prems(2)] same_sites_named [OF same Suc.prems(3)] by cases (auto intro: same_sites_trans)
qed simp

lemma bind_sites_same_sites:
  assumes "bind_sites fw state replicas l acc = Some (acc', err)" "fw_bind fw = bind_plugins pe"
    "snapshot_named (siteCacheInfoSnapshot (ba_sched acc))"
  shows "same_sites (siteCacheInfoSnapshot (ba_sched acc)) (siteCacheInfoSnapshot (ba_sched acc'))"
  using assms
proof (induction l arbitrary: acc)
  case (Cons v l)
  obtain acc1 e where b: "bind_copies fw state (ss_SiteID v) replicas (nat (ss_StackCount v)) acc = Some (acc1, e)"
    using Cons.prems(1) by (auto elim!: bind_SomeE)
  note same = bind_copies_same_sites [OF b Cons.prems(2,3)]
  consider "acc' = acc1" | "bind_sites fw state replicas l acc1 = Some (acc', err)"
    using Cons.prems(1) b by (auto split: if_splits)
  then show ?case
    using same Cons.IH [OF _ Cons.prems(2)] same_sites_named [OF same Cons.prems(3)] by cases (auto intro: same_sites_trans)
qed simp

section \<open>The framework of a policy\<close>

lemma updatePluginList_implements:
  "updatePluginList (implements I) nms seen acc = Inr out \<Longrightarrow> out = acc @ nms \<and> set nms \<subseteq> set I \<and> distinct nms \<and> set nms \<inter> set seen = {}"
  by (induction "implements I" nms seen acc rule: updatePluginList.induct)
    (auto simp: implements_def split: if_splits option.splits)

lemma enabled_strategies: "enabled (strategies visit lister) [''regionandaz'', ''LocationAndOperator''] = strategies visit lister"
  by (simp add: enabled_def by_name_def strategies_def)

lemma enabled_binder: "enabled (bind_plugins pe) [''DefaultBinder''] = bind_plugins pe"
  by (simp add: enabled_def by_name_def bind_plugins_def)

lemma GetPlugins_simps:
  "map fst (pl_Filter (GetPlugins policy)) = Predicates policy" "map fst (pl_Strategy (GetPlugins policy)) = [''regionandaz'', ''LocationAndOperator'']"
  "map fst (pl_Bind (GetPlugins policy)) = [''DefaultBinder'']" "map fst (pl_PreFilter (GetPlugins policy)) = [''Flavor'']"
  "map fst (pl_Score (GetPlugins policy)) = map pp_Name (Priorities policy)"
  by (simp_all add: GetPlugins_def getDefaultConfig_def comp_def)

lemma sum_bindE: "sum_bind r f = Inr y \<Longrightarrow> (\<And>x. r = Inr x \<Longrightarrow> f x = Inr y \<Longrightarrow> P) \<Longrightarrow> P"
  by (auto simp: sum_bind_def split: sum.splits)

lemma updatePluginList_eq: "updatePluginList (implements I) nms [] [] = Inr out \<Longrightarrow> out = nms \<and> set nms \<subseteq> set I"
  using updatePluginList_implements [of I nms "[]" "[]" out] by simp

lemma NewFramework_shape:
  assumes "NewFramework pe order p = Inr fw"
  shows "fw_preFilter fw = (\<lambda>fc. enabled (prefilter_plugins pe fc) (map fst (pl_PreFilter p))) \<and>
    fw_filter fw = enabled (filter_plugins pe) (map fst (pl_Filter p)) \<and>
    fw_bind fw = enabled (bind_plugins pe) (map fst (pl_Bind p)) \<and>
    fw_strategy fw = (\<lambda>lister. enabled (strategies (pe_visit pe) lister) (map fst (pl_Strategy p))) \<and>
    set (map fst (pl_Filter p)) \<subseteq> set (map fst (filter_plugins pe))"
  using assms unfolding NewFramework_def
  by (elim sum_bindE) ((drule updatePluginList_eq)+, elim conjE, simp split: if_splits, hypsubst, simp)

lemma buildFramework_shape:
  assumes "buildFramework pe order policy = Inr fw"
  shows "fw_bind fw = bind_plugins pe" "fw_strategy fw = strategies (pe_visit pe)"
    "fw_filter fw = enabled (filter_plugins pe) (Predicates policy)" "set (Predicates policy) \<subseteq> set (map fst (filter_plugins pe))"
    "fw_preFilter fw = (\<lambda>fc. [(''Flavor'', Flavor_PreFilter)])"
proof -
  have pre: "enabled (prefilter_plugins pe fc) [''Flavor''] = [(''Flavor'', Flavor_PreFilter)]" for fc
    by (simp add: enabled_def by_name_def prefilter_plugins_def)
  note shape = NewFramework_shape [OF assms [unfolded buildFramework_def], unfolded GetPlugins_simps enabled_strategies enabled_binder pre]
  show "fw_bind fw = bind_plugins pe" "fw_strategy fw = strategies (pe_visit pe)"
    "fw_filter fw = enabled (filter_plugins pe) (Predicates policy)" "set (Predicates policy) \<subseteq> set (map fst (filter_plugins pe))"
    "fw_preFilter fw = (\<lambda>fc. [(''Flavor'', Flavor_PreFilter)])"
    using shape by blast+
qed

lemma buildFramework_keeps_site: "buildFramework pe order policy = Inr fw \<Longrightarrow> keeps_site (fw_filter fw)"
  using keeps_site_subset [OF filter_plugins_keep_site enabled_subset] by (simp add: buildFramework_shape(3))

text \<open>Every filter that the policy names has accepted the site.\<close>

lemma site_accepted_enabled:
  assumes "site_accepted (enabled ps nms) stack site" "nm \<in> set nms" "map_of ps nm = Some f"
  shows "\<exists>state info state' info' s. sci_Site info = Some site \<and> f state stack info = Some (state', info', s) \<and> IsSuccess s"
proof -
  have "(nm, f) \<in> set (enabled ps nms)" using assms(2,3) by (force simp: enabled_def by_name_def)
  then show ?thesis using assms(1) by (fastforce simp: site_accepted_def)
qed

text \<open>What the placement filters of a policy demand of a site.\<close>

definition geo_matches :: "GeoLocation \<Rightarrow> GeoLocation \<Rightarrow> bool" where
  "geo_matches want have \<longleftrightarrow>
     (Country want = [] \<or> Country want = Country have) \<and> (Area want = [] \<or> Area want = Area have) \<and>
     (Province want = [] \<or> Province want = Province have) \<and> (City want = [] \<or> City want = City have)"

definition region_matches :: "CloudRegion list \<Rightarrow> RegionAzMap \<Rightarrow> bool" where
  "region_matches regions m \<longleftrightarrow> regions = [] \<or>
     list_ex (\<lambda>r. (cr_Region r = [] \<or> cr_Region r = Region m) \<and> (cr_AvailabilityZone r = [] \<or> AvailabilityZone m \<in> set (cr_AvailabilityZone r))) regions"

definition site_allowed :: "string list \<Rightarrow> Selector \<Rightarrow> Site \<Rightarrow> bool" where
  "site_allowed predicates sel site \<longleftrightarrow>
     (''SiteAvailability'' \<in> set predicates \<longrightarrow> Status site \<noteq> SiteStatusOffline \<and> Status site \<noteq> SiteStatusSellout) \<and>
     (''regionandaz'' \<in> set predicates \<longrightarrow> region_matches (Regions sel) (site_RegionAzMap site)) \<and>
     (''LocationAndOperator'' \<in> set predicates \<longrightarrow>
        geo_matches (sel_GeoLocation sel) (site_GeoLocation site) \<and> (sel_Operator sel = [] \<or> sel_Operator sel = Operator site))"

lemma NewStatus_not_success [simp]:
  "\<not> IsSuccess (NewStatus Code_Unschedulable r)" "\<not> IsSuccess (NewStatus Code_Error r)" "IsSuccess None"
  by (simp_all add: IsSuccess_def NewStatus_def status_Code_def)

lemma locationEqual_sound:
  assumes "locationEqual stack info = Some (True, status)" "sci_Site info = Some site"
  shows "geo_matches (sel_GeoLocation (stk_Selector stack)) (site_GeoLocation site)"
  using assms by (auto simp: locationEqual_def Let_def geo_matches_def split: if_splits)

lemma LocationAndOperator_Filter_sound:
  assumes "LocationAndOperator_Filter stack info = Some s" "IsSuccess s" "sci_Site info = Some site"
  shows "geo_matches (sel_GeoLocation (stk_Selector stack)) (site_GeoLocation site) \<and>
    (sel_Operator (stk_Selector stack) = [] \<or> sel_Operator (stk_Selector stack) = Operator site)"
proof -
  have fail: "locationEqual stack info = Some (False, st) \<Longrightarrow> \<not> IsSuccess st" for st
    by (auto simp: locationEqual_def Let_def split: if_splits elim!: bind_SomeE)
  obtain ok st where eq: "locationEqual stack info = Some (ok, st)"
    using assms(1) by (auto simp: LocationAndOperator_Filter_def elim!: bind_SomeE)
  then have ok using assms(1,2) fail by (cases ok) (auto simp: LocationAndOperator_Filter_def)
  with eq have "geo_matches (sel_GeoLocation (stk_Selector stack)) (site_GeoLocation site)"
    using locationEqual_sound assms(3) by simp
  then show ?thesis
    using assms eq \<open>ok\<close> by (auto simp: LocationAndOperator_Filter_def split: if_splits)
qed

lemma site_accepted_allowed:
  assumes "site_accepted (enabled (filter_plugins pe) predicates) stack site"
  shows "site_allowed predicates (stk_Selector stack) site"
proof -
  have pure: "\<exists>info s. sci_Site info = Some site \<and> f stack info = Some s \<and> IsSuccess s"
    if "nm \<in> set predicates" "map_of (filter_plugins pe) nm = Some (snd (pure_filter nm f))" for nm f
    using site_accepted_enabled [OF assms that] by (fastforce simp: pure_filter_def)
  have "Status site \<noteq> SiteStatusOffline \<and> Status site \<noteq> SiteStatusSellout" if "''SiteAvailability'' \<in> set predicates"
    using pure [OF that, of SiteAvailability_Filter]
    by (auto simp: filter_plugins_def pure_filter_def SiteAvailability_Filter_def Let_def split: if_splits)
  moreover have "region_matches (Regions (stk_Selector stack)) (site_RegionAzMap site)" if in_policy: "''regionandaz'' \<in> set predicates"
  proof -
    obtain info s where i: "sci_Site info = Some site" "RegionAndAz_Filter stack info = Some s" "IsSuccess s"
      using pure [OF in_policy, of RegionAndAz_Filter] by (auto simp: filter_plugins_def pure_filter_def)
    then have "s = None" by (auto simp: RegionAndAz_Filter_def split: if_splits elim!: bind_SomeE)
    then show ?thesis using RegionAndAz_Filter_sound [OF i(1)] i(2) by (auto simp: region_matches_def list_ex_iff)
  qed
  moreover have "geo_matches (sel_GeoLocation (stk_Selector stack)) (site_GeoLocation site) \<and>
      (sel_Operator (stk_Selector stack) = [] \<or> sel_Operator (stk_Selector stack) = Operator site)"
    if "''LocationAndOperator'' \<in> set predicates"
    using pure [OF that, of LocationAndOperator_Filter] LocationAndOperator_Filter_sound
    by (auto simp: filter_plugins_def pure_filter_def)
  ultimately show ?thesis by (simp add: site_allowed_def)
qed

end
