(* ===== verification/SchedulePlacement.thy ===== *)
theory SchedulePlacement
  imports ScheduleProperties
begin

text \<open>
  The correctness of \<open>Schedule\<close> as a whole (\<open>pkg/scheduler/scheduler.go\<close>): where the stacks of a run without an error
  are placed. The second part is a run on two sites, one of them offline, evaluated step by step.
\<close>

section \<open>Scheduling\<close>

text \<open>A run without an error: the strategies have failed, or all steps have succeeded and the replicas are bound.\<close>

lemma reserve_resource_success:
  assumes "reserve_resource fw state sched alloc counts = Some (sched', stacks, None)"
  shows "\<exists>acc. bind_sites fw state (fa_Replicas alloc) counts
      \<lparr>ba_sched = sched, ba_stack = fa_Stack alloc, ba_stacks = [], ba_count = 0\<rparr> = Some (acc, None)
    \<and> fa_Replicas alloc \<le> ba_count acc \<and> stacks = ba_stacks acc"
  using assms by (auto simp: reserve_resource_def split: if_splits elim!: bind_SomeE)

lemma prioritize_and_bind_success:
  assumes "prioritize_and_bind fw se state sched alloc sites = Some (sched', stacks, None)" "stacks \<noteq> []"
  shows "\<exists>state' l counts status acc.
    prioritizeSites fw (se_sort se) (se_order se (length sites)) (FlavorCache sched) state (fa_Stack alloc) sites (siteCacheInfoSnapshot sched) = Some (state', Inr l)
    \<and> RunStrategyPlugins (fw_strategy fw (snapshot_info (siteCacheInfoSnapshot sched))) state' alloc l = Some (counts, status)
    \<and> bind_sites fw state' (fa_Replicas alloc) counts \<lparr>ba_sched = sched, ba_stack = fa_Stack alloc, ba_stacks = [], ba_count = 0\<rparr> = Some (acc, None)
    \<and> fa_Replicas alloc \<le> ba_count acc \<and> stacks = ba_stacks acc"
  using assms unfolding prioritize_and_bind_def Let_def
  by (auto split: sum.splits if_splits elim!: bind_SomeE dest!: reserve_resource_success)

lemma Schedule_success:
  assumes "Schedule fw se sched alloc = Some (sched', stacks, None)"
  defines "snap0 \<equiv> (siteCacheInfoSnapshot sched)\<lparr>snap_FlavorMap := se_FlavorMap se\<rparr>"
    and "alloc1 \<equiv> alloc\<lparr>fa_Stack := (fa_Stack alloc)\<lparr>stk_Selector := fa_Selector alloc\<rparr>\<rparr>"
  shows "\<exists>state1 state2 snap sites sts sched1.
    findSitesThatPassFilters fw (se_sites se) state1 (fa_Stack alloc1) snap0 = Some (state2, snap, Inr (sites, sts))
    \<and> prioritize_and_bind fw se state2 (sched1\<lparr>siteCacheInfoSnapshot := snap\<rparr>) alloc1 sites = Some (sched', stacks, None)"
proof -
  have snap0: "siteCacheInfoSnapshot (UpdateFlavor (se_FlavorMap se) sched) = snap0" by (simp add: UpdateFlavor_def snap0_def)
  show ?thesis
    using assms(1) unfolding Schedule_def Let_def snap0 alloc1_def [symmetric]
    by (elim bind_SomeE, clarsimp simp: AsError_def split: if_splits)
      (elim bind_SomeE, clarsimp split: sum.splits if_splits, blast)
qed

text \<open>Whatever the result, a run leaves the sites of the snapshot alone.\<close>

lemma prioritize_and_bind_same_sites:
  assumes "prioritize_and_bind fw se state sched alloc sites = Some (sched', stacks, err)" "fw_bind fw = bind_plugins pe"
    "snapshot_named (siteCacheInfoSnapshot sched)"
  shows "same_sites (siteCacheInfoSnapshot sched) (siteCacheInfoSnapshot sched')"
proof -
  have "same_sites (siteCacheInfoSnapshot sched) (siteCacheInfoSnapshot sched')"
    if "reserve_resource fw state sched alloc counts = Some (sched', stacks, err)" for state counts
    using that bind_sites_same_sites [OF _ assms(2)] assms(3)
    by (fastforce simp: reserve_resource_def split: if_splits elim!: bind_SomeE)
  then show ?thesis
    using assms(1) by (auto simp: prioritize_and_bind_def Let_def split: sum.splits if_splits elim!: bind_SomeE)
qed

lemma Schedule_same_sites:
  assumes fw: "buildFramework pe order policy = Inr fw" and run: "Schedule fw se sched alloc = Some (sched', stacks, err)"
    and named: "snapshot_named (siteCacheInfoSnapshot sched)"
  shows "same_sites (siteCacheInfoSnapshot sched) (siteCacheInfoSnapshot sched')"
proof -
  let ?snap0 = "(siteCacheInfoSnapshot sched)\<lparr>snap_FlavorMap := se_FlavorMap se\<rparr>"
  let ?alloc = "alloc\<lparr>fa_Stack := (fa_Stack alloc)\<lparr>stk_Selector := fa_Selector alloc\<rparr>\<rparr>"
  define sched1 where "sched1 = (UpdateFlavor (se_FlavorMap se) sched)\<lparr>FlavorCache :=
    UpdateFlavorMap (FlavorCache (UpdateFlavor (se_FlavorMap se) sched)) (snap_RegionFlavorMap ?snap0) (snap_FlavorMap ?snap0)\<rparr>"
  have sched1: "siteCacheInfoSnapshot sched1 = ?snap0" "siteCacheInfoSnapshot (UpdateFlavor (se_FlavorMap se) sched) = ?snap0"
    by (simp_all add: sched1_def UpdateFlavor_def)
  have same0: "same_sites (siteCacheInfoSnapshot sched) ?snap0" by (simp add: same_sites_def)
  obtain state st where pre: "RunPreFilterPlugins (fw_preFilter fw (FlavorCache sched1)) NewCycleState (fa_Stack alloc) = Some (state, st)"
    using run unfolding Schedule_def Let_def sched1(2) sched1_def [symmetric] by (auto elim!: bind_SomeE)
  show ?thesis
  proof (cases "IsSuccess st")
    case True
    obtain state2 snap res where found: "findSitesThatPassFilters fw (se_sites se) state (fa_Stack ?alloc) ?snap0 = Some (state2, snap, res)"
      using run pre True unfolding Schedule_def Let_def sched1(2) sched1_def [symmetric] by (auto elim!: bind_SomeE)
    have same: "same_sites (siteCacheInfoSnapshot sched) snap"
      using findSites_feasible [OF found buildFramework_keeps_site [OF fw]] same0 same_sites_trans by blast
    have "sched' = sched1\<lparr>siteCacheInfoSnapshot := snap\<rparr> \<or>
        (\<exists>sites. prioritize_and_bind fw se state2 (sched1\<lparr>siteCacheInfoSnapshot := snap\<rparr>) ?alloc sites = Some (sched', stacks, err))"
      using run pre True found unfolding Schedule_def Let_def sched1(2) sched1_def [symmetric]
      by (auto split: sum.splits prod.splits if_splits)
    then show ?thesis
      using same same_sites_named [OF same named]
      by (auto dest!: prioritize_and_bind_same_sites [OF _ buildFramework_shape(1) [OF fw]] intro: same_sites_trans)
  next
    case False
    then show ?thesis
      using run pre same0 sched1(1) unfolding Schedule_def Let_def sched1(2) sched1_def [symmetric] by auto
  qed
qed

text \<open>A run without an error that returns stacks.\<close>

lemma Schedule_places:
  assumes fw: "buildFramework pe order policy = Inr fw" and run: "Schedule fw se sched alloc = Some (sched', stacks, None)"
    and named: "snapshot_named (siteCacheInfoSnapshot sched)" and srt: "sorts_by_score (se_sort se)" and n: "0 < fa_Replicas alloc"
    and ne: "stacks \<noteq> []"
  shows "int (length stacks) = fa_Replicas alloc \<and>
    (\<forall>st \<in> set stacks. \<exists>site. site_in (siteCacheInfoSnapshot sched) site \<and> placed_on st site \<and>
       site_allowed (Predicates policy) (fa_Selector alloc) site)"
proof -
  let ?snap0 = "(siteCacheInfoSnapshot sched)\<lparr>snap_FlavorMap := se_FlavorMap se\<rparr>"
  let ?stack = "(fa_Stack alloc)\<lparr>stk_Selector := fa_Selector alloc\<rparr>"
  let ?alloc = "alloc\<lparr>fa_Stack := ?stack\<rparr>"
  obtain state1 state2 snap sites sts sched1 where found:
      "findSitesThatPassFilters fw (se_sites se) state1 ?stack ?snap0 = Some (state2, snap, Inr (sites, sts))"
      "prioritize_and_bind fw se state2 (sched1\<lparr>siteCacheInfoSnapshot := snap\<rparr>) ?alloc sites = Some (sched', stacks, None)"
    using Schedule_success [OF run] by auto
  let ?sched = "sched1\<lparr>siteCacheInfoSnapshot := snap\<rparr>"
  obtain state3 l counts status acc where bound:
      "prioritizeSites fw (se_sort se) (se_order se (length sites)) (FlavorCache ?sched) state2 ?stack sites snap = Some (state3, Inr l)"
      "RunStrategyPlugins (fw_strategy fw (snapshot_info snap)) state3 ?alloc l = Some (counts, status)"
      "bind_sites fw state3 (fa_Replicas alloc) counts \<lparr>ba_sched = ?sched, ba_stack = ?stack, ba_stacks = [], ba_count = 0\<rparr> = Some (acc, None)"
      "fa_Replicas alloc \<le> ba_count acc" "stacks = ba_stacks acc"
    using prioritize_and_bind_success [OF found(2) ne] by auto
  have named0: "snapshot_named ?snap0" using named by (simp add: snapshot_named_def)
  from findSites_feasible [OF found(1) buildFramework_keeps_site [OF fw]] have same: "same_sites ?snap0 snap"
    and sites: "\<forall>site \<in> set sites. feasible fw ?stack ?snap0 (ran (SiteCacheInfoMap ?snap0)) site" by auto
  have ids: "score_ids counts \<subseteq> SiteID ` set sites"
    using strategies_ids bound(2) prioritizeSites_ids [OF bound(1) srt] by (fastforce simp: buildFramework_shape(2) [OF fw])
  have "bound_ok snap (SiteID ` set sites) (fa_Replicas alloc) \<lparr>ba_sched = ?sched, ba_stack = ?stack, ba_stacks = [], ba_count = 0\<rparr>"
    using n by (simp add: bound_ok_def)
  from bind_sites_ok [OF bound(3) buildFramework_shape(1) [OF fw] same_sites_named [OF same named0] this ids]
  have ok: "bound_ok snap (SiteID ` set sites) (fa_Replicas alloc) acc" using n by simp
  then have len: "int (length stacks) = fa_Replicas alloc" using bound(4,5) by (simp add: bound_ok_def)
  have "\<exists>site. site_in (siteCacheInfoSnapshot sched) site \<and> placed_on st site \<and> site_allowed (Predicates policy) (fa_Selector alloc) site"
    if st: "st \<in> set stacks" for st
  proof -
    obtain site s where s: "site_in snap site" "placed_on st site" "s \<in> set sites" "SiteID s = SiteID site"
      using ok st bound(5) by (fastforce simp: bound_ok_def)
    have "site_in ?snap0 s" using bspec [OF sites s(3)] by (auto simp: feasible_def site_in_def ran_def)
    then have eq: "s = site" using s(1,4) site_in_unique [OF named0] same_sites_in [OF same] by simp
    have "site_allowed (Predicates policy) (fa_Selector alloc) site"
      using s(3) sites site_accepted_allowed [of pe "Predicates policy" ?stack site]
      by (auto simp: eq feasible_def buildFramework_shape(3) [OF fw])
    then show ?thesis using s(1,2) same_sites_in [OF same] by (auto simp: site_in_def)
  qed
  with len show ?thesis by blast
qed


section \<open>A run\<close>

text \<open>
  Two clusters, in the regions \<open>n\<close> and \<open>s\<close>, with room for five machines of the flavor \<open>c1\<close> each, and a request for two
  machines in the region \<open>s\<close>. Every map that the run visits has at most the key \<open>c1\<close>.
\<close>

definition run_env :: plugin_env where
  "run_env =
     \<lparr>pe_flavor = \<lparr>fe_spot_fake = False, fe_com = (\<lambda>_. [''c1'']), fe_spot = (\<lambda>_. []), fe_finite = (\<lambda>_. [])\<rparr>,
      pe_alloc = \<lparr>ae_fc = \<lparr>fc_RegionFlavorMap = Map.empty, fc_FlavorMap = Map.empty\<rparr>, ae_storage = (\<lambda>_. []), ae_request = (\<lambda>_. []),
        ae_total = [], ae_requested = []\<rparr>,
      pe_domainID = [], pe_sort = (\<lambda>rs. rs), pe_visit = (\<lambda>l. l), pe_storage = (\<lambda>_. []), pe_request = (\<lambda>_. []), pe_used = (\<lambda>_. []),
      pe_volumes = (\<lambda>_. []),
      pe_bind = \<lparr>be_site = \<lparr>env_flavors = [], env_ParseFloat = (\<lambda>_. (0, False)), env_GetFlavor = (\<lambda>_ _. None), env_QosWeight = 0\<rparr>,
        be_types = (\<lambda>_ _. []), be_storage = (\<lambda>_. []), be_total = (\<lambda>_. []), be_requested = (\<lambda>_. []), be_flavors = (\<lambda>_. [''c1'']),
        be_deduct = (\<lambda>_. [''c1''])\<rparr>\<rparr>"

definition run_policy :: Policy where
  "run_policy = \<lparr>Predicates = [''SiteAvailability'', ''regionandaz'', ''Volume'', ''Flavor''], Priorities = [\<lparr>pp_Name = ''Flavor'', pp_Weight = 1\<rparr>]\<rparr>"

text \<open>A flavor whose number of CPUs is not known, so that the binder records no CPUs for it.\<close>

definition run_flavor :: RegionFlavor where
  "run_flavor = \<lparr>tf_ID = ''c1'', tf_Name = ''c1'', Vcpus = [], Ram = 0,
     tf_OsExtraSpecs = \<lparr>ex_ResourceType = [], CondOperationStatus = [], CondOperationAz = [], CondSpotBlockOperationAz = [], CondSpotBlockLdh = [],
       CondSpotBlockLdc = [], CondSpotBlockInterruptPolicy = [], CondSpotOperationAz = [], CondSpotOperationStatus = []\<rparr>,
     RegionFlavorID = ''c1'', rf_Region = []\<rparr>"

definition run_site :: "string \<Rightarrow> Site" where
  "run_site r = \<lparr>SiteID = r @ ''--1'', ClusterName = ''cluster-'' @ r, ClusterNamespace = ''default'', site_GeoLocation = zero_GeoLocation,
     site_RegionAzMap = \<lparr>Region = r, AvailabilityZone = ''1''\<rparr>, Operator = [], Status = ''Created'', site_SiteAttribute = [], EipTypeName = [],
     SpotResources = Map.empty, Hosts = []\<rparr>"

definition run_info :: "string \<Rightarrow> SiteCacheInfo" where
  "run_info r = zero_SiteCacheInfo\<lparr>sci_Site := Some (run_site r), AllocatableFlavor := [''c1'' \<mapsto> 5]\<rparr>"

definition run_snapshot :: Snapshot where
  "run_snapshot = NewEmptySnapshot\<lparr>SiteCacheInfoMap := [''n--1'' \<mapsto> 0, ''s--1'' \<mapsto> Suc 0],
     snap_cells := (\<lambda>_. zero_SiteCacheInfo)(0 := run_info ''n'', Suc 0 := run_info ''s''), snap_next := Suc (Suc 0),
     snap_RegionFlavorMap := [''n||c1'' \<mapsto> run_flavor, ''s||c1'' \<mapsto> run_flavor], snap_FlavorMap := [''c1'' \<mapsto> run_flavor]\<rparr>"

definition run_sched :: SchedState where
  "run_sched =
     \<lparr>siteCacheInfoSnapshot = run_snapshot,
      sched_cache = \<lparr>assumedStacks = Map.empty, stackStates = Map.empty, siteCacheInfos = Map.empty, headSiteCacheInfo = None,
        regionToSite = Map.empty, cache_siteTree = \<lparr>st_tree = Map.empty, st_zones = [], st_zoneIndex = 0, st_numSites = 0\<rparr>\<rparr>,
      FlavorCache = \<lparr>fc_RegionFlavorMap = Map.empty, fc_FlavorMap = Map.empty\<rparr>, nilFlavors = {}, sched_generation = 0\<rparr>"

definition run_request :: FwAllocation where
  "run_request =
     (let sel = zero_Selector\<lparr>Regions := [\<lparr>cr_Region = ''s'', cr_AvailabilityZone = []\<rparr>], sel_SiteID := ''s--''\<rparr>
      in \<lparr>fa_ID = ''id'',
          fa_Stack = zero_Stack\<lparr>stk_Selector := sel, Resources := [\<lparr>res_Name = [], ResourceType = ''vm'', Flavors =
            [\<lparr>FlavorID = ''c1'', flavor_Spot = None\<rparr>], Storage = Map.empty, NeedEip = False, Count = 1, FlavorIDSelected = []\<rparr>]\<rparr>,
          fa_Selector = sel, fa_Replicas = 2\<rparr>)"

definition run_sched_env :: sched_env where
  "run_sched_env = \<lparr>se_FlavorMap = [''c1'' \<mapsto> run_flavor], se_sites = [''n--1'', ''s--1''], se_order = (\<lambda>n. [0..<n]),
     se_sort = (\<lambda>l. rev (sort_key ss_Score l))\<rparr>"

lemma run_request_simps:
  "fa_Replicas run_request = 2" "sel_SiteID (fa_Selector run_request) = ''s--''" "length (Resources (fa_Stack run_request)) = 1"
  "Regions (fa_Selector run_request) = [\<lparr>cr_Region = ''s'', cr_AvailabilityZone = []\<rparr>]"
  "sel_Strategy (fa_Selector run_request) = \<lparr>LocationStrategy = [], RegionStrategy = []\<rparr>"
  "(fa_Stack run_request)\<lparr>stk_Selector := fa_Selector run_request\<rparr> = fa_Stack run_request"
  "stk_Selector (fa_Stack run_request) = fa_Selector run_request" "run_request\<lparr>fa_Stack := fa_Stack run_request\<rparr> = run_request"
  by (simp_all add: run_request_def zero_Selector_def zero_Stack_def Let_def)

text \<open>The framework of the policy.\<close>

definition run_fw :: framework where
  "run_fw = \<lparr>fw_preFilter = (\<lambda>fc. [(''Flavor'', Flavor_PreFilter)]),
     fw_filter = [pure_filter ''SiteAvailability'' SiteAvailability_Filter, pure_filter ''regionandaz'' RegionAndAz_Filter,
       (''Volume'', Volume_Filter (\<lambda>_. []) (\<lambda>_. [])), (''Flavor'', Flavor_Filter (pe_flavor run_env))],
     fw_score = (\<lambda>fc. [(''Flavor'', Flavor_Score (pe_flavor run_env))]),
     fw_weights = (\<lambda>nm. if nm \<in> {''DefaultBinder'', ''Flavor'', ''LocationAndOperator'', ''SiteAvailability'', ''PrioritySort'',
       ''regionandaz'', ''Volume''} then 1 else 0),
     fw_bind = bind_plugins run_env, fw_strategy = strategies (\<lambda>l. l), fw_runAllFilters = False\<rparr>"

lemma run_build: "buildFramework run_env registry_names run_policy = Inr run_fw"
  by (simp add: buildFramework_def NewFramework_def GetPlugins_def getDefaultConfig_def run_policy_def pluginsNeeded_def
    getExtensionPoints_def wrap32_def sum_bind_def implements_def registry_names_def filter_plugins_def pure_filter_def wrap64_def
    run_fw_def enabled_def by_name_def prefilter_plugins_def score_plugins_def bind_plugins_def strategies_def run_env_def fun_eq_iff)

text \<open>The one choice of flavors, and how often it fits on a site.\<close>

definition run_agg :: FlavorAggregate where
  "run_agg = \<lparr>agg_Flavors = [\<lparr>sf_Flavor = \<lparr>FlavorID = ''c1'', flavor_Spot = None\<rparr>, sf_Count = 1\<rparr>], agg_Weight = 10\<rparr>"

lemma run_aggregate: "calculateFlavorAggregate (fa_Stack run_request) = Some [run_agg]"
  by (simp add: run_request_def Let_def zero_Stack_def calculateFlavorAggregate_def aggregate_loop.simps panic_simps nextIndex_def run_agg_def)

lemma run_match: "match_choice (pe_flavor run_env) run_agg (run_info r) = Some ((True, 5), (True, int_of_float MaxFloat64))"
  using float_min_MaxFloat64 [of 5] int_of_float_Fin [of 5]
  by (simp add: match_choice_def run_agg_def getFlavorToCount_def count_flavor_def isComFlavorMatch_def isSpotFlavorMatch_def run_info_def
    run_env_def match_result_def go_div_def go_quot_def wrap64_def)

subsection \<open>Filters\<close>

text \<open>The cycle state after the pre-filter and the filters.\<close>

definition run_state :: CycleState where
  "run_state = CycleState_Write NewCycleState flavorStateKey (FlavorAggregates [run_agg])"

definition run_state1 :: CycleState where
  "run_state1 = CycleState_Write run_state SiteTempSelectorKey (SiteSelectorInfos [''s--1'' \<mapsto> zero_SiteSelectorInfo])"

lemma run_pre: "RunPreFilterPlugins (fw_preFilter run_fw fc) NewCycleState (fa_Stack run_request) = Some (run_state, None)"
  by (simp add: run_fw_def run_state_def Flavor_PreFilter_def run_aggregate)

lemma run_filter_n:
  "\<exists>st. stackPassesFiltersOnSite run_fw state (fa_Stack run_request) (run_info ''n'') = Some (state, run_info ''n'', False, st, None)"
  by (simp add: stackPassesFiltersOnSite_def RunFilterPlugins_def run_fw_def pure_filter_def SiteAvailability_Filter_def run_info_def
    run_site_def run_request_simps PluginToStatus_Merge_def merge_step_def put_status_def Reasons_def IsUnschedulable_def IsSuccess_def
    NewStatus_def status_Code_def AsError_def)

lemma run_volume: "Volume_Filter (\<lambda>_. []) (\<lambda>_. []) run_state stack (run_info ''s'') = Some (run_state1, run_info ''s'', None)"
  by (simp add: Volume_Filter_def UpdateSiteSelectorState_def CycleState_Read_def run_state_def run_state1_def CycleState_Write_def
    NewCycleState_def run_info_def run_site_def)

lemma run_flavor_filter: "Flavor_Filter (pe_flavor run_env) run_state1 stack (run_info ''s'') = Some (run_state1, run_info ''s'', None)"
  by (simp add: Flavor_Filter_def Flavor_GetPreFilterState_def CycleState_Read_def run_state1_def run_state_def CycleState_Write_def run_match)

lemma run_available:
  "SiteAvailability_Filter (fa_Stack run_request) (run_info ''s'') = Some None" "RegionAndAz_Filter (fa_Stack run_request) (run_info ''s'') = Some None"
  by (simp_all add: SiteAvailability_Filter_def RegionAndAz_Filter_def regionEqual_def run_info_def run_site_def run_request_simps suffix_def)

lemma run_filter_s:
  "stackPassesFiltersOnSite run_fw run_state (fa_Stack run_request) (run_info ''s'') = Some (run_state1, run_info ''s'', True, None, None)"
  by (simp add: stackPassesFiltersOnSite_def RunFilterPlugins_def run_fw_def pure_filter_def run_available run_volume run_flavor_filter
    PluginToStatus_Merge_def)

lemma run_snapshot_simps:
  "SiteCacheInfoMap run_snapshot = [''n--1'' \<mapsto> 0, ''s--1'' \<mapsto> Suc 0]"
  "snap_RegionFlavorMap run_snapshot = [''n||c1'' \<mapsto> run_flavor, ''s||c1'' \<mapsto> run_flavor]" "snap_FlavorMap run_snapshot = [''c1'' \<mapsto> run_flavor]"
  "snap_cells run_snapshot 0 = run_info ''n''" "snap_cells run_snapshot (Suc 0) = run_info ''s''"
  "run_snapshot\<lparr>snap_FlavorMap := [''c1'' \<mapsto> run_flavor]\<rparr> = run_snapshot"
  "run_snapshot\<lparr>snap_cells := (snap_cells run_snapshot)(0 := run_info ''n'')\<rparr> = run_snapshot"
  "run_snapshot\<lparr>snap_cells := (snap_cells run_snapshot)(Suc 0 := run_info ''s'')\<rparr> = run_snapshot"
  by (simp_all add: run_snapshot_def NewEmptySnapshot_def fun_upd_idem fun_upd_twist)

lemma run_found:
  "\<exists>sts. findSitesThatPassFilters run_fw [''n--1'', ''s--1''] run_state (fa_Stack run_request) run_snapshot =
     Some (run_state1, run_snapshot, Inr ([run_site ''s''], sts))"
proof -
  obtain st where n: "stackPassesFiltersOnSite run_fw run_state (fa_Stack run_request) (run_info ''n'') =
      Some (run_state, run_info ''n'', False, st, None)" using run_filter_n by blast
  have site: "sci_Site (run_info r) = Some (run_site r)" for r by (simp add: run_info_def)
  have "fw_filter run_fw \<noteq> []" by (simp add: run_fw_def)
  moreover have "check_sites run_fw (fa_Stack run_request) [0, Suc 0] run_state run_snapshot [] [] =
      Some (run_state1, run_snapshot, Inr ([run_site ''s''], put_status (SiteID (run_site ''n'')) st []))"
    using n by (simp add: run_snapshot_simps run_filter_s site)
  ultimately show ?thesis
    by (auto simp: findSitesThatPassFilters_def run_snapshot_simps run_request_simps Let_def List.map_filter_simps)
qed

subsection \<open>Scores and strategies\<close>

definition run_state2 :: CycleState where
  "run_state2 = CycleState_Write run_state SiteTempSelectorKey
     (SiteSelectorInfos [''s--1'' \<mapsto> zero_SiteSelectorInfo\<lparr>ssi_Flavors := agg_Flavors run_agg, StackMaxCount := 5\<rparr>])"

lemma run_update:
  "UpdateSiteSelectorState run_state1 ''s--1'' [(''Flavors'', UFlavors (agg_Flavors run_agg)), (''StackMaxCount'', UInt 5)] = (run_state2, None)"
  by (simp add: UpdateSiteSelectorState_def CycleState_Read_def CycleState_Write_def run_state1_def run_state2_def update_field_def
    zero_SiteSelectorInfo_def)

lemma run_score: "Flavor_Score (pe_flavor run_env) run_state1 stack (run_info ''s'') = Some (run_state2, 10, None)"
proof -
  have "choice_count (pe_flavor run_env) run_agg 5 m = 5" for m
    by (simp add: choice_count_def run_env_def getFlavorToCount_def run_agg_def count_flavor_def)
  moreover have "agg_Flavors run_agg \<noteq> []" "go_quot (agg_Weight run_agg) (int (length (agg_Flavors run_agg))) = 10"
    by (simp_all add: run_agg_def go_quot_def)
  moreover have "Flavor_GetPreFilterState run_state1 = Inr [run_agg]"
    by (simp add: Flavor_GetPreFilterState_def CycleState_Read_def run_state1_def run_state_def CycleState_Write_def)
  ultimately show ?thesis by (simp add: Flavor_Score_def run_match run_update, simp add: run_info_def run_site_def run_update)
qed

definition run_scored :: SiteScore where
  "run_scored = \<lparr>ss_SiteID = ''s--1'', ss_Region = ''s'', ss_AZ = ''1'', ss_Score = 10, ss_StackCount = 0\<rparr>"

lemma run_prioritize:
  "prioritizeSites run_fw (\<lambda>l. rev (sort_key ss_Score l)) [0] fc run_state1 stack [run_site ''s''] run_snapshot = Some (run_state2, Inr [run_scored])"
  by (simp add: prioritizeSites_def RunScorePlugins_def run_fw_def run_score snapshot_info_def run_snapshot_simps score_entry_def
    weigh_scores_def total_score_def run_site_def zero_SiteScore_def run_scored_def wrap64_def)

lemma run_strategy:
  "RunStrategyPlugins (fw_strategy run_fw (snapshot_info run_snapshot)) run_state2 run_request [run_scored] =
     Some ([run_scored\<lparr>ss_StackCount := 2\<rparr>], None)"
  by (simp add: run_fw_def strategies_def RegionAndAz_Strategy_def LocationAndOperator_Strategy_def max_counts.simps run_request_simps
    run_scored_def GetSiteSelectorState_def CycleState_Read_def run_state2_def CycleState_Write_def zero_SiteSelectorInfo_def share_def
    floor_eq_iff)

subsection \<open>Binding\<close>

text \<open>What the binder relies on, and keeps, during the run.\<close>

definition run_bound :: "SchedState \<Rightarrow> bool" where
  "run_bound sched \<longleftrightarrow> SiteCacheInfoMap (siteCacheInfoSnapshot sched) = [''n--1'' \<mapsto> 0, ''s--1'' \<mapsto> Suc 0] \<and>
     sci_Site (snap_cells (siteCacheInfoSnapshot sched) (Suc 0)) = Some (run_site ''s'') \<and>
     snap_RegionFlavorMap (siteCacheInfoSnapshot sched) = snap_RegionFlavorMap run_snapshot \<and> siteCacheInfos (sched_cache sched) = Map.empty \<and>
     nilFlavors sched = {} \<and> fc_RegionFlavorMap (FlavorCache sched) = snap_RegionFlavorMap run_snapshot"

lemma run_binder:
  assumes "run_bound sched" "length (Resources stack) = 1"
  shows "\<exists>sched' stack'. DefaultBinder_Bind (pe_bind run_env) sched run_state2 stack (Some (Suc 0)) = Some (sched', stack', None) \<and>
    run_bound sched' \<and> length (Resources stack') = 1"
proof -
  obtain r where r: "Resources stack = [r]" using assms(2) by (auto simp: length_Suc_conv)
  have sel: "GetSiteSelectorState run_state2 ''s--1'' = Inr (zero_SiteSelectorInfo\<lparr>ssi_Flavors := agg_Flavors run_agg, StackMaxCount := 5\<rparr>)"
    by (simp add: GetSiteSelectorState_def CycleState_Read_def run_state2_def CycleState_Write_def)
  have "ParseInt (Vcpus run_flavor) = None" by (simp add: run_flavor_def ParseInt_def)
  then show ?thesis
    using assms(1) r sel by (simp add: DefaultBinder_Bind_def run_bound_def select_site_def run_agg_def run_site_def GetFlavor_def
      cache_UpdateSiteWithResInfo_def info_of_def DeductSiteResInfo_def run_env_def updateSiteFlavor_def add_storage_def bump_def
      run_snapshot_simps Let_def deductFlavor_def split: option.split)
qed

lemma run_sched_bind:
  assumes "run_bound sched" "length (Resources stack) = 1"
  shows "\<exists>sched' stack'. sched_bind run_fw sched stack ''s--1'' run_state2 = Some (sched', stack', None) \<and>
    run_bound sched' \<and> length (Resources stack') = 1"
proof -
  obtain sched' stack' where "DefaultBinder_Bind (pe_bind run_env) sched run_state2 stack (Some (Suc 0)) = Some (sched', stack', None)"
    "run_bound sched'" "length (Resources stack') = 1" using run_binder [OF assms] by blast
  moreover have "SiteCacheInfoMap (siteCacheInfoSnapshot sched) ''s--1'' = Some (Suc 0)" using assms(1) by (simp add: run_bound_def)
  ultimately show ?thesis by (simp add: sched_bind_def RunBindPlugins_def run_fw_def bind_plugins_def)
qed

lemma run_reserve:
  assumes "run_bound sched"
  shows "\<exists>sched' stacks. reserve_resource run_fw run_state2 sched run_request [run_scored\<lparr>ss_StackCount := 2\<rparr>] = Some (sched', stacks, None) \<and>
    stacks \<noteq> []"
proof -
  let ?stack = "fa_Stack run_request"
  obtain s1 st1 where 1: "sched_bind run_fw sched ?stack ''s--1'' run_state2 = Some (s1, st1, None)" "run_bound s1" "length (Resources st1) = 1"
    using run_sched_bind [OF assms] run_request_simps(3) by blast
  then obtain s2 st2 where 2: "sched_bind run_fw s1 (share_resources (Resources st1) ?stack) ''s--1'' run_state2 = Some (s2, st2, None)"
    using run_sched_bind [of s1 "share_resources (Resources st1) ?stack"] by (auto simp: share_resources_def)
  show ?thesis using 1 2 by (simp add: reserve_resource_def run_request_simps run_scored_def Let_def numeral_2_eq_2)
qed

lemma run_Schedule: "\<exists>sched' stacks. Schedule run_fw run_sched_env run_sched run_request = Some (sched', stacks, None) \<and> stacks \<noteq> []"
proof -
  let ?sched = "run_sched\<lparr>FlavorCache := \<lparr>fc_RegionFlavorMap = snap_RegionFlavorMap run_snapshot, fc_FlavorMap = snap_FlavorMap run_snapshot\<rparr>\<rparr>"
  obtain sts where found: "findSitesThatPassFilters run_fw [''n--1'', ''s--1''] run_state (fa_Stack run_request) run_snapshot =
     Some (run_state1, run_snapshot, Inr ([run_site ''s''], sts))" using run_found by blast
  have b: "run_bound ?sched" by (simp add: run_bound_def run_sched_def run_snapshot_simps run_info_def)
  have env: "UpdateFlavor (se_FlavorMap run_sched_env) run_sched = run_sched" "siteCacheInfoSnapshot ?sched = run_snapshot"
    "siteCacheInfoSnapshot run_sched = run_snapshot" "?sched\<lparr>siteCacheInfoSnapshot := run_snapshot\<rparr> = ?sched"
    "UpdateFlavorMap (FlavorCache run_sched) (snap_RegionFlavorMap run_snapshot) (snap_FlavorMap run_snapshot) =
       \<lparr>fc_RegionFlavorMap = snap_RegionFlavorMap run_snapshot, fc_FlavorMap = snap_FlavorMap run_snapshot\<rparr>"
    "se_sites run_sched_env = [''n--1'', ''s--1'']" "se_order run_sched_env (Suc 0) = [0]" "se_sort run_sched_env = (\<lambda>l. rev (sort_key ss_Score l))"
    by (simp_all add: UpdateFlavor_def run_sched_env_def run_sched_def run_snapshot_simps UpdateFlavorMap_def)
  show ?thesis using run_reserve [OF b]
    by (simp add: Schedule_def Let_def env run_pre found prioritize_and_bind_def run_prioritize run_strategy run_request_simps)
qed

lemma run_named: "snapshot_named (siteCacheInfoSnapshot run_sched)" "sorts_by_score (se_sort run_sched_env)"
  by (simp_all add: snapshot_named_def run_sched_def run_snapshot_def run_info_def run_site_def sorts_by_score_def run_sched_env_def rev_map)


end
