(* ===== verification/WorkQueue.thy ===== *)
theory WorkQueue
  imports GoPrelude
begin

text \<open>
  The work queue that the controllers take their items from, \<open>client-go/util/workqueue/queue.go\<close> under \<open>staging\<close>. Each
  operation runs under the lock of the queue, and is one step here. \<open>Get\<close> blocks on an empty queue: \<open>None\<close>.

  The locale \<open>work_queue\<close> is what a worker relies on: items are handed out to one worker at a time.
\<close>

locale work_queue =
  fixes inv :: "'q \<Rightarrow> bool"
    and running :: "'q \<Rightarrow> 'i set"
    and add :: "'i \<Rightarrow> 'q \<Rightarrow> 'q"
    and get :: "'q \<Rightarrow> ('q \<times> 'i option) option"
    and finish :: "'i \<Rightarrow> 'q \<Rightarrow> 'q"
  assumes add_inv: "inv q \<Longrightarrow> inv (add i q) \<and> running (add i q) = running q"
    and get_inv: "inv q \<Longrightarrow> get q = Some (q', Some i) \<Longrightarrow> inv q' \<and> i \<notin> running q \<and> running q' = insert i (running q)"
    and finish_inv: "inv q \<Longrightarrow> i \<in> running q \<Longrightarrow> inv (finish i q) \<and> running (finish i q) = running q - {i}"
begin

text \<open>A worker that never finishes what it got gets every item at most once.\<close>

lemma get_once:
  assumes "inv q" "running q = set tr" "distinct tr" "get q = Some (q', Some i)"
  shows "inv q' \<and> running q' = set (tr @ [i]) \<and> distinct (tr @ [i])"
  using get_inv [OF assms(1,4)] assms(2,3) by auto

text \<open>One that finishes what it got, before it gets the next, leaves nothing running.\<close>

lemma get_finish:
  assumes "inv q" "get q = Some (q', Some i)"
  shows "inv (finish i q') \<and> running (finish i q') = running q"
  using get_inv [OF assms] finish_inv [of q' i] by auto

end

record 'i workqueue =
  wq_queue :: "'i list"
  wq_dirty :: "'i set"
  wq_processing :: "'i set"
  wq_shuttingDown :: bool

definition wq_new :: "'i workqueue" where
  "wq_new = \<lparr>wq_queue = [], wq_dirty = {}, wq_processing = {}, wq_shuttingDown = False\<rparr>"

definition wq_Add :: "'i \<Rightarrow> 'i workqueue \<Rightarrow> 'i workqueue" where
  "wq_Add item q =
     (if wq_shuttingDown q \<or> item \<in> wq_dirty q then q
      else let q = q\<lparr>wq_dirty := insert item (wq_dirty q)\<rparr>
           in if item \<in> wq_processing q then q else q\<lparr>wq_queue := wq_queue q @ [item]\<rparr>)"

text \<open>The item is \<open>None\<close> when the queue is shutting down.\<close>

definition wq_Get :: "'i workqueue \<Rightarrow> ('i workqueue \<times> 'i option) option" where
  "wq_Get q =
     (case wq_queue q of
        [] \<Rightarrow> if wq_shuttingDown q then Some (q, None) else None
      | item # rest \<Rightarrow>
          Some (q\<lparr>wq_queue := rest, wq_processing := insert item (wq_processing q), wq_dirty := wq_dirty q - {item}\<rparr>, Some item))"

definition wq_Done :: "'i \<Rightarrow> 'i workqueue \<Rightarrow> 'i workqueue" where
  "wq_Done item q =
     (let q = q\<lparr>wq_processing := wq_processing q - {item}\<rparr>
      in if item \<in> wq_dirty q then q\<lparr>wq_queue := wq_queue q @ [item]\<rparr> else q)"

text \<open>
  The invariant of the struct's comment: the queue holds, once each, the items that need to be processed and are not
  being processed.
\<close>

definition wq_inv :: "'i workqueue \<Rightarrow> bool" where
  "wq_inv q \<longleftrightarrow> distinct (wq_queue q) \<and> set (wq_queue q) = wq_dirty q - wq_processing q"

lemma wq_new_inv [simp]: "wq_inv wq_new"
  by (simp add: wq_inv_def wq_new_def)

lemma wq_Add_inv: "wq_inv q \<Longrightarrow> wq_inv (wq_Add item q)"
  by (auto simp: wq_inv_def wq_Add_def Let_def)

lemma wq_Get_inv: "wq_inv q \<Longrightarrow> wq_Get q = Some (q', r) \<Longrightarrow> wq_inv q'"
  by (auto simp: wq_inv_def wq_Get_def split: list.splits if_splits)

lemma wq_Done_inv: "wq_inv q \<Longrightarrow> item \<in> wq_processing q \<Longrightarrow> wq_inv (wq_Done item q)"
  by (auto simp: wq_inv_def wq_Done_def Let_def)

text \<open>\<open>Done\<close> on an item that was never queued changes nothing.\<close>

lemma wq_Done_unknown: "item \<notin> wq_dirty q \<Longrightarrow> item \<notin> wq_processing q \<Longrightarrow> wq_Done item q = q"
  by (simp add: wq_Done_def Let_def)

text \<open>No two workers process an item at the same time, and an item that is added is processed unless it is being processed.\<close>

lemma wq_Get_exclusive: "wq_inv q \<Longrightarrow> wq_Get q = Some (q', Some item) \<Longrightarrow> item \<notin> wq_processing q \<and> item \<in> wq_processing q'"
  by (auto simp: wq_inv_def wq_Get_def split: list.splits if_splits)

lemma wq_Add_queued: "wq_inv q \<Longrightarrow> \<not> wq_shuttingDown q \<Longrightarrow> item \<in> set (wq_queue (wq_Add item q)) \<longleftrightarrow> item \<notin> wq_processing q"
  by (auto simp: wq_inv_def wq_Add_def Let_def)

lemma wq_Done_queued: "wq_inv q \<Longrightarrow> item \<in> wq_processing q \<Longrightarrow> item \<in> set (wq_queue (wq_Done item q)) \<longleftrightarrow> item \<in> wq_dirty q"
  by (auto simp: wq_inv_def wq_Done_def Let_def)

interpretation wq: work_queue wq_inv wq_processing wq_Add wq_Get wq_Done
proof
  show "wq_inv (wq_Add i q) \<and> wq_processing (wq_Add i q) = wq_processing q" if "wq_inv q" for i :: 'i and q
    using wq_Add_inv [OF that] by (simp add: wq_Add_def Let_def)
  show "wq_inv q' \<and> i \<notin> wq_processing q \<and> wq_processing q' = insert i (wq_processing q)"
    if "wq_inv q" "wq_Get q = Some (q', Some i)" for q q' and i :: 'i
    using wq_Get_inv [OF that] wq_Get_exclusive [OF that] that(2) by (auto simp: wq_Get_def split: list.splits if_splits)
  show "wq_inv (wq_Done i q) \<and> wq_processing (wq_Done i q) = wq_processing q - {i}" if "wq_inv q" "i \<in> wq_processing q" for i :: 'i and q
    using wq_Done_inv [OF that] by (simp add: wq_Done_def Let_def)
qed

end
