(* ===== verification/SchedulerEvents.thy ===== *)
theory SchedulerEvents
  imports SchedulePlacement CrdTypes WorkQueue
begin

text \<open>
  What happens in the scheduler process around the scheduling of an allocation: the events of clusters, from the
  informer's handlers (\<open>pkg/scheduler/eventhandlers.go\<close>) through the work queue to the sites of the snapshot, the
  reported resources of sites, and the scheduling of a custom resource (\<open>pkg/scheduler/scheduler.go\<close>).

  \<^item> \<open>cluster_process\<close> adds to \<open>SchedState\<close> the queue of cluster events, the events that wait for the rate limiter and
    the site IDs of deleted clusters.
  \<^item> The informer's lister is an argument: the cluster that it returns for the namespace and name of a key, \<open>None\<close>
    for an error. It changes from step to step. A deep copy of nil is nil.
  \<^item> An informer's key function does not fail on a cluster.
\<close>

section \<open>Clusters and sites\<close>

record ClusterObject = Cluster +
  cl_HomeScheduler :: string
  cl_HomeDispatcher :: string
  cl_Status :: string

definition convertClusterToSite :: "ClusterObject \<Rightarrow> Site" where
  "convertClusterToSite cluster =
     zero_Site\<lparr>SiteID := ri_Region (cl_Region cluster) @ SiteDelimiter @ ri_AvailabilityZone (cl_Region cluster),
       ClusterName := cl_Name cluster, ClusterNamespace := cl_Namespace cluster,
       site_GeoLocation := \<lparr>Country = geo_Country (cl_GeoLocation cluster), Area = geo_Area (cl_GeoLocation cluster),
         Province = geo_Province (cl_GeoLocation cluster), City = geo_City (cl_GeoLocation cluster)\<rparr>,
       site_RegionAzMap := \<lparr>Region = ri_Region (cl_Region cluster), AvailabilityZone = ri_AvailabilityZone (cl_Region cluster)\<rparr>,
       Operator := op_Operator (cl_Operator cluster), Status := cl_Status cluster\<rparr>"

text \<open>A flavor that is not configured is stored as nil.\<close>

definition UpdateRegionFlavor :: "string \<Rightarrow> string \<Rightarrow> SchedState \<Rightarrow> SchedState" where
  "UpdateRegionFlavor region flavorId sched =
     (let snap = siteCacheInfoSnapshot sched; key = region @ ''||'' @ flavorId; flv = snap_FlavorMap snap flavorId
      in sched\<lparr>siteCacheInfoSnapshot := snap\<lparr>snap_RegionFlavorMap := (snap_RegionFlavorMap snap)(key := flv)\<rparr>,
               nilFlavors := (if flv = None then insert key (nilFlavors sched) else nilFlavors sched - {key})\<rparr>)"

text \<open>The common part of the create and update events; the new info is at the next free address.\<close>

definition register_cluster :: "string \<Rightarrow> ClusterObject \<Rightarrow> SchedState \<Rightarrow> SchedState" where
  "register_cluster status cluster sched =
     (let site = convertClusterToSite (cluster\<lparr>cl_Status := status\<rparr>); snap = siteCacheInfoSnapshot sched; a = snap_next snap;
          sched = sched\<lparr>siteCacheInfoSnapshot := snap\<lparr>SiteCacheInfoMap := (SiteCacheInfoMap snap)(SiteID site \<mapsto> a), snap_next := Suc a,
            snap_cells := (snap_cells snap)(a := zero_SiteCacheInfo\<lparr>sci_Site := Some site\<rparr>)\<rparr>\<rparr>
      in fold (\<lambda>flv sched.
           let snap = siteCacheInfoSnapshot sched; info = snap_cells snap a
           in UpdateRegionFlavor (ri_Region (cl_Region cluster)) (fi_FlavorID flv)
                (sched\<lparr>siteCacheInfoSnapshot := snap\<lparr>snap_cells := (snap_cells snap)(a := info\<lparr>AllocatableFlavor :=
                   (AllocatableFlavor info)(fi_FlavorID flv \<mapsto> fi_TotalCapacity flv)\<rparr>)\<rparr>\<rparr>)) (cl_Flavors cluster) sched)"

text \<open>
  The resources that a collector reports for a region: per zone its CPUs and memory, and the volumes of the region. An
  unknown site gets an info without a site.
\<close>

definition ensure_info :: "string \<Rightarrow> Snapshot \<Rightarrow> Snapshot" where
  "ensure_info siteID snap =
     (case SiteCacheInfoMap snap siteID of
        None \<Rightarrow> snap\<lparr>SiteCacheInfoMap := (SiteCacheInfoMap snap)(siteID \<mapsto> snap_next snap), snap_next := Suc (snap_next snap),
          snap_cells := (snap_cells snap)(snap_next snap := zero_SiteCacheInfo)\<rparr>
      | Some _ \<Rightarrow> snap)"

definition UpdateSiteDynamicResource :: "string \<Rightarrow> (string \<times> int \<times> int) list \<Rightarrow> (string \<times> rat) list \<Rightarrow> SchedState \<Rightarrow> SchedState" where
  "UpdateSiteDynamicResource region cpuMemResources volumeResources sched =
     fold (\<lambda>(az, cpu, mem) sched.
       let siteID = region @ SiteDelimiter @ az; snap = ensure_info siteID (siteCacheInfoSnapshot sched);
           a = the (SiteCacheInfoMap snap siteID); info = snap_cells snap a
       in sched\<lparr>siteCacheInfoSnapshot := snap\<lparr>snap_cells := (snap_cells snap)(a := info\<lparr>
            TotalResources := (TotalResources info)(''vm'' \<mapsto> \<lparr>VCPU = cpu, Memory = mem\<rparr>),
            TotalStorage := fold (\<lambda>(t, c) m. m(t \<mapsto> c)) volumeResources (TotalStorage info)\<rparr>)\<rparr>\<rparr>) cpuMemResources sched"

section \<open>Cluster events\<close>

record KeyWithEventType =
  ke_EventType :: int
  ke_Key :: string

abbreviation (input) EventType_Create :: int where "EventType_Create \<equiv> 0"
abbreviation (input) EventType_Update :: int where "EventType_Update \<equiv> 1"
abbreviation (input) EventType_Delete :: int where "EventType_Delete \<equiv> 2"

text \<open>The items of the queue have any type: the code queues events and finishes keys.\<close>

datatype work_item = EventItem KeyWithEventType | KeyItem string

record cluster_process =
  cp_sched :: SchedState
  deletedClusters :: "string \<rightharpoonup> string"
  ClusterQueue :: "work_item workqueue"
  retries :: "KeyWithEventType list"

subsection \<open>The handlers of the informer\<close>

definition Enqueue :: "string \<Rightarrow> int \<Rightarrow> cluster_process \<Rightarrow> cluster_process" where
  "Enqueue key eventType p = p\<lparr>ClusterQueue := wq_Add (EventItem \<lparr>ke_EventType = eventType, ke_Key = key\<rparr>) (ClusterQueue p)\<rparr>"

definition verifyClusterInfo :: "ClusterObject \<Rightarrow> bool" where
  "verifyClusterInfo cluster \<longleftrightarrow>
     cl_IpAddress cluster \<noteq> [] \<and> ri_Region (cl_Region cluster) \<noteq> [] \<and> ri_AvailabilityZone (cl_Region cluster) \<noteq> [] \<and> cl_Name cluster \<noteq> []"

text \<open>A cluster that fails the check is only logged.\<close>

definition addCluster :: "string \<Rightarrow> ClusterObject \<Rightarrow> cluster_process \<Rightarrow> cluster_process" where
  "addCluster key cluster p = Enqueue key EventType_Create p"

text \<open>
  Whether name, specification and status are the same; \<open>None\<close> is the error for a cluster without a name. Of the
  metadata only the name is compared, so that the namespace is ignored.
\<close>

definition determineEventType :: "ClusterObject \<Rightarrow> ClusterObject \<Rightarrow> bool option" where
  "determineEventType cluster1 cluster2 =
     (if cl_Name cluster1 = [] \<or> cl_Name cluster2 = [] then None
      else Some (cluster1\<lparr>cl_Namespace := []\<rparr> \<noteq> cluster2\<lparr>cl_Namespace := []\<rparr>))"

definition updateCluster :: "string \<Rightarrow> string \<Rightarrow> ClusterObject \<Rightarrow> ClusterObject \<Rightarrow> cluster_process \<Rightarrow> cluster_process" where
  "updateCluster key1 key2 old new p =
     (if key1 = [] \<or> key2 = [] then p
      else case determineEventType old new of
             Some True \<Rightarrow> Enqueue key2 EventType_Update p
           | _ \<Rightarrow> p)"

definition deleteCluster :: "string \<Rightarrow> ClusterObject \<Rightarrow> cluster_process \<Rightarrow> cluster_process" where
  "deleteCluster key cluster p =
     (if \<not> verifyClusterInfo cluster then p
      else let p = Enqueue key EventType_Delete p
           in p\<lparr>deletedClusters := (deletedClusters p)(key \<mapsto>
                ri_Region (cl_Region cluster) @ SiteDelimiter @ ri_AvailabilityZone (cl_Region cluster))\<rparr>)"

subsection \<open>The worker\<close>

text \<open>The result is false when the lister fails or the event is unknown.\<close>

definition updateStaticSiteResourceInfo :: "(string \<rightharpoonup> ClusterObject) \<Rightarrow> string \<Rightarrow> int \<Rightarrow> cluster_process \<Rightarrow> cluster_process \<times> bool" where
  "updateStaticSiteResourceInfo lister key event p =
     (if event = EventType_Create then
        (case lister key of None \<Rightarrow> (p, False) | Some c \<Rightarrow> (p\<lparr>cp_sched := register_cluster ''Created'' c (cp_sched p)\<rparr>, True))
      else if event = EventType_Update then
        (case lister key of None \<Rightarrow> (p, False) | Some c \<Rightarrow> (p\<lparr>cp_sched := register_cluster ''Updated'' c (cp_sched p)\<rparr>, True))
      else if event = EventType_Delete then
        (case lister key of
           None \<Rightarrow> (p, False)
         | Some c \<Rightarrow>
             let siteID = map_get [] (deletedClusters p) key; sched = cp_sched p; snap = siteCacheInfoSnapshot sched
             in (p\<lparr>cp_sched := sched\<lparr>siteCacheInfoSnapshot := snap\<lparr>SiteCacheInfoMap := (SiteCacheInfoMap snap)(siteID := None)\<rparr>\<rparr>,
                   deletedClusters := (deletedClusters p)(key := None)\<rparr>, True))
      else (p, False))"

text \<open>The flag is whether an error is returned. After a create or update event a missing cluster is dereferenced.\<close>

definition clusterSyncHandler :: "(string \<rightharpoonup> ClusterObject) \<Rightarrow> KeyWithEventType \<Rightarrow> cluster_process \<Rightarrow> (cluster_process \<times> bool) option" where
  "clusterSyncHandler lister item p =
     (if ke_EventType item < 0 then Some (p, True)
      else do {
        let (p, ok) = updateStaticSiteResourceInfo lister (ke_Key item) (ke_EventType item) p;
        let p = (if ok then p else p\<lparr>retries := retries p @ [item]\<rparr>);
        if ke_EventType item \<noteq> EventType_Delete \<and> lister (ke_Key item) = None then None else Some (p, False) })"

text \<open>
  One round of a worker that gets the event \<open>item\<close> from the queue. The code finishes the key in place of the item.
\<close>

definition processNextClusterItem :: "(string \<rightharpoonup> ClusterObject) \<Rightarrow> cluster_process \<Rightarrow> (cluster_process \<times> KeyWithEventType) option" where
  "processNextClusterItem lister p = do {
     (q, work) \<leftarrow> wq_Get (ClusterQueue p);
     item \<leftarrow> (case work of Some (EventItem e) \<Rightarrow> Some e | _ \<Rightarrow> None);
     (p, err) \<leftarrow> clusterSyncHandler lister item (p\<lparr>ClusterQueue := q\<rparr>);
     let p = (if err then p\<lparr>retries := retries p @ [item]\<rparr> else p);
     Some (p\<lparr>ClusterQueue := wq_Done (KeyItem (ke_Key item)) (ClusterQueue p)\<rparr>, item) }"

section \<open>Runs\<close>

definition start_process :: "schedulerCache \<Rightarrow> (string \<rightharpoonup> RegionFlavor) \<Rightarrow> cluster_process" where
  "start_process cache config_FlavorMap =
     \<lparr>cp_sched = UpdateFlavor config_FlavorMap \<lparr>siteCacheInfoSnapshot = NewEmptySnapshot, sched_cache = cache,
        FlavorCache = \<lparr>fc_RegionFlavorMap = Map.empty, fc_FlavorMap = Map.empty\<rparr>, nilFlavors = {}, sched_generation = 0\<rparr>,
      deletedClusters = Map.empty, ClusterQueue = wq_new, retries = []\<rparr>"

text \<open>
  The runs of the process with a framework: events arrive, the worker handles an event with what the lister holds at
  that moment, an event that waits for the rate limiter is queued again, resources are reported, and allocations are
  scheduled, in any order. \<open>K\<close> collects the clusters that the lister has returned to the worker, \<open>tr\<close> the events that
  the worker has handled.
\<close>

inductive cluster_run :: "framework \<Rightarrow> ClusterObject set \<Rightarrow> KeyWithEventType list \<Rightarrow> cluster_process \<Rightarrow> bool" for fw where
  run_start: "cluster_run fw {} [] (start_process cache fm)"
| run_add: "cluster_run fw K tr p \<Longrightarrow> cluster_run fw K tr (addCluster key c p)"
| run_upd: "cluster_run fw K tr p \<Longrightarrow> cluster_run fw K tr (updateCluster key key' c c' p)"
| run_del: "cluster_run fw K tr p \<Longrightarrow> cluster_run fw K tr (deleteCluster key c p)"
| run_retry: "cluster_run fw K tr p \<Longrightarrow> e \<in> set (retries p) \<Longrightarrow>
    cluster_run fw K tr (p\<lparr>retries := remove1 e (retries p), ClusterQueue := wq_Add (EventItem e) (ClusterQueue p)\<rparr>)"
| run_work: "cluster_run fw K tr p \<Longrightarrow> processNextClusterItem lister p = Some (p', e) \<Longrightarrow>
    cluster_run fw (K \<union> set_option (lister (ke_Key e))) (tr @ [e]) p'"
| run_resources: "cluster_run fw K tr p \<Longrightarrow> cluster_run fw K tr (p\<lparr>cp_sched := UpdateSiteDynamicResource region res vols (cp_sched p)\<rparr>)"
| run_schedule: "cluster_run fw K tr p \<Longrightarrow> Schedule fw se (cp_sched p) alloc = Some (sched', stacks, err) \<Longrightarrow>
    cluster_run fw K tr (p\<lparr>cp_sched := sched'\<rparr>)"
section \<open>The sites of the snapshot\<close>

text \<open>The statuses that the worker writes in place of the status of the cluster.\<close>

definition cluster_statuses :: "string set" where
  "cluster_statuses = {''Created'', ''Updated''}"

text \<open>Every site of the snapshot is under its own key and comes from a cluster of \<open>K\<close>; the addresses are in use.\<close>

definition sites_from :: "ClusterObject set \<Rightarrow> Snapshot \<Rightarrow> bool" where
  "sites_from K snap \<longleftrightarrow> (\<forall>k a. SiteCacheInfoMap snap k = Some a \<longrightarrow> a < snap_next snap \<and>
     (\<forall>site. sci_Site (snap_cells snap a) = Some site \<longrightarrow> SiteID site = k \<and> (\<exists>c \<in> K. \<exists>st \<in> cluster_statuses. site = convertClusterToSite (c\<lparr>cl_Status := st\<rparr>))))"

lemma sites_from_named: "sites_from K snap \<Longrightarrow> snapshot_named snap"
  by (auto simp: sites_from_def snapshot_named_def)

lemma sites_from_site_in: "sites_from K snap \<Longrightarrow> site_in snap site \<Longrightarrow> \<exists>c \<in> K. \<exists>st \<in> cluster_statuses. site = convertClusterToSite (c\<lparr>cl_Status := st\<rparr>)"
  unfolding sites_from_def site_in_def by blast

lemma sites_from_mono: "sites_from K snap \<Longrightarrow> K \<subseteq> K' \<Longrightarrow> sites_from K' snap"
  unfolding sites_from_def by blast

lemma sites_from_same: "sites_from K snap \<Longrightarrow> same_sites snap snap' \<Longrightarrow> sites_from K snap'"
  by (simp add: sites_from_def same_sites_def)

lemma sites_from_remove: "sites_from K snap \<Longrightarrow> sites_from K (snap\<lparr>SiteCacheInfoMap := (SiteCacheInfoMap snap)(k := None)\<rparr>)"
  by (auto simp: sites_from_def)

lemma sites_from_insert:
  assumes "sites_from K snap" "\<And>site. sci_Site info = Some site \<Longrightarrow> SiteID site = k \<and> (\<exists>c \<in> K. \<exists>st \<in> cluster_statuses. site = convertClusterToSite (c\<lparr>cl_Status := st\<rparr>))"
  shows "sites_from K (snap\<lparr>SiteCacheInfoMap := (SiteCacheInfoMap snap)(k \<mapsto> snap_next snap), snap_next := Suc (snap_next snap),
    snap_cells := (snap_cells snap)(snap_next snap := info)\<rparr>)"
  using assms by (auto simp: sites_from_def less_Suc_eq)

lemma UpdateRegionFlavor_same: "same_sites (siteCacheInfoSnapshot sched) (siteCacheInfoSnapshot (UpdateRegionFlavor r f sched))"
  by (simp add: UpdateRegionFlavor_def same_sites_def Let_def)

lemma fold_same_sites:
  "(\<And>x s. same_sites (siteCacheInfoSnapshot s) (siteCacheInfoSnapshot (f x s))) \<Longrightarrow>
    same_sites (siteCacheInfoSnapshot s) (siteCacheInfoSnapshot (fold f xs s))"
  by (induction xs arbitrary: s) (simp, metis fold_simps(2) same_sites_trans)

lemma register_cluster_sites:
  assumes "sites_from K (siteCacheInfoSnapshot sched)" "c \<in> K" "status \<in> cluster_statuses"
  shows "sites_from K (siteCacheInfoSnapshot (register_cluster status c sched))"
proof -
  let ?site = "convertClusterToSite (c\<lparr>cl_Status := status\<rparr>)"
  have "sites_from K ((siteCacheInfoSnapshot sched)\<lparr>SiteCacheInfoMap := (SiteCacheInfoMap (siteCacheInfoSnapshot sched))(SiteID ?site \<mapsto> snap_next (siteCacheInfoSnapshot sched)),
      snap_next := Suc (snap_next (siteCacheInfoSnapshot sched)),
      snap_cells := (snap_cells (siteCacheInfoSnapshot sched))(snap_next (siteCacheInfoSnapshot sched) := zero_SiteCacheInfo\<lparr>sci_Site := Some ?site\<rparr>)\<rparr>)"
    using assms by (intro sites_from_insert) auto
  then show ?thesis
    unfolding register_cluster_def Let_def
    by (rule sites_from_same [OF _ same_sites_trans [OF _ fold_same_sites]])
      (auto simp: same_sites_def UpdateRegionFlavor_def Let_def)
qed

lemma ensure_info_sites: "sites_from K snap \<Longrightarrow> sites_from K (ensure_info siteID snap)"
  using sites_from_insert [of K snap zero_SiteCacheInfo siteID] by (simp add: ensure_info_def zero_SiteCacheInfo_def split: option.split)

lemma sites_from_upd: "sites_from K snap \<Longrightarrow> sci_Site info = sci_Site (snap_cells snap a) \<Longrightarrow>
    sites_from K (snap\<lparr>snap_cells := (snap_cells snap)(a := info)\<rparr>)"
  by (erule sites_from_same) (rule same_sites_upd)

lemma fold_sites_from:
  "(\<And>x s. sites_from K (siteCacheInfoSnapshot s) \<Longrightarrow> sites_from K (siteCacheInfoSnapshot (f x s))) \<Longrightarrow>
    sites_from K (siteCacheInfoSnapshot s) \<Longrightarrow> sites_from K (siteCacheInfoSnapshot (fold f xs s))"
  by (induction xs arbitrary: s) auto

lemma UpdateSiteDynamicResource_sites:
  "sites_from K (siteCacheInfoSnapshot sched) \<Longrightarrow> sites_from K (siteCacheInfoSnapshot (UpdateSiteDynamicResource region res vols sched))"
  unfolding UpdateSiteDynamicResource_def
  by (rule fold_sites_from) (auto simp: Let_def intro!: sites_from_upd ensure_info_sites split: prod.split)

lemma updateStatic_sites:
  assumes "sites_from K (siteCacheInfoSnapshot (cp_sched p))" "updateStaticSiteResourceInfo lister key event p = (p', ok)"
  shows "sites_from (K \<union> set_option (lister key)) (siteCacheInfoSnapshot (cp_sched p'))"
proof -
  let ?K = "K \<union> set_option (lister key)"
  have K: "sites_from ?K (siteCacheInfoSnapshot (cp_sched p))" using sites_from_mono [OF assms(1)] by blast
  show ?thesis
    using assms(2) K register_cluster_sites [OF K] sites_from_remove [OF K]
    by (auto simp: updateStaticSiteResourceInfo_def cluster_statuses_def Let_def split: if_splits option.splits)
qed

lemma updateStatic_queue: "updateStaticSiteResourceInfo lister key event p = (p', ok) \<Longrightarrow> ClusterQueue p' = ClusterQueue p \<and> retries p' = retries p"
  by (auto simp: updateStaticSiteResourceInfo_def Let_def split: if_splits option.splits)

text \<open>One round of the worker: what becomes of the queue and of the sites.\<close>

lemma processNext_round:
  assumes "processNextClusterItem lister p = Some (p', e)"
  shows "\<exists>q p2 ok. wq_Get (ClusterQueue p) = Some (q, Some (EventItem e)) \<and> ClusterQueue p' = wq_Done (KeyItem (ke_Key e)) q \<and>
    updateStaticSiteResourceInfo lister (ke_Key e) (ke_EventType e) (p\<lparr>ClusterQueue := q\<rparr>) = (p2, ok) \<and>
    (cp_sched p' = cp_sched p \<or> cp_sched p' = cp_sched p2)"
proof -
  obtain q p1 err where get: "wq_Get (ClusterQueue p) = Some (q, Some (EventItem e))"
      and sync: "clusterSyncHandler lister e (p\<lparr>ClusterQueue := q\<rparr>) = Some (p1, err)"
      and p': "ClusterQueue p' = wq_Done (KeyItem (ke_Key e)) (ClusterQueue p1)" "cp_sched p' = cp_sched p1"
    using assms(1) by (auto simp: processNextClusterItem_def Let_def split: option.splits work_item.splits elim!: bind_SomeE)
  obtain p2 ok where upd: "updateStaticSiteResourceInfo lister (ke_Key e) (ke_EventType e) (p\<lparr>ClusterQueue := q\<rparr>) = (p2, ok)"
    by (cases "updateStaticSiteResourceInfo lister (ke_Key e) (ke_EventType e) (p\<lparr>ClusterQueue := q\<rparr>)")
  have "ClusterQueue p1 = q \<and> (cp_sched p1 = cp_sched p \<or> cp_sched p1 = cp_sched p2)"
    using sync upd updateStatic_queue [OF upd] by (auto simp: clusterSyncHandler_def Let_def split: if_splits)
  then show ?thesis using get p' upd by auto
qed

lemma processNext_sites:
  assumes "processNextClusterItem lister p = Some (p', e)" "sites_from K (siteCacheInfoSnapshot (cp_sched p))"
  shows "sites_from (K \<union> set_option (lister (ke_Key e))) (siteCacheInfoSnapshot (cp_sched p'))"
proof -
  obtain q p2 ok where upd: "updateStaticSiteResourceInfo lister (ke_Key e) (ke_EventType e) (p\<lparr>ClusterQueue := q\<rparr>) = (p2, ok)"
      "cp_sched p' = cp_sched p \<or> cp_sched p' = cp_sched p2" using processNext_round [OF assms(1)] by blast
  then show ?thesis using updateStatic_sites [OF _ upd(1)] assms(2) sites_from_mono [OF assms(2)] by auto
qed

lemma handlers_sched:
  "cp_sched (addCluster key c p) = cp_sched p" "cp_sched (updateCluster key key' c c' p) = cp_sched p"
  "cp_sched (deleteCluster key c p) = cp_sched p"
  by (auto simp: addCluster_def updateCluster_def deleteCluster_def Enqueue_def Let_def split: option.splits bool.splits)

lemma handlers_queue:
  "\<exists>e. ClusterQueue (addCluster key c p) = wq_Add (EventItem e) (ClusterQueue p)"
  "ClusterQueue (updateCluster key key' c c' p) = ClusterQueue p \<or> (\<exists>e. ClusterQueue (updateCluster key key' c c' p) = wq_Add (EventItem e) (ClusterQueue p))"
  "ClusterQueue (deleteCluster key c p) = ClusterQueue p \<or> (\<exists>e. ClusterQueue (deleteCluster key c p) = wq_Add (EventItem e) (ClusterQueue p))"
  by (auto simp: addCluster_def updateCluster_def deleteCluster_def Enqueue_def Let_def split: option.splits bool.splits)

lemma cluster_run_sites:
  assumes "buildFramework pe order policy = Inr fw" "cluster_run fw K tr p"
  shows "sites_from K (siteCacheInfoSnapshot (cp_sched p))"
  using assms(2)
proof induction
  case (run_start cache fm)
  then show ?case by (simp add: start_process_def UpdateFlavor_def sites_from_def NewEmptySnapshot_def)
next
  case (run_work K tr p lister p' e)
  then show ?case using processNext_sites by blast
next
  case (run_resources K tr p region res vols)
  then show ?case using UpdateSiteDynamicResource_sites by simp
next
  case (run_schedule K tr p se alloc sched' stacks err)
  then show ?case
    using Schedule_same_sites [OF assms(1) run_schedule(2) sites_from_named] sites_from_same by auto
qed (simp_all add: handlers_sched)

text \<open>
  So no site is ever offline or sold out for the filters. And a delete event, which looks up the cluster that is gone,
  changes nothing but that it is tried again.
\<close>

lemma sites_never_offline:
  assumes "buildFramework pe order policy = Inr fw" "cluster_run fw K tr p" "site_in (siteCacheInfoSnapshot (cp_sched p)) site"
  shows "Status site \<noteq> SiteStatusOffline \<and> Status site \<noteq> SiteStatusSellout"
  using sites_from_site_in [OF cluster_run_sites [OF assms(1,2)] assms(3)]
  by (auto simp: cluster_statuses_def convertClusterToSite_def)

lemma deleted_cluster_stays:
  "ke_EventType e = EventType_Delete \<Longrightarrow> lister (ke_Key e) = None \<Longrightarrow>
    clusterSyncHandler lister e p = Some (p\<lparr>retries := retries p @ [e]\<rparr>, False)"
  by (simp add: clusterSyncHandler_def updateStaticSiteResourceInfo_def)

section \<open>Events are handled once\<close>

text \<open>What holds of the queue after the events \<open>tr\<close>: those, and only those, are still being processed.\<close>

definition handled :: "KeyWithEventType list \<Rightarrow> work_item workqueue \<Rightarrow> bool" where
  "handled tr q \<longleftrightarrow> wq_inv q \<and> wq_dirty q \<subseteq> range EventItem \<and> wq_processing q = set (map EventItem tr) \<and> distinct (map EventItem tr)"

lemma handled_Add: "handled tr q \<Longrightarrow> handled tr (wq_Add (EventItem e) q)"
  using wq.add_inv [of q "EventItem e"] by (auto simp: handled_def) (auto simp: wq_Add_def Let_def split: if_splits)

lemma handled_Get:
  assumes "handled tr q" "wq_Get q = Some (q', Some (EventItem e))"
  shows "handled (tr @ [e]) (wq_Done (KeyItem k) q')"
proof -
  have once: "wq_inv q' \<and> wq_processing q' = set (map EventItem tr @ [EventItem e]) \<and> distinct (map EventItem tr @ [EventItem e])"
    using assms by (intro wq.get_once) (auto simp: handled_def)
  moreover have dirty: "wq_dirty q' \<subseteq> range EventItem"
    using assms by (auto simp: handled_def wq_Get_def split: list.splits if_splits)
  moreover have "wq_Done (KeyItem k) q' = q'"
    using once dirty by (intro wq_Done_unknown) auto
  ultimately show ?thesis by (simp add: handled_def)
qed

lemma cluster_run_handled:
  assumes "cluster_run fw K tr p"
  shows "handled tr (ClusterQueue p)"
  using assms
proof induction
  case (run_start cache fm)
  then show ?case by (simp add: start_process_def handled_def) (simp add: wq_new_def)
next
  case (run_add K tr p key c)
  then show ?case using handlers_queue(1) [of key c p] handled_Add by metis
next
  case (run_upd K tr p key key' c c')
  then show ?case using handlers_queue(2) [of key key' c c' p] handled_Add by metis
next
  case (run_del K tr p key c)
  then show ?case using handlers_queue(3) [of key c p] handled_Add by metis
next
  case (run_work K tr p lister p' e)
  then obtain q where "wq_Get (ClusterQueue p) = Some (q, Some (EventItem e))" "ClusterQueue p' = wq_Done (KeyItem (ke_Key e)) q"
    using processNext_round [OF run_work(2)] by blast
  then show ?case using handled_Get [OF run_work(3)] by simp
qed (simp_all add: handled_Add)
text \<open>
  C7: whatever order events, retries and scheduling come in, the worker handles each event, an event type and a key,
  at most once in the life of the process: since the key is finished in place of the queued item, the item counts as
  being processed for ever, and a second update of a cluster never reaches the snapshot.
\<close>

theorem cluster_events_once:
  assumes "cluster_run fw K tr p"
  shows "distinct tr \<and> (\<forall>e \<in> set tr. EventItem e \<notin> set (wq_queue (ClusterQueue p)) \<and>
    wq_queue (ClusterQueue (Enqueue (ke_Key e) (ke_EventType e) p)) = wq_queue (ClusterQueue p))"
proof -
  have "Enqueue (ke_Key e) (ke_EventType e) p = p\<lparr>ClusterQueue := wq_Add (EventItem e) (ClusterQueue p)\<rparr>" for e
    by (cases e) (simp add: Enqueue_def)
  then show ?thesis
    using cluster_run_handled [OF assms] by (auto simp: handled_def wq_inv_def wq_Add_def Let_def distinct_map)
qed

section \<open>A run of the process\<close>

definition run_cluster :: "string \<Rightarrow> ClusterObject" where
  "run_cluster r =
     \<lparr>cl_Name = ''cluster-'' @ r, cl_Namespace = ''default'', cl_IpAddress = ''ip'',
      cl_GeoLocation = \<lparr>geo_City = [], geo_Province = [], geo_Area = [], geo_Country = []\<rparr>,
      cl_Region = \<lparr>ri_Region = r, ri_AvailabilityZone = ''1''\<rparr>, cl_Operator = \<lparr>op_Operator = []\<rparr>,
      cl_Flavors = [\<lparr>fi_FlavorID = ''c1'', fi_TotalCapacity = 5\<rparr>], cl_Storage = [], cl_EipCapacity = 0, cl_CPUCapacity = 0,
      cl_MemCapacity = 0, cl_ServerPrice = 0, cl_HomeScheduler = [], cl_HomeDispatcher = [], cl_Status = []\<rparr>"

text \<open>The clusters by the name of their region.\<close>

definition run_lister :: "string \<rightharpoonup> ClusterObject" where
  "run_lister = [''n'' \<mapsto> run_cluster ''n'', ''s'' \<mapsto> run_cluster ''s'']"

definition run_events :: "KeyWithEventType list" where
  "run_events = [\<lparr>ke_EventType = 0, ke_Key = ''n''\<rparr>, \<lparr>ke_EventType = 0, ke_Key = ''s''\<rparr>]"

definition run_process :: cluster_process where
  "run_process = \<lparr>cp_sched = run_sched, deletedClusters = Map.empty,
     ClusterQueue = \<lparr>wq_queue = [], wq_dirty = {}, wq_processing = EventItem ` set run_events, wq_shuttingDown = False\<rparr>, retries = []\<rparr>"

lemma run_registered:
  "register_cluster ''Created'' (run_cluster ''s'') (register_cluster ''Created'' (run_cluster ''n'')
     (cp_sched (start_process (sched_cache run_sched) [''c1'' \<mapsto> run_flavor]))) = run_sched"
  by (simp add: register_cluster_def start_process_def UpdateFlavor_def run_cluster_def convertClusterToSite_def zero_Site_def NewEmptySnapshot_def
    UpdateRegionFlavor_def run_sched_def run_snapshot_def run_info_def run_site_def zero_SiteCacheInfo_def zero_GeoLocation_def Let_def)

lemma run_processed:
  defines "p0 \<equiv> addCluster ''s'' (run_cluster ''s'') (addCluster ''n'' (run_cluster ''n'') (start_process (sched_cache run_sched) [''c1'' \<mapsto> run_flavor]))"
  shows "\<exists>p1. processNextClusterItem run_lister p0 = Some (p1, run_events ! 0) \<and> processNextClusterItem run_lister p1 = Some (run_process, run_events ! 1)"
  using run_registered
  by (simp add: p0_def addCluster_def Enqueue_def start_process_def wq_Add_def wq_new_def processNextClusterItem_def wq_Get_def clusterSyncHandler_def
    updateStaticSiteResourceInfo_def run_lister_def run_process_def Let_def run_events_def wq_Done_def insert_commute insert_Diff_if)

lemma run_reachable: "cluster_run run_fw {run_cluster ''n'', run_cluster ''s''} run_events run_process"
proof -
  let ?start = "start_process (sched_cache run_sched) [''c1'' \<mapsto> run_flavor]"
  let ?p0 = "addCluster ''s'' (run_cluster ''s'') (addCluster ''n'' (run_cluster ''n'') ?start)"
  obtain p1 where "processNextClusterItem run_lister ?p0 = Some (p1, run_events ! 0)"
    "processNextClusterItem run_lister p1 = Some (run_process, run_events ! 1)" using run_processed by blast
  moreover have "cluster_run run_fw {} [] ?p0" by (intro run_add run_start)
  ultimately have "cluster_run run_fw ({} \<union> set_option (run_lister (ke_Key (run_events ! 0))) \<union> set_option (run_lister (ke_Key (run_events ! 1))))
      (([] @ [run_events ! 0]) @ [run_events ! 1]) run_process"
    by (blast intro: run_work)
  then show ?thesis by (simp add: run_events_def run_lister_def insert_commute)
qed

theorem cluster_events_once_witness:
  "cluster_run run_fw {run_cluster ''n'', run_cluster ''s''} run_events run_process \<and> distinct run_events \<and>
   list_all (\<lambda>e. wq_queue (ClusterQueue (Enqueue (ke_Key e) (ke_EventType e) run_process)) = []) run_events"
  using cluster_events_once [OF run_reachable] run_reachable by (simp add: list_all_iff run_process_def)

end
