(* ===== verification/AllocationScheduling.thy ===== *)
theory AllocationScheduling
  imports SchedulerEvents
begin

text \<open>
  The scheduling of an allocation object, \<open>scheduleAllocation\<close> of \<open>pkg/scheduler/scheduler.go\<close>: each virtual machine of
  the object is turned into a stack and scheduled, and the clusters are written into the object. The unique ID and
  the time of each call, and the orders of its maps, are arguments indexed by the resource.
\<close>

record VmResource =
  vm_Name :: string
  vm_ResourceType :: string
  vm_Flavors :: "string list"
  vm_NeedEip :: bool
  vm_ClusterInstances :: "ClusterInstance list"

text \<open>The fields of the object and of its selector that are read or written.\<close>

record AllocObject =
  ao_UID :: string
  ao_Tenant :: string
  ao_Namespace :: string
  ao_GeoLocation :: GeoLocation
  ao_Regions :: "CloudRegion list"
  ao_Operator :: string
  ao_LocationStrategy :: string
  ao_Replicas :: int
  ao_Resources :: "VmResource list"
  ao_Phase :: string
  ao_ClusterNames :: "string list"

text \<open>The site ID is that of the last region and its first zone.\<close>

definition getStackSelectorFromAllocation :: "AllocObject \<Rightarrow> Selector" where
  "getStackSelectorFromAllocation alloc =
     \<lparr>sel_GeoLocation = ao_GeoLocation alloc, Regions = ao_Regions alloc, sel_Operator = ao_Operator alloc,
      sel_SiteID = fold (\<lambda>region siteID. cr_Region region @ SiteDelimiter @ (case cr_AvailabilityZone region of [] \<Rightarrow> [] | az # _ \<Rightarrow> az))
        (ao_Regions alloc) [],
      sel_Strategy = \<lparr>LocationStrategy = ao_LocationStrategy alloc, RegionStrategy = []\<rparr>, StackAffinity = [], StackAntiAffinity = []\<rparr>"

definition getStackResourcesFromAllocationResource :: "VmResource \<Rightarrow> Resource list" where
  "getStackResourcesFromAllocationResource r =
     [\<lparr>res_Name = vm_Name r, ResourceType = vm_ResourceType r, Flavors = map (\<lambda>f. \<lparr>FlavorID = f, flavor_Spot = None\<rparr>) (vm_Flavors r),
       Storage = Map.empty, NeedEip = vm_NeedEip r, Count = 1, FlavorIDSelected = []\<rparr>]"

text \<open>The allocation that is scheduled for a resource, with the unique ID and time of the call.\<close>

definition vm_allocation :: "AllocObject \<Rightarrow> string \<times> int \<Rightarrow> VmResource \<Rightarrow> FwAllocation" where
  "vm_allocation alloc call r =
     (let sel = getStackSelectorFromAllocation alloc
      in \<lparr>fa_ID = ao_UID alloc,
          fa_Stack = \<lparr>PodName = vm_Name r, Labels = Map.empty, Resources = getStackResourcesFromAllocationResource r, stk_Selector = sel,
            stk_Selected = zero_Selected, UID = fst call, CreateTime = snd call, Tenant = ao_Tenant alloc, PodNamespace = ao_Namespace alloc\<rparr>,
          fa_Selector = sel, fa_Replicas = ao_Replicas alloc\<rparr>)"

definition add_instances :: "string list \<Rightarrow> VmResource \<Rightarrow> VmResource" where
  "add_instances names r = r\<lparr>vm_ClusterInstances := vm_ClusterInstances r @ map (\<lambda>nm. \<lparr>ci_ClusterName = nm, ci_InstanceId = []\<rparr>) names\<rparr>"

text \<open>
  The loop over the resources, the first of which has the index \<open>i\<close>. It returns the resources, the cluster names and
  whether it came to the end; an error leaves the resource and those after it as they were.
\<close>

fun schedule_resources :: "framework \<Rightarrow> (nat \<Rightarrow> sched_env) \<Rightarrow> (nat \<Rightarrow> string \<times> int) \<Rightarrow> AllocObject \<Rightarrow> nat \<Rightarrow> VmResource list \<Rightarrow> SchedState \<Rightarrow>
    (SchedState \<times> VmResource list \<times> string list \<times> bool) option" where
  "schedule_resources fw se calls alloc i [] sched = Some (sched, [], [], True)"
| "schedule_resources fw se calls alloc i (r # rs) sched =
     (if vm_ResourceType r \<noteq> ''vm'' then do {
        (sched, rs, names, ok) \<leftarrow> schedule_resources fw se calls alloc (Suc i) rs sched;
        Some (sched, r # rs, names, ok) }
      else do {
        (sched, stacks, err) \<leftarrow> Schedule fw (se i) sched (vm_allocation alloc (calls i) r);
        if err \<noteq> None then Some (sched, r # rs, [], False)
        else do {
          let new = map (\<lambda>st. sd_ClusterName (stk_Selected st)) stacks;
          (sched, rs, names, ok) \<leftarrow> schedule_resources fw se calls alloc (Suc i) rs sched;
          Some (sched, add_instances new r # rs, new @ names, ok) } })"

definition scheduleAllocation :: "framework \<Rightarrow> (nat \<Rightarrow> sched_env) \<Rightarrow> (nat \<Rightarrow> string \<times> int) \<Rightarrow> AllocObject \<Rightarrow> SchedState \<Rightarrow>
    (SchedState \<times> AllocObject) option" where
  "scheduleAllocation fw se calls alloc sched = do {
     (sched, rs, names, ok) \<leftarrow> schedule_resources fw se calls alloc 0 (ao_Resources alloc) sched;
     Some (sched, if ok then alloc\<lparr>ao_Resources := rs, ao_Phase := ''Bound'', ao_ClusterNames := names\<rparr>
                  else alloc\<lparr>ao_Resources := rs, ao_Phase := ''NotScheduled''\<rparr>) }"

section \<open>Correctness\<close>

text \<open>The clusters of the sites of a snapshot that a selector and a policy allow.\<close>

definition allowed_clusters :: "Policy \<Rightarrow> Selector \<Rightarrow> Snapshot \<Rightarrow> string set" where
  "allowed_clusters policy sel snap = {ClusterName site | site. site_in snap site \<and> site_allowed (Predicates policy) sel site}"

text \<open>The names that a resource gets: none, or for a virtual machine as many as there are replicas.\<close>

definition names_for :: "Policy \<Rightarrow> AllocObject \<Rightarrow> Snapshot \<Rightarrow> VmResource \<Rightarrow> string list \<Rightarrow> bool" where
  "names_for policy alloc snap r names \<longleftrightarrow> names = [] \<or>
     vm_ResourceType r = ''vm'' \<and> int (length names) = ao_Replicas alloc \<and>
     set names \<subseteq> allowed_clusters policy (getStackSelectorFromAllocation alloc) snap"

lemma Schedule_names:
  assumes "buildFramework pe order policy = Inr fw" "Schedule fw se sched (vm_allocation alloc call r) = Some (sched', stacks, None)"
    "snapshot_named (siteCacheInfoSnapshot sched)" "sorts_by_score (se_sort se)" "0 < ao_Replicas alloc" "vm_ResourceType r = ''vm''"
  shows "names_for policy alloc (siteCacheInfoSnapshot sched) r (map (\<lambda>st. sd_ClusterName (stk_Selected st)) stacks)"
proof (cases "stacks = []")
  case False
  have "fa_Replicas (vm_allocation alloc call r) = ao_Replicas alloc" "fa_Selector (vm_allocation alloc call r) = getStackSelectorFromAllocation alloc"
    by (simp_all add: vm_allocation_def Let_def)
  then show ?thesis
    using Schedule_places [OF assms(1-4) _ False] assms(5,6)
    by (auto simp: names_for_def allowed_clusters_def placed_on_def dest!: bspec)
qed (simp add: names_for_def)

lemma names_for_same: "same_sites snap snap' \<Longrightarrow> names_for policy alloc snap' r names = names_for policy alloc snap r names"
  by (simp add: names_for_def allowed_clusters_def same_sites_in)

lemma names_for_Nil: "names_for policy alloc snap r []"
  by (simp add: names_for_def)

lemma add_instances_Nil: "add_instances [] r = r"
  by (simp add: add_instances_def)

lemma schedule_resources_names:
  assumes "buildFramework pe order policy = Inr fw" "schedule_resources fw se calls alloc i rs sched = Some (sched', rs', names, True)"
    "snapshot_named (siteCacheInfoSnapshot sched)" "\<And>i. sorts_by_score (se_sort (se i))" "0 < ao_Replicas alloc"
  shows "\<exists>nss. rs' = map2 add_instances nss rs \<and> names = concat nss \<and> list_all2 (names_for policy alloc (siteCacheInfoSnapshot sched)) rs nss"
  using assms(2,3)
proof (induction rs arbitrary: i sched rs' names)
  case (Cons r rs)
  show ?case
  proof (cases "vm_ResourceType r = ''vm''")
    case False
    then obtain rs1 where rs1: "schedule_resources fw se calls alloc (Suc i) rs sched = Some (sched', rs1, names, True)" "rs' = r # rs1"
      using Cons.prems(1) by (auto elim!: bind_SomeE)
    from Cons.IH [OF rs1(1) Cons.prems(2)] obtain nss where
      "rs1 = map2 add_instances nss rs" "names = concat nss" "list_all2 (names_for policy alloc (siteCacheInfoSnapshot sched)) rs nss" by blast
    then show ?thesis
      by (intro exI [of _ "[] # nss"]) (simp add: rs1(2) add_instances_Nil names_for_Nil)
  next
    case True
    then obtain sched1 stacks rs1 names1 where run: "Schedule fw (se i) sched (vm_allocation alloc (calls i) r) = Some (sched1, stacks, None)"
        "schedule_resources fw se calls alloc (Suc i) rs sched1 = Some (sched', rs1, names1, True)"
        "rs' = add_instances (map (\<lambda>st. sd_ClusterName (stk_Selected st)) stacks) r # rs1"
        "names = map (\<lambda>st. sd_ClusterName (stk_Selected st)) stacks @ names1"
      using Cons.prems(1) by (auto simp: Let_def split: if_splits elim!: bind_SomeE)
    note same = Schedule_same_sites [OF assms(1) run(1) Cons.prems(2)]
    from Cons.IH [OF run(2) same_sites_named [OF same Cons.prems(2)]] obtain nss where
      "rs1 = map2 add_instances nss rs" "names1 = concat nss" "list_all2 (names_for policy alloc (siteCacheInfoSnapshot sched)) rs nss"
      by (auto simp: names_for_same [OF same])
    moreover have "names_for policy alloc (siteCacheInfoSnapshot sched) r (map (\<lambda>st. sd_ClusterName (stk_Selected st)) stacks)"
      using Schedule_names [OF assms(1) run(1) Cons.prems(2) assms(4,5) True] .
    ultimately show ?thesis
      by (intro exI [of _ "map (\<lambda>st. sd_ClusterName (stk_Selected st)) stacks # nss"]) (simp add: run(3,4))
  qed
qed simp

text \<open>
  C6: \<open>scheduleAllocation\<close> leaves an allocation bound or not scheduled. When it is bound, every resource has got no
  cluster or, being a virtual machine, as many clusters as there are replicas, each the cluster of a site of the
  snapshot that the selector and the policy allow; the names in the status are those of the resources, in order.
\<close>

theorem allocation_bound_to_clusters:
  assumes "buildFramework pe order policy = Inr fw" "scheduleAllocation fw se calls alloc sched = Some (sched', alloc')"
    "snapshot_named (siteCacheInfoSnapshot sched)" "\<And>i. sorts_by_score (se_sort (se i))" "0 < ao_Replicas alloc"
  shows "ao_Phase alloc' = ''NotScheduled'' \<or> ao_Phase alloc' = ''Bound'' \<and>
    (\<exists>nss. ao_Resources alloc' = map2 add_instances nss (ao_Resources alloc) \<and> ao_ClusterNames alloc' = concat nss \<and>
       list_all2 (names_for policy alloc (siteCacheInfoSnapshot sched)) (ao_Resources alloc) nss)"
proof -
  obtain rs names ok where run: "schedule_resources fw se calls alloc 0 (ao_Resources alloc) sched = Some (sched', rs, names, ok)"
      "alloc' = (if ok then alloc\<lparr>ao_Resources := rs, ao_Phase := ''Bound'', ao_ClusterNames := names\<rparr>
                 else alloc\<lparr>ao_Resources := rs, ao_Phase := ''NotScheduled''\<rparr>)"
    using assms(2) by (auto simp: scheduleAllocation_def elim!: bind_SomeE)
  then show ?thesis
    using schedule_resources_names [OF assms(1) _ assms(3-5)] by (cases ok) auto
qed

text \<open>The run of the request that the allocation object gives.\<close>

definition run_alloc :: AllocObject where
  "run_alloc = \<lparr>ao_UID = ''id'', ao_Tenant = [], ao_Namespace = [], ao_GeoLocation = zero_GeoLocation,
     ao_Regions = [\<lparr>cr_Region = ''s'', cr_AvailabilityZone = []\<rparr>], ao_Operator = [], ao_LocationStrategy = [], ao_Replicas = 2,
     ao_Resources = [\<lparr>vm_Name = [], vm_ResourceType = ''vm'', vm_Flavors = [''c1''], vm_NeedEip = False, vm_ClusterInstances = []\<rparr>],
     ao_Phase = ''Assigned'', ao_ClusterNames = []\<rparr>"

lemma run_vm_allocation: "vm_allocation run_alloc ([], 0) (hd (ao_Resources run_alloc)) = run_request"
  by (simp add: vm_allocation_def run_alloc_def run_request_def getStackSelectorFromAllocation_def getStackResourcesFromAllocationResource_def
    zero_Selector_def zero_Stack_def Let_def)

theorem allocation_bound_to_clusters_witness:
  "\<exists>sched' alloc'. scheduleAllocation run_fw (\<lambda>_. run_sched_env) (\<lambda>_. ([], 0)) run_alloc run_sched = Some (sched', alloc') \<and>
     ao_Phase alloc' = ''Bound'' \<and>
     (\<exists>nss. ao_Resources alloc' = map2 add_instances nss (ao_Resources run_alloc) \<and> ao_ClusterNames alloc' = concat nss \<and>
       list_all2 (names_for run_policy run_alloc (siteCacheInfoSnapshot run_sched)) (ao_Resources run_alloc) nss)"
proof -
  obtain sched1 stacks where run: "Schedule run_fw run_sched_env run_sched run_request = Some (sched1, stacks, None)"
    using run_Schedule by blast
  have res: "ao_Resources run_alloc = [hd (ao_Resources run_alloc)]" "vm_ResourceType (hd (ao_Resources run_alloc)) = ''vm''"
    by (simp_all add: run_alloc_def)
  have "schedule_resources run_fw (\<lambda>_. run_sched_env) (\<lambda>_. ([], 0)) run_alloc 0 [hd (ao_Resources run_alloc)] run_sched =
      Some (sched1, [add_instances (map (\<lambda>st. sd_ClusterName (stk_Selected st)) stacks) (hd (ao_Resources run_alloc))],
            map (\<lambda>st. sd_ClusterName (stk_Selected st)) stacks, True)"
    using run res(2) by (simp add: run_vm_allocation Let_def)
  then obtain alloc' where alloc': "scheduleAllocation run_fw (\<lambda>_. run_sched_env) (\<lambda>_. ([], 0)) run_alloc run_sched = Some (sched1, alloc')"
      "ao_Phase alloc' = ''Bound''"
    using res(1) by (auto simp: scheduleAllocation_def)
  then show ?thesis
    using allocation_bound_to_clusters [OF run_build alloc'(1) run_named] by (auto simp: run_alloc_def)
qed

end
