(* ===== verification/Spec2Isabelle.thy ===== *)
theory Spec2Isabelle
  imports QueueProperties LabelTyping StackLifecycle DistributorModel DispatcherModel DispatcherProcess SchedulerModel AllocationScheduling
begin

text \<open>
  Verification of the global resource scheduler (sources under \<open>src/globalscheduler\<close>; paths below are relative to it).

  \<^bold>\<open>The program.\<close> Users ask for groups of virtual machines, as pods or allocation objects. Four kinds of processes share
  the work through custom resources of a Kubernetes API server. The \<^emph>\<open>distributor\<close> controller divides the hash space of
  requests among distributor processes, each of which assigns its requests to a scheduler by location. The
  \<^emph>\<open>scheduler\<close> controller divides the clusters among scheduler processes by a tree of locations. A scheduler process
  keeps the requests in a queue and the sites (a cluster is a site) in a cache and a snapshot, and places each request
  with a framework of plugins: filters, scores, strategies and a binder. The \<^emph>\<open>dispatcher\<close> controller divides the
  clusters among dispatcher processes, which create the placed machines through the OpenStack API of each cluster.

  \<^bold>\<open>Reading Go.\<close> \<open>GoPrelude\<close> fixes the vocabulary. A result of type \<^typ>\<open>'a option\<close> is \<open>None\<close> for a run-time panic; a
  returned error is an option or a sum. Maps are HOL maps, and an operation that ranges over one takes the order of
  the range as an argument, so that the theorems hold for every order. Machine integers are integers with the
  wrap-around written out (\<open>wrap64\<close>) where values are not bounded otherwise. \<open>GoFloat\<close> has the values of \<open>float64\<close> without
  rounding, with infinities and NaN. Operations that hold a lock are one step. The API server, the informers, the HTTP
  transport, clocks and random numbers are arguments.

  \<^bold>\<open>The theories.\<close>

  \<^item> \<^emph>\<open>Containers.\<close> \<open>GoHeap\<close> is \<open>pkg/scheduler/utils/heap.go\<close> over the algorithms of \<open>container/heap\<close>. \<open>KeyedStore\<close> holds
    the contracts \<open>keyed_store\<close> and \<open>keyed_pq\<close>; \<open>HeapOrder\<close> shows that the heap meets them, that it implements a map
    from keys to objects and that popping sorts. \<open>StringSets\<close> is \<open>pkg/scheduler/utils/sets/string.go\<close>. \<open>WorkQueue\<close> is
    the queue of \<open>client-go/util/workqueue\<close> with its contract \<open>work_queue\<close>.
  \<^item> \<^emph>\<open>The scheduling queue.\<close> \<open>StackBackoff\<close> and \<open>SchedulingQueue\<close> are \<open>pkg/scheduler/internal/queue\<close>.
    \<open>QueueInvariants\<close> and \<open>QueueOrder\<close> have the invariant and the reachable states, one event per operation;
    \<open>QueueProperties\<close> shows the refinement of an abstract queue, that no stack gets lost and what \<open>Pop\<close> returns.
  \<^item> \<^emph>\<open>Labels.\<close> \<open>Labels\<close> and \<open>LabelParser\<close> are \<open>pkg/scheduler/labels\<close>, with a termination proof for each loop of the lexer
    and parser. \<open>LabelProperties\<close> has the algebra of sets and selectors, \<open>LabelRoundtrip\<close> totality of the parser and the
    round trip through text, \<open>LabelTyping\<close> that parsed requirements are well typed.
  \<^item> \<^emph>\<open>Sites and the cache.\<close> \<open>SchedTypes\<close> has the structs of \<open>pkg/scheduler/types\<close>. \<open>SiteCacheInfo\<close> is
    \<open>pkg/scheduler/sitecacheinfo\<close>, with a store of cells where the code shares pointers; \<open>SiteResources\<close> shows its
    accounting. \<open>SiteTree\<close> and \<open>SchedCache\<close> are \<open>pkg/scheduler/internal/cache\<close>. \<open>CacheList\<close> shows that the linked list
    refines a list, \<open>CacheInvariants\<close> and \<open>CacheSnapshot\<close> that the incremental update of a snapshot is exact,
    \<open>CacheProperties\<close> and \<open>StackLifecycle\<close> what callers see, the life of a stack as a state machine among it.
  \<^item> \<^emph>\<open>The framework.\<close> \<open>Framework\<close> is \<open>pkg/scheduler/framework/interfaces\<close>: statuses, the state of a cycle and the functions
    that run plugins. \<open>PlacementPlugins\<close>, \<open>FlavorPlugin\<close> and \<open>ResourcePlugins\<close> are the plugins of
    \<open>pkg/scheduler/framework/plugins\<close>, with the enumeration of flavors, the capacity of a site and what the strategies
    hand out. \<open>SchedulerFramework\<close> has the default binder, the registry, the plugins of a policy
    (\<open>algorithmprovider/registry.go\<close>) and \<open>NewFramework\<close>.
  \<^item> \<^emph>\<open>The scheduler process.\<close> \<open>GenericScheduler\<close> is \<open>Schedule\<close> of \<open>pkg/scheduler/scheduler.go\<close> with all it calls;
    \<open>ScheduleProperties\<close> and \<open>SchedulePlacement\<close> show where it places stacks, and evaluate a run. \<open>SchedulerEvents\<close> has the
    cluster events (\<open>eventhandlers.go\<close> and the worker) as a transition system with all other steps of the process,
    \<open>AllocationScheduling\<close> the scheduling of allocation objects. The theorem below spans them.
  \<^item> \<^emph>\<open>Controllers and the other processes.\<close> \<open>CrdTypes\<close> has the custom resources (\<open>pkg/apis\<close>), \<open>Balancing\<close> is
    \<open>controllers/util/common.go\<close>. \<open>DistributorModel\<close>, \<open>DispatcherModel\<close> and \<open>SchedulerModel\<close> (with \<open>ClusterTree\<close>) are the
    controllers and the distributor process: every request has one distributor, every cluster one dispatcher and one
    scheduler. \<open>OpenstackClient\<close> and \<open>DispatcherProcess\<close> are \<open>controllers/util/openstack\<close> and the dispatcher process: an
    allocation is created as a whole or marked failed.

  \<^bold>\<open>Fuel and termination.\<close> Recursion is structural or has a termination proof; \<open>aggregate_loop\<close> of \<open>FlavorPlugin\<close> ends
  because the odometer of indices counts up to the product of its lengths. Only \<open>next\<close> of the site tree uses fuel, one
  unit more than the number of zones: a call visits each zone at most once before it resets the cursors and returns
  the next site, and \<open>round_visits_each_site_once\<close> shows that it always returns. A call of \<open>AddStack\<close> of the cache that
  calls itself under its own lock does not return and is \<open>None\<close>.

  \<^bold>\<open>What the theorems show to be wrong.\<close> Where the code does not do what it means to, the lemmas state what it does: for
  example that each cluster event is handled only once, that deleted clusters stay in the snapshot, that sites are never
  offline for the filters, and that the shares of the discrete strategy do not add up to the replicas.

  \<^bold>\<open>Not modelled.\<close>

  \<^item> The pod path of the scheduler process (\<open>scheduleOne\<close>, the conversion of pods to stacks and the pod handlers of
    \<open>eventhandlers.go\<close>). It glues together the queue, the cache and \<open>Schedule\<close>, which are modelled, through the API server.
  \<^item> Start-up: command line and configuration (\<open>cmd\<close>, \<open>pkg/scheduler/options\<close>, \<open>factory\<close>), clients and informers
    (\<open>pkg/scheduler/client\<close> apart from its structs, \<open>initPodClusterSchedulerAllocationInformers\<close>), creation of custom
    resource definitions (\<open>controllers/crd.go\<close>) and the HTTP and gRPC services (\<open>pkg/scheduler/service\<close>, \<open>router\<close>, \<open>grpc\<close>,
    \<open>controllers/cluster\<close>), which pass data on.
  \<^item> Generated code (\<open>pkg/apis/*/client\<close>, deep copies) and Kubernetes code outside of \<open>src/globalscheduler\<close>, apart from the
    work queue.
  \<^item> Code that is not called: \<open>consistenthashing\<close>, \<open>union\<close> and \<open>geoLocationDistribute\<close> of \<open>controllers/util\<close>, \<open>selectHost\<close>, extension points without a
    plugin.
  \<^item> Concurrency inside an operation: the goroutines of the filters and scores run one after the other, in any order.
\<close>

section \<open>The scheduler process as a whole\<close>

text \<open>
  C1: in every state that the scheduler process reaches, whatever cluster events, retries, resource reports and
  earlier scheduling came before, a run of \<open>Schedule\<close> without an error returns no stack or exactly the replicas, and
  each stack is selected for a cluster that the informer has shown to the process, in a region, a location and with an
  operator that the selector and the policy allow.
\<close>

theorem stacks_bound_to_clusters:
  assumes fw: "buildFramework pe order policy = Inr fw" and run: "cluster_run fw K tr p"
    and sched: "Schedule fw se (cp_sched p) alloc = Some (sched', stacks, None)"
    and srt: "sorts_by_score (se_sort se)" and n: "0 < fa_Replicas alloc"
  shows "stacks = [] \<or> int (length stacks) = fa_Replicas alloc \<and>
    (\<forall>st \<in> set stacks. \<exists>c \<in> K. \<exists>status. placed_on st (convertClusterToSite (c\<lparr>cl_Status := status\<rparr>)) \<and>
       site_allowed (Predicates policy) (fa_Selector alloc) (convertClusterToSite (c\<lparr>cl_Status := status\<rparr>)))"
proof (cases "stacks = []")
  case False
  note sites = cluster_run_sites [OF fw run]
  have "\<exists>c \<in> K. \<exists>status. placed_on st (convertClusterToSite (c\<lparr>cl_Status := status\<rparr>)) \<and>
      site_allowed (Predicates policy) (fa_Selector alloc) (convertClusterToSite (c\<lparr>cl_Status := status\<rparr>))" if st: "st \<in> set stacks" for st
  proof -
    obtain site where site: "site_in (siteCacheInfoSnapshot (cp_sched p)) site" "placed_on st site"
        "site_allowed (Predicates policy) (fa_Selector alloc) site"
      using Schedule_places [OF fw sched sites_from_named [OF sites] srt n False] st by blast
    then show ?thesis using sites_from_site_in [OF sites site(1)] by blast
  qed
  then show ?thesis using Schedule_places [OF fw sched sites_from_named [OF sites] srt n False] by blast
qed simp

theorem stacks_bound_to_clusters_witness:
  "\<exists>sched' stacks. cluster_run run_fw {run_cluster ''n'', run_cluster ''s''} run_events run_process \<and>
     Schedule run_fw run_sched_env (cp_sched run_process) run_request = Some (sched', stacks, None) \<and> length stacks = 2 \<and>
     (\<forall>st \<in> set stacks. \<exists>c \<in> {run_cluster ''n'', run_cluster ''s''}. \<exists>status.
        placed_on st (convertClusterToSite (c\<lparr>cl_Status := status\<rparr>)) \<and>
        site_allowed (Predicates run_policy) (fa_Selector run_request) (convertClusterToSite (c\<lparr>cl_Status := status\<rparr>)))"
proof -
  have p: "cp_sched run_process = run_sched" by (simp add: run_process_def)
  obtain sched' stacks where run: "Schedule run_fw run_sched_env (cp_sched run_process) run_request = Some (sched', stacks, None)" "stacks \<noteq> []"
    using run_Schedule p by metis
  show ?thesis
    using stacks_bound_to_clusters [OF run_build run_reachable run(1) run_named(2)] run run_reachable
    by (intro exI [of _ sched'] exI [of _ stacks]) (simp add: run_request_simps)
qed

end
